(* ===== verification/JS_Prelude.thy ===== *)
theory JS_Prelude
  imports Main "HOL-Library.Multiset" "HOL-Library.Char_ord" "HOL-Library.List_Lexorder"
begin

section \<open>Strings, results and state machines shared by the components\<close>

text \<open>
  The part of the language that every component uses.
  \<^item> A JavaScript string is a HOL \<open>string\<close>, one \<open>char\<close> per code unit. White space and case
    mapping are those of the ASCII range (the identifiers, codes, dates and statuses the
    program compares are ASCII); comparison with \<open><\<close> is the lexicographic comparison by
    code unit, which is the library's order on \<open>string\<close>.
  \<^item> \<open>throw new Error(m)\<close> is the value \<open>Inl m\<close> of \<open>'a js_result\<close>; a normal return is \<open>Inr\<close>.
  \<^item> \<open>null\<close> and \<open>undefined\<close> are \<open>None\<close> where the code does not tell them apart.
  The two locales at the end are the contract of a state machine: a step function that keeps
  an invariant, and a step function with a quantity that never decreases. Every stateful
  component of the development interprets them on its own step function.
\<close>

named_theorems js_string \<open>rewriting of string operations on literals\<close>
named_theorems js_result \<open>rewriting and case rules of results\<close>

subsection \<open>Results\<close>

type_synonym 'a js_result = "string + 'a"

definition throw :: "string \<Rightarrow> 'a js_result" where
  "throw m = Inl m"

definition return :: "'a \<Rightarrow> 'a js_result" where
  "return x = Inr x"

definition bind_result :: "'a js_result \<Rightarrow> ('a \<Rightarrow> 'b js_result) \<Rightarrow> 'b js_result" where
  "bind_result r k = (case r of Inl m \<Rightarrow> Inl m | Inr x \<Rightarrow> k x)"

lemma bind_result_simps [simp]:
  "bind_result (Inl m) k = Inl m"
  "bind_result (Inr x) k = k x"
  by (simp_all add: bind_result_def)

lemma throw_return [simp]: "throw m = Inl m" "return x = Inr x"
  by (simp_all add: throw_def return_def)

lemma bind_result_Inr_iff [js_result]:
  "bind_result r k = Inr y \<longleftrightarrow> (\<exists>x. r = Inr x \<and> k x = Inr y)"
  by (cases r) auto

lemma bind_result_Inl_iff [js_result]:
  "bind_result r k = Inl m \<longleftrightarrow> r = Inl m \<or> (\<exists>x. r = Inr x \<and> k x = Inl m)"
  by (cases r) auto

lemma bind_result_assoc: "bind_result (bind_result r f) g = bind_result r (\<lambda>x. bind_result (f x) g)"
  by (cases r) auto

lemma div_bounds: "0 < (n :: int) \<Longrightarrow> n * (x div n) \<le> x \<and> x \<le> n * (x div n) + (n - 1)"
  using mult_div_mod_eq [of n x] pos_mod_bound [of n x] pos_mod_sign [of n x] by linarith

lemma zdiv_le_self: "0 \<le> a \<Longrightarrow> 0 < b \<Longrightarrow> a div b \<le> (a :: int)"
  by (metis div_by_1 zdiv_mono2 zero_less_one int_one_le_iff_zero_less)

lemma sorted_wrt_concat:
  "sorted_wrt P (concat xss) \<longleftrightarrow>
     list_all (sorted_wrt P) xss \<and> sorted_wrt (\<lambda>xs ys. \<forall>x \<in> set xs. \<forall>y \<in> set ys. P x y) xss"
  by (induction xss) (auto simp: sorted_wrt_append)

lemma sorted_wrt_upto: "sorted_wrt (<) [i..j :: int]"
  by (simp add: strict_sorted_iff)

text \<open>A guard that throws, and a loop over a list that stops at the first throw.\<close>

definition guard_that :: "bool \<Rightarrow> string \<Rightarrow> unit js_result" where
  "guard_that b m = (if b then Inr () else Inl m)"

lemma guard_that_iff [simp]:
  "guard_that b m = Inr u \<longleftrightarrow> b"
  "guard_that b m = Inl m' \<longleftrightarrow> \<not> b \<and> m' = m"
  by (auto simp: guard_that_def)

lemma bind_guard [simp]:
  "bind_result (guard_that b m) k = (if b then k () else Inl m)"
  by (simp add: guard_that_def)

fun map_result :: "('a \<Rightarrow> 'b js_result) \<Rightarrow> 'a list \<Rightarrow> 'b list js_result" where
  "map_result f [] = Inr []"
| "map_result f (x # xs) = bind_result (f x) (\<lambda>y. bind_result (map_result f xs) (\<lambda>ys. Inr (y # ys)))"

lemma map_result_Inr: "(\<And>x. x \<in> set xs \<Longrightarrow> f x = Inr (g x)) \<Longrightarrow> map_result f xs = Inr (map g xs)"
  by (induction xs) auto

lemma map_result_length: "map_result f xs = Inr ys \<Longrightarrow> length ys = length xs"
  by (induction xs arbitrary: ys) (auto simp: js_result)

lemma map_result_nth:
  "map_result f xs = Inr ys \<Longrightarrow> i < length xs \<Longrightarrow> f (xs ! i) = Inr (ys ! i)"
  by (induction xs arbitrary: ys i) (auto simp: js_result nth_Cons split: nat.splits)

lemma map_result_mem:
  "map_result f xs = Inr ys \<Longrightarrow> y \<in> set ys \<Longrightarrow> \<exists>x \<in> set xs. f x = Inr y"
  by (induction xs arbitrary: ys) (auto simp: js_result)

text \<open>What holds of a normal return; an operation built with \<open>bind_result\<close> is taken apart by the rules
  \<open>js_sat\<close>.\<close>

definition satisfies :: "'a js_result \<Rightarrow> ('a \<Rightarrow> bool) \<Rightarrow> bool" where
  "satisfies r P \<longleftrightarrow> (case r of Inl _ \<Rightarrow> True | Inr x \<Rightarrow> P x)"

named_theorems js_sat \<open>introduction rules for \<open>satisfies\<close>\<close>

lemma satisfiesD: "satisfies r P \<Longrightarrow> r = Inr x \<Longrightarrow> P x"
  by (simp add: satisfies_def)

lemma satisfiesI: "(\<And>x. r = Inr x \<Longrightarrow> P x) \<Longrightarrow> satisfies r P"
  by (cases r) (auto simp: satisfies_def)

lemma satisfies_Inl [simp]: "satisfies (Inl m) P"
  by (simp add: satisfies_def)

lemma satisfies_throw [js_sat]: "satisfies (throw m) P"
  by simp

lemma satisfies_Inr [simp]: "satisfies (Inr x) P \<longleftrightarrow> P x"
  by (simp add: satisfies_def)

lemma satisfies_return [js_sat]: "P x \<Longrightarrow> satisfies (return x) P"
  by simp

lemma satisfies_bind [js_sat]:
  "(\<And>x. r = Inr x \<Longrightarrow> satisfies (k x) P) \<Longrightarrow> satisfies (bind_result r k) P"
  by (cases r) auto

lemma satisfies_if [js_sat]:
  "(b \<Longrightarrow> satisfies r P) \<Longrightarrow> (\<not> b \<Longrightarrow> satisfies r' P) \<Longrightarrow> satisfies (if b then r else r') P"
  by simp

lemma satisfies_option [js_sat]:
  "(v = None \<Longrightarrow> satisfies r P) \<Longrightarrow> (\<And>x. v = Some x \<Longrightarrow> satisfies (f x) P) \<Longrightarrow>
     satisfies (case v of None \<Rightarrow> r | Some x \<Rightarrow> f x) P"
  by (cases v) auto

lemma satisfies_pair [js_sat]:
  "(\<And>x y. v = (x, y) \<Longrightarrow> satisfies (f x y) P) \<Longrightarrow> satisfies (case v of (x, y) \<Rightarrow> f x y) P"
  by (cases v) auto

subsection \<open>White space and case\<close>

definition is_space :: "char \<Rightarrow> bool" where
  "is_space c \<longleftrightarrow> (let n = (of_char c :: nat) in n = 32 \<or> (9 \<le> n \<and> n \<le> 13))"

definition trim_start :: "string \<Rightarrow> string" where
  "trim_start s = dropWhile is_space s"

definition trim :: "string \<Rightarrow> string" where
  "trim s = rev (dropWhile is_space (rev (dropWhile is_space s)))"

definition lower_char :: "char \<Rightarrow> char" where
  "lower_char c = (let n = (of_char c :: nat) in
     if 65 \<le> n \<and> n \<le> 90 then char_of (n + 32) else c)"

definition upper_char :: "char \<Rightarrow> char" where
  "upper_char c = (let n = (of_char c :: nat) in
     if 97 \<le> n \<and> n \<le> 122 then char_of (n - 32) else c)"

definition to_lower :: "string \<Rightarrow> string" where
  "to_lower s = map lower_char s"

definition to_upper :: "string \<Rightarrow> string" where
  "to_upper s = map upper_char s"

text \<open>The comparison key used all over the program: \<open>value.trim().toLowerCase()\<close>.\<close>

definition norm_key :: "string \<Rightarrow> string" where
  "norm_key s = to_lower (trim s)"

definition is_digit :: "char \<Rightarrow> bool" where
  "is_digit c \<longleftrightarrow> (let n = (of_char c :: nat) in 48 \<le> n \<and> n \<le> 57)"

definition digit_value :: "char \<Rightarrow> int" where
  "digit_value c = int (of_char c) - 48"

lemma of_char_less_256 [simp]: "(of_char c :: nat) < 256"
  using of_char_mod_256 [of c, where 'a = nat] by (metis mod_less_divisor zero_less_numeral)

lemma lower_char_idem [simp]: "lower_char (lower_char c) = lower_char c"
  by (auto simp: lower_char_def Let_def)

lemma to_lower_idem [simp]: "to_lower (to_lower s) = to_lower s"
  by (simp add: to_lower_def)

lemma length_case [simp]: "length (to_lower s) = length s" "length (to_upper s) = length s"
  by (simp_all add: to_lower_def to_upper_def)

lemma is_space_lower_char [simp]: "is_space (lower_char c) = is_space c"
proof (cases "65 \<le> (of_char c :: nat) \<and> (of_char c :: nat) \<le> 90")
  case True
  then have "(of_char (lower_char c) :: nat) = of_char c + 32"
    by (simp add: lower_char_def Let_def)
  with True show ?thesis by (simp add: is_space_def Let_def)
next
  case False
  then have "lower_char c = c" by (auto simp: lower_char_def Let_def)
  then show ?thesis by simp
qed

lemma trim_ends:
  assumes "trim s \<noteq> []"
  shows "\<not> is_space (hd (trim s))" "\<not> is_space (last (trim s))"
proof -
  let ?t = "dropWhile is_space s"
  have t: "trim s = rev (dropWhile is_space (rev ?t))" by (simp add: trim_def)
  have last: "last (trim s) = hd (dropWhile is_space (rev ?t))"
    using assms by (simp add: t last_rev)
  have "dropWhile is_space (rev ?t) \<noteq> []" using assms by (simp add: t)
  then show "\<not> is_space (last (trim s))" using last by (simp add: hd_dropWhile)
  obtain zs where zs: "rev ?t = zs @ dropWhile is_space (rev ?t)"
    by (metis takeWhile_dropWhile_id)
  then have "?t = trim s @ rev zs" by (metis rev_append rev_rev_ident t)
  then have "hd ?t = hd (trim s)" "?t \<noteq> []" using assms by auto
  then show "\<not> is_space (hd (trim s))" by (metis hd_dropWhile)
qed

lemma trim_fixed:
  assumes "s = [] \<or> \<not> is_space (hd s) \<and> \<not> is_space (last s)"
  shows "trim s = s"
proof (cases "s = []")
  case True
  then show ?thesis by (simp add: trim_def)
next
  case False
  with assms have "dropWhile is_space s = s" by (cases s) auto
  moreover have "dropWhile is_space (rev s) = rev s"
    using False assms by (cases "rev s") (auto simp: last_rev hd_rev [symmetric])
  ultimately show ?thesis by (simp add: trim_def)
qed

lemma trim_idem [simp]: "trim (trim s) = trim s"
  using trim_ends trim_fixed by metis

lemma trim_to_lower: "trim (to_lower s) = to_lower (trim s)"
  by (simp add: trim_def to_lower_def dropWhile_map rev_map comp_def)

lemma norm_key_idem [simp]: "norm_key (norm_key s) = norm_key s"
  by (simp add: norm_key_def trim_to_lower)

lemma norm_key_trim [simp]: "norm_key (trim s) = norm_key s"
  by (simp add: norm_key_def)

lemma trim_empty_iff: "trim s = [] \<longleftrightarrow> (\<forall>c \<in> set s. is_space c)"
  by (auto simp: trim_def dropWhile_eq_Nil_conv dest: set_dropWhileD)
    (metis dropWhile_eq_Nil_conv set_dropWhileD takeWhile_dropWhile_id Un_iff set_append set_takeWhileD)

lemma norm_key_empty_iff: "norm_key s = [] \<longleftrightarrow> trim s = []"
  by (simp add: norm_key_def to_lower_def)

subsection \<open>Optional text\<close>

text \<open>\<open>String(value ?? "").trim() || null\<close> for text or null.\<close>

definition optional_text :: "string option \<Rightarrow> string option" where
  "optional_text v = (let t = trim (case v of None \<Rightarrow> [] | Some s \<Rightarrow> s) in
     if t = [] then None else Some t)"

lemma optional_text_None [simp]: "optional_text None = None"
  by (simp add: optional_text_def trim_def Let_def)

lemma trim_Nil [simp]: "trim [] = []"
  by (simp add: trim_def)

lemma optional_text_SomeD: "optional_text v = Some t \<Longrightarrow> t \<noteq> [] \<and> trim t = t \<and> (\<exists>s. v = Some s \<and> t = trim s)"
  by (auto simp: optional_text_def Let_def split: option.splits if_splits)

lemma optional_text_idem: "optional_text (optional_text v) = optional_text v"
  by (auto simp: optional_text_def Let_def split: option.splits)

subsection \<open>Decimal numerals\<close>

definition digit_char :: "nat \<Rightarrow> char" where
  "digit_char d = char_of (48 + d)"

fun show_nat :: "nat \<Rightarrow> string" where
  "show_nat n = (if n < 10 then [digit_char n] else show_nat (n div 10) @ [digit_char (n mod 10)])"

declare show_nat.simps [simp del]

definition show_int :: "int \<Rightarrow> string" where
  "show_int i = (if i < 0 then CHR ''-'' # show_nat (nat (- i)) else show_nat (nat i))"

definition pad_start :: "nat \<Rightarrow> char \<Rightarrow> string \<Rightarrow> string" where
  "pad_start n c s = replicate (n - length s) c @ s"

definition read_nat :: "string \<Rightarrow> int" where
  "read_nat s = foldl (\<lambda>acc c. 10 * acc + digit_value c) 0 s"

lemma of_char_digit_char: "d < 10 \<Longrightarrow> (of_char (digit_char d) :: nat) = 48 + d"
  by (simp add: digit_char_def)

lemma digit_char_digit [simp]: "d < 10 \<Longrightarrow> is_digit (digit_char d)"
  by (simp add: is_digit_def of_char_digit_char)

lemma digit_value_digit_char [simp]: "d < 10 \<Longrightarrow> digit_value (digit_char d) = int d"
  by (simp add: digit_value_def of_char_digit_char)

lemma show_nat_nonempty [simp]: "show_nat n \<noteq> []"
  by (subst show_nat.simps) simp

lemma show_nat_digits: "c \<in> set (show_nat n) \<Longrightarrow> is_digit c"
proof (induction n rule: show_nat.induct)
  case (1 n)
  then show ?case by (subst (asm) show_nat.simps) (auto split: if_splits)
qed

lemma read_nat_snoc [simp]: "read_nat (s @ [c]) = 10 * read_nat s + digit_value c"
  by (simp add: read_nat_def)

lemma read_show_nat [simp]: "read_nat (show_nat n) = int n"
proof (induction n rule: show_nat.induct)
  case (1 n)
  then show ?case
  proof (cases "n < 10")
    case True
    then show ?thesis by (subst show_nat.simps) (simp add: read_nat_def)
  next
    case False
    moreover have "10 * int (n div 10) + int (n mod 10) = int n"
      by (metis mult_div_mod_eq of_nat_add of_nat_mult of_nat_numeral)
    ultimately show ?thesis using "1" by (subst show_nat.simps) (simp del: of_nat_mod zmod_int zdiv_int)
  qed
qed

lemma show_nat_inj: "show_nat m = show_nat n \<longleftrightarrow> m = n"
  by (metis read_show_nat of_nat_eq_iff)

lemma read_nat_zero_prefix: "read_nat (replicate k (CHR ''0'') @ s) = read_nat s"
  by (induction k) (simp_all add: read_nat_def digit_value_def)

lemma read_pad_start: "read_nat (pad_start k (CHR ''0'') s) = read_nat s"
  by (simp add: pad_start_def read_nat_zero_prefix)

lemma length_show_nat_le: "n < 10 ^ k \<Longrightarrow> 0 < k \<Longrightarrow> length (show_nat n) \<le> k"
proof (induction k arbitrary: n)
  case 0
  then show ?case by simp
next
  case (Suc k)
  show ?case
  proof (cases "n < 10")
    case True
    then show ?thesis by (subst show_nat.simps) simp
  next
    case False
    with Suc.prems have "0 < k" by (cases k) auto
    moreover from Suc.prems(1) have "n div 10 < 10 ^ k" by (simp add: less_mult_imp_div_less mult.commute)
    ultimately have "length (show_nat (n div 10)) \<le> k" using Suc.IH by simp
    with False show ?thesis by (subst show_nat.simps) simp
  qed
qed

lemma length_pad_start: "length s \<le> n \<Longrightarrow> length (pad_start n c s) = n"
  by (simp add: pad_start_def)

subsection \<open>Lists\<close>

text \<open>\<open>[...xs].sort(by key)\<close> is stable: the library's \<open>sort_key\<close>.\<close>

lemma sort_key_mem [simp]: "x \<in> set (sort_key f xs) \<longleftrightarrow> x \<in> set xs"
  by simp

definition starts_with :: "string \<Rightarrow> string \<Rightarrow> bool" where
  "starts_with p s \<longleftrightarrow> take (length p) s = p"

definition slice :: "nat \<Rightarrow> nat \<Rightarrow> 'a list \<Rightarrow> 'a list" where
  "slice a b s = drop a (take b s)"

fun join :: "string \<Rightarrow> string list \<Rightarrow> string" where
  "join sep [] = []"
| "join sep [x] = x"
| "join sep (x # y # ys) = x @ sep @ join sep (y # ys)"

text \<open>A \<open>Map\<close> as a list of entries in insertion order: \<open>set\<close> keeps the place of a key it has.\<close>

fun put :: "'k \<Rightarrow> 'v \<Rightarrow> ('k \<times> 'v) list \<Rightarrow> ('k \<times> 'v) list" where
  "put k v [] = [(k, v)]"
| "put k v ((k', v') # m) = (if k = k' then (k, v) # m else (k', v') # put k v m)"

lemma map_of_put: "map_of (put k v m) = (map_of m)(k \<mapsto> v)"
  by (induction m) (auto simp: fun_eq_iff)

lemma keys_put: "map fst (put k v m) = (if k \<in> set (map fst m) then map fst m else map fst m @ [k])"
  by (induction m) (auto simp: image_iff, force)

lemma distinct_put: "distinct (map fst m) \<Longrightarrow> distinct (map fst (put k v m))"
  by (simp add: keys_put)

lemma set_put_subset: "set (put k v m) \<subseteq> insert (k, v) (set m)"
  by (induction m) (auto split: if_splits)

lemma put_fresh: "k \<notin> set (map fst m) \<Longrightarrow> put k v m = m @ [(k, v)]"
  by (induction m) auto

lemma set_put: "distinct (map fst m) \<Longrightarrow> set (put k v m) = insert (k, v) {p \<in> set m. fst p \<noteq> k}"
proof (induction m)
  case (Cons p m)
  obtain k' v' where p: "p = (k', v')" by force
  then have "k' \<notin> fst ` set m" using Cons.prems by simp
  then have "{q \<in> set m. fst q \<noteq> k'} = set m" by force
  then show ?case using Cons p by auto
qed simp

subsection \<open>Sorting with a comparator\<close>

text \<open>\<open>xs.sort(compare)\<close>, stable: an element goes before the first one it compares below zero to,
  read from the end of the list. For a comparator that is a total preorder every stable sort
  gives this list.\<close>

fun insert_by :: "('a \<Rightarrow> 'a \<Rightarrow> int) \<Rightarrow> 'a \<Rightarrow> 'a list \<Rightarrow> 'a list" where
  "insert_by cmp x [] = [x]"
| "insert_by cmp x (y # ys) = (if cmp y x < 0 then y # insert_by cmp x ys else x # y # ys)"

definition sort_by :: "('a \<Rightarrow> 'a \<Rightarrow> int) \<Rightarrow> 'a list \<Rightarrow> 'a list" where
  "sort_by cmp xs = foldr (insert_by cmp) xs []"

lemma sort_by_Nil [simp]: "sort_by cmp [] = []"
  by (simp add: sort_by_def)

lemma sort_by_Cons [simp]: "sort_by cmp (x # xs) = insert_by cmp x (sort_by cmp xs)"
  by (simp add: sort_by_def)

lemma set_insert_by [simp]: "set (insert_by cmp x ys) = insert x (set ys)"
  by (induction ys) auto

lemma set_sort_by [simp]: "set (sort_by cmp xs) = set xs"
  by (induction xs) simp_all

lemma mset_insert_by [simp]: "mset (insert_by cmp x ys) = add_mset x (mset ys)"
  by (induction ys) auto

lemma mset_sort_by [simp]: "mset (sort_by cmp xs) = mset xs"
  by (induction xs) simp_all

lemma length_insert_by [simp]: "length (insert_by cmp x ys) = Suc (length ys)"
  by (induction ys) auto

lemma length_sort_by [simp]: "length (sort_by cmp xs) = length xs"
  by (induction xs) simp_all

lemma distinct_insert_by: "distinct (insert_by cmp x ys) \<longleftrightarrow> distinct (x # ys)"
  by (induction ys) auto

lemma distinct_sort_by [simp]: "distinct (sort_by cmp xs) \<longleftrightarrow> distinct xs"
  by (induction xs) (simp_all add: distinct_insert_by)

text \<open>The contract of a comparator: a total preorder in the sign convention of the language.\<close>

locale comparator =
  fixes cmp :: "'a \<Rightarrow> 'a \<Rightarrow> int"
  assumes cmp_anti: "cmp x y < 0 \<Longrightarrow> \<not> cmp y x < 0"
    and cmp_trans: "\<not> cmp y x < 0 \<Longrightarrow> \<not> cmp z y < 0 \<Longrightarrow> \<not> cmp z x < 0"
begin

lemma sorted_insert_by:
  assumes "sorted_wrt (\<lambda>a b. \<not> cmp b a < 0) ys"
  shows "sorted_wrt (\<lambda>a b. \<not> cmp b a < 0) (insert_by cmp x ys)"
  using assms by (induction ys) (auto dest: cmp_anti cmp_trans)

lemma sorted_sort_by: "sorted_wrt (\<lambda>a b. \<not> cmp b a < 0) (sort_by cmp xs)"
  by (induction xs) (simp_all add: sorted_insert_by)

lemma sort_by_first:
  assumes "sort_by cmp xs = y # ys" "x \<in> set xs"
  shows "\<not> cmp x y < 0"
proof -
  have "x \<in> set (y # ys)" using assms set_sort_by [of cmp xs] by simp
  moreover have "\<not> cmp y y < 0" using cmp_anti by blast
  ultimately show ?thesis using sorted_sort_by [of xs] by (auto simp: assms(1))
qed

end

subsection \<open>State machines\<close>

text \<open>
  The contract of a component that handles a sequence of actions: its step function keeps
  an invariant. The client, here every property of a whole session, is proved once.
\<close>

fun run_steps :: "('s \<Rightarrow> 'a \<Rightarrow> 's) \<Rightarrow> 's \<Rightarrow> 'a list \<Rightarrow> 's" where
  "run_steps f s [] = s"
| "run_steps f s (a # as) = run_steps f (f s a) as"

lemma run_steps_append: "run_steps f s (as @ bs) = run_steps f (run_steps f s as) bs"
  by (induction as arbitrary: s) auto

locale invariant_machine =
  fixes stp :: "'s \<Rightarrow> 'a \<Rightarrow> 's" and inv :: "'s \<Rightarrow> bool"
  assumes step_inv: "inv s \<Longrightarrow> inv (stp s a)"
begin

lemma run_inv: "inv s \<Longrightarrow> inv (run_steps stp s as)"
  by (induction as arbitrary: s) (auto intro: step_inv)

lemma run_prefix_inv: "inv s \<Longrightarrow> inv (run_steps stp s (take n as))"
  by (rule run_inv)

end

locale monotone_machine = invariant_machine +
  fixes progress :: "'s \<Rightarrow> 'n :: preorder"
  assumes step_mono: "inv s \<Longrightarrow> progress s \<le> progress (stp s a)"
begin

lemma run_mono: "inv s \<Longrightarrow> progress s \<le> progress (run_steps stp s as)"
proof (induction as arbitrary: s)
  case Nil
  then show ?case by simp
next
  case (Cons a as)
  have "progress s \<le> progress (stp s a)" using Cons.prems by (rule step_mono)
  also have "\<dots> \<le> progress (run_steps stp (stp s a) as)"
    by (rule Cons.IH [OF step_inv [OF Cons.prems]])
  finally show ?case by simp
qed

lemma run_mono_split: "inv s \<Longrightarrow> progress (run_steps stp s as) \<le> progress (run_steps stp s (as @ bs))"
  by (simp add: run_steps_append run_inv run_mono)

end

end
