(* ===== verification/JS_Number.thy ===== *)
theory JS_Number
  imports Complex_Main "HOL-Library.Log_Nat" JS_Prelude
begin

section \<open>JavaScript numbers\<close>

text \<open>
  A JavaScript number is an IEEE 754 binary64 value. A finite one is a rational here, and an
  operation computes the exact result and rounds it to the nearest binary64 value, ties to
  even, with 53 bits of significand, gradual underflow at \<open>2 powi (-1074)\<close> and overflow to an
  infinity from \<open>2 ^ 1024\<close> on. The two zeros are one value (the code divides by a number
  only after a check that it is positive, the one place where their sign could be seen).
  Comparison with \<open>NaN\<close> is false; \<open>Math.round\<close>, \<open>Math.floor\<close> and \<open>Math.ceil\<close> are exact.
  The lemmas: rounding is monotone, keeps the sign and is the identity on integers up to
  \<open>2 ^ 53\<close>; so integer arithmetic in that range is exact.
\<close>

datatype jsnum = Fin rat | PosInf | NegInf | NaN

named_theorems js_num \<open>evaluation of number operations\<close>

subsection \<open>Rounding to binary64\<close>

definition floor_log2 :: "rat \<Rightarrow> int" where
  "floor_log2 x = (let (a, b) = quotient_of x; k = bitlen a - bitlen b
     in if 2 powi k \<le> x then k else k - 1)"

definition round_even :: "rat \<Rightarrow> int" where
  "round_even r = (let f = \<lfloor>r\<rfloor>; d = r - of_int f
     in if d < 1/2 then f else if 1/2 < d then f + 1 else if even f then f else f + 1)"

definition ulp_exp :: "rat \<Rightarrow> int" where
  "ulp_exp x = max (- 1074) (floor_log2 x - 52)"

definition round_pos :: "rat \<Rightarrow> rat" where
  "round_pos x = of_int (round_even (x / 2 powi ulp_exp x)) * 2 powi ulp_exp x"

definition fl_rat :: "rat \<Rightarrow> rat" where
  "fl_rat x = (if x = 0 then 0 else if 0 < x then round_pos x else - round_pos (- x))"

definition overflow_bound :: rat where
  "overflow_bound = 2 ^ 1024"

definition fl :: "rat \<Rightarrow> jsnum" where
  "fl x = (let y = fl_rat x in
     if overflow_bound \<le> y then PosInf else if y \<le> - overflow_bound then NegInf else Fin y)"

text \<open>The numeral, for evaluation.\<close>

lemma overflow_bound_code [code]:
  "overflow_bound = 179769313486231590772930519078902473361797697894230657273430081157732675805500963132708477322407536021120113879871393357658789768814416622492847430639474124377767893424865485276302219601246094119453082952085005768838150682342462881473913110540827237163350510684586298239947245938479716304835356329624224137216"
  by (simp add: overflow_bound_def)

lemma overflow_bound_large: "(2 ^ 53 :: rat) < overflow_bound"
  unfolding overflow_bound_def by (rule power_strict_increasing) auto

lemma overflow_bound_pos [simp]: "0 < overflow_bound"
  by (simp add: overflow_bound_def)

lemma floor_log2_bounds:
  assumes "0 < x"
  shows "2 powi floor_log2 x \<le> x" "x < 2 powi (floor_log2 x + 1)"
proof -
  obtain a b where q: "quotient_of x = (a, b)" by (cases "quotient_of x")
  have b: "0 < b" using quotient_of_denom_pos [OF q] .
  have x: "x = of_int a / of_int b" using quotient_of_div [OF q] .
  have a: "0 < a" using assms b by (simp add: x zero_less_divide_iff)
  let ?p = "bitlen a" and ?q = "bitlen b"
  have pq: "0 < ?p" "0 < ?q" using a b
    by (metis bitlen_eq_zero_iff bitlen_nonneg less_eq_real_def not_less order_le_less)+
  have pow: "(of_int (2 ^ nat i) :: rat) = 2 powi i" if "0 \<le> i" for i
    using that by (simp add: power_int_def)
  have al: "(2 powi (?p - 1) :: rat) \<le> of_int a" and au: "(of_int a :: rat) < 2 powi ?p"
    using bitlen_bounds [OF a] pq pow [of "?p - 1"] pow [of ?p]
    by (metis diff_ge_0_iff_ge of_int_le_iff zless_imp_add1_zle add_0 int_one_le_iff_zero_less)
      (metis bitlen_bounds a of_int_less_iff order_less_imp_le pow pq(1))
  have bl: "(2 powi (?q - 1) :: rat) \<le> of_int b" and bu: "(of_int b :: rat) < 2 powi ?q"
    using bitlen_bounds [OF b] pq pow [of "?q - 1"] pow [of ?q]
    by (metis diff_ge_0_iff_ge of_int_le_iff zless_imp_add1_zle add_0 int_one_le_iff_zero_less)
      (metis bitlen_bounds b of_int_less_iff order_less_imp_le pow pq(2))
  let ?k = "?p - ?q"
  have b': "(0 :: rat) < of_int b" using b by simp
  have two: "(0::rat) < 2 powi i" for i by simp
  have hi: "x < 2 powi (?k + 1)"
  proof -
    have "(of_int a :: rat) < 2 powi ?p" by (rule au)
    also have "\<dots> = 2 powi (?k + 1) * 2 powi (?q - 1)"
      by (simp add: power_int_add [symmetric])
    also have "\<dots> \<le> 2 powi (?k + 1) * of_int b"
      using bl by (rule mult_left_mono) simp
    finally show ?thesis using b' by (simp add: x pos_divide_less_eq)
  qed
  have lo: "2 powi (?k - 1) \<le> x"
  proof -
    have "(2 powi (?k - 1) :: rat) * of_int b \<le> 2 powi (?k - 1) * 2 powi ?q"
      using bu by (intro mult_left_mono) auto
    also have "\<dots> = 2 powi (?p - 1)" by (simp add: power_int_add [symmetric])
    also have "\<dots> \<le> of_int a" by (rule al)
    finally show ?thesis using b' by (simp add: x pos_le_divide_eq)
  qed
  show "2 powi floor_log2 x \<le> x" "x < 2 powi (floor_log2 x + 1)"
    using hi lo by (auto simp: floor_log2_def q Let_def)
qed

lemma round_even_mono: "r \<le> s \<Longrightarrow> round_even r \<le> round_even s"
proof -
  assume rs: "r \<le> s"
  have fl: "\<lfloor>r\<rfloor> \<le> \<lfloor>s\<rfloor>" using rs by (rule floor_mono)
  have bounds: "\<lfloor>t\<rfloor> \<le> round_even t" "round_even t \<le> \<lfloor>t\<rfloor> + 1" for t
    by (auto simp: round_even_def Let_def)
  show ?thesis
  proof (cases "\<lfloor>r\<rfloor> = \<lfloor>s\<rfloor>")
    case True
    then show ?thesis using rs by (auto simp: round_even_def Let_def)
  next
    case False
    with fl have "\<lfloor>r\<rfloor> + 1 \<le> \<lfloor>s\<rfloor>" by simp
    then show ?thesis using bounds [of r] bounds [of s] by linarith
  qed
qed

lemma round_even_of_int [simp]: "round_even (of_int i) = i"
  by (simp add: round_even_def)

lemma round_even_nonneg: "0 \<le> r \<Longrightarrow> 0 \<le> round_even r"
  using round_even_mono [of 0 r] round_even_of_int [of 0] by simp

lemma power_int_as_int:
  fixes m e :: int
  assumes "e \<le> m"
  shows "(2 powi m :: rat) / 2 powi e = of_int (2 ^ nat (m - e))"
proof -
  have "(2 powi m :: rat) / 2 powi e = 2 powi (m - e)" by (simp add: power_int_diff)
  also have "\<dots> = of_int (2 ^ nat (m - e))" using assms by (simp add: power_int_def)
  finally show ?thesis .
qed

lemma round_pos_nonneg: "0 \<le> x \<Longrightarrow> 0 \<le> round_pos x"
  by (simp add: round_pos_def round_even_nonneg)

text \<open>Rounding respects every power of two at or above the unit in the last place.\<close>

lemma round_at_le_power:
  assumes "e \<le> m" "x \<le> 2 powi m"
  shows "of_int (round_even (x / 2 powi e)) * 2 powi e \<le> (2 powi m :: rat)"
proof -
  have "x / 2 powi e \<le> 2 powi m / 2 powi e"
    using assms(2) by (simp add: divide_right_mono)
  then have "round_even (x / 2 powi e) \<le> 2 ^ nat (m - e)"
    using round_even_mono [of "x / 2 powi e" "of_int (2 ^ nat (m - e))"]
    by (simp only: power_int_as_int [OF assms(1)] round_even_of_int)
  then have "(of_int (round_even (x / 2 powi e)) :: rat) \<le> of_int (2 ^ nat (m - e))"
    by (simp only: of_int_le_iff)
  then have "of_int (round_even (x / 2 powi e)) * 2 powi e \<le> (of_int (2 ^ nat (m - e)) * 2 powi e :: rat)"
    by (rule mult_right_mono) simp
  also have "\<dots> = 2 powi m"
    using power_int_as_int [OF assms(1)] by (simp add: field_simps)
  finally show ?thesis .
qed

lemma round_at_ge_power:
  assumes "e \<le> m" "2 powi m \<le> x"
  shows "(2 powi m :: rat) \<le> of_int (round_even (x / 2 powi e)) * 2 powi e"
proof -
  have "2 powi m / 2 powi e \<le> x / 2 powi e"
    using assms(2) by (simp add: divide_right_mono)
  then have "2 ^ nat (m - e) \<le> round_even (x / 2 powi e)"
    using round_even_mono [of "of_int (2 ^ nat (m - e))" "x / 2 powi e"]
    by (simp only: power_int_as_int [OF assms(1)] round_even_of_int)
  then have "(of_int (2 ^ nat (m - e)) :: rat) \<le> of_int (round_even (x / 2 powi e))"
    by (simp only: of_int_le_iff)
  then have "(of_int (2 ^ nat (m - e)) * 2 powi e :: rat) \<le> of_int (round_even (x / 2 powi e)) * 2 powi e"
    by (rule mult_right_mono) simp
  moreover have "(of_int (2 ^ nat (m - e)) * 2 powi e :: rat) = 2 powi m"
    using power_int_as_int [OF assms(1)] by (simp add: field_simps)
  ultimately show ?thesis by (simp only:)
qed

lemma floor_log2_mono:
  assumes "0 < x" "x \<le> y"
  shows "floor_log2 x \<le> floor_log2 y"
proof (rule ccontr)
  assume "\<not> ?thesis"
  then have "floor_log2 y + 1 \<le> floor_log2 x" by simp
  then have "(2 powi (floor_log2 y + 1) :: rat) \<le> 2 powi floor_log2 x"
    by (rule power_int_increasing) simp
  with floor_log2_bounds(2) [of y] floor_log2_bounds(1) [of x] assms show False by simp
qed

lemma round_pos_mono:
  assumes x: "0 < x" and xy: "x \<le> y"
  shows "round_pos x \<le> round_pos y"
proof -
  have "ulp_exp x \<le> ulp_exp y" using floor_log2_mono [OF assms] by (simp add: ulp_exp_def)
  then consider "ulp_exp x = ulp_exp y" | "ulp_exp x < ulp_exp y" by linarith
  then show ?thesis
  proof cases
    case 1
    have "round_even (x / 2 powi ulp_exp y) \<le> round_even (y / 2 powi ulp_exp y)"
      using xy by (intro round_even_mono divide_right_mono) auto
    then show ?thesis by (simp add: round_pos_def 1)
  next
    case 2
    let ?m = "floor_log2 y"
    have "- 1074 < ulp_exp y" using 2 by (simp add: ulp_exp_def)
    then have ey: "ulp_exp y = ?m - 52" by (simp add: ulp_exp_def)
    have lx: "floor_log2 x + 1 \<le> ?m" and ex: "ulp_exp x \<le> ?m" using 2 ey by (simp_all add: ulp_exp_def)
    have "x \<le> 2 powi (floor_log2 x + 1)" using floor_log2_bounds(2) [OF x] by simp
    also have "\<dots> \<le> 2 powi ?m" using lx by (rule power_int_increasing) simp
    finally have "round_pos x \<le> 2 powi ?m"
      unfolding round_pos_def by (rule round_at_le_power [OF ex])
    also have "\<dots> \<le> round_pos y"
      unfolding round_pos_def using floor_log2_bounds(1) [of y] x xy ey
      by (intro round_at_ge_power) auto
    finally show ?thesis .
  qed
qed

lemma fl_rat_0 [simp]: "fl_rat 0 = 0"
  by (simp add: fl_rat_def)

lemma fl_rat_minus [simp]: "fl_rat (- x) = - fl_rat x"
  by (simp add: fl_rat_def)

lemma fl_rat_nonneg: "0 \<le> x \<Longrightarrow> 0 \<le> fl_rat x"
  by (simp add: fl_rat_def round_pos_nonneg)

lemma fl_rat_nonpos: "x \<le> 0 \<Longrightarrow> fl_rat x \<le> 0"
  using fl_rat_nonneg [of "- x"] by simp

lemma fl_rat_mono:
  assumes "x \<le> y"
  shows "fl_rat x \<le> fl_rat y"
proof -
  consider "0 < x" | "x \<le> 0" "0 \<le> y" | "y < 0" by linarith
  then show ?thesis
  proof cases
    case 1
    then show ?thesis using round_pos_mono [OF 1 assms] assms by (simp add: fl_rat_def)
  next
    case 2
    then show ?thesis using fl_rat_nonpos [of x] fl_rat_nonneg [of y] by linarith
  next
    case 3
    then show ?thesis using round_pos_mono [of "- y" "- x"] assms by (simp add: fl_rat_def)
  qed
qed

lemma fl_rat_pos_int:
  assumes "0 < n" "n \<le> 2 ^ 53"
  shows "fl_rat (of_int n) = of_int n"
proof -
  let ?x = "of_int n :: rat"
  have x: "0 < ?x" using assms by simp
  have l0: "0 \<le> floor_log2 ?x"
  proof (rule ccontr)
    assume "\<not> ?thesis"
    then have "(2 powi (floor_log2 ?x + 1) :: rat) \<le> 2 powi 0" by (intro power_int_increasing) auto
    with floor_log2_bounds(2) [OF x] have "?x < 1" by simp
    then show False using assms by simp
  qed
  show ?thesis
  proof (cases "n = 2 ^ 53")
    case True
    have "(2 :: rat) powi 53 = of_int (2 ^ 53)" by (simp add: power_int_def)
    then have x53: "?x = 2 powi 53" by (simp only: True)
    have e: "ulp_exp ?x \<le> 53"
    proof -
      have "floor_log2 ?x < 54"
      proof (rule ccontr)
        assume "\<not> ?thesis"
        then have "(2 powi 54 :: rat) \<le> 2 powi floor_log2 ?x" by (intro power_int_increasing) auto
        with floor_log2_bounds(1) [OF x] x53 have "(2 powi 54 :: rat) \<le> 2 powi 53" by simp
        then show False by (simp add: power_int_def)
      qed
      then show ?thesis by (simp add: ulp_exp_def)
    qed
    have "round_pos ?x \<le> ?x" unfolding round_pos_def
      using round_at_le_power [OF e, of ?x] x53 by simp
    moreover have "?x \<le> round_pos ?x" unfolding round_pos_def
      using round_at_ge_power [OF e, of ?x] x53 by simp
    ultimately show ?thesis using x by (simp add: fl_rat_def)
  next
    case False
    with assms have lt: "n < 2 ^ 53" by simp
    have "floor_log2 ?x < 53"
    proof (rule ccontr)
      assume "\<not> ?thesis"
      then have "(2 powi 53 :: rat) \<le> 2 powi floor_log2 ?x" by (intro power_int_increasing) auto
      with floor_log2_bounds(1) [OF x] have "(2 powi 53 :: rat) \<le> ?x" by simp
      then have "(of_int (2 ^ 53) :: rat) \<le> of_int n" by (simp add: power_int_def)
      with lt show False by (simp only: of_int_le_iff)
    qed
    then have e: "ulp_exp ?x \<le> 0" by (simp add: ulp_exp_def)
    let ?u = "2 powi ulp_exp ?x :: rat" and ?k = "2 ^ nat (- ulp_exp ?x) :: int"
    have u: "of_int ?k * ?u = 1"
      using power_int_as_int [OF e] by (simp add: divide_eq_eq)
    then have "?x / ?u = of_int (n * ?k)" by (simp add: divide_eq_eq mult.assoc)
    then have "round_even (?x / ?u) = n * ?k" by (simp only: round_even_of_int)
    then have "round_pos ?x = of_int n * (of_int ?k * ?u)"
      by (simp only: round_pos_def of_int_mult mult.assoc)
    also have "\<dots> = of_int n" using u by (simp only: mult_1_right)
    finally show ?thesis using x by (simp add: fl_rat_def)
  qed
qed

lemma fl_rat_of_int:
  assumes "\<bar>n\<bar> \<le> 2 ^ 53"
  shows "fl_rat (of_int n) = of_int n"
proof -
  consider "0 < n" | "n = 0" | "0 < - n" by linarith
  then show ?thesis
  proof cases
    case 3
    with assms have "fl_rat (of_int (- n)) = of_int (- n)" by (intro fl_rat_pos_int) auto
    then show ?thesis by simp
  qed (use assms in \<open>auto intro: fl_rat_pos_int\<close>)
qed


lemma fl_rat_dyadic:
  assumes "0 < n" "n < 2 ^ 53" "- 1074 \<le> e"
  shows "fl_rat (of_int n * 2 powi e) = of_int n * 2 powi e"
proof -
  let ?x = "of_int n * 2 powi e :: rat"
  have x: "0 < ?x" using assms by simp
  have "(of_int n :: rat) < of_int (2 ^ 53)" using assms by (simp only: of_int_less_iff)
  then have n: "(of_int n :: rat) < 2 powi 53" by (simp add: power_int_def)
  have "floor_log2 ?x < 53 + e"
  proof (rule ccontr)
    assume "\<not> ?thesis"
    then have "(2 powi (53 + e) :: rat) \<le> 2 powi floor_log2 ?x" by (intro power_int_increasing) auto
    also have "\<dots> \<le> ?x" by (rule floor_log2_bounds [OF x])
    also have "\<dots> < 2 powi 53 * 2 powi e" using n by (intro mult_strict_right_mono) auto
    finally show False by (simp add: power_int_add)
  qed
  then have e: "ulp_exp ?x \<le> e" using assms(3) by (simp add: ulp_exp_def)
  let ?u = "2 powi ulp_exp ?x :: rat"
  have q: "?x / ?u = of_int (n * 2 ^ nat (e - ulp_exp ?x))"
    using power_int_as_int [OF e] by (simp add: field_simps)
  then have "round_even (?x / ?u) = n * 2 ^ nat (e - ulp_exp ?x)" by (simp only: round_even_of_int)
  then have "round_pos ?x = ?x / ?u * ?u" by (simp only: round_pos_def q)
  then show ?thesis using x by (simp add: fl_rat_def)
qed


subsection \<open>Operations\<close>

abbreviation num_int :: "int \<Rightarrow> jsnum" where
  "num_int i \<equiv> Fin (of_int i)"

fun num_neg :: "jsnum \<Rightarrow> jsnum" where
  "num_neg (Fin x) = Fin (- x)"
| "num_neg PosInf = NegInf"
| "num_neg NegInf = PosInf"
| "num_neg NaN = NaN"

fun num_add :: "jsnum \<Rightarrow> jsnum \<Rightarrow> jsnum" where
  "num_add NaN _ = NaN"
| "num_add _ NaN = NaN"
| "num_add (Fin x) (Fin y) = fl (x + y)"
| "num_add (Fin _) b = b"
| "num_add a (Fin _) = a"
| "num_add PosInf PosInf = PosInf"
| "num_add NegInf NegInf = NegInf"
| "num_add _ _ = NaN"

definition num_sub :: "jsnum \<Rightarrow> jsnum \<Rightarrow> jsnum" where
  "num_sub a b = num_add a (num_neg b)"

definition inf_signed :: "rat \<Rightarrow> jsnum" where
  "inf_signed s = (if 0 < s then PosInf else if s < 0 then NegInf else NaN)"

fun num_sign :: "jsnum \<Rightarrow> rat" where
  "num_sign (Fin x) = sgn x"
| "num_sign PosInf = 1"
| "num_sign NegInf = - 1"
| "num_sign NaN = 0"

fun num_mul :: "jsnum \<Rightarrow> jsnum \<Rightarrow> jsnum" where
  "num_mul NaN _ = NaN"
| "num_mul _ NaN = NaN"
| "num_mul (Fin x) (Fin y) = fl (x * y)"
| "num_mul a b = inf_signed (num_sign a * num_sign b)"

fun num_div :: "jsnum \<Rightarrow> jsnum \<Rightarrow> jsnum" where
  "num_div NaN _ = NaN"
| "num_div _ NaN = NaN"
| "num_div (Fin x) (Fin y) = (if y = 0 then inf_signed x else fl (x / y))"
| "num_div (Fin _) _ = Fin 0"
| "num_div a (Fin y) = (if y < 0 then num_neg a else a)"
| "num_div _ _ = NaN"

fun num_le :: "jsnum \<Rightarrow> jsnum \<Rightarrow> bool" where
  "num_le NaN _ = False"
| "num_le _ NaN = False"
| "num_le (Fin x) (Fin y) = (x \<le> y)"
| "num_le NegInf _ = True"
| "num_le _ PosInf = True"
| "num_le _ _ = False"

definition num_lt :: "jsnum \<Rightarrow> jsnum \<Rightarrow> bool" where
  "num_lt a b = (num_le a b \<and> \<not> num_le b a)"

definition num_eq :: "jsnum \<Rightarrow> jsnum \<Rightarrow> bool" where
  "num_eq a b = (num_le a b \<and> num_le b a)"

text \<open>\<open>Math.max\<close> and \<open>Math.min\<close> of two arguments: \<open>NaN\<close> if one of them is.\<close>

definition num_max :: "jsnum \<Rightarrow> jsnum \<Rightarrow> jsnum" where
  "num_max a b = (if a = NaN \<or> b = NaN then NaN else if num_le a b then b else a)"

definition num_min :: "jsnum \<Rightarrow> jsnum \<Rightarrow> jsnum" where
  "num_min a b = (if a = NaN \<or> b = NaN then NaN else if num_le a b then a else b)"

fun num_floor :: "jsnum \<Rightarrow> jsnum" where
  "num_floor (Fin x) = num_int \<lfloor>x\<rfloor>"
| "num_floor a = a"

fun num_ceil :: "jsnum \<Rightarrow> jsnum" where
  "num_ceil (Fin x) = num_int \<lceil>x\<rceil>"
| "num_ceil a = a"

text \<open>\<open>Math.round\<close>: the nearest integer, halves up.\<close>

fun num_round :: "jsnum \<Rightarrow> jsnum" where
  "num_round (Fin x) = num_int \<lfloor>x + 1/2\<rfloor>"
| "num_round a = a"

fun is_finite :: "jsnum \<Rightarrow> bool" where
  "is_finite (Fin _) = True"
| "is_finite _ = False"

fun is_integer :: "jsnum \<Rightarrow> bool" where
  "is_integer (Fin x) = (of_int \<lfloor>x\<rfloor> = x)"
| "is_integer _ = False"

text \<open>\<open>Number.isSafeInteger\<close>: an integer of absolute value at most \<open>2 ^ 53 - 1\<close>.\<close>

fun is_safe_integer :: "jsnum \<Rightarrow> bool" where
  "is_safe_integer (Fin x) = (of_int \<lfloor>x\<rfloor> = x \<and> \<bar>x\<bar> \<le> 2 ^ 53 - 1)"
| "is_safe_integer _ = False"

text \<open>A number as a condition: \<open>0\<close> and \<open>NaN\<close> are false.\<close>

definition truthy :: "jsnum \<Rightarrow> bool" where
  "truthy a \<longleftrightarrow> a \<noteq> Fin 0 \<and> a \<noteq> NaN"

subsection \<open>Laws\<close>

lemma fl_of_int:
  assumes "\<bar>n\<bar> \<le> 2 ^ 53"
  shows "fl (of_int n) = num_int n"
proof -
  have "n \<le> 2 ^ 53" "- (2 ^ 53) \<le> n" using assms by auto
  then have "(of_int n :: rat) \<le> of_int (2 ^ 53)" "(of_int (- (2 ^ 53)) :: rat) \<le> of_int n"
    by (simp_all only: of_int_le_iff)
  then have "(of_int n :: rat) < overflow_bound" "- overflow_bound < (of_int n :: rat)"
    using overflow_bound_large by simp_all
  then show ?thesis by (simp add: fl_def fl_rat_of_int [OF assms] Let_def)
qed

text \<open>Integer literals in range, for the simplifier.\<close>

lemma fl_numeral [simp]: "(numeral w :: int) \<le> 2 ^ 53 \<Longrightarrow> fl (numeral w) = Fin (numeral w)"
  using fl_of_int [of "numeral w"] by simp

lemma fl_1 [simp]: "fl 1 = Fin 1"
  using fl_of_int [of 1] by simp

lemma fl_0 [simp]: "fl 0 = Fin 0"
  using fl_of_int [of 0] by simp

lemma fl_nonneg: "0 \<le> x \<Longrightarrow> num_le (Fin 0) (fl x)"
  using fl_rat_nonneg [of x] overflow_bound_pos by (auto simp: fl_def Let_def)

lemma fl_mono: "x \<le> y \<Longrightarrow> num_le (fl x) (fl y)"
  using fl_rat_mono [of x y] overflow_bound_pos by (auto simp: fl_def Let_def)

lemma fl_not_NaN [simp]: "fl x \<noteq> NaN"
  by (simp add: fl_def Let_def)

lemma fl_nonzero:
  assumes "1/4 \<le> x"
  shows "fl x \<noteq> Fin 0"
proof -
  have "fl_rat (of_int 1 * 2 powi (- 2)) = of_int 1 * 2 powi (- 2)" by (rule fl_rat_dyadic) simp_all
  then have "fl_rat (1/4) = 1/4" by (simp add: power_int_def power2_eq_square)
  then have "1/4 \<le> fl_rat x" using fl_rat_mono [OF assms] by simp
  then show ?thesis by (auto simp: fl_def Let_def)
qed

text \<open>The floor of a rounded quotient of integers is the integer quotient.\<close>

lemma floor_fl_quotient:
  fixes a b :: int
  assumes a: "0 \<le> a" "a \<le> 2 ^ 51" and b: "0 < b" "b \<le> 2 ^ 51"
  shows "num_floor (fl (of_int a / of_int b)) = num_int (a div b)"
proof -
  let ?q = "of_int a / of_int b :: rat" and ?n = "a div b" and ?k = "bitlen b"
  have n: "0 \<le> ?n" "?n * b \<le> a" "a + 1 \<le> (?n + 1) * b"
    using a b div_bounds [OF b(1), of a] by (simp_all add: pos_imp_zdiv_nonneg_iff algebra_simps)
  have "?n * 1 \<le> ?n * b" using n(1) b(1) by (intro mult_left_mono) auto
  then have na: "?n \<le> a" using n(2) by simp
  then have "fl_rat (of_int ?n) = of_int ?n" using n(1) a(2) by (intro fl_rat_of_int) simp
  then have lo: "of_int ?n \<le> fl_rat ?q"
    using fl_rat_mono [of "of_int ?n" ?q] of_int_floor_le [of ?q] by (simp add: floor_divide_of_int_eq)
  have k: "0 < ?k" using b bitlen_eq_zero_iff [of b] bitlen_nonneg [of b] by linarith
  have kb: "2 ^ nat (?k - 1) \<le> b" "b < 2 ^ nat ?k" using bitlen_bounds [OF b(1)] by simp_all
  have k2: "(2 :: int) ^ nat ?k = 2 * 2 ^ nat (?k - 1)"
    using k by (simp add: nat_diff_distrib flip: power_Suc)
  have "(2 :: int) ^ nat (?k - 1) \<le> 2 ^ 51" using kb(1) b(2) by linarith
  then have "nat (?k - 1) \<le> 51" by (rule power_le_imp_le_exp [rotated]) simp
  then have k52: "?k \<le> 52" by simp
  let ?m = "(?n + 1) * 2 ^ nat ?k - 1"
  have "(?n + 1) * 2 ^ nat ?k \<le> (?n + 1) * (2 * b)" using kb(1) k2 n(1) by (intro mult_left_mono) auto
  then have "?m < 2 * ((?n + 1) * b)" by simp
  moreover have "(?n + 1) * b \<le> a + b" using n(2) by (simp add: distrib_right)
  ultimately have m: "?m < 2 ^ 53" using a(2) b(2) by simp
  have "1 * 2 ^ 1 \<le> (?n + 1) * 2 ^ nat ?k" using n(1) k by (intro mult_mono power_increasing) auto
  then have m0: "0 < ?m" by simp
  let ?r = "of_int ?m * 2 powi (- ?k) :: rat"
  have p: "(2 powi (- ?k) :: rat) = 1 / of_int (2 ^ nat ?k)"
    using k by (simp add: power_int_def field_simps)
  have qr: "?q \<le> ?r"
  proof -
    have "a * 2 ^ nat ?k \<le> ((?n + 1) * b - 1) * 2 ^ nat ?k" using n(3) by (intro mult_right_mono) auto
    also have "\<dots> \<le> ?m * b" using kb(2) by (simp add: algebra_simps)
    finally have "(of_int (a * 2 ^ nat ?k) :: rat) \<le> of_int (?m * b)" by (simp only: of_int_le_iff)
    then show ?thesis using b(1) unfolding p by (simp add: field_simps)
  qed
  have "fl_rat ?q \<le> ?r" using fl_rat_mono [OF qr] fl_rat_dyadic [OF m0 m, of "- ?k"] k52 by simp
  also have "?r < of_int ?n + 1" unfolding p by (simp add: field_simps)
  finally have hi: "fl_rat ?q < of_int ?n + 1" .
  have "?n + 1 \<le> 2 ^ 53" using na a(2) by simp
  then have "(of_int (?n + 1) :: rat) \<le> of_int (2 ^ 53)" by (simp only: of_int_le_iff)
  then have "fl_rat ?q < 2 ^ 53" using hi by simp
  moreover have "0 \<le> fl_rat ?q" using a b by (intro fl_rat_nonneg) simp
  ultimately have "fl_rat ?q < overflow_bound" "- overflow_bound < fl_rat ?q"
    using overflow_bound_large overflow_bound_pos by (meson less_trans less_le_trans neg_less_0_iff_less)+
  then have "fl ?q = Fin (fl_rat ?q)" by (simp add: fl_def Let_def)
  then show ?thesis using lo hi by (simp add: floor_eq_iff)
qed
lemma ceil_fl_quotient:
  fixes a b :: int
  assumes a: "0 \<le> a" "a \<le> 2 ^ 51" and b: "0 < b" "b \<le> 2 ^ 51"
  shows "num_ceil (fl (of_int a / of_int b)) = num_int (- ((- a) div b))"
proof (cases "b dvd a")
  case True
  then obtain c where c: "a = b * c" by blast
  have "c \<le> b * c" using a b c by (metis mult_le_cancel_right1 mult_nonneg_nonpos not_less order.strict_iff_not linorder_not_le zero_le_mult_iff int_one_le_iff_zero_less)
  then have "\<bar>c\<bar> \<le> 2 ^ 53" using a b c by (simp add: zero_le_mult_iff)
  then have "fl (of_int a / of_int b) = num_int c" using fl_of_int [of c] b c by simp
  moreover have "- ((- a) div b) = c" using b c by (simp flip: mult_minus_right)
  ultimately show ?thesis by simp
next
  case False
  let ?q = "of_int a / of_int b :: rat" and ?n = "a div b" and ?k = "bitlen b"
  have ceil: "- ((- a) div b) = ?n + 1" using False b by (simp add: zdiv_zminus1_eq_if mod_eq_0_iff_dvd)
  have n: "0 \<le> ?n" "?n * b \<le> a" "a + 1 \<le> (?n + 1) * b"
    using a b div_bounds [OF b(1), of a] by (simp_all add: pos_imp_zdiv_nonneg_iff algebra_simps)
  have n1: "?n * b + 1 \<le> a" using n(2) False by (metis dvd_triv_right order.order_iff_strict zless_imp_add1_zle)
  have "?n * 1 \<le> ?n * b" using n(1) b(1) by (intro mult_left_mono) auto
  then have na: "?n + 1 \<le> a" using n1 by simp
  then have "fl_rat (of_int (?n + 1)) = of_int (?n + 1)" using n(1) a(2) by (intro fl_rat_of_int) simp
  moreover have "?q \<le> of_int (?n + 1)"
  proof -
    have "of_int a \<le> (of_int ((?n + 1) * b) :: rat)" using n(3) by (simp only: of_int_le_iff)
    then show ?thesis using b by (simp add: divide_le_eq)
  qed
  ultimately have hi: "fl_rat ?q \<le> of_int (?n + 1)" using fl_rat_mono by metis
  have k: "0 < ?k" using b bitlen_eq_zero_iff [of b] bitlen_nonneg [of b] by linarith
  have kb: "2 ^ nat (?k - 1) \<le> b" "b < 2 ^ nat ?k" using bitlen_bounds [OF b(1)] by simp_all
  have k2: "(2 :: int) ^ nat ?k = 2 * 2 ^ nat (?k - 1)"
    using k by (simp add: nat_diff_distrib flip: power_Suc)
  have "(2 :: int) ^ nat (?k - 1) \<le> 2 ^ 51" using kb(1) b(2) by linarith
  then have "nat (?k - 1) \<le> 51" by (rule power_le_imp_le_exp [rotated]) simp
  then have k52: "?k \<le> 52" by simp
  let ?m = "?n * 2 ^ nat ?k + 1"
  have "?n * 2 ^ nat ?k \<le> ?n * (2 * b)" using kb(1) k2 n(1) by (intro mult_left_mono) auto
  then have "?m \<le> 2 * (?n * b) + 1" by simp
  then have m: "?m < 2 ^ 53" using n(2) a(2) by simp
  have m0: "0 < ?m" using n(1) by (simp add: add_nonneg_pos)
  let ?r = "of_int ?m * 2 powi (- ?k) :: rat"
  have p: "(2 powi (- ?k) :: rat) = 1 / of_int (2 ^ nat ?k)"
    using k by (simp add: power_int_def field_simps)
  have qr: "?r \<le> ?q"
  proof -
    have "?m * b \<le> (?n * b + 1) * 2 ^ nat ?k" using kb(2) by (simp add: algebra_simps)
    also have "\<dots> \<le> a * 2 ^ nat ?k" using n1 by (intro mult_right_mono) auto
    finally have "(of_int (?m * b) :: rat) \<le> of_int (a * 2 ^ nat ?k)" by (simp only: of_int_le_iff)
    then show ?thesis using b(1) unfolding p by (simp add: field_simps)
  qed
  have "of_int ?n < ?r" unfolding p by (simp add: field_simps)
  also have "?r \<le> fl_rat ?q" using fl_rat_mono [OF qr] fl_rat_dyadic [OF m0 m, of "- ?k"] k52 by simp
  finally have lo: "of_int ?n < fl_rat ?q" .
  have "?n + 1 \<le> 2 ^ 51" using na a(2) by simp
  then have "(of_int (?n + 1) :: rat) \<le> of_int (2 ^ 51)" by (simp only: of_int_le_iff)
  then have "fl_rat ?q < 2 ^ 53" using hi by simp
  moreover have "0 \<le> fl_rat ?q" using a b by (intro fl_rat_nonneg) simp
  ultimately have "fl_rat ?q < overflow_bound" "- overflow_bound < fl_rat ?q"
    using overflow_bound_large overflow_bound_pos by (meson less_trans less_le_trans neg_less_0_iff_less)+
  then have "fl ?q = Fin (fl_rat ?q)" by (simp add: fl_def Let_def)
  moreover have "\<lceil>fl_rat ?q\<rceil> = ?n + 1" using lo hi by (simp add: ceiling_eq_iff)
  ultimately show ?thesis by (simp add: ceil)
qed

lemma num_le_refl_iff: "num_le a a \<longleftrightarrow> a \<noteq> NaN"
  by (cases a) auto

lemma num_le_trans: "num_le a b \<Longrightarrow> num_le b c \<Longrightarrow> num_le a c"
  by (cases a; cases b; cases c) auto

lemma num_le_antisym: "num_le a b \<Longrightarrow> num_le b a \<Longrightarrow> a = b"
  by (cases a; cases b) auto

lemma num_le_total: "a \<noteq> NaN \<Longrightarrow> b \<noteq> NaN \<Longrightarrow> num_le a b \<or> num_le b a"
  by (cases a; cases b) auto

lemma num_eq_iff: "num_eq a b \<longleftrightarrow> a = b \<and> a \<noteq> NaN"
  unfolding num_eq_def using num_le_antisym num_le_refl_iff by metis

lemma num_lt_Fin [simp]: "num_lt (Fin x) (Fin y) \<longleftrightarrow> x < y"
  by (auto simp: num_lt_def)

lemma num_add_int:
  "\<bar>a + b\<bar> \<le> 2 ^ 53 \<Longrightarrow> num_add (num_int a) (num_int b) = num_int (a + b)"
  using fl_of_int [of "a + b"] by simp

lemma num_sub_int:
  "\<bar>a - b\<bar> \<le> 2 ^ 53 \<Longrightarrow> num_sub (num_int a) (num_int b) = num_int (a - b)"
  using fl_of_int [of "a - b"] by (simp add: num_sub_def)

lemma num_mul_int:
  "\<bar>a * b\<bar> \<le> 2 ^ 53 \<Longrightarrow> num_mul (num_int a) (num_int b) = num_int (a * b)"
  using fl_of_int [of "a * b"] by simp

lemma num_mul_exact: "x * y = of_int i \<Longrightarrow> \<bar>i\<bar> \<le> 2 ^ 53 \<Longrightarrow> num_mul (Fin x) (Fin y) = num_int i"
  using fl_of_int [of i] by simp

lemma num_round_numeral [simp]: "num_round (Fin (numeral w)) = Fin (numeral w)"
proof -
  have "\<lfloor>(numeral w :: rat) + 1/2\<rfloor> = numeral w" by (simp add: floor_eq_iff)
  then show ?thesis by simp
qed

lemma num_round_int [simp]: "num_round (num_int i) = num_int i"
proof -
  have "\<lfloor>(of_int i :: rat) + 1/2\<rfloor> = i" by (simp add: floor_eq_iff)
  then show ?thesis by simp
qed

lemma safe_integerE:
  assumes "is_safe_integer a"
  obtains i where "a = num_int i" "\<bar>i\<bar> \<le> 2 ^ 53 - 1"
proof -
  from assms obtain x where x: "a = Fin x" "of_int \<lfloor>x\<rfloor> = x" "\<bar>x\<bar> \<le> 2 ^ 53 - 1"
    by (cases a) auto
  then have "\<bar>of_int \<lfloor>x\<rfloor> :: rat\<bar> \<le> of_int (2 ^ 53 - 1)" by (metis of_int_diff of_int_numeral of_int_power of_int_1)
  then have "\<bar>\<lfloor>x\<rfloor>\<bar> \<le> 2 ^ 53 - 1" by (simp only: of_int_le_iff flip: of_int_abs)
  with x show ?thesis by (intro that [of "\<lfloor>x\<rfloor>"]) auto
qed

lemma is_safe_integer_int [simp]: "is_safe_integer (num_int i) \<longleftrightarrow> \<bar>i\<bar> \<le> 2 ^ 53 - 1"
proof -
  have "\<bar>of_int i :: rat\<bar> \<le> 2 ^ 53 - 1 \<longleftrightarrow> (of_int \<bar>i\<bar> :: rat) \<le> of_int (2 ^ 53 - 1)" by simp
  also have "\<dots> \<longleftrightarrow> \<bar>i\<bar> \<le> 2 ^ 53 - 1" by (simp only: of_int_le_iff)
  finally show ?thesis by simp
qed

lemma num_add_mono:
  assumes "num_le a b" "num_add a c \<noteq> NaN" "num_add b c \<noteq> NaN"
  shows "num_le (num_add a c) (num_add b c)"
proof -
  have "num_le NegInf y" if "y \<noteq> NaN" for y using that by (cases y) auto
  moreover have "num_le y PosInf" if "y \<noteq> NaN" for y using that by (cases y) auto
  ultimately show ?thesis using assms by (cases a; cases b; cases c) (auto intro: fl_mono)
qed

lemma num_add_comm: "num_add a b = num_add b a"
  by (cases a; cases b) (auto simp: add.commute)

lemma num_mul_comm: "num_mul a b = num_mul b a"
  by (cases a; cases b) (auto simp: mult.commute)

text \<open>Non-negative numbers, infinity included, are closed under sums and under quotients by a
  positive finite number; finite ones under products too.\<close>

definition nonneg :: "jsnum \<Rightarrow> bool" where
  "nonneg a \<longleftrightarrow> num_le (Fin 0) a"

lemma nonneg_simps [simp]:
  "nonneg (Fin x) \<longleftrightarrow> 0 \<le> x" "nonneg PosInf" "\<not> nonneg NegInf" "\<not> nonneg NaN"
  by (auto simp: nonneg_def)

lemma nonneg_fl: "0 \<le> x \<Longrightarrow> nonneg (fl x)"
  by (simp add: nonneg_def fl_nonneg)

lemma nonneg_add: "nonneg a \<Longrightarrow> nonneg b \<Longrightarrow> nonneg (num_add a b)"
  by (cases a; cases b) (auto intro: nonneg_fl)

lemma nonneg_mul_fin: "nonneg (Fin x) \<Longrightarrow> nonneg (Fin y) \<Longrightarrow> nonneg (num_mul (Fin x) (Fin y))"
  by (auto intro: nonneg_fl)

lemma nonneg_div: "nonneg a \<Longrightarrow> 0 < y \<Longrightarrow> nonneg (num_div a (Fin y))"
  by (cases a) (auto intro: nonneg_fl)

lemma nonneg_max: "nonneg b \<Longrightarrow> a \<noteq> NaN \<Longrightarrow> nonneg (num_max a b)"
  by (cases a; cases b) (auto simp: num_max_def)

text \<open>The contract of an order that some values (\<open>NaN\<close>) stay out of.\<close>

locale partial_comparison =
  fixes le :: "'n \<Rightarrow> 'n \<Rightarrow> bool" and ok :: "'n \<Rightarrow> bool"
  assumes le_refl: "ok a \<Longrightarrow> le a a"
    and le_trans: "le a b \<Longrightarrow> le b c \<Longrightarrow> le a c"
    and le_antisym: "le a b \<Longrightarrow> le b a \<Longrightarrow> a = b"
    and le_total: "ok a \<Longrightarrow> ok b \<Longrightarrow> le a b \<or> le b a"
    and le_ok: "le a b \<Longrightarrow> ok a \<and> ok b"
begin

lemma not_le_iff: "ok a \<Longrightarrow> ok b \<Longrightarrow> \<not> le a b \<longleftrightarrow> le b a \<and> a \<noteq> b"
  using le_refl le_total le_antisym by blast

lemma le_chain: "le a b \<Longrightarrow> le b c \<Longrightarrow> le c a \<Longrightarrow> a = b \<and> b = c"
  using le_trans le_antisym by blast

end

lemma num_le_not_NaN: "num_le a b \<Longrightarrow> a \<noteq> NaN \<and> b \<noteq> NaN"
  by (cases a; cases b) auto

interpretation num: partial_comparison num_le "\<lambda>a. a \<noteq> NaN"
  by unfold_locales
    (auto simp: num_le_refl_iff intro: num_le_trans num_le_antisym dest: num_le_total num_le_not_NaN)

subsection \<open>The error of a rounding\<close>

lemma round_even_error: "\<bar>of_int (round_even r) - r\<bar> \<le> 1 / 2"
proof -
  have "of_int \<lfloor>r\<rfloor> \<le> r" "r < of_int \<lfloor>r\<rfloor> + 1" by linarith+
  then show ?thesis by (auto simp: round_even_def Let_def)
qed

text \<open>Half the smallest positive value.\<close>

definition tiny :: rat where
  "tiny = 2 powi (- 1075)"

lemma tiny_nonneg [simp]: "0 \<le> tiny"
  by (simp add: tiny_def)

lemma round_pos_error:
  assumes "0 < x"
  shows "\<bar>round_pos x - x\<bar> \<le> x / 2 ^ 53 + tiny"
proof -
  let ?e = "ulp_exp x"
  have pos: "(0 :: rat) < 2 powi ?e" by simp
  have "round_pos x - x = (of_int (round_even (x / 2 powi ?e)) - x / 2 powi ?e) * 2 powi ?e"
    using pos by (simp add: round_pos_def field_simps)
  then have "\<bar>round_pos x - x\<bar> = \<bar>of_int (round_even (x / 2 powi ?e)) - x / 2 powi ?e\<bar> * 2 powi ?e"
    using pos by (simp add: abs_mult)
  also have "\<dots> \<le> 1 / 2 * 2 powi ?e" by (rule mult_right_mono [OF round_even_error]) simp
  also have "1 / 2 * 2 powi ?e = (2 powi (?e - 1) :: rat)" by (simp add: power_int_diff)
  also have "\<dots> \<le> x / 2 ^ 53 + tiny"
  proof (cases "- 1074 \<le> floor_log2 x - 52")
    case True
    then have e: "?e - 1 = floor_log2 x - 53" by (simp add: ulp_exp_def)
    have "(2 powi (?e - 1) :: rat) = 2 powi floor_log2 x / 2 ^ 53" unfolding e by (simp add: power_int_diff)
    also have "\<dots> \<le> x / 2 ^ 53" using floor_log2_bounds(1) [OF assms] by (simp add: divide_right_mono)
    finally show ?thesis by (rule order_trans) simp
  next
    case False
    then have e: "?e - 1 = - 1075" by (simp add: ulp_exp_def)
    show ?thesis unfolding e tiny_def [symmetric] using assms by simp
  qed
  finally show ?thesis .
qed

lemma fl_rat_error: "\<bar>fl_rat x - x\<bar> \<le> \<bar>x\<bar> / 2 ^ 53 + tiny"
proof -
  consider "0 < x" | "x = 0" | "0 < - x" by linarith
  then show ?thesis
  proof cases
    case 1
    then show ?thesis using round_pos_error [OF 1] by (simp add: fl_rat_def)
  next
    case 3
    then show ?thesis using round_pos_error [OF 3] by (simp add: fl_rat_def)
  qed simp
qed

text \<open>Rounding twice is rounding once.\<close>

lemma round_pos_form:
  assumes "0 < x"
  shows "\<exists>n e. round_pos x = of_int n * 2 powi e \<and> 0 \<le> n \<and> n < 2 ^ 53 \<and> - 1074 \<le> e"
proof -
  let ?e = "ulp_exp x" and ?n = "round_even (x / 2 powi ulp_exp x)"
  have e: "- 1074 \<le> ?e" "floor_log2 x + 1 \<le> ?e + 53" by (simp_all add: ulp_exp_def)
  have "x < 2 powi (floor_log2 x + 1)" using floor_log2_bounds(2) [OF assms] .
  also have "\<dots> \<le> 2 powi (?e + 53)" using e(2) by (rule power_int_increasing) simp
  finally have "x / 2 powi ?e \<le> of_int (2 ^ 53)" by (simp add: power_int_add divide_le_eq mult.commute)
  then have "?n \<le> 2 ^ 53" using round_even_mono [of _ "of_int (2 ^ 53)"] by (metis round_even_of_int)
  moreover have "0 \<le> ?n" by (rule round_even_nonneg) (use assms in simp)
  moreover have "round_pos x = of_int (2 ^ 52) * 2 powi (?e + 1)" if "?n = 2 ^ 53"
    using that by (simp add: round_pos_def power_int_add)
  moreover have "round_pos x = of_int ?n * 2 powi ?e" by (simp add: round_pos_def)
  ultimately show ?thesis using e(1)
    by (cases "?n = 2 ^ 53") (force intro: exI [of _ "2 ^ 52"] exI [of _ "?e + 1"], force intro: exI [of _ ?n] exI [of _ ?e])
qed

lemma fl_rat_round_pos: "0 < x \<Longrightarrow> fl_rat (round_pos x) = round_pos x"
  using round_pos_form [of x] fl_rat_dyadic by (metis fl_rat_0 le_less mult_zero_left of_int_0)

lemma fl_rat_idem [simp]: "fl_rat (fl_rat x) = fl_rat x"
  using fl_rat_round_pos [of x] fl_rat_round_pos [of "- x"] fl_rat_minus
  by (cases x "0 :: rat" rule: linorder_cases) (auto simp: fl_rat_def)

text \<open>A value of the arithmetic: a finite one is its own rounding.\<close>

fun rounded :: "jsnum \<Rightarrow> bool" where
  "rounded (Fin x) \<longleftrightarrow> fl x = Fin x"
| "rounded _ \<longleftrightarrow> True"

lemma rounded_fl: "rounded (fl x)"
  by (auto simp: fl_def Let_def)

lemma rounded_mul [simp]: "rounded (num_mul a b)"
  by (cases a; cases b) (auto simp: rounded_fl inf_signed_def)

text \<open>A sum is a rounded value when its terms are.\<close>

lemma rounded_add [simp]: "rounded a \<Longrightarrow> rounded b \<Longrightarrow> rounded (num_add a b)"
  by (cases a; cases b) (auto simp: rounded_fl)

lemma add_zero: "rounded v \<Longrightarrow> num_add (Fin 0) v = v"
  by (cases v) auto

lemma sub_zero: "rounded v \<Longrightarrow> num_sub v (Fin 0) = v"
  by (cases v) (auto simp: num_sub_def)

lemma fl_in_range:
  assumes "\<bar>x\<bar> \<le> 2 ^ 1000"
  shows "fl x = Fin (fl_rat x)"
proof -
  define b where "b = (2 :: rat) ^ 1000"
  have "tiny \<le> 1" "1 \<le> b" "b < overflow_bound / 3" by (simp_all add: tiny_def b_def overflow_bound_def)
  moreover have "\<bar>x\<bar> \<le> b" using assms by (simp only: b_def)
  moreover have "\<bar>x\<bar> / 2 ^ 53 \<le> \<bar>x\<bar>" by simp
  ultimately have "\<bar>fl_rat x\<bar> < overflow_bound" using fl_rat_error [of x] by linarith
  then show ?thesis by (auto simp: fl_def Let_def)
qed

end
