(* ===== verification/JS_Date.thy ===== *)
theory JS_Date
  imports JS_Prelude
begin

section \<open>Dates\<close>

text \<open>
  The parts of \<open>Date\<close> the program uses, after the ECMAScript definitions: an instant is a number
  of milliseconds since 1970-01-01T00:00Z (\<open>int\<close>; \<open>None\<close> is an invalid \<open>Date\<close>), a day is a
  number of whole days since then, \<open>day_from_year\<close> is DayFromYear. A date string
  \<open>YYYY-MM-DD\<close> is read as the engine does: the month must be 1 to 12, the day 1 to 31, and a day
  past the end of its month rolls over into the next (\<open>2025-02-30\<close> is 2 March). The plant's zone
  Asia/Kolkata is UTC+05:30 (without the wartime changes before 15 October 1945).
  The lemmas: the calendar is a bijection between days and valid dates, printing and reading a
  date are inverse to each other, and the order of date strings is the order of days.
\<close>

subsection \<open>Years, months and days\<close>

datatype ymd = YMD (ymd_year: int) (ymd_month: int) (ymd_day: int)

definition leap_year :: "int \<Rightarrow> bool" where
  "leap_year y \<longleftrightarrow> y mod 4 = 0 \<and> (y mod 100 \<noteq> 0 \<or> y mod 400 = 0)"

definition day_from_year :: "int \<Rightarrow> int" where
  "day_from_year y = 365 * (y - 1970) + (y - 1969) div 4 - (y - 1901) div 100 + (y - 1601) div 400"

definition year_from_day :: "int \<Rightarrow> int" where
  "year_from_day d = (let y = 1970 + (400 * d) div 146097 in
     if d < day_from_year y then y - 1
     else if day_from_year (y + 1) \<le> d then y + 1 else y)"

definition days_in_month :: "int \<Rightarrow> int \<Rightarrow> int" where
  "days_in_month y m =
     (if m = 2 then (if leap_year y then 29 else 28)
      else if m = 4 \<or> m = 6 \<or> m = 9 \<or> m = 11 then 30 else 31)"

definition month_offset :: "int \<Rightarrow> int \<Rightarrow> int" where
  "month_offset y m = (\<Sum>k \<leftarrow> [1..m - 1]. days_in_month y k)"

definition valid_ymd :: "ymd \<Rightarrow> bool" where
  "valid_ymd t \<longleftrightarrow> 1 \<le> ymd_month t \<and> ymd_month t \<le> 12
     \<and> 1 \<le> ymd_day t \<and> ymd_day t \<le> days_in_month (ymd_year t) (ymd_month t)"

definition day_of_ymd :: "ymd \<Rightarrow> int" where
  "day_of_ymd t = day_from_year (ymd_year t) + month_offset (ymd_year t) (ymd_month t) + ymd_day t - 1"

fun split_months :: "int list \<Rightarrow> int \<Rightarrow> int \<Rightarrow> int \<times> int" where
  "split_months [] y k = (12, k + 1)"
| "split_months (m # ms) y k =
     (if ms = [] \<or> k < days_in_month y m then (m, k + 1) else split_months ms y (k - days_in_month y m))"

definition ymd_of_day :: "int \<Rightarrow> ymd" where
  "ymd_of_day d = (let y = year_from_day d; (m, k) = split_months [1..12] y (d - day_from_year y)
     in YMD y m k)"

lemma div_step:
  fixes x n :: int
  assumes "0 < n"
  shows "(x + 1) div n = x div n + (if (x + 1) mod n = 0 then 1 else 0)"
proof (cases "(x + 1) mod n = 0")
  case True
  then obtain q where "x + 1 = n * q" by (metis mod_0_imp_dvd dvdE)
  then have x: "x = n * (q - 1) + (n - 1)" by (simp add: algebra_simps)
  then have "x div n = q - 1" using assms int_div_pos_eq [of x n "q - 1" "n - 1"] by simp
  with True \<open>x + 1 = n * q\<close> assms show ?thesis by simp
next
  case False
  let ?r = "(x + 1) mod n"
  have "0 < ?r" using False assms by (simp add: order_le_neq_trans [OF pos_mod_sign])
  moreover have "x = n * ((x + 1) div n) + (?r - 1)"
    using mult_div_mod_eq [of n "x + 1"] by linarith
  ultimately have "x div n = (x + 1) div n"
    using pos_mod_bound [OF assms, of "x + 1"] by (intro int_div_pos_eq [of _ _ _ "?r - 1"]) auto
  with False show ?thesis by simp
qed

lemma mod_shift: "(c :: int) mod n = 0 \<Longrightarrow> (y - c) mod n = y mod n"
  by (metis mod_diff_right_eq diff_zero)

definition leap_day :: "int \<Rightarrow> int" where
  "leap_day y = (if leap_year y then 1 else 0)"

lemma leap_day_cases: "leap_day y = 0 \<or> leap_day y = 1"
  by (simp add: leap_day_def)

lemma day_from_year_step: "day_from_year (y + 1) = day_from_year y + 365 + leap_day y"
proof -
  have m: "(y - 1968) mod 4 = y mod 4" "(y - 1900) mod 100 = y mod 100" "(y - 1600) mod 400 = y mod 400"
    by (rule mod_shift, simp)+
  have s: "y + 1 - 1969 = (y - 1969) + 1" "y + 1 - 1901 = (y - 1901) + 1" "y + 1 - 1601 = (y - 1601) + 1"
    by simp_all
  have e: "(y - 1969) + 1 = y - 1968" "(y - 1901) + 1 = y - 1900" "(y - 1601) + 1 = y - 1600"
    by simp_all
  have d: "(y + 1 - 1969) div 4 = (y - 1969) div 4 + (if y mod 4 = 0 then 1 else 0)"
    "(y + 1 - 1901) div 100 = (y - 1901) div 100 + (if y mod 100 = 0 then 1 else 0)"
    "(y + 1 - 1601) div 400 = (y - 1601) div 400 + (if y mod 400 = 0 then 1 else 0)"
    unfolding s by (subst div_step, simp, subst e, subst m, rule refl)+
  have "y mod 100 mod 4 = y mod 4" "y mod 400 mod 100 = y mod 100"
    by (rule mod_mod_cancel, simp)+
  then have i: "y mod 100 = 0 \<Longrightarrow> y mod 4 = 0" "y mod 400 = 0 \<Longrightarrow> y mod 100 = 0"
    by (metis mod_0)+
  define a b c where abc: "a \<longleftrightarrow> y mod 4 = 0" "b \<longleftrightarrow> y mod 100 = 0" "c \<longleftrightarrow> y mod 400 = 0"
  then have "b \<longrightarrow> a" "c \<longrightarrow> b" using i by simp_all
  then show ?thesis
    unfolding day_from_year_def d leap_day_def leap_year_def abc [symmetric] by (cases a; cases b; cases c) auto
qed

lemma day_from_year_mono: "x \<le> y \<Longrightarrow> day_from_year x + 365 * (y - x) \<le> day_from_year y"
proof (induction y rule: int_ge_induct)
  case (step y)
  then show ?case using day_from_year_step [of y] leap_day_cases [of y] by auto
qed simp

lemma day_from_year_bounds:
  "146097 * k - 506 \<le> 400 * day_from_year (1970 + k)"
  "400 * day_from_year (1970 + k) \<le> 146097 * k + 589"
proof -
  note b = div_bounds [of 4 "k + 1"] div_bounds [of 100 "k + 69"] div_bounds [of 400 "k + 369"]
  have "day_from_year (1970 + k) = 365 * k + (k + 1) div 4 - (k + 69) div 100 + (k + 369) div 400"
    by (simp add: day_from_year_def algebra_simps)
  then show "146097 * k - 506 \<le> 400 * day_from_year (1970 + k)"
    "400 * day_from_year (1970 + k) \<le> 146097 * k + 589" using b by simp_all
qed

lemma year_from_day_spec:
  "day_from_year (year_from_day d) \<le> d" "d < day_from_year (year_from_day d + 1)"
proof -
  let ?k = "(400 * d) div 146097"
  let ?y = "1970 + ?k"
  have k: "146097 * ?k \<le> 400 * d" "400 * d < 146097 * ?k + 146097"
    using pos_mod_bound [of 146097 "400 * d"] pos_mod_sign [of 146097 "400 * d"]
      mult_div_mod_eq [of 146097 "400 * d"] by linarith+
  have lo: "day_from_year (?y - 1) \<le> d"
    using day_from_year_bounds(2) [of "?k - 1"] k by (simp add: algebra_simps)
  have hi: "d < day_from_year (?y + 1 + 1)"
    using day_from_year_bounds(1) [of "?k + 2"] k by (simp add: algebra_simps)
  show "day_from_year (year_from_day d) \<le> d" "d < day_from_year (year_from_day d + 1)"
    using lo hi by (auto simp: year_from_day_def Let_def not_less not_le algebra_simps)
qed

lemma year_from_day_unique:
  assumes "day_from_year y \<le> d" "d < day_from_year (y + 1)"
  shows "year_from_day d = y"
proof (rule ccontr)
  assume "year_from_day d \<noteq> y"
  then consider "y + 1 \<le> year_from_day d" | "year_from_day d + 1 \<le> y" by linarith
  then show False
  proof cases
    case 1
    then have "day_from_year (y + 1) \<le> day_from_year (year_from_day d)"
      using day_from_year_mono [OF 1] by (simp add: algebra_simps)
    then show ?thesis using year_from_day_spec [of d] assms by simp
  next
    case 2
    then have "day_from_year (year_from_day d + 1) \<le> day_from_year y"
      using day_from_year_mono [OF 2] by (simp add: algebra_simps)
    then show ?thesis using year_from_day_spec [of d] assms by simp
  qed
qed

lemma upto_12: "[1..12] = [1, 2, 3, 4, 5, 6, 7, 8, 9, 10, 11, 12 :: int]"
  by (simp add: upto_rec1)

lemma month_cases:
  assumes "1 \<le> (m :: int)" "m \<le> 12"
  shows "m = 1 \<or> m = 2 \<or> m = 3 \<or> m = 4 \<or> m = 5 \<or> m = 6
    \<or> m = 7 \<or> m = 8 \<or> m = 9 \<or> m = 10 \<or> m = 11 \<or> m = 12"
proof -
  have "m \<in> set [1..12]" using assms by simp
  then show ?thesis unfolding upto_12 by simp
qed

lemma month_offset_table:
  "month_offset y 1 = 0" "month_offset y 2 = 31" "month_offset y 3 = 59 + leap_day y"
  "month_offset y 4 = 90 + leap_day y" "month_offset y 5 = 120 + leap_day y"
  "month_offset y 6 = 151 + leap_day y" "month_offset y 7 = 181 + leap_day y"
  "month_offset y 8 = 212 + leap_day y" "month_offset y 9 = 243 + leap_day y"
  "month_offset y 10 = 273 + leap_day y" "month_offset y 11 = 304 + leap_day y"
  "month_offset y 12 = 334 + leap_day y"
  by (simp_all add: month_offset_def upto_rec1 days_in_month_def leap_day_def)

lemma days_in_month_table: "days_in_month y m = (if m = 2 then 28 + leap_day y
    else if m = 4 \<or> m = 6 \<or> m = 9 \<or> m = 11 then 30 else 31)"
  by (simp add: days_in_month_def leap_day_def)

lemma split_months_table:
  "split_months [1..12] y k = (let l = leap_day y in
    if k < 31 then (1, k + 1) else if k < 59 + l then (2, k - 30) else if k < 90 + l then (3, k - 58 - l)
    else if k < 120 + l then (4, k - 89 - l) else if k < 151 + l then (5, k - 119 - l)
    else if k < 181 + l then (6, k - 150 - l) else if k < 212 + l then (7, k - 180 - l)
    else if k < 243 + l then (8, k - 211 - l) else if k < 273 + l then (9, k - 242 - l)
    else if k < 304 + l then (10, k - 272 - l) else if k < 334 + l then (11, k - 303 - l)
    else (12, k - 333 - l))"
  unfolding upto_12 Let_def split_months.simps
  by (intro if_cong) (auto simp add: days_in_month_table)

lemma ymd_of_day_of_ymd:
  assumes "valid_ymd t"
  shows "ymd_of_day (day_of_ymd t) = t"
proof -
  obtain y m d where t: "t = YMD y m d" by (cases t)
  have m: "1 \<le> m" "m \<le> 12" and d: "1 \<le> d" "d \<le> days_in_month y m"
    using assms by (simp_all add: valid_ymd_def t)
  have off: "0 \<le> month_offset y m" "month_offset y m + days_in_month y m \<le> 365 + leap_day y"
    using month_cases [OF m] leap_day_cases [of y]
    by (auto simp: month_offset_table days_in_month_table)
  have y: "year_from_day (day_of_ymd t) = y"
    using off d by (intro year_from_day_unique) (simp_all add: t day_of_ymd_def day_from_year_step)
  have "split_months [1..12] y (month_offset y m + d - 1) = (m, d)"
    using month_cases [OF m] d leap_day_cases [of y] unfolding split_months_table Let_def
    by (elim disjE) (simp_all add: month_offset_table days_in_month_table)
  then show ?thesis unfolding ymd_of_day_def Let_def y
    by (simp add: t day_of_ymd_def add_diff_eq)
qed

lemma valid_ymd_of_day: "valid_ymd (ymd_of_day d)"
  and day_of_ymd_of_day: "day_of_ymd (ymd_of_day d) = d"
proof -
  let ?y = "year_from_day d"
  let ?k = "d - day_from_year ?y"
  have k: "0 \<le> ?k" "?k < 365 + leap_day ?y"
    using year_from_day_spec [of d] by (auto simp: day_from_year_step)
  show "valid_ymd (ymd_of_day d)" "day_of_ymd (ymd_of_day d) = d"
    using k leap_day_cases [of ?y] unfolding ymd_of_day_def Let_def split_months_table
    by (auto simp: valid_ymd_def day_of_ymd_def month_offset_table days_in_month_table)
qed


subsection \<open>The order of dates\<close>

definition ymd_less :: "ymd \<Rightarrow> ymd \<Rightarrow> bool" where
  "ymd_less t u \<longleftrightarrow> ymd_year t < ymd_year u \<or> ymd_year t = ymd_year u \<and>
     (ymd_month t < ymd_month u \<or> ymd_month t = ymd_month u \<and> ymd_day t < ymd_day u)"

lemma month_offset_Suc: "1 \<le> m \<Longrightarrow> month_offset y (m + 1) = month_offset y m + days_in_month y m"
  using upto_rec2 [of 1 m] by (simp add: month_offset_def)

lemma days_in_month_pos: "28 \<le> days_in_month y m"
  by (simp add: days_in_month_def)

lemma month_offset_mono:
  assumes "1 \<le> m" "m < n"
  shows "month_offset y m + days_in_month y m \<le> month_offset y n"
proof -
  have "m + 1 \<le> n" using assms by simp
  then show ?thesis
  proof (induction n rule: int_ge_induct)
    case base
    then show ?case using assms by (simp add: month_offset_Suc)
  next
    case (step n)
    then show ?case using assms month_offset_Suc [of n y] days_in_month_pos [of y n] by simp
  qed
qed

lemma year_span:
  assumes "valid_ymd t"
  shows "day_from_year (ymd_year t) \<le> day_of_ymd t" "day_of_ymd t < day_from_year (ymd_year t + 1)"
proof -
  have m: "1 \<le> ymd_month t" "ymd_month t \<le> 12" using assms by (simp_all add: valid_ymd_def)
  have "0 \<le> month_offset (ymd_year t) (ymd_month t)"
    "month_offset (ymd_year t) (ymd_month t) + days_in_month (ymd_year t) (ymd_month t)
      \<le> 365 + leap_day (ymd_year t)"
    using month_cases [OF m] leap_day_cases [of "ymd_year t"]
    by (auto simp: month_offset_table days_in_month_table)
  then show "day_from_year (ymd_year t) \<le> day_of_ymd t" "day_of_ymd t < day_from_year (ymd_year t + 1)"
    using assms by (auto simp: day_of_ymd_def day_from_year_step valid_ymd_def)
qed

lemma day_of_ymd_mono:
  assumes t: "valid_ymd t" and u: "valid_ymd u" and "ymd_less t u"
  shows "day_of_ymd t < day_of_ymd u"
proof -
  consider "ymd_year t < ymd_year u"
    | "ymd_year t = ymd_year u" "ymd_month t < ymd_month u"
    | "ymd_year t = ymd_year u" "ymd_month t = ymd_month u" "ymd_day t < ymd_day u"
    using assms(3) by (auto simp: ymd_less_def)
  then show ?thesis
  proof cases
    case 1
    then have "day_from_year (ymd_year t + 1) \<le> day_from_year (ymd_year u)"
      using day_from_year_mono [of "ymd_year t + 1" "ymd_year u"] by simp
    then show ?thesis using year_span(2) [OF t] year_span(1) [OF u] by simp
  next
    case 2
    then show ?thesis using t u month_offset_mono [of "ymd_month t" "ymd_month u" "ymd_year u"]
      by (simp add: day_of_ymd_def valid_ymd_def)
  next
    case 3
    then show ?thesis by (simp add: day_of_ymd_def)
  qed
qed

lemma ymd_less_total: "t = u \<or> ymd_less t u \<or> ymd_less u t"
  by (cases t; cases u) (auto simp: ymd_less_def)

lemma day_less_iff: "d < e \<longleftrightarrow> ymd_less (ymd_of_day d) (ymd_of_day e)"
  using day_of_ymd_mono [OF valid_ymd_of_day valid_ymd_of_day, of d e]
    day_of_ymd_mono [OF valid_ymd_of_day valid_ymd_of_day, of e d]
    ymd_less_total [of "ymd_of_day d" "ymd_of_day e"]
  by (auto simp: day_of_ymd_of_day) (metis day_of_ymd_of_day less_irrefl)

subsection \<open>Date strings\<close>

definition iso_year :: "int \<Rightarrow> string" where
  "iso_year y = (if 0 \<le> y \<and> y \<le> 9999 then pad_start 4 (CHR ''0'') (show_nat (nat y))
     else (if y < 0 then CHR ''-'' else CHR ''+'') # pad_start 6 (CHR ''0'') (show_nat (nat \<bar>y\<bar>)))"

definition iso_two :: "int \<Rightarrow> string" where
  "iso_two k = pad_start 2 (CHR ''0'') (show_nat (nat k))"

definition iso_date :: "ymd \<Rightarrow> string" where
  "iso_date t = iso_year (ymd_year t) @ ''-'' @ iso_two (ymd_month t) @ ''-'' @ iso_two (ymd_day t)"

text \<open>\<open>new Date(day).toISOString().slice(0, 10)\<close>.\<close>

definition iso_day :: "int \<Rightarrow> string" where
  "iso_day d = take 10 (iso_date (ymd_of_day d))"

text \<open>The pattern \<open>^\d{4}-\d{2}-\d{2}$\<close>.\<close>

definition matches_date :: "string \<Rightarrow> bool" where
  "matches_date s \<longleftrightarrow> length s = 10 \<and> list_all is_digit (slice 0 4 s) \<and> s ! 4 = CHR ''-''
     \<and> list_all is_digit (slice 5 7 s) \<and> s ! 7 = CHR ''-'' \<and> list_all is_digit (slice 8 10 s)"

definition read_ymd :: "string \<Rightarrow> ymd" where
  "read_ymd s = YMD (read_nat (slice 0 4 s)) (read_nat (slice 5 7 s)) (read_nat (slice 8 10 s))"

text \<open>The day of \<open>new Date(s + "T00:00:00.000Z")\<close>, \<open>None\<close> when it is an invalid date.\<close>

definition parse_day :: "string \<Rightarrow> int option" where
  "parse_day s = (let t = read_ymd s in
     if matches_date s \<and> 1 \<le> ymd_month t \<and> ymd_month t \<le> 12 \<and> 1 \<le> ymd_day t \<and> ymd_day t \<le> 31
     then Some (day_of_ymd t) else None)"

text \<open>Days of the years 0 to 9999, the ones a four-digit date string can name.\<close>

definition plain_day :: "int \<Rightarrow> bool" where
  "plain_day d \<longleftrightarrow> - 719528 \<le> d \<and> d \<le> 2932896"

lemma plain_day_year: "plain_day d \<Longrightarrow> 0 \<le> ymd_year (ymd_of_day d) \<and> ymd_year (ymd_of_day d) \<le> 9999"
proof -
  assume p: "plain_day d"
  have y: "ymd_year (ymd_of_day d) = year_from_day d"
    by (simp add: ymd_of_day_def Let_def split: prod.splits)
  have dfy: "day_from_year 0 = - 719528" "day_from_year 10000 = 2932897"
    by (simp_all add: day_from_year_def)
  have "0 \<le> year_from_day d"
    using p year_from_day_spec(2) [of d] day_from_year_mono [of "year_from_day d + 1" 0] dfy
    by (cases "0 \<le> year_from_day d") (auto simp: plain_day_def)
  moreover have "year_from_day d \<le> 9999"
    using p year_from_day_spec(1) [of d] day_from_year_mono [of 10000 "year_from_day d"] dfy
    by (cases "year_from_day d \<le> 9999") (auto simp: plain_day_def)
  ultimately show ?thesis by (simp add: y)
qed

lemma pad_digits:
  assumes "0 \<le> (n :: int)" "n < 10 ^ k" "0 < k"
  shows "length (pad_start k (CHR ''0'') (show_nat (nat n))) = k"
    "list_all is_digit (pad_start k (CHR ''0'') (show_nat (nat n)))"
    "read_nat (pad_start k (CHR ''0'') (show_nat (nat n))) = n"
proof -
  have "nat n < 10 ^ k" using assms by (simp add: nat_less_iff)
  then show "length (pad_start k (CHR ''0'') (show_nat (nat n))) = k"
    using assms(3) by (intro length_pad_start length_show_nat_le)
  have "is_digit (CHR ''0'')" by (simp add: is_digit_def)
  then show "list_all is_digit (pad_start k (CHR ''0'') (show_nat (nat n)))"
    by (auto simp: pad_start_def list_all_iff dest: show_nat_digits)
  show "read_nat (pad_start k (CHR ''0'') (show_nat (nat n))) = n"
    using assms(1) by (simp add: read_pad_start)
qed

lemma iso_date_parts:
  assumes "valid_ymd t" "0 \<le> ymd_year t" "ymd_year t \<le> 9999"
  shows "length (iso_date t) = 10" "matches_date (iso_date t)" "read_ymd (iso_date t) = t"
proof -
  let ?y = "iso_year (ymd_year t)" and ?m = "iso_two (ymd_month t)" and ?d = "iso_two (ymd_day t)"
  have iy: "?y = pad_start 4 (CHR ''0'') (show_nat (nat (ymd_year t)))" using assms by (simp add: iso_year_def)
  have md: "0 \<le> ymd_month t" "ymd_month t < 100" "0 \<le> ymd_day t" "ymd_day t < 100"
    using assms(1) by (auto simp: valid_ymd_def days_in_month_def split: if_splits)
  note py = pad_digits [of "ymd_year t" 4] and pm = pad_digits [of "ymd_month t" 2]
    and pd = pad_digits [of "ymd_day t" 2]
  have len: "length ?y = 4" "length ?m = 2" "length ?d = 2"
    using assms md py(1) pm(1) pd(1) by (simp_all add: iy iso_two_def)
  have dig: "list_all is_digit ?y" "list_all is_digit ?m" "list_all is_digit ?d"
    using assms md py(2) pm(2) pd(2) by (simp_all add: iy iso_two_def)
  have rd: "read_nat ?y = ymd_year t" "read_nat ?m = ymd_month t" "read_nat ?d = ymd_day t"
    using assms md py(3) pm(3) pd(3) by (simp_all add: iy iso_two_def)
  show l: "length (iso_date t) = 10" using len by (simp add: iso_date_def)
  have sl: "slice 0 4 (iso_date t) = ?y" "slice 5 7 (iso_date t) = ?m" "slice 8 10 (iso_date t) = ?d"
    using len by (simp_all add: iso_date_def slice_def)
  have nth: "iso_date t ! 4 = CHR ''-''" "iso_date t ! 7 = CHR ''-''"
    using len by (simp_all add: iso_date_def nth_append)
  show "matches_date (iso_date t)" using l sl nth dig by (simp add: matches_date_def)
  show "read_ymd (iso_date t) = t" using sl rd by (simp add: read_ymd_def)
qed

lemma iso_day_eq: "plain_day d \<Longrightarrow> iso_day d = iso_date (ymd_of_day d)"
  using iso_date_parts(1) [OF valid_ymd_of_day] plain_day_year by (simp add: iso_day_def)

lemma length_iso_day [simp]: "plain_day d \<Longrightarrow> length (iso_day d) = 10"
  using iso_date_parts(1) [OF valid_ymd_of_day] plain_day_year by (simp add: iso_day_eq)

lemma matches_iso_day [simp]: "plain_day d \<Longrightarrow> matches_date (iso_day d)"
  using iso_date_parts(2) [OF valid_ymd_of_day] plain_day_year by (simp add: iso_day_eq)

lemma read_iso_day: "plain_day d \<Longrightarrow> read_ymd (iso_day d) = ymd_of_day d"
  using iso_date_parts(3) [OF valid_ymd_of_day] plain_day_year by (simp add: iso_day_eq)

lemma parse_iso_day [simp]: "plain_day d \<Longrightarrow> parse_day (iso_day d) = Some d"
proof -
  assume p: "plain_day d"
  have "valid_ymd (ymd_of_day d)" by (rule valid_ymd_of_day)
  then have "1 \<le> ymd_month (ymd_of_day d)" "ymd_month (ymd_of_day d) \<le> 12"
    "1 \<le> ymd_day (ymd_of_day d)" "ymd_day (ymd_of_day d) \<le> 31"
    by (auto simp: valid_ymd_def days_in_month_def split: if_splits)
  then show ?thesis using p by (simp add: parse_day_def read_iso_day Let_def day_of_ymd_of_day)
qed

lemma iso_day_inj: "plain_day d \<Longrightarrow> plain_day e \<Longrightarrow> iso_day d = iso_day e \<longleftrightarrow> d = e"
  by (metis parse_iso_day option.inject)

lemma iso_day_nonempty [simp]: "plain_day d \<Longrightarrow> iso_day d \<noteq> []"
  using length_iso_day by fastforce


text \<open>Date strings compare as the days they name.\<close>

lemma append_less_append:
  fixes a b x y :: string
  assumes "length a = length b"
  shows "a @ x < b @ y \<longleftrightarrow> a < b \<or> a = b \<and> x < y"
  using assms by (induction a b rule: list_induct2) auto

lemma digit_order: "is_digit c \<Longrightarrow> is_digit d \<Longrightarrow> c < d \<longleftrightarrow> digit_value c < digit_value d"
  by (simp add: less_char_def digit_value_def)

lemma digit_eq: "digit_value c = digit_value d \<longleftrightarrow> c = d"
  by (simp add: digit_value_def)

lemma foldl_digits: "foldl (\<lambda>acc c. 10 * acc + digit_value c) a s = a * 10 ^ length s + read_nat s"
  unfolding read_nat_def
proof (induction s arbitrary: a)
  case Nil
  then show ?case by simp
next
  case (Cons c s)
  have "foldl (\<lambda>acc c. 10 * acc + digit_value c) (10 * a + digit_value c) s
      = (10 * a + digit_value c) * 10 ^ length s + foldl (\<lambda>acc c. 10 * acc + digit_value c) 0 s"
    by (rule Cons)
  moreover have "foldl (\<lambda>acc c. 10 * acc + digit_value c) (digit_value c) s
      = digit_value c * 10 ^ length s + foldl (\<lambda>acc c. 10 * acc + digit_value c) 0 s"
    by (rule Cons)
  ultimately show ?case by (simp add: algebra_simps)
qed

lemma read_nat_Cons: "read_nat (c # s) = digit_value c * 10 ^ length s + read_nat s"
  using foldl_digits [of "digit_value c" s] by (simp add: read_nat_def)

lemma read_nat_bounds: "list_all is_digit s \<Longrightarrow> 0 \<le> read_nat s \<and> read_nat s < 10 ^ length s"
proof (induction s)
  case Nil
  then show ?case by (simp add: read_nat_def)
next
  case (Cons c s)
  have c: "0 \<le> digit_value c" "digit_value c \<le> 9"
    using Cons.prems by (auto simp: is_digit_def digit_value_def Let_def)
  have "digit_value c * 10 ^ length s \<le> 9 * 10 ^ length s" using c(2) by (rule mult_right_mono) simp
  moreover have "0 \<le> digit_value c * 10 ^ length s" using c(1) by simp
  moreover have "0 \<le> read_nat s" "read_nat s < 10 ^ length s" using Cons by simp_all
  ultimately show ?case unfolding read_nat_Cons length_Cons power_Suc by linarith
qed

lemma digits_less_iff:
  assumes "length s = length t" "list_all is_digit s" "list_all is_digit t"
  shows "s < t \<longleftrightarrow> read_nat s < read_nat t"
  using assms
proof (induction s t rule: list_induct2)
  case Nil
  then show ?case by simp
next
  case (Cons c s d t)
  have b: "0 \<le> read_nat s" "read_nat s < 10 ^ length t" "0 \<le> read_nat t" "read_nat t < 10 ^ length t"
    using read_nat_bounds [of s] read_nat_bounds [of t] Cons by auto
  have cd: "is_digit c" "is_digit d" using Cons.prems by auto
  have gap: "x * 10 ^ length t + 10 ^ length t \<le> y * 10 ^ length t" if "x < y" for x y :: int
  proof -
    have "(x + 1) * 10 ^ length t \<le> y * 10 ^ length t" using that by (intro mult_right_mono) auto
    then show ?thesis by (simp add: algebra_simps)
  qed
  show ?case
    using Cons b gap [of "digit_value c" "digit_value d"] gap [of "digit_value d" "digit_value c"]
      digit_order [OF cd] digit_eq [of c d]
    by (cases "digit_value c" "digit_value d" rule: linorder_cases) (auto simp: read_nat_Cons)
qed

lemma iso_two_less_iff:
  "0 \<le> a \<Longrightarrow> a < 100 \<Longrightarrow> 0 \<le> b \<Longrightarrow> b < 100 \<Longrightarrow> iso_two a < iso_two b \<longleftrightarrow> a < b"
  using pad_digits [of a 2] pad_digits [of b 2] by (simp add: iso_two_def digits_less_iff)

lemma iso_year_less_iff:
  "0 \<le> a \<Longrightarrow> a \<le> 9999 \<Longrightarrow> 0 \<le> b \<Longrightarrow> b \<le> 9999 \<Longrightarrow> iso_year a < iso_year b \<longleftrightarrow> a < b"
  using pad_digits [of a 4] pad_digits [of b 4] by (simp add: iso_year_def digits_less_iff)

theorem iso_day_less_iff:
  assumes d: "plain_day d" and e: "plain_day e"
  shows "iso_day d < iso_day e \<longleftrightarrow> d < e"
proof -
  let ?t = "ymd_of_day d" and ?u = "ymd_of_day e"
  have y: "0 \<le> ymd_year ?t" "ymd_year ?t \<le> 9999" "0 \<le> ymd_year ?u" "ymd_year ?u \<le> 9999"
    using plain_day_year d e by auto
  have md: "0 \<le> ymd_month v" "ymd_month v < 100" "0 \<le> ymd_day v" "ymd_day v < 100" if "valid_ymd v" for v
    using that by (auto simp: valid_ymd_def days_in_month_def split: if_splits)
  note t = md [OF valid_ymd_of_day [of d]] and u = md [OF valid_ymd_of_day [of e]]
  have len: "length (iso_year (ymd_year ?t)) = length (iso_year (ymd_year ?u))"
    "length (iso_two (ymd_month ?t)) = length (iso_two (ymd_month ?u))"
    using y t u pad_digits(1) [of _ 4] pad_digits(1) [of _ 2] by (simp_all add: iso_year_def iso_two_def)
  have ne: "\<not> a < b \<Longrightarrow> \<not> b < a \<Longrightarrow> a = b" for a b :: string by simp
  have "iso_day d < iso_day e \<longleftrightarrow> ymd_less ?t ?u"
    unfolding iso_day_eq [OF d] iso_day_eq [OF e] iso_date_def
    using ne [of "iso_year (ymd_year ?t)" "iso_year (ymd_year ?u)"]
      ne [of "iso_two (ymd_month ?t)" "iso_two (ymd_month ?u)"]
      iso_year_less_iff [of "ymd_year ?t" "ymd_year ?u"] iso_year_less_iff [of "ymd_year ?u" "ymd_year ?t"]
      iso_two_less_iff [of "ymd_month ?t" "ymd_month ?u"] iso_two_less_iff [of "ymd_month ?u" "ymd_month ?t"]
      iso_two_less_iff [of "ymd_day ?t" "ymd_day ?u"] y t u len
    by (auto simp: append_less_append ymd_less_def)
  also have "\<dots> \<longleftrightarrow> d < e" by (rule day_less_iff [symmetric])
  finally show ?thesis .
qed

lemma iso_day_le_iff: "plain_day d \<Longrightarrow> plain_day e \<Longrightarrow> iso_day d \<le> iso_day e \<longleftrightarrow> d \<le> e"
  using iso_day_less_iff [of e d] by (simp add: not_less [symmetric])

subsection \<open>Instants, the plant's zone, days of the week\<close>

type_synonym instant = int

abbreviation minute_ms :: int where "minute_ms \<equiv> 60000"
abbreviation hour_ms :: int where "hour_ms \<equiv> 3600000"
abbreviation day_ms :: int where "day_ms \<equiv> 86400000"
abbreviation ist_offset_ms :: int where "ist_offset_ms \<equiv> 19800000"

text \<open>The day and the minute of the day that a clock in the plant shows.\<close>

definition ist_day :: "instant \<Rightarrow> int" where
  "ist_day t = (t + ist_offset_ms) div day_ms"

definition ist_minute :: "instant \<Rightarrow> int" where
  "ist_minute t = (t + ist_offset_ms) mod day_ms div minute_ms"

text \<open>The instant of \<open>new Date(date + "Thh:mm:00.000+05:30")\<close> for the day \<open>d\<close> and the minute \<open>m\<close>.\<close>

definition ist_instant :: "int \<Rightarrow> int \<Rightarrow> instant" where
  "ist_instant d m = d * day_ms + m * minute_ms - ist_offset_ms"

text \<open>\<open>getUTCDay()\<close> of a day (0 is Sunday); 1970-01-01 was a Thursday.\<close>

definition week_day :: "int \<Rightarrow> int" where
  "week_day d = (d + 4) mod 7"

lemma ist_minute_range: "0 \<le> ist_minute t" "ist_minute t < 1440"
proof -
  have "0 \<le> (t + ist_offset_ms) mod day_ms" "(t + ist_offset_ms) mod day_ms < day_ms" by simp_all
  then show "0 \<le> ist_minute t" "ist_minute t < 1440" unfolding ist_minute_def by linarith+
qed

lemma ist_split: "ist_instant (ist_day t) (ist_minute t) \<le> t \<and> t < ist_instant (ist_day t) (ist_minute t) + minute_ms"
proof -
  let ?x = "t + ist_offset_ms"
  have "?x = ?x div day_ms * day_ms + ?x mod day_ms" by simp
  moreover have "minute_ms * (?x mod day_ms div minute_ms) \<le> ?x mod day_ms
    \<and> ?x mod day_ms \<le> minute_ms * (?x mod day_ms div minute_ms) + (minute_ms - 1)"
    by (rule div_bounds) simp
  ultimately show ?thesis unfolding ist_instant_def ist_day_def ist_minute_def by linarith
qed

lemma ist_clock:
  assumes "0 \<le> m" "m < 1440" "0 \<le> s" "s < minute_ms"
  shows "ist_day (ist_instant d m + s) = d" "ist_minute (ist_instant d m + s) = m"
proof -
  have x: "ist_instant d m + s + ist_offset_ms = day_ms * d + (m * minute_ms + s)"
    by (simp add: ist_instant_def)
  have r: "0 \<le> m * minute_ms + s" "m * minute_ms + s < day_ms" using assms by simp_all
  show "ist_day (ist_instant d m + s) = d"
    unfolding ist_day_def x by (rule int_div_pos_eq [OF refl r])
  have "(day_ms * d + (m * minute_ms + s)) mod day_ms = m * minute_ms + s"
    by (rule int_mod_pos_eq [OF refl r])
  moreover have "(m * minute_ms + s) div minute_ms = m"
    using assms by (intro int_div_pos_eq [of _ _ _ s]) auto
  ultimately show "ist_minute (ist_instant d m + s) = m" unfolding ist_minute_def x by simp
qed

lemma ist_instant_le:
  assumes m: "0 \<le> m" "m < 1440"
  shows "ist_instant d m \<le> t \<longleftrightarrow> d < ist_day t \<or> d = ist_day t \<and> m \<le> ist_minute t"
proof -
  have s: "ist_instant (ist_day t) (ist_minute t) \<le> t"
    "t < ist_instant (ist_day t) (ist_minute t) + minute_ms" using ist_split by simp_all
  note r = ist_minute_range [of t]
  consider "d < ist_day t" | "d = ist_day t" | "ist_day t < d" by linarith
  then show ?thesis
  proof cases
    case 1
    then have "ist_instant d m \<le> ist_instant (ist_day t) (ist_minute t)"
      using m r by (simp add: ist_instant_def)
    with 1 s show ?thesis by simp
  next
    case 2
    with s show ?thesis by (auto simp: ist_instant_def)
  next
    case 3
    then have "ist_instant (ist_day t) (ist_minute t) + minute_ms \<le> ist_instant d m"
      using m r by (simp add: ist_instant_def)
    with 3 s show ?thesis by auto
  qed
qed

lemma week_day_range: "0 \<le> week_day d \<and> week_day d < 7"
  by (simp add: week_day_def)

end
