(* ===== verification/Production_Session.thy ===== *)
theory Production_Session
  imports JS_Number JS_Date
begin

section \<open>Production sessions: shifts, references, output\<close>

text \<open>
  \<^verbatim>\<open>packages/db/src/production-session-domain.ts\<close>: the shift a clock instant belongs to, the instant a
  shift ends, the operational status of a session, its human-readable reference, and the
  pieces it produced by machine counter or by weight. An invalid \<open>Date\<close> is \<open>None\<close>; a thrown
  error is \<open>Inl\<close> with its message. Weights are binary64 numbers.
\<close>

subsection \<open>Data\<close>

datatype measurement_method = Counter | Weight

datatype session_status = SessionClosed | SessionOpen

datatype operational_status = OpClosed | OpClosingRequired | OpOpen

record shift_context =
  sc_production_date :: string
  sc_shift :: string

record production_context =
  job_card_number :: string
  machine_number :: string
  option_number :: string
  part_code :: string
  setup_number :: string

record previous_production_session = production_context +
  end_count :: "jsnum option"
  measurement_method_of :: measurement_method
  session_status_of :: session_status

record shift_end_input =
  se_production_date :: string
  se_floor_code :: string
  se_shift :: string

datatype session_output_input =
  CounterInput (ci_end: jsnum) (ci_rejected: jsnum) (ci_start: jsnum)
| WeightInput (wi_crates: jsnum) (wi_crate_kg: jsnum) (wi_gross_kg: jsnum) (wi_piece_g: jsnum)
    (wi_rejected: jsnum)

record session_output =
  good_pieces :: jsnum
  net_weight_kg :: "jsnum option"
  rejected_pieces :: jsnum
  total_pieces :: jsnum

subsection \<open>Operations\<close>

definition non_negative_integer :: "jsnum \<Rightarrow> string \<Rightarrow> jsnum js_result" where
  "non_negative_integer value label =
     (if \<not> is_safe_integer value \<or> num_lt value (Fin 0)
      then throw (label @ '' must be a non-negative whole number.'')
      else return value)"

definition production_downtime_end_outcome :: "string \<Rightarrow> string js_result" where
  "production_downtime_end_outcome value =
     (if value = ''resolved'' \<or> value = ''shift_end_unresolved'' then return value
      else throw ''A valid downtime closure outcome is required.'')"

definition assert_production_session_can_close :: "bool \<Rightarrow> unit js_result" where
  "assert_production_session_can_close has_open_downtime =
     (if has_open_downtime
      then throw ''Close the open downtime before ending the production session.''
      else return ())"

text \<open>\<open>Intl.DateTimeFormat("en-CA", ...)\<close> prints the year without padding and, before the year 1,
  the year of the era.\<close>

definition intl_year :: "int \<Rightarrow> string" where
  "intl_year y = show_nat (nat (if 0 < y then y else 1 - y))"

definition plant_date :: "instant \<Rightarrow> string" where
  "plant_date t = (let d = ymd_of_day (ist_day t) in
     intl_year (ymd_year d) @ ''-'' @ iso_two (ymd_month d) @ ''-'' @ iso_two (ymd_day d))"

definition local_production_clock :: "instant option \<Rightarrow> (string \<times> int) js_result" where
  "local_production_clock i = (case i of
       None \<Rightarrow> throw ''Production time is invalid.''
     | Some t \<Rightarrow> return (plant_date t, ist_minute t))"

definition previous_date :: "string \<Rightarrow> string js_result" where
  "previous_date date = (case parse_day date of
       None \<Rightarrow> throw ''Invalid time value'' | Some d \<Rightarrow> return (iso_day (d - 1)))"

definition next_date :: "string \<Rightarrow> string js_result" where
  "next_date date = (case parse_day date of
       None \<Rightarrow> throw ''Invalid time value'' | Some d \<Rightarrow> return (iso_day (d + 1)))"

definition general_floors :: "string list" where
  "general_floors = [''conventional'', ''conventional-02'', ''forging'']"

text \<open>\<open>new Date(date + "Thh:mm:00.000+05:30")\<close> with \<open>m\<close> minutes past midnight.\<close>

definition plant_instant :: "string \<Rightarrow> int \<Rightarrow> instant option" where
  "plant_instant date m = map_option (\<lambda>d. ist_instant d m) (parse_day date)"

text \<open>The names every object literal inherits: indexing with one of them finds a value that is
  not a shift end, and the date built from it is invalid.\<close>

definition object_prototype_keys :: "string list" where
  "object_prototype_keys = [''constructor'', ''__defineGetter__'', ''__defineSetter__'',
     ''hasOwnProperty'', ''__lookupGetter__'', ''__lookupSetter__'', ''isPrototypeOf'',
     ''propertyIsEnumerable'', ''toString'', ''valueOf'', ''__proto__'', ''toLocaleString'']"

definition production_shift_end_instant :: "shift_end_input \<Rightarrow> instant option js_result" where
  "production_shift_end_instant input =
     (if \<not> matches_date (se_production_date input)
      then throw ''Production date must use YYYY-MM-DD.''
      else let floor = norm_key (se_floor_code input); shift = se_shift input in
        if floor = ''cnc'' then
          bind_result (next_date (se_production_date input)) (\<lambda>next.
            if shift = ''A'' then return (plant_instant (se_production_date input) (14 * 60))
            else if shift = ''B'' then return (plant_instant (se_production_date input) (22 * 60))
            else if shift = ''C'' then return (plant_instant next (6 * 60))
            else if shift \<in> set object_prototype_keys then return None
            else throw ''A valid CNC production shift is required.'')
        else if floor \<in> set general_floors \<and> shift = ''General''
        then return (plant_instant (se_production_date input) (20 * 60))
        else throw ''A valid Production Floor shift is required.'')"

definition production_session_operational_status ::
  "shift_end_input \<Rightarrow> session_status \<Rightarrow> instant option \<Rightarrow> operational_status js_result" where
  "production_session_operational_status input status i =
     (if status = SessionClosed then return OpClosed
      else case i of None \<Rightarrow> throw ''Production time is invalid.''
      | Some t \<Rightarrow> bind_result (production_shift_end_instant input) (\<lambda>e.
          return (case e of None \<Rightarrow> OpOpen
            | Some e' \<Rightarrow> if e' \<le> t then OpClosingRequired else OpOpen)))"

definition production_shift_at ::
  "string \<Rightarrow> instant option \<Rightarrow> shift_context option js_result" where
  "production_shift_at floor_code i = (let floor = norm_key floor_code in
     bind_result (local_production_clock i) (\<lambda>(date, minutes).
       if floor = ''cnc'' then
         if 6 * 60 \<le> minutes \<and> minutes < 14 * 60
         then return (Some \<lparr>sc_production_date = date, sc_shift = ''A''\<rparr>)
         else if 14 * 60 \<le> minutes \<and> minutes < 22 * 60
         then return (Some \<lparr>sc_production_date = date, sc_shift = ''B''\<rparr>)
         else bind_result (if minutes < 6 * 60 then previous_date date else return date)
           (\<lambda>d. return (Some \<lparr>sc_production_date = d, sc_shift = ''C''\<rparr>))
       else if floor \<in> set general_floors \<and> 8 * 60 + 30 \<le> minutes \<and> minutes < 20 * 60
       then return (Some \<lparr>sc_production_date = date, sc_shift = ''General''\<rparr>)
       else return None))"

definition num_to_int :: "jsnum \<Rightarrow> int" where
  "num_to_int a = (case a of Fin x \<Rightarrow> \<lfloor>x\<rfloor> | _ \<Rightarrow> 0)"

definition format_production_session_reference :: "jsnum \<Rightarrow> string \<Rightarrow> string \<Rightarrow> string js_result" where
  "format_production_session_reference daily_sequence machine production_date =
     (if \<not> is_safe_integer daily_sequence \<or> num_lt daily_sequence (Fin 1)
      then throw ''Daily session sequence must be a positive whole number.''
      else let m = to_upper (trim machine) in
        if m = [] then throw ''Machine number is required.''
        else if \<not> matches_date production_date then throw ''Production date must use YYYY-MM-DD.''
        else return (m @ ''-'' @ filter (\<lambda>c. c \<noteq> CHR ''-'') production_date @ ''-''
               @ pad_start 2 (CHR ''0'') (show_int (num_to_int daily_sequence))))"

text \<open>The guards and the arithmetic of the weight branch, in the order of the code.\<close>

definition weight_total :: "session_output_input \<Rightarrow> (jsnum \<times> jsnum) js_result" where
  "weight_total input =
     (if \<not> num_le (Fin 0) (wi_gross_kg input)
      then throw ''Gross produced weight cannot be negative.''
      else if \<not> num_le (Fin 0) (wi_crates input) \<or> \<not> is_safe_integer (wi_crates input)
      then throw ''Crates used must be a non-negative whole number.''
      else if \<not> num_le (Fin 0) (wi_crate_kg input) then throw ''Crate weight cannot be negative.''
      else if \<not> num_lt (Fin 0) (wi_piece_g input)
      then throw ''Piece weight must be greater than zero.''
      else
        let net_g = num_max (num_sub (num_round (num_mul (wi_gross_kg input) (Fin 1000)))
               (num_mul (wi_crates input) (num_round (num_mul (wi_crate_kg input) (Fin 1000)))))
               (Fin 0)
        in return (num_div net_g (Fin 1000),
             num_floor (num_div (num_mul net_g (Fin 1000))
               (num_round (num_mul (wi_piece_g input) (Fin 1000))))))"

fun output_rejected :: "session_output_input \<Rightarrow> jsnum" where
  "output_rejected (CounterInput e r s) = r"
| "output_rejected (WeightInput c k g p r) = r"

definition counter_total :: "jsnum \<Rightarrow> jsnum \<Rightarrow> jsnum js_result" where
  "counter_total start stop =
     bind_result (non_negative_integer start ''Start count'') (\<lambda>s.
     bind_result (non_negative_integer stop ''End count'') (\<lambda>e.
       if num_lt e s then throw ''End count cannot be lower than start count.''
       else return (num_sub e s)))"

definition calculate_production_session_output :: "session_output_input \<Rightarrow> session_output js_result" where
  "calculate_production_session_output input =
     bind_result (non_negative_integer (output_rejected input) ''Rejected pieces'') (\<lambda>rejected.
     bind_result
       (case input of
          CounterInput e r s \<Rightarrow> bind_result (counter_total s e) (\<lambda>t. return (None, t))
        | WeightInput _ _ _ _ _ \<Rightarrow> bind_result (weight_total input) (\<lambda>(kg, t). return (Some kg, t)))
       (\<lambda>(kg, total).
         if num_lt total rejected
         then throw ''Rejected pieces cannot exceed total produced pieces.''
         else return \<lparr>good_pieces = num_sub total rejected, net_weight_kg = kg,
                      rejected_pieces = rejected, total_pieces = total\<rparr>))"

definition production_session_efficiency :: "jsnum \<Rightarrow> jsnum \<Rightarrow> jsnum option" where
  "production_session_efficiency target produced =
     (if \<not> is_finite target \<or> num_le target (Fin 0) \<or> \<not> is_finite produced \<or> num_lt produced (Fin 0)
      then None else Some (num_div produced target))"

definition context_keys :: "('a production_context_scheme \<Rightarrow> string) list" where
  "context_keys = [job_card_number, machine_number, option_number, part_code, setup_number]"

definition suggested_counter_start ::
  "production_context \<Rightarrow> previous_production_session option \<Rightarrow> jsnum option" where
  "suggested_counter_start current previous = (case previous of None \<Rightarrow> None
     | Some p \<Rightarrow>
         if session_status_of p \<noteq> SessionClosed \<or> measurement_method_of p \<noteq> Counter
            \<or> end_count p = None
         then None
         else if list_all2 (\<lambda>key key'. norm_key (key current) = norm_key (key' p))
                   context_keys context_keys
         then end_count p else None)"


subsection \<open>The clock and the shifts\<close>

text \<open>Instants in the years 1000 to 9999 of the plant's calendar.\<close>

definition clock_range :: "instant \<Rightarrow> bool" where
  "clock_range t \<longleftrightarrow> - 354285 \<le> ist_day t \<and> ist_day t \<le> 2932895"

lemma show_nat_length: "10 ^ k \<le> n \<Longrightarrow> k < length (show_nat n)"
proof -
  assume n: "10 ^ k \<le> n"
  have "list_all is_digit (show_nat n)" by (simp add: list_all_iff show_nat_digits)
  then have "int n < 10 ^ length (show_nat n)"
    using read_nat_bounds [of "show_nat n"] by simp
  then have "(10 :: nat) ^ k < 10 ^ length (show_nat n)"
    using n by (metis (mono_tags, lifting) le_less_trans of_nat_less_iff of_nat_numeral of_nat_power)
  then show ?thesis by simp
qed

lemma clock_range_year:
  assumes "clock_range t"
  shows "1000 \<le> ymd_year (ymd_of_day (ist_day t))" "ymd_year (ymd_of_day (ist_day t)) \<le> 9999"
proof -
  let ?d = "ist_day t"
  have p: "- 354285 \<le> ?d" "plain_day ?d" using assms by (auto simp: clock_range_def plain_day_def)
  show "ymd_year (ymd_of_day ?d) \<le> 9999" using plain_day_year [OF p(2)] by simp
  have y: "ymd_year (ymd_of_day ?d) = year_from_day ?d"
    by (simp add: ymd_of_day_def Let_def split: prod.splits)
  have "day_from_year 1000 = - 354285" by (simp add: day_from_year_def)
  then show "1000 \<le> ymd_year (ymd_of_day ?d)"
    using p(1) year_from_day_spec(2) [of ?d] day_from_year_mono [of "year_from_day ?d + 1" 1000]
    unfolding y by (cases "1000 \<le> year_from_day ?d") auto
qed

lemma clock_range_plain:
  "clock_range t \<Longrightarrow> plain_day (ist_day t) \<and> plain_day (ist_day t - 1) \<and> plain_day (ist_day t + 1)"
  by (auto simp: clock_range_def plain_day_def)

lemma plant_date_iso:
  assumes "clock_range t"
  shows "plant_date t = iso_day (ist_day t)"
proof -
  let ?y = "ymd_year (ymd_of_day (ist_day t))"
  note y = clock_range_year [OF assms]
  have "3 < length (show_nat (nat ?y))" using y by (intro show_nat_length) (simp add: le_nat_iff)
  then have "iso_year ?y = intl_year ?y"
    using y by (simp add: iso_year_def intl_year_def pad_start_def)
  then show ?thesis
    using clock_range_plain [OF assms] by (simp add: plant_date_def iso_day_eq iso_date_def Let_def)
qed

lemma shift_dates [simp]:
  "plain_day d \<Longrightarrow> previous_date (iso_day d) = Inr (iso_day (d - 1))"
  "plain_day d \<Longrightarrow> next_date (iso_day d) = Inr (iso_day (d + 1))"
  "plain_day d \<Longrightarrow> plant_instant (iso_day d) m = Some (ist_instant d m)"
  by (simp_all add: previous_date_def next_date_def plant_instant_def)

text \<open>The two schedules of the plant: eight-hour shifts on the CNC floor, one day shift elsewhere.\<close>

definition cnc_shift_of :: "instant \<Rightarrow> int \<times> string" where
  "cnc_shift_of t = (let d = ist_day t; m = ist_minute t in
     if 360 \<le> m \<and> m < 840 then (d, ''A'') else if 840 \<le> m \<and> m < 1320 then (d, ''B'')
     else (if m < 360 then d - 1 else d, ''C''))"

definition cnc_shift_end :: "int \<times> string \<Rightarrow> instant" where
  "cnc_shift_end c = (if snd c = ''A'' then ist_instant (fst c) 840
     else if snd c = ''B'' then ist_instant (fst c) 1320 else ist_instant (fst c + 1) 360)"

definition general_shift_of :: "instant \<Rightarrow> int option" where
  "general_shift_of t = (if 510 \<le> ist_minute t \<and> ist_minute t < 1200 then Some (ist_day t) else None)"

lemma shift_at_cnc:
  assumes "norm_key f = ''cnc''" "clock_range t"
  shows "production_shift_at f (Some t) = Inr (Some
    \<lparr>sc_production_date = iso_day (fst (cnc_shift_of t)), sc_shift = snd (cnc_shift_of t)\<rparr>)"
  using assms clock_range_plain [OF assms(2)]
  by (simp add: production_shift_at_def local_production_clock_def plant_date_iso cnc_shift_of_def Let_def)

lemma shift_end_cnc:
  assumes "norm_key f = ''cnc''" "plain_day d" "plain_day (d + 1)" "s \<in> {''A'', ''B'', ''C''}"
  shows "production_shift_end_instant \<lparr>se_production_date = iso_day d, se_floor_code = f, se_shift = s\<rparr>
    = Inr (Some (cnc_shift_end (d, s)))"
  using assms by (auto simp: production_shift_end_instant_def cnc_shift_end_def Let_def)

lemma general_not_cnc: "f \<in> set general_floors \<Longrightarrow> f \<noteq> ''cnc''"
  by (auto simp: general_floors_def)

lemma shift_at_general:
  assumes "norm_key f \<in> set general_floors" "clock_range t"
  shows "production_shift_at f (Some t) = Inr (map_option
    (\<lambda>d. \<lparr>sc_production_date = iso_day d, sc_shift = ''General''\<rparr>) (general_shift_of t))"
  using assms general_not_cnc [OF assms(1)]
  by (simp add: production_shift_at_def local_production_clock_def plant_date_iso general_shift_of_def Let_def)

lemma shift_end_general:
  assumes "norm_key f \<in> set general_floors" "plain_day d"
  shows "production_shift_end_instant
    \<lparr>se_production_date = iso_day d, se_floor_code = f, se_shift = ''General''\<rparr> = Inr (Some (ist_instant d 1200))"
  using assms general_not_cnc [OF assms(1)] by (simp add: production_shift_end_instant_def Let_def)

text \<open>
  The contract between a schedule and the sessions opened under it: a shift found for an
  instant ends after it and began at most \<open>span\<close> before it, and it stays the shift until its end.
\<close>

locale shift_schedule =
  fixes shift_of :: "instant \<Rightarrow> 'c option" and shift_end :: "'c \<Rightarrow> instant" and span :: int
  assumes ends_later: "shift_of t = Some c \<Longrightarrow> t < shift_end c"
    and began_within: "shift_of t = Some c \<Longrightarrow> shift_end c - span \<le> t"
    and covers: "shift_of t = Some c \<Longrightarrow> shift_end c - span \<le> u \<Longrightarrow> u < shift_end c \<Longrightarrow> shift_of u = Some c"
begin

lemma same_until_end:
  assumes "shift_of t = Some c" "t \<le> u" "u < shift_end c"
  shows "shift_of u = Some c"
  using covers [OF assms(1) _ assms(3)] began_within [OF assms(1)] assms(2) by linarith

lemma closing_iff_left:
  assumes "shift_of t = Some c" "t \<le> u"
  shows "shift_end c \<le> u \<longleftrightarrow> shift_of u \<noteq> Some c"
  using same_until_end [OF assms] ends_later [of u c] by linarith

end

lemma ist_instant_split:
  assumes "0 \<le> m" "m < 1440" "0 \<le> m'" "m' < 1440"
  shows "ist_instant d m \<le> t \<and> t < ist_instant d m' \<longleftrightarrow>
    d = ist_day t \<and> m \<le> ist_minute t \<and> ist_minute t < m'"
proof -
  have "t < ist_instant d m' \<longleftrightarrow> \<not> (d < ist_day t \<or> d = ist_day t \<and> m' \<le> ist_minute t)"
    using ist_instant_le [OF assms(3,4), of d t] by (simp only: not_le [symmetric])
  then show ?thesis using ist_instant_le [OF assms(1,2), of d t] by auto
qed

lemma ist_instant_night:
  "ist_instant d 1320 \<le> t \<and> t < ist_instant (d + 1) 360 \<longleftrightarrow>
    d = ist_day t \<and> 1320 \<le> ist_minute t \<or> d = ist_day t - 1 \<and> ist_minute t < 360"
proof -
  have "t < ist_instant (d + 1) 360 \<longleftrightarrow> \<not> (d + 1 < ist_day t \<or> d + 1 = ist_day t \<and> 360 \<le> ist_minute t)"
    using ist_instant_le [of 360 "d + 1" t] by (simp only: not_le [symmetric])
  then show ?thesis using ist_instant_le [of 1320 d t] ist_minute_range [of t] by auto
qed

lemma cnc_shift_of_iff:
  "cnc_shift_of t = (d, ''A'') \<longleftrightarrow> d = ist_day t \<and> 360 \<le> ist_minute t \<and> ist_minute t < 840"
  "cnc_shift_of t = (d, ''B'') \<longleftrightarrow> d = ist_day t \<and> 840 \<le> ist_minute t \<and> ist_minute t < 1320"
  "cnc_shift_of t = (d, ''C'') \<longleftrightarrow>
     d = ist_day t \<and> 1320 \<le> ist_minute t \<or> d = ist_day t - 1 \<and> ist_minute t < 360"
  by (auto simp: cnc_shift_of_def Let_def)

lemma cnc_shift_start:
  "cnc_shift_end (d, ''A'') - 8 * hour_ms = ist_instant d 360"
  "cnc_shift_end (d, ''B'') - 8 * hour_ms = ist_instant d 840"
  "cnc_shift_end (d, ''C'') - 8 * hour_ms = ist_instant d 1320"
  by (simp_all add: cnc_shift_end_def ist_instant_def)

lemma cnc_shift_bounds:
  assumes "s \<in> {''A'', ''B'', ''C''}"
  shows "cnc_shift_of t = (d, s) \<longleftrightarrow> cnc_shift_end (d, s) - 8 * hour_ms \<le> t \<and> t < cnc_shift_end (d, s)"
proof -
  have e: "cnc_shift_end (d, ''A'') = ist_instant d 840" "cnc_shift_end (d, ''B'') = ist_instant d 1320"
    "cnc_shift_end (d, ''C'') = ist_instant (d + 1) 360" by (simp_all add: cnc_shift_end_def)
  have "?thesis" if "s = ''A''"
    unfolding that cnc_shift_start cnc_shift_of_iff unfolding e using ist_instant_split [of 360 840 d t] by simp
  moreover have "?thesis" if "s = ''B''"
    unfolding that cnc_shift_start cnc_shift_of_iff unfolding e using ist_instant_split [of 840 1320 d t] by simp
  moreover have "?thesis" if "s = ''C''"
    unfolding that cnc_shift_start cnc_shift_of_iff unfolding e ist_instant_night by simp
  ultimately show ?thesis using assms by blast
qed

lemma cnc_shift_names: "snd (cnc_shift_of t) \<in> {''A'', ''B'', ''C''}"
  by (simp add: cnc_shift_of_def Let_def)

interpretation cnc: shift_schedule "\<lambda>t. Some (cnc_shift_of t)" cnc_shift_end "8 * hour_ms"
proof
  fix t u :: int and c :: "int \<times> string"
  assume c: "Some (cnc_shift_of t) = Some c"
  then have n: "snd c \<in> {''A'', ''B'', ''C''}" using cnc_shift_names by auto
  note b = cnc_shift_bounds [OF n, of _ "fst c"]
  show "t < cnc_shift_end c" "cnc_shift_end c - 8 * hour_ms \<le> t" using c b [of t] by auto
  show "Some (cnc_shift_of u) = Some c" if "cnc_shift_end c - 8 * hour_ms \<le> u" "u < cnc_shift_end c"
    using that b [of u] by simp
qed

interpretation general: shift_schedule general_shift_of "\<lambda>d. ist_instant d 1200" "690 * minute_ms"
proof
  fix t u d :: int
  have len: "ist_instant d 1200 - 690 * minute_ms = ist_instant d 510" by (simp add: ist_instant_def)
  have b: "general_shift_of v = Some d \<longleftrightarrow> ist_instant d 510 \<le> v \<and> v < ist_instant d 1200" for v
    using ist_instant_split [of 510 1200 d v] by (auto simp: general_shift_of_def)
  assume "general_shift_of t = Some d"
  then show "t < ist_instant d 1200" "ist_instant d 1200 - 690 * minute_ms \<le> t" unfolding len using b by auto
  show "general_shift_of u = Some d" if "ist_instant d 1200 - 690 * minute_ms \<le> u" "u < ist_instant d 1200"
    using that b len by simp
qed

subsection \<open>Properties\<close>

abbreviation shift_end_of :: "string \<Rightarrow> shift_context \<Rightarrow> instant option js_result" where
  "shift_end_of f c \<equiv> production_shift_end_instant
     \<lparr>se_production_date = sc_production_date c, se_floor_code = f, se_shift = sc_shift c\<rparr>"

abbreviation session_status_at :: "string \<Rightarrow> shift_context \<Rightarrow> instant \<Rightarrow> operational_status js_result" where
  "session_status_at f c u \<equiv> production_session_operational_status
     \<lparr>se_production_date = sc_production_date c, se_floor_code = f, se_shift = sc_shift c\<rparr> SessionOpen (Some u)"

lemma cnc_shift_plain:
  assumes "clock_range t"
  shows "plain_day (fst (cnc_shift_of t))" "plain_day (fst (cnc_shift_of t) + 1)"
  using assms by (auto simp: cnc_shift_of_def clock_range_def plain_day_def Let_def)

lemma general_shift_plain: "clock_range t \<Longrightarrow> general_shift_of t = Some d \<Longrightarrow> plain_day d"
  using clock_range_plain by (auto simp: general_shift_of_def split: if_splits)

lemma shift_of_floor:
  assumes "production_shift_at f (Some t) = Inr (Some c)" "clock_range t"
  shows "norm_key f = ''cnc'' \<or> norm_key f \<in> set general_floors"
  using assms by (auto simp: production_shift_at_def Let_def js_result split: if_splits)

text \<open>C15: On the CNC floor every instant of the clock falls in exactly one eight-hour shift: the
  shift found for it has an end after it and a start not after it, and an instant is
  attributed to that shift exactly when it lies between the two.\<close>

theorem cnc_shift_partitions_time:
  assumes "norm_key f = ''cnc''" "clock_range t"
  shows "\<exists>c e. production_shift_at f (Some t) = Inr (Some c) \<and> shift_end_of f c = Inr (Some e)
    \<and> e - 8 * hour_ms \<le> t \<and> t < e
    \<and> (\<forall>u. clock_range u \<longrightarrow>
         (production_shift_at f (Some u) = Inr (Some c)) = (e - 8 * hour_ms \<le> u \<and> u < e))"
proof -
  obtain d s where ds: "cnc_shift_of t = (d, s)" by fastforce
  let ?c = "\<lparr>sc_production_date = iso_day d, sc_shift = s\<rparr>"
  have s: "s \<in> {''A'', ''B'', ''C''}" using cnc_shift_names [of t] ds by simp
  have d: "plain_day d" "plain_day (d + 1)" using cnc_shift_plain [OF assms(2)] ds by simp_all
  have "(production_shift_at f (Some u) = Inr (Some ?c)) = (cnc_shift_of u = (d, s))" if "clock_range u" for u
    using cnc_shift_plain [OF that] d by (cases "cnc_shift_of u") (auto simp: shift_at_cnc [OF assms(1) that] iso_day_inj)
  then show ?thesis
    using shift_end_cnc [OF assms(1) d s] cnc_shift_bounds [OF s, of _ d] ds assms(2)
    by (intro exI [of _ ?c] exI [of _ "cnc_shift_end (d, s)"]) auto
qed

theorem cnc_shift_partitions_time_witness:
  "\<exists>c e. production_shift_at '' CNC'' (Some 1767225600000) = Inr (Some c) \<and> shift_end_of '' CNC'' c = Inr (Some e)
    \<and> e - 8 * hour_ms \<le> 1767225600000 \<and> 1767225600000 < e
    \<and> (\<forall>u. clock_range u \<longrightarrow>
         (production_shift_at '' CNC'' (Some u) = Inr (Some c)) = (e - 8 * hour_ms \<le> u \<and> u < e))"
  by (rule cnc_shift_partitions_time; code_simp)

text \<open>A session opened in the shift the clock gives is open until the end of that shift and
  requires closing from then on, on every floor: at each later instant its status is
  closing-required exactly when the clock no longer gives that shift.\<close>

theorem session_status_tracks_shift:
  assumes found: "production_shift_at f (Some t) = Inr (Some c)"
    and range: "clock_range t" "clock_range u" and later: "t \<le> u"
  shows "session_status_at f c u =
    Inr (if production_shift_at f (Some u) = Inr (Some c) then OpOpen else OpClosingRequired)"
  using shift_of_floor [OF found range(1)]
proof
  assume f: "norm_key f = ''cnc''"
  obtain d s where ds: "cnc_shift_of t = (d, s)" "cnc_shift_of t = (d, s)" by fastforce
  have c: "c = \<lparr>sc_production_date = iso_day d, sc_shift = s\<rparr>"
    using found ds by (simp add: shift_at_cnc [OF f range(1)])
  have s: "s \<in> {''A'', ''B'', ''C''}" using cnc_shift_names [of t] ds by simp
  have d: "plain_day d" "plain_day (d + 1)" using cnc_shift_plain [OF range(1)] ds by simp_all
  have "(production_shift_at f (Some u) = Inr (Some c)) = (Some (cnc_shift_of u) = Some (d, s))"
    using cnc_shift_plain [OF range(2)] d
    by (cases "cnc_shift_of u") (auto simp: shift_at_cnc [OF f range(2)] iso_day_inj c)
  then show ?thesis using cnc.closing_iff_left [of t "(d, s)" u] ds later
    by (auto simp: production_session_operational_status_def shift_end_cnc [OF f d s] c)
next
  assume f: "norm_key f \<in> set general_floors"
  obtain d where d: "general_shift_of t = Some d" and c: "c = \<lparr>sc_production_date = iso_day d, sc_shift = ''General''\<rparr>"
    using found by (auto simp: shift_at_general [OF f range(1)])
  note p = general_shift_plain [OF range(1) d]
  have "(production_shift_at f (Some u) = Inr (Some c)) = (general_shift_of u = Some d)"
    using general_shift_plain [OF range(2)] p
    by (cases "general_shift_of u") (auto simp: shift_at_general [OF f range(2)] iso_day_inj c)
  then show ?thesis using general.closing_iff_left [OF d later]
    by (auto simp: production_session_operational_status_def shift_end_general [OF f p] c)
qed

theorem session_status_tracks_shift_witness:
  "session_status_at ''forging'' \<lparr>sc_production_date = ''2026-01-01'', sc_shift = ''General''\<rparr> 1767277800000 =
    Inr (if production_shift_at ''forging'' (Some 1767277800000) =
           Inr (Some \<lparr>sc_production_date = ''2026-01-01'', sc_shift = ''General''\<rparr>)
         then OpOpen else OpClosingRequired)"
  by (rule session_status_tracks_shift [of _ 1767243600000]; code_simp)

text \<open>A counter session's output is exact: it is refused exactly when a count is not a
  non-negative safe integer, the counter runs backwards or the rejects exceed the pieces
  made; otherwise good and rejected pieces add up to the difference of the counts.\<close>

theorem counter_output_exact:
  "calculate_production_session_output (CounterInput stop rejected start) =
     (if \<not> (is_safe_integer rejected \<and> num_le (Fin 0) rejected)
      then Inl ''Rejected pieces must be a non-negative whole number.''
      else if \<not> (is_safe_integer start \<and> num_le (Fin 0) start)
      then Inl ''Start count must be a non-negative whole number.''
      else if \<not> (is_safe_integer stop \<and> num_le (Fin 0) stop)
      then Inl ''End count must be a non-negative whole number.''
      else let total = num_to_int stop - num_to_int start; bad = num_to_int rejected in
        if total < 0 then Inl ''End count cannot be lower than start count.''
        else if total < bad then Inl ''Rejected pieces cannot exceed total produced pieces.''
        else Inr \<lparr>good_pieces = num_int (total - bad), net_weight_kg = None,
                  rejected_pieces = num_int bad, total_pieces = num_int total\<rparr>)"
proof -
  have guard: "non_negative_integer v l = (if \<not> (is_safe_integer v \<and> num_le (Fin 0) v)
      then Inl (l @ '' must be a non-negative whole number.'') else Inr v)" for v l
    by (cases v) (auto simp: non_negative_integer_def)
  have int: "\<exists>i. v = num_int i \<and> num_to_int v = i \<and> 0 \<le> i \<and> i \<le> 2 ^ 53 - 1"
    if "is_safe_integer v \<and> num_le (Fin 0) v" for v
    using that by (auto elim!: safe_integerE simp: num_to_int_def)
  show ?thesis
  proof (cases "(is_safe_integer rejected \<and> num_le (Fin 0) rejected) \<and>
      (is_safe_integer start \<and> num_le (Fin 0) start) \<and> (is_safe_integer stop \<and> num_le (Fin 0) stop)")
    case False
    then show ?thesis
      by (auto simp: calculate_production_session_output_def counter_total_def guard)
  next
    case True
    then obtain r a b where n: "rejected = num_int r" "start = num_int a" "stop = num_int b"
      "num_to_int rejected = r" "num_to_int start = a" "num_to_int stop = b"
      "0 \<le> r" "0 \<le> a" "0 \<le> b" "r \<le> 2 ^ 53 - 1" "a \<le> 2 ^ 53 - 1" "b \<le> 2 ^ 53 - 1"
      using int by metis
    have "a \<le> b \<Longrightarrow> num_sub stop start = num_int (b - a)" using n by (simp add: num_sub_int)
    moreover have "a \<le> b \<Longrightarrow> r \<le> b - a \<Longrightarrow> num_sub (num_int (b - a)) rejected = num_int (b - a - r)"
      using n num_sub_int [of "b - a" r] by simp
    moreover have "num_lt stop start = (b < a)" using n by simp
    moreover have "num_lt (num_int (b - a)) rejected = (b - a < r)"
      unfolding n(1) num_lt_Fin of_int_less_iff ..
    ultimately show ?thesis using True
      by (simp add: calculate_production_session_output_def counter_total_def guard n(4-6) Let_def)
         (simp add: n)
  qed
qed

text \<open>C16: A weighed session's output is exact for weights up to \<open>2 ^ 40\<close> grams: with the gross
  weight, the weight of one crate and the weight of one piece rounded to \<open>G\<close> grams, \<open>K\<close> grams
  and \<open>P\<close> milligrams, the pieces are the whole quotient of the net milligrams by \<open>P\<close>, whatever
  the binary64 rounding of the division; the rejects are refused when they exceed it.\<close>

theorem weight_output_exact:
  assumes pos: "0 \<le> g" "0 \<le> k" "0 < p" "0 \<le> n" "n \<le> 2 ^ 53 - 1" "0 \<le> r" "r \<le> 2 ^ 53 - 1"
    and grams: "num_round (num_mul (Fin g) (Fin 1000)) = num_int G"
      "num_round (num_mul (Fin k) (Fin 1000)) = num_int K"
      "num_round (num_mul (Fin p) (Fin 1000)) = num_int P"
    and range: "0 \<le> G" "G \<le> 2 ^ 40" "0 \<le> n * K" "n * K \<le> 2 ^ 40" "0 < P" "P \<le> 2 ^ 51"
  shows "calculate_production_session_output (WeightInput (num_int n) (Fin k) (Fin g) (Fin p) (num_int r)) =
    (let net = max (G - n * K) 0; pieces = (net * 1000) div P in
     if pieces < r then Inl ''Rejected pieces cannot exceed total produced pieces.''
     else Inr \<lparr>good_pieces = num_int (pieces - r), net_weight_kg = Some (num_div (num_int net) (Fin 1000)),
               rejected_pieces = num_int r, total_pieces = num_int pieces\<rparr>)"
proof -
  let ?net = "max (G - n * K) 0" and ?t = "(max (G - n * K) 0 * 1000) div P"
  have net: "0 \<le> ?net" "?net \<le> 2 ^ 40" using range by auto
  have nk: "num_mul (num_int n) (num_int K) = num_int (n * K)" using range by (intro num_mul_int) auto
  have "num_sub (num_int G) (num_int (n * K)) = num_int (G - n * K)" using range by (intro num_sub_int) auto
  moreover have "num_max (num_int i) (Fin 0) = num_int (max i 0)" for i by (auto simp: num_max_def max_def)
  ultimately have sub: "num_max (num_sub (num_int G) (num_int (n * K))) (Fin 0) = num_int ?net" by (simp only:)
  have bound: "\<bar>m * 1000\<bar> \<le> 2 ^ 53" "0 \<le> m * 1000" "m * 1000 \<le> 2 ^ 51" "m * 1000 \<le> 2 ^ 53" if "0 \<le> m" "m \<le> 2 ^ 40" for m :: int using that by simp_all
  have "num_mul (num_int ?net) (num_int 1000) = num_int (?net * 1000)" by (rule num_mul_int [OF bound(1) [OF net]])
  then have thousand: "num_mul (num_int ?net) (Fin 1000) = num_int (?net * 1000)" by (simp only: of_int_numeral)
  have "num_floor (fl (of_int (?net * 1000) / of_int P)) = num_int ?t"
    by (rule floor_fl_quotient [OF bound(2) [OF net] bound(3) [OF net] range(5,6)])
  moreover have "(of_int P :: rat) \<noteq> 0" using range by simp
  ultimately have pieces: "num_floor (num_div (num_int (?net * 1000)) (num_int P)) = num_int ?t"
    by (simp only: num_div.simps if_False)
  have t: "0 \<le> ?t" using bound(2) [OF net] range(5) by (simp only: pos_imp_zdiv_nonneg_iff)
  have "?t \<le> ?net * 1000" by (rule zdiv_le_self [OF bound(2) [OF net] range(5)])
  then have t': "?t \<le> 2 ^ 53" using bound(4) [OF net] by (rule order_trans)
  have weighed: "weight_total (WeightInput (num_int n) (Fin k) (Fin g) (Fin p) (num_int r)) =
      Inr (num_div (num_int ?net) (Fin 1000), num_int ?t)"
    unfolding weight_total_def Let_def session_output_input.sel grams nk sub thousand pieces
    using pos by simp
  have "\<not> num_lt (num_int r) (Fin 0)" using pos by simp
  then have rejected: "non_negative_integer (num_int r) l = Inr (num_int r)" for l
    using pos by (simp add: non_negative_integer_def del: is_safe_integer.simps)
  have "r \<le> ?t \<Longrightarrow> num_sub (num_int ?t) (num_int r) = num_int (?t - r)"
    using pos t t' by (intro num_sub_int) auto
  moreover have "num_lt (num_int ?t) (num_int r) = (?t < r)" unfolding num_lt_Fin of_int_less_iff ..
  ultimately show ?thesis
    by (simp add: calculate_production_session_output_def weighed rejected Let_def)
qed

theorem weight_output_exact_witness:
  "calculate_production_session_output (WeightInput (num_int 3) (Fin (3/2)) (Fin (251/2)) (Fin (5/2)) (num_int 7)) =
    (let net = max (125500 - 3 * 1500) 0; pieces = (net * 1000) div 2500 in
     if pieces < 7 then Inl ''Rejected pieces cannot exceed total produced pieces.''
     else Inr \<lparr>good_pieces = num_int (pieces - 7), net_weight_kg = Some (num_div (num_int net) (Fin 1000)),
               rejected_pieces = num_int 7, total_pieces = num_int pieces\<rparr>)"
  by (rule weight_output_exact)
    (simp_all del: num_round.simps)

lemma split_at_last_dash:
  assumes "xs @ CHR ''-'' # ys = xs' @ CHR ''-'' # ys'" "list_all is_digit ys" "list_all is_digit ys'"
  shows "xs = xs' \<and> ys = ys'"
proof -
  have dash: "\<not> is_digit (CHR ''-'')" by code_simp
  have tw: "takeWhile is_digit (rev (as @ CHR ''-'' # bs)) = rev bs" if "list_all is_digit bs" for as bs
    using that dash by (simp add: list_all_iff takeWhile_append)
  have "rev ys = rev ys'" using tw [OF assms(2), of xs] tw [OF assms(3), of xs'] assms(1) by simp
  then show ?thesis using assms(1) by simp
qed

lemma matches_date_digits:
  assumes "matches_date s"
  defines "f \<equiv> filter (\<lambda>c. c \<noteq> CHR ''-'') s"
  shows "length f = 8" "s = take 4 f @ ''-'' @ take 2 (drop 4 f) @ ''-'' @ drop 6 f"
proof -
  have "length s = 10" using assms by (simp add: matches_date_def)
  then obtain a b c d e g h i j k where s: "s = [a, b, c, d, e, g, h, i, j, k]"
    by (auto simp: eval_nat_numeral length_Suc_conv)
  have dash: "\<not> is_digit (CHR ''-'')" by code_simp
  have d: "is_digit a" "is_digit b" "is_digit c" "is_digit d" "is_digit g" "is_digit h" "is_digit j" "is_digit k"
    "e = CHR ''-''" "i = CHR ''-''"
    using assms(1) by (simp_all add: s matches_date_def slice_def)
  then have "f = [a, b, c, d, g, h, j, k]" using dash unfolding f_def s by auto
  then show "length f = 8" "s = take 4 f @ ''-'' @ take 2 (drop 4 f) @ ''-'' @ drop 6 f"
    using d by (simp_all add: s)
qed

lemma padded_digits: "0 \<le> i \<Longrightarrow> list_all is_digit (pad_start k (CHR ''0'') (show_int i))"
  using show_nat_digits [of _ "nat i"] by (auto simp: pad_start_def show_int_def list_all_iff is_digit_def)

text \<open>C17: Two sessions get the same reference only when they are on the same machine (up to case and
  surrounding space), on the same production date and have the same daily sequence number.\<close>

theorem session_reference_injective:
  assumes "format_production_session_reference n1 m1 d1 = Inr ref"
    "format_production_session_reference n2 m2 d2 = Inr ref"
  shows "to_upper (trim m1) = to_upper (trim m2) \<and> d1 = d2 \<and> n1 = n2"
proof -
  let ?f = "filter (\<lambda>c. c \<noteq> CHR ''-'')" and ?p = "pad_start 2 (CHR ''0'')"
  have parts: "\<exists>i. n = num_int i \<and> 0 \<le> i \<and> matches_date d \<and>
      ref = (to_upper (trim m) @ CHR ''-'' # ?f d) @ CHR ''-'' # ?p (show_int i)"
    if "format_production_session_reference n m d = Inr ref" for n m d
  proof -
    have "is_safe_integer n" "\<not> num_lt n (Fin 1)" "matches_date d"
      using that by (auto simp: format_production_session_reference_def Let_def split: if_splits)
    then obtain i where i: "n = num_int i" "0 \<le> i" by (auto elim!: safe_integerE)
    show ?thesis using that \<open>matches_date d\<close> i
      by (intro exI [of _ i])
        (auto simp: format_production_session_reference_def Let_def num_to_int_def split: if_splits)
  qed
  from parts [OF assms(1)] obtain i where i: "n1 = num_int i" "0 \<le> i" "matches_date d1"
    "ref = (to_upper (trim m1) @ CHR ''-'' # ?f d1) @ CHR ''-'' # ?p (show_int i)" by blast
  from parts [OF assms(2)] obtain j where j: "n2 = num_int j" "0 \<le> j" "matches_date d2"
    "ref = (to_upper (trim m2) @ CHR ''-'' # ?f d2) @ CHR ''-'' # ?p (show_int j)" by blast
  have eq: "to_upper (trim m1) @ CHR ''-'' # ?f d1 = to_upper (trim m2) @ CHR ''-'' # ?f d2
      \<and> ?p (show_int i) = ?p (show_int j)"
    using i j by (intro split_at_last_dash padded_digits) simp_all
  have "length (?f d1) = length (?f d2)" using matches_date_digits i(3) j(3) by simp
  then have same: "to_upper (trim m1) = to_upper (trim m2)" "?f d1 = ?f d2" using eq by simp_all
  have "d1 = d2"
    using matches_date_digits(2) [OF i(3)] matches_date_digits(2) [OF j(3)] same(2) by metis
  moreover have "read_nat (?p (show_int v)) = v" if "0 \<le> v" for v
    using that by (simp add: read_pad_start show_int_def)
  ultimately show ?thesis using eq same(1) i j by metis
qed

theorem session_reference_injective_witness:
  "to_upper (trim '' m-04 '') = to_upper (trim ''M-04'') \<and> ''2026-03-09'' = ''2026-03-09'' \<and> num_int 7 = num_int 7"
  by (rule session_reference_injective [of _ _ _ "''M-04-20260309-07''"]; code_simp)

text \<open>A start count is suggested only from a closed counter session with the same job card,
  machine, option, part and setup, up to case and surrounding space, and then it is that
  session's end count.\<close>

theorem suggested_start_same_context:
  "suggested_counter_start current previous = Some v \<longleftrightarrow> (\<exists>p. previous = Some p \<and>
     session_status_of p = SessionClosed \<and> measurement_method_of p = Counter \<and> end_count p = Some v \<and>
     norm_key (job_card_number current) = norm_key (job_card_number p) \<and>
     norm_key (machine_number current) = norm_key (machine_number p) \<and>
     norm_key (option_number current) = norm_key (option_number p) \<and>
     norm_key (part_code current) = norm_key (part_code p) \<and>
     norm_key (setup_number current) = norm_key (setup_number p))"
  by (cases previous) (auto simp: suggested_counter_start_def context_keys_def)

end
