(* ===== verification/Production_Breaks.thy ===== *)
theory Production_Breaks
  imports JS_Number JS_Date "HOL-Library.Multiset"
begin

section \<open>Production breaks and working minutes\<close>

text \<open>
  \<^verbatim>\<open>packages/db/src/production-breaks.ts\<close>: the break schedule of a production unit, its validation, the
  union of downtime intervals and the break minutes of a session; and from
  \<^verbatim>\<open>packages/db/src/material-movement-waits.ts\<close> the working minutes between two instants. Instants are
  milliseconds. A quotient by a minute that is only rounded is written with \<open>div\<close>; the sum of
  fractions of minutes is a sum of binary64 numbers.
\<close>

subsection \<open>Data\<close>

record production_break =
  start_time :: string
  end_time :: string

record time_interval =
  started_at :: instant
  ended_at :: instant

subsection \<open>Operations\<close>

definition matches_time :: "string \<Rightarrow> bool" where
  "matches_time v \<longleftrightarrow> length v = 5 \<and> v ! 2 = CHR '':'' \<and> list_all is_digit (slice 0 2 v)
     \<and> list_all is_digit (slice 3 5 v) \<and> read_nat (slice 0 2 v) < 24 \<and> read_nat (slice 3 5 v) < 60"

definition minute_of_day :: "string \<Rightarrow> int js_result" where
  "minute_of_day v =
     (if matches_time v then return (read_nat (slice 0 2 v) * 60 + read_nat (slice 3 5 v))
      else throw ''Break times must use 24-hour HH:mm format.'')"

type_synonym timed_break = "production_break \<times> int \<times> int"

definition timed_break_of :: "production_break \<Rightarrow> timed_break js_result" where
  "timed_break_of b =
     bind_result (minute_of_day (start_time b)) (\<lambda>s.
     bind_result (minute_of_day (end_time b)) (\<lambda>e. return (b, s, e)))"

text \<open>The loop over the sorted breaks, with the end of the previous one.\<close>

fun check_breaks :: "int option \<Rightarrow> timed_break list \<Rightarrow> unit js_result" where
  "check_breaks previous [] = return ()"
| "check_breaks previous ((b, s, e) # rest) =
     (if e \<le> s then throw ''A break must end after it starts on the same day.''
      else if (case previous of None \<Rightarrow> False | Some p \<Rightarrow> s < p)
      then throw ''Break times cannot overlap.''
      else check_breaks (Some e) rest)"

definition validate_production_breaks :: "production_break list \<Rightarrow> production_break list js_result" where
  "validate_production_breaks breaks =
     bind_result (map_result timed_break_of breaks) (\<lambda>timed.
       let sorted_breaks = sort_key (\<lambda>(b, s, e). s) timed in
       bind_result (check_breaks None sorted_breaks) (\<lambda>_. return (map fst sorted_breaks)))"

definition intersection_milliseconds :: "time_interval \<Rightarrow> time_interval \<Rightarrow> int" where
  "intersection_milliseconds l r =
     max 0 (min (ended_at l) (ended_at r) - max (started_at l) (started_at r))"

definition merge_into :: "time_interval list \<Rightarrow> time_interval \<Rightarrow> time_interval list" where
  "merge_into merged item =
     (if merged \<noteq> [] \<and> started_at item \<le> ended_at (last merged)
      then (if ended_at (last merged) < ended_at item
            then butlast merged @ [(last merged)\<lparr>ended_at := ended_at item\<rparr>] else merged)
      else merged @ [item])"

definition merged_intervals :: "time_interval list \<Rightarrow> time_interval list" where
  "merged_intervals intervals =
     foldl merge_into [] (sort_key started_at (filter (\<lambda>i. started_at i < ended_at i) intervals))"

text \<open>The intervals of one day of the session: each break, cut to the session.\<close>

definition break_interval ::
  "instant \<Rightarrow> instant \<Rightarrow> int \<Rightarrow> production_break \<Rightarrow> time_interval list js_result" where
  "break_interval started ended day b =
     (let midnight = day * day_ms - ist_offset_ms in
      bind_result (minute_of_day (start_time b)) (\<lambda>s.
      bind_result (minute_of_day (end_time b)) (\<lambda>e.
        let from = midnight + s * minute_ms; until = midnight + e * minute_ms in
        return (if from < ended \<and> started < until
                then [\<lparr>started_at = max from started, ended_at = min until ended\<rparr>] else []))))"

definition break_intervals ::
  "production_break list \<Rightarrow> instant \<Rightarrow> instant \<Rightarrow> time_interval list js_result" where
  "break_intervals breaks started ended =
     bind_result
       (map_result (\<lambda>day. bind_result (map_result (break_interval started ended day) breaks) (\<lambda>xs. return (concat xs)))
          [(started + ist_offset_ms) div day_ms .. (ended + ist_offset_ms) div day_ms])
       (\<lambda>days. return (concat days))"

definition round_minutes :: "int \<Rightarrow> int" where
  "round_minutes ms = (ms + 30000) div minute_ms"

record break_minutes =
  break_total :: int
  additional_break :: int

definition production_break_minutes ::
  "production_break list \<Rightarrow> time_interval list \<Rightarrow> instant \<Rightarrow> instant \<Rightarrow> break_minutes js_result" where
  "production_break_minutes breaks downtime started ended =
     (if ended \<le> started \<or> breaks = [] then return \<lparr>break_total = 0, additional_break = 0\<rparr>
      else
        let session = \<lparr>started_at = started, ended_at = ended\<rparr> in
        bind_result (break_intervals breaks started ended) (\<lambda>intervals.
          let down = merged_intervals downtime;
              break_ms = sum_list (map (\<lambda>i. intersection_milliseconds i session) intervals);
              overlap_ms = sum_list (map (\<lambda>i. sum_list (map (intersection_milliseconds i) down)) intervals)
          in return \<lparr>break_total = round_minutes break_ms,
                     additional_break = round_minutes (break_ms - overlap_ms)\<rparr>))"

record movement_calendar =
  holiday_dates :: "string list"
  working_dates :: "string list"
  calendar_breaks :: "production_break list"

definition movement_day_off :: "movement_calendar \<Rightarrow> int \<Rightarrow> bool" where
  "movement_day_off calendar index \<longleftrightarrow>
     iso_day index \<in> set (holiday_dates calendar)
     \<or> (week_day index = 5 \<and> iso_day index \<notin> set (working_dates calendar))"

definition floor_opens :: "string \<Rightarrow> int" where
  "floor_opens floor_code = (if floor_code = ''cnc'' then 360 else 510)"

definition floor_closes :: "string \<Rightarrow> int" where
  "floor_closes floor_code = (if floor_code = ''cnc'' then 1800 else 1200)"

fun add_working_days ::
  "instant \<Rightarrow> instant \<Rightarrow> string \<Rightarrow> movement_calendar \<Rightarrow> int list \<Rightarrow> jsnum \<Rightarrow> jsnum js_result" where
  "add_working_days start stop floor_code calendar [] minutes = return minutes"
| "add_working_days start stop floor_code calendar (index # rest) minutes =
     (if movement_day_off calendar index then add_working_days start stop floor_code calendar rest minutes
      else
        let started = max start (index * day_ms - ist_offset_ms + floor_opens floor_code * minute_ms);
            ended = min stop (index * day_ms - ist_offset_ms + floor_closes floor_code * minute_ms) in
        if ended \<le> started then add_working_days start stop floor_code calendar rest minutes
        else bind_result (production_break_minutes (calendar_breaks calendar) [] started ended) (\<lambda>b.
          add_working_days start stop floor_code calendar rest
            (num_add minutes (num_sub (num_div (num_int (ended - started)) (num_int minute_ms))
               (num_int (break_total b))))))"

definition material_movement_working_minutes ::
  "instant \<Rightarrow> instant \<Rightarrow> string \<Rightarrow> movement_calendar \<Rightarrow> jsnum js_result" where
  "material_movement_working_minutes start stop floor_code calendar =
     (let first = (start + ist_offset_ms - floor_opens floor_code * minute_ms) div day_ms;
          final = (stop + ist_offset_ms - floor_opens floor_code * minute_ms) div day_ms in
      bind_result (add_working_days start stop floor_code calendar [first .. final] (Fin 0)) (\<lambda>minutes.
        return (num_max (Fin 0) (num_floor minutes))))"

subsection \<open>Validation of a break schedule\<close>

lemma minute_of_day_range: "minute_of_day v = Inr m \<Longrightarrow> 0 \<le> m \<and> m < 1440"
  using read_nat_bounds [of "slice 0 2 v"] read_nat_bounds [of "slice 3 5 v"]
  by (auto simp: minute_of_day_def matches_time_def split: if_splits)

lemma timed_break_fst: "timed_break_of b = Inr t \<Longrightarrow> fst t = b"
  by (auto simp: timed_break_of_def js_result)

lemma map_result_timed_fst: "map_result timed_break_of bs = Inr ts \<Longrightarrow> map fst ts = bs"
  by (induction bs arbitrary: ts) (auto simp: js_result dest: timed_break_fst)

text \<open>What a validated schedule is: every break is a proper interval of the day and the breaks
  follow one another.\<close>

definition break_span :: "production_break \<Rightarrow> int \<times> int" where
  "break_span b = (case (minute_of_day (start_time b), minute_of_day (end_time b)) of
     (Inr s, Inr e) \<Rightarrow> (s, e) | _ \<Rightarrow> (0, 0))"

definition well_timed :: "production_break \<Rightarrow> bool" where
  "well_timed b \<longleftrightarrow> (\<exists>s e. minute_of_day (start_time b) = Inr s \<and> minute_of_day (end_time b) = Inr e \<and> s < e)"

definition follows :: "production_break \<Rightarrow> production_break \<Rightarrow> bool" where
  "follows a b \<longleftrightarrow> snd (break_span a) \<le> fst (break_span b)"

lemma timed_break_span:
  "timed_break_of b = Inr t \<Longrightarrow> t = (b, break_span b)
     \<and> minute_of_day (start_time b) = Inr (fst (break_span b)) \<and> minute_of_day (end_time b) = Inr (snd (break_span b))"
  by (auto simp: timed_break_of_def js_result break_span_def)

lemma timed_break_ok:
  "minute_of_day (start_time b) = Inr s \<Longrightarrow> minute_of_day (end_time b) = Inr e \<Longrightarrow> timed_break_of b = Inr (b, s, e)"
  by (simp add: timed_break_of_def)

lemma check_breaks_iff:
  assumes "\<forall>t \<in> set ts. snd t = break_span (fst t)" "sorted_wrt (\<lambda>a b. fst (snd a) \<le> fst (snd b)) ts"
  shows "check_breaks p ts = Inr () \<longleftrightarrow>
    (\<forall>t \<in> set ts. fst (snd t) < snd (snd t) \<and> (\<forall>q. p = Some q \<longrightarrow> q \<le> fst (snd t)))
    \<and> sorted_wrt follows (map fst ts)"
  using assms
proof (induction ts arbitrary: p)
  case (Cons t ts)
  obtain b s e where t: "t = (b, s, e)" by (cases t) auto
  have span: "break_span b = (s, e)" using Cons.prems(1) by (simp add: t)
  have IH: "check_breaks (Some e) ts = Inr () \<longleftrightarrow>
    (\<forall>t \<in> set ts. fst (snd t) < snd (snd t) \<and> e \<le> fst (snd t)) \<and> sorted_wrt follows (map fst ts)"
    using Cons.IH [of "Some e"] Cons.prems by simp
  have later: "(\<forall>u \<in> set ts. follows b (fst u)) = (\<forall>u \<in> set ts. e \<le> fst (snd u))"
    using Cons.prems(1) by (auto simp: follows_def span)
  have "\<forall>u \<in> set ts. s \<le> fst (snd u)" using Cons.prems(2) by (simp add: t)
  then show ?case using IH later by (cases p) (auto simp: t)
qed simp


lemma map_result_timed:
  "map_result timed_break_of bs = Inr ts \<longleftrightarrow>
     ts = map (\<lambda>b. (b, break_span b)) bs \<and> (\<forall>b \<in> set bs. \<exists>t. timed_break_of b = Inr t)"
proof (induction bs arbitrary: ts)
  case (Cons b bs)
  then show ?case using timed_break_span [of b] by (cases "break_span b") (auto simp: js_result)
qed auto

lemma well_timed_iff:
  "well_timed b \<longleftrightarrow> (\<exists>t. timed_break_of b = Inr t) \<and> fst (break_span b) < snd (break_span b)"
proof
  assume "(\<exists>t. timed_break_of b = Inr t) \<and> fst (break_span b) < snd (break_span b)"
  then show "well_timed b" using timed_break_span [of b] by (auto simp: well_timed_def)
next
  assume "well_timed b"
  then show "(\<exists>t. timed_break_of b = Inr t) \<and> fst (break_span b) < snd (break_span b)"
    using timed_break_ok [of b] by (auto simp: well_timed_def break_span_def)
qed

lemma follows_starts:
  assumes "sorted_wrt follows r" "\<forall>b \<in> set r. well_timed b"
  shows "sorted_wrt (\<lambda>a b. fst (break_span a) < fst (break_span b)) r"
  using assms by (induction r) (auto simp: follows_def well_timed_iff)

lemma validated_schedule:
  assumes "validate_production_breaks bs = Inr r"
  shows "mset r = mset bs" "\<forall>b \<in> set r. well_timed b" "sorted_wrt follows r"
proof -
  let ?t = "\<lambda>b. (b, break_span b)"
  let ?key = "\<lambda>(b :: production_break, s :: int, e :: int). s"
  obtain ts where ts: "map_result timed_break_of bs = Inr ts" and
    ok: "check_breaks None (sort_key ?key ts) = Inr ()" and r: "r = map fst (sort_key ?key ts)"
    using assms by (auto simp: validate_production_breaks_def js_result Let_def)
  have t: "ts = map ?t bs" and times: "\<forall>b \<in> set bs. \<exists>t. timed_break_of b = Inr t"
    using ts by (auto simp: map_result_timed)
  have m: "mset r = mset bs" by (simp add: r t multiset.map_comp o_def)
  have srt: "sorted_wrt (\<lambda>a b. fst (snd a) \<le> fst (snd b)) (sort_key ?key ts)"
    using sorted_sort_key [of ?key ts] by (simp add: sorted_wrt_map sorted_wrt_iff_nth_less case_prod_unfold)
  have spans: "\<forall>t \<in> set (sort_key ?key ts). snd t = break_span (fst t)" by (auto simp: t)
  note c = check_breaks_iff [OF spans srt, of None, THEN iffD1, OF ok]
  have "well_timed b" if b: "b \<in> set r" for b
  proof -
    have "b \<in> set bs" using b m by (metis mset_eq_setD)
    then show ?thesis using c times by (auto simp: well_timed_iff t)
  qed
  then show "mset r = mset bs" "\<forall>b \<in> set r. well_timed b" "sorted_wrt follows r"
    using m c by (simp_all add: r)
qed

text \<open>C18: The validation accepts a break schedule exactly when it can be ordered so that every
  break is a proper interval of the day and each ends before the next starts; what it
  returns is that order, which is unique.\<close>

theorem validate_breaks_iff:
  "validate_production_breaks bs = Inr r \<longleftrightarrow>
     mset r = mset bs \<and> list_all well_timed r \<and> sorted_wrt follows r"
proof
  assume "validate_production_breaks bs = Inr r"
  then show "mset r = mset bs \<and> list_all well_timed r \<and> sorted_wrt follows r"
    using validated_schedule by (simp add: list_all_iff)
next
  let ?t = "\<lambda>b. (b, break_span b)"
  let ?key = "\<lambda>(b :: production_break, s :: int, e :: int). s"
  assume "mset r = mset bs \<and> list_all well_timed r \<and> sorted_wrt follows r"
  then have a: "mset r = mset bs \<and> (\<forall>b \<in> set r. well_timed b) \<and> sorted_wrt follows r" by (simp add: list_all_iff)
  then have set_eq: "set r = set bs" by (metis mset_eq_setD)
  have ts: "map_result timed_break_of bs = Inr (map ?t bs)"
    using a by (auto simp: map_result_timed well_timed_iff simp flip: set_eq)
  have starts: "sorted_wrt (\<lambda>a b. fst (break_span a) < fst (break_span b)) r"
    using a follows_starts by blast
  have "distinct (map (\<lambda>b. fst (break_span b)) r)"
    using starts strict_sorted_iff [of "map (\<lambda>b. fst (break_span b)) r"] by (simp add: sorted_wrt_map)
  then have "inj_on (\<lambda>b. fst (break_span b)) (set r)" by (simp add: distinct_map)
  then have inj: "inj_on ?key (set (map ?t bs))"
    by (auto simp: inj_on_def case_prod_unfold simp flip: set_eq)
  have key_sorted: "sorted (map ?key (map ?t r))"
    using starts by (simp add: o_def sorted_wrt_map case_prod_unfold) (erule sorted_wrt_mono_rel [rotated], simp)
  have "mset (map ?t bs) = mset (map ?t r)" using a by simp
  then have sort: "sort_key ?key (map ?t bs) = map ?t r"
    by (rule sort_key_inj_key_eq [OF _ inj key_sorted])
  have "sorted_wrt (\<lambda>a b. fst (snd a) \<le> fst (snd b)) (map ?t r)"
    using starts by (simp add: sorted_wrt_map) (erule sorted_wrt_mono_rel [rotated], simp)
  then have "check_breaks None (map ?t r) = Inr ()"
    using a by (subst check_breaks_iff) (auto simp: well_timed_iff o_def)
  then show "validate_production_breaks bs = Inr r"
    by (simp add: validate_production_breaks_def ts sort Let_def o_def)
qed

subsection \<open>Unions of intervals\<close>

definition covers_time :: "time_interval list \<Rightarrow> instant \<Rightarrow> bool" where
  "covers_time ivs t \<longleftrightarrow> (\<exists>i \<in> set ivs. started_at i \<le> t \<and> t < ended_at i)"

definition separated :: "time_interval \<Rightarrow> time_interval \<Rightarrow> bool" where
  "separated a b \<longleftrightarrow> ended_at a < started_at b"

lemma covers_append: "covers_time (xs @ ys) t \<longleftrightarrow> covers_time xs t \<or> covers_time ys t"
  by (auto simp: covers_time_def)

text \<open>The loop: \<open>merged\<close> is separated, its intervals are proper, and the next item starts no
  earlier than the last of them.\<close>

definition merge_state :: "time_interval list \<Rightarrow> int \<Rightarrow> bool" where
  "merge_state merged from \<longleftrightarrow> sorted_wrt separated merged \<and> (\<forall>i \<in> set merged. started_at i < ended_at i)
     \<and> (merged \<noteq> [] \<longrightarrow> started_at (last merged) \<le> from)"

lemma merge_into_step:
  assumes st: "merge_state merged from" and item: "from \<le> started_at item" "started_at item < ended_at item"
  shows "merge_state (merge_into merged item) (started_at item)"
    and "covers_time (merge_into merged item) t \<longleftrightarrow> covers_time merged t \<or> (started_at item \<le> t \<and> t < ended_at item)"
proof -
  show "merge_state (merge_into merged item) (started_at item)"
  proof (cases merged rule: rev_cases)
    case Nil
    then show ?thesis using item by (simp add: merge_into_def merge_state_def)
  next
    case (snoc pre l)
    have "ended_at i < started_at item" if "i \<in> set pre" for i
      using st item that by (auto simp: merge_state_def snoc sorted_wrt_append separated_def)
    then show ?thesis using st item
      by (auto simp: merge_into_def merge_state_def snoc sorted_wrt_append separated_def)
  qed
  show "covers_time (merge_into merged item) t \<longleftrightarrow> covers_time merged t \<or> (started_at item \<le> t \<and> t < ended_at item)"
    using st item by (cases merged rule: rev_cases)
      (auto simp: merge_into_def merge_state_def covers_append, auto simp: covers_time_def)
qed

lemma merge_all:
  assumes "sorted (map started_at items)" "\<forall>i \<in> set items. started_at i < ended_at i \<and> from \<le> started_at i"
    "merge_state merged from"
  shows "(\<exists>f. merge_state (foldl merge_into merged items) f)
     \<and> (\<forall>t. covers_time (foldl merge_into merged items) t \<longleftrightarrow> covers_time merged t \<or> covers_time items t)"
  using assms
proof (induction items arbitrary: merged "from")
  case (Cons i items)
  have i: "from \<le> started_at i" "started_at i < ended_at i" and
    rest: "sorted (map started_at items)" "\<forall>j \<in> set items. started_at j < ended_at j \<and> started_at i \<le> started_at j"
    using Cons.prems(1,2) by auto
  note step = merge_into_step [OF Cons.prems(3) i]
  have "covers_time (i # items) t \<longleftrightarrow> (started_at i \<le> t \<and> t < ended_at i) \<or> covers_time items t" for t
    by (simp add: covers_time_def)
  then show ?case using Cons.IH [OF rest step(1)] by (simp add: step(2) disj_assoc)
qed (auto simp: covers_time_def)

lemma merged_intervals_state:
  "(\<exists>f. merge_state (merged_intervals ivs) f) \<and> covers_time (merged_intervals ivs) t = covers_time ivs t"
proof -
  define items where "items = sort_key started_at (filter (\<lambda>i. started_at i < ended_at i) ivs)"
  define m where "m = (if items = [] then 0 else started_at (hd items))"
  have sorted: "sorted (map started_at items)" by (simp add: items_def)
  have "m \<le> started_at i" if "i \<in> set items" for i
    using that sorted unfolding m_def by (cases items) auto
  moreover have "started_at i < ended_at i" if "i \<in> set items" for i using that by (simp add: items_def)
  ultimately have proper: "\<forall>i \<in> set items. started_at i < ended_at i \<and> m \<le> started_at i" by blast
  have "merge_state [] m" by (simp add: merge_state_def)
  note all = merge_all [OF sorted proper this]
  have "covers_time items t = covers_time ivs t" by (auto simp: covers_time_def items_def)
  moreover have "\<not> covers_time [] t" by (simp add: covers_time_def)
  ultimately show ?thesis using all unfolding merged_intervals_def items_def by simp
qed

text \<open>C19: Merging intervals keeps exactly the instants they cover and leaves them proper, in order and
  strictly apart, so that no instant of the downtime is counted twice.\<close>

theorem merged_intervals_union:
  "covers_time (merged_intervals ivs) t = covers_time ivs t
   \<and> sorted_wrt separated (merged_intervals ivs)
   \<and> list_all (\<lambda>i. started_at i < ended_at i) (merged_intervals ivs)"
  using merged_intervals_state [of ivs t] by (auto simp: merge_state_def list_all_iff)

subsection \<open>Break minutes of a session\<close>

definition apart :: "time_interval \<Rightarrow> time_interval \<Rightarrow> bool" where
  "apart a b \<longleftrightarrow> ended_at a \<le> started_at b"

lemma intersection_commute: "intersection_milliseconds a b = intersection_milliseconds b a"
  by (simp add: intersection_milliseconds_def min.commute max.commute)

lemma sum_intersections_nonneg: "0 \<le> sum_list (map (intersection_milliseconds x) ivs)"
  by (rule sum_list_nonneg) (auto simp: intersection_milliseconds_def)

text \<open>Intervals that are apart share at most the length of the interval they are cut by.\<close>

lemma sum_intersections_bound:
  assumes "sorted_wrt apart ivs" "\<forall>i \<in> set ivs. started_at i \<le> ended_at i \<and> a \<le> started_at i"
  shows "sum_list (map (intersection_milliseconds x) ivs) \<le> max 0 (ended_at x - max a (started_at x))"
  using assms
proof (induction ivs arbitrary: a)
  case (Cons i ivs)
  have "sum_list (map (intersection_milliseconds x) ivs) \<le> max 0 (ended_at x - max (ended_at i) (started_at x))"
    using Cons.prems by (intro Cons.IH) (auto simp: apart_def)
  moreover have "started_at i \<le> ended_at i" "a \<le> started_at i" using Cons.prems(2) by auto
  ultimately show ?case using intersection_milliseconds_def [of x i]
    by (simp add: max_def min_def split: if_splits)
qed auto

lemma round_minutes_mono: "x \<le> y \<Longrightarrow> round_minutes x \<le> round_minutes y"
  unfolding round_minutes_def by (intro zdiv_mono1) auto

lemma round_minutes_0 [simp]: "round_minutes 0 = 0"
  by (simp add: round_minutes_def)

lemma round_minutes_exact [simp]: "round_minutes (k * minute_ms) = k"
  by (simp add: round_minutes_def)

definition cut_break :: "instant \<Rightarrow> instant \<Rightarrow> int \<Rightarrow> production_break \<Rightarrow> time_interval list" where
  "cut_break started ended day b =
     (let midnight = day * day_ms - ist_offset_ms;
          from = midnight + fst (break_span b) * minute_ms; until = midnight + snd (break_span b) * minute_ms
      in if from < ended \<and> started < until
         then [\<lparr>started_at = max from started, ended_at = min until ended\<rparr>] else [])"

lemma break_interval_cut:
  "well_timed b \<Longrightarrow> break_interval started ended day b = Inr (cut_break started ended day b)"
  by (auto simp: break_interval_def cut_break_def break_span_def well_timed_def Let_def)

lemma break_span_range: "well_timed b \<Longrightarrow> 0 \<le> fst (break_span b) \<and> fst (break_span b) < snd (break_span b) \<and> snd (break_span b) < 1440"
  by (auto simp: well_timed_def break_span_def dest: minute_of_day_range)

lemma break_intervals_cut:
  assumes "\<forall>b \<in> set bs. well_timed b"
  shows "break_intervals bs started ended = Inr (concat (map (\<lambda>day. concat (map (cut_break started ended day) bs))
    [(started + ist_offset_ms) div day_ms .. (ended + ist_offset_ms) div day_ms]))"
proof -
  have "map_result (break_interval started ended day) bs = Inr (map (cut_break started ended day) bs)" for day
    using assms by (intro map_result_Inr break_interval_cut) auto
  then show ?thesis unfolding break_intervals_def by (subst map_result_Inr) auto
qed

lemma cut_break_bounds:
  assumes "i \<in> set (cut_break started ended day b)" "well_timed b" "started < ended"
  shows "started_at i < ended_at i" "started \<le> started_at i" "ended_at i \<le> ended"
    "day * day_ms - ist_offset_ms + fst (break_span b) * minute_ms \<le> started_at i"
    "ended_at i \<le> day * day_ms - ist_offset_ms + snd (break_span b) * minute_ms"
  using assms break_span_range [OF assms(2)] by (auto simp: cut_break_def Let_def split: if_splits)

lemma cut_breaks_apart:
  assumes "\<forall>b \<in> set bs. well_timed b" "sorted_wrt follows bs" "started < ended"
  shows "sorted_wrt apart (concat (map (\<lambda>day. concat (map (cut_break started ended day) bs)) [first .. final]))"
proof -
  have one: "sorted_wrt apart (cut_break started ended day b)" for day b by (simp add: cut_break_def Let_def)
  have within: "sorted_wrt (\<lambda>a b. \<forall>i \<in> set (cut_break started ended day a). \<forall>j \<in> set (cut_break started ended day b). apart i j) bs"
    for day
    using assms(2)
  proof (rule sorted_wrt_mono_rel [rotated])
    fix a b assume ab: "a \<in> set bs" "b \<in> set bs" "follows a b"
    have "apart i j" if ij: "i \<in> set (cut_break started ended day a)" "j \<in> set (cut_break started ended day b)" for i j
      using cut_break_bounds(5) [OF ij(1)] cut_break_bounds(4) [OF ij(2)] ab assms by (simp add: apart_def follows_def)
    then show "\<forall>i \<in> set (cut_break started ended day a). \<forall>j \<in> set (cut_break started ended day b). apart i j" by blast
  qed
  have across: "sorted_wrt (\<lambda>c d. \<forall>i \<in> set (concat (map (cut_break started ended c) bs)).
      \<forall>j \<in> set (concat (map (cut_break started ended d) bs)). apart i j) [first .. final]"
    using sorted_wrt_upto
  proof (rule sorted_wrt_mono_rel [rotated])
    fix c d :: int assume cd: "c < d"
    have "apart i j" if ij: "a \<in> set bs" "i \<in> set (cut_break started ended c a)"
      "b \<in> set bs" "j \<in> set (cut_break started ended d b)" for a b i j
      using cut_break_bounds(5) [OF ij(2)] cut_break_bounds(4) [OF ij(4)] ij cd assms
        break_span_range [of a] break_span_range [of b] by (simp add: apart_def)
    then show "\<forall>i \<in> set (concat (map (cut_break started ended c) bs)).
      \<forall>j \<in> set (concat (map (cut_break started ended d) bs)). apart i j" by auto
  qed
  show ?thesis using one within across by (simp add: sorted_wrt_concat sorted_wrt_map list_all_iff)
qed

lemma break_minutes_within:
  assumes "validate_production_breaks raw = Inr breaks" "started < ended"
  shows "\<exists>r. production_break_minutes breaks downtime started ended = Inr r \<and>
    0 \<le> additional_break r \<and> additional_break r \<le> break_total r \<and> break_total r \<le> round_minutes (ended - started)"
proof (cases "breaks = []")
  case True
  then show ?thesis using round_minutes_mono [of 0 "ended - started"] assms(2)
    by (simp add: production_break_minutes_def)
next
  case False
  have bs: "\<forall>b \<in> set breaks. well_timed b" "sorted_wrt follows breaks"
    using validated_schedule [OF assms(1)] by auto
  define ivs where "ivs = concat (map (\<lambda>day. concat (map (cut_break started ended day) breaks))
    [(started + ist_offset_ms) div day_ms .. (ended + ist_offset_ms) div day_ms])"
  define down where "down = merged_intervals downtime"
  let ?s = "\<lparr>started_at = started, ended_at = ended\<rparr>"
  define b where "b = sum_list (map (\<lambda>i. intersection_milliseconds i ?s) ivs)"
  define v where "v = sum_list (map (\<lambda>i. sum_list (map (intersection_milliseconds i) down)) ivs)"
  have iv: "started_at i < ended_at i \<and> started \<le> started_at i \<and> ended_at i \<le> ended" if "i \<in> set ivs" for i
    using that bs(1) assms(2) by (auto simp: ivs_def dest: cut_break_bounds)
  have "sorted_wrt apart ivs" unfolding ivs_def using cut_breaks_apart [OF bs assms(2)] by blast
  then have "sum_list (map (intersection_milliseconds ?s) ivs) \<le> ended - started"
    using iv sum_intersections_bound [of ivs started ?s] assms(2) by (simp add: less_imp_le)
  then have b_le: "b \<le> ended - started" by (simp add: b_def intersection_commute [of _ ?s])
  have "sum_list (map (intersection_milliseconds i) down) \<le> intersection_milliseconds i ?s" if i: "i \<in> set ivs" for i
  proof (cases down)
    case Nil
    then show ?thesis by (simp add: intersection_milliseconds_def)
  next
    case (Cons d ds)
    have st: "sorted_wrt separated down" "\<forall>j \<in> set down. started_at j < ended_at j"
      using merged_intervals_state [of downtime 0] by (auto simp: down_def merge_state_def)
    have "sorted_wrt apart down" using st(1) by (rule sorted_wrt_mono_rel [rotated]) (simp add: separated_def apart_def)
    moreover have "\<forall>j \<in> set down. started_at j \<le> ended_at j \<and> started_at d \<le> started_at j"
      using st by (fastforce simp: Cons separated_def)
    ultimately have "sum_list (map (intersection_milliseconds i) down) \<le> max 0 (ended_at i - max (started_at d) (started_at i))"
      by (rule sum_intersections_bound)
    moreover have "intersection_milliseconds i ?s = ended_at i - started_at i"
      using iv [OF i] by (simp add: intersection_milliseconds_def)
    ultimately show ?thesis using iv [OF i] by linarith
  qed
  then have "v \<le> b" unfolding v_def b_def by (rule sum_list_mono)
  moreover have "0 \<le> v" unfolding v_def by (rule sum_list_nonneg) (auto intro: sum_intersections_nonneg)
  moreover have "production_break_minutes breaks downtime started ended =
      Inr \<lparr>break_total = round_minutes b, additional_break = round_minutes (b - v)\<rparr>"
    using False assms(2) break_intervals_cut [OF bs(1), of started ended]
    by (simp add: production_break_minutes_def b_def v_def down_def ivs_def Let_def)
  ultimately show ?thesis
    using round_minutes_mono [of 0 "b - v"] round_minutes_mono [of "b - v" b] round_minutes_mono [OF b_le] by simp
qed

text \<open>C20: Under a validated schedule the break minutes of a session are within the session, and the part
  of them that is not downtime already lies between zero and all of them, whatever
  (overlapping, unordered) downtime is given.\<close>

theorem break_minutes_bounds:
  assumes "validate_production_breaks raw = Inr breaks" "started < ended"
  shows "\<exists>r. production_break_minutes breaks downtime started ended = Inr r \<and>
    0 \<le> additional_break r \<and> additional_break r \<le> break_total r \<and> break_total r \<le> round_minutes (ended - started)"
  using assms by (rule break_minutes_within)

theorem break_minutes_bounds_witness:
  "\<exists>r. production_break_minutes [\<lparr>start_time = ''13:00'', end_time = ''13:30''\<rparr>, \<lparr>start_time = ''19:00'', end_time = ''19:15''\<rparr>]
      [\<lparr>started_at = 1767253800000, ended_at = 1767254400000\<rparr>] 1767241800000 1767283200000 = Inr r \<and>
    0 \<le> additional_break r \<and> additional_break r \<le> break_total r \<and> break_total r \<le> round_minutes (1767283200000 - 1767241800000)"
  by (rule break_minutes_bounds [of
      "[\<lparr>start_time = ''19:00'', end_time = ''19:15''\<rparr>, \<lparr>start_time = ''13:00'', end_time = ''13:30''\<rparr>]"]; code_simp)

subsection \<open>Working minutes\<close>

definition day_window :: "string \<Rightarrow> int \<Rightarrow> time_interval" where
  "day_window floor_code index = \<lparr>started_at = index * day_ms - ist_offset_ms + floor_opens floor_code * minute_ms,
     ended_at = index * day_ms - ist_offset_ms + floor_closes floor_code * minute_ms\<rparr>"

definition day_working :: "instant \<Rightarrow> instant \<Rightarrow> string \<Rightarrow> movement_calendar \<Rightarrow> int \<Rightarrow> int" where
  "day_working start stop floor_code calendar index =
     (let started = max start (started_at (day_window floor_code index));
          ended = min stop (ended_at (day_window floor_code index)) in
      if movement_day_off calendar index \<or> ended \<le> started then 0
      else (ended - started) div minute_ms
        - (case production_break_minutes (calendar_breaks calendar) [] started ended of Inr b \<Rightarrow> break_total b | _ \<Rightarrow> 0))"

lemma day_windows_apart: "sorted_wrt apart (map (day_window floor_code) [i..j])"
  unfolding sorted_wrt_map using sorted_wrt_upto
  by (rule sorted_wrt_mono_rel [rotated]) (simp add: day_window_def apart_def floor_opens_def floor_closes_def)

lemma add_working_day:
  fixes floor_code :: string and index :: int
  assumes valid: "validate_production_breaks raw = Inr (calendar_breaks calendar)"
    and whole: "minute_ms dvd start" "minute_ms dvd stop"
  defines "w \<equiv> day_working start stop floor_code calendar index"
  shows "0 \<le> w"
    and "w * minute_ms \<le> intersection_milliseconds \<lparr>started_at = start, ended_at = stop\<rparr> (day_window floor_code index)"
    and "0 \<le> m \<Longrightarrow> m + w \<le> 2 ^ 53 \<Longrightarrow>
      add_working_days start stop floor_code calendar (index # rest) (num_int m) =
      add_working_days start stop floor_code calendar rest (num_int (m + w))"
proof -
  let ?st = "max start (started_at (day_window floor_code index))"
  let ?en = "min stop (ended_at (day_window floor_code index))"
  let ?off = "movement_day_off calendar index \<or> ?en \<le> ?st"
  have "minute_ms dvd started_at (day_window floor_code index)"
    by (rule dvdI [of _ _ "index * 1440 - 330 + floor_opens floor_code"]) (simp add: day_window_def)
  moreover have "minute_ms dvd ended_at (day_window floor_code index)"
    by (rule dvdI [of _ _ "index * 1440 - 330 + floor_closes floor_code"]) (simp add: day_window_def)
  ultimately have "minute_ms dvd ?st" "minute_ms dvd ?en" using whole by (auto simp: max_def min_def)
  then have dv: "minute_ms dvd ?en - ?st" by (rule dvd_diff [rotated])
  then obtain k where k: "?en - ?st = k * minute_ms" by (metis dvd_div_mult_self)
  have "ended_at (day_window floor_code index) - started_at (day_window floor_code index) \<le> 1440 * minute_ms"
    by (simp add: day_window_def floor_opens_def floor_closes_def)
  then have len: "?en - ?st \<le> 1440 * minute_ms"
    using max.cobounded2 [of "started_at (day_window floor_code index)" start]
      min.cobounded2 [of stop "ended_at (day_window floor_code index)"] by linarith
  then have k1440: "k \<le> 1440" using k by simp
  have brk: "\<exists>r. production_break_minutes (calendar_breaks calendar) [] ?st ?en = Inr r
    \<and> 0 \<le> break_total r \<and> break_total r \<le> k" if "\<not> ?off"
  proof -
    have "?st < ?en" using that by auto
    from break_minutes_within [OF valid this, of "[]"] show ?thesis by (auto simp: k)
  qed
  show "0 \<le> w" using brk k by (auto simp: w_def day_working_def Let_def)
  show "w * minute_ms \<le> intersection_milliseconds \<lparr>started_at = start, ended_at = stop\<rparr> (day_window floor_code index)"
  proof (cases ?off)
    case True
    then show ?thesis by (auto simp: w_def day_working_def intersection_milliseconds_def Let_def)
  next
    case False
    from brk [OF this] have "w * minute_ms \<le> k * minute_ms" using False k by (auto simp: w_def day_working_def Let_def)
    then show ?thesis using k by (simp add: intersection_milliseconds_def)
  qed
  assume m: "0 \<le> m" "m + w \<le> 2 ^ 53"
  show "add_working_days start stop floor_code calendar (index # rest) (num_int m) =
      add_working_days start stop floor_code calendar rest (num_int (m + w))"
  proof (cases ?off)
    case True
    then show ?thesis by (auto simp: w_def day_working_def day_window_def Let_def)
  next
    case False
    obtain r where r: "production_break_minutes (calendar_breaks calendar) [] ?st ?en = Inr r"
      "0 \<le> break_total r" "break_total r \<le> k" using brk [OF False] by blast
    have w: "w = k - break_total r" using False r k by (simp add: w_def day_working_def Let_def)
    have "fl (of_int k) = num_int k" using k1440 r by (intro fl_of_int) simp
    then have "num_div (num_int (k * minute_ms)) (num_int minute_ms) = num_int k" by simp
    moreover have "num_sub (num_int k) (num_int (break_total r)) = num_int w"
      using k1440 r by (simp add: w num_sub_int)
    moreover have "num_add (num_int m) (num_int w) = num_int (m + w)"
      using m \<open>0 \<le> w\<close> by (intro num_add_int) simp
    ultimately show ?thesis using False r(1) k
      by (simp add: day_window_def Let_def del: of_int_mult num_add.simps num_div.simps)
  qed
qed

lemma add_working_days_sum:
  assumes "validate_production_breaks raw = Inr (calendar_breaks calendar)"
    and "minute_ms dvd start" "minute_ms dvd stop"
    and "0 \<le> m" "m + sum_list (map (day_working start stop floor_code calendar) days) \<le> 2 ^ 53"
  shows "add_working_days start stop floor_code calendar days (num_int m) =
    Inr (num_int (m + sum_list (map (day_working start stop floor_code calendar) days)))"
  using assms(4,5)
proof (induction days arbitrary: m)
  case (Cons d days)
  note step = add_working_day [OF assms(1-3), where floor_code = floor_code]
  have "0 \<le> sum_list (map (day_working start stop floor_code calendar) days)"
    by (rule sum_list_nonneg) (auto intro: step(1))
  then have "m + day_working start stop floor_code calendar d \<le> 2 ^ 53" using Cons.prems by simp
  then show ?case using step(3) [OF Cons.prems(1)] Cons.IH [of "m + day_working start stop floor_code calendar d"]
      Cons.prems step(1) [of d] by (simp add: add.assoc)
qed simp

lemma day_working_total:
  assumes "validate_production_breaks raw = Inr (calendar_breaks calendar)"
    and "minute_ms dvd start" "minute_ms dvd stop" "start \<le> stop"
  shows "sum_list (map (day_working start stop floor_code calendar) [i..j]) * minute_ms \<le> stop - start"
proof -
  let ?s = "\<lparr>started_at = start, ended_at = stop\<rparr>" and ?ws = "map (day_window floor_code) [i..j]"
  note step = add_working_day [OF assms(1-3), where floor_code = floor_code]
  have "sum_list (map (day_working start stop floor_code calendar) ds) * minute_ms
      \<le> sum_list (map (intersection_milliseconds ?s) (map (day_window floor_code) ds))" for ds
    using step(2) by (induction ds) (auto simp: distrib_right intro: add_mono)
  moreover have "sum_list (map (intersection_milliseconds ?s) ?ws) \<le> stop - start"
  proof -
    define a where "a = min start (started_at (day_window floor_code i))"
    have "\<forall>w \<in> set ?ws. started_at w \<le> ended_at w \<and> a \<le> started_at w"
      by (auto simp: a_def day_window_def floor_opens_def floor_closes_def)
    from sum_intersections_bound [OF day_windows_apart this, of ?s] show ?thesis
      using assms(4) by (simp add: a_def)
  qed
  ultimately show ?thesis by (rule order_trans)
qed

definition working_day_sum :: "instant \<Rightarrow> instant \<Rightarrow> string \<Rightarrow> movement_calendar \<Rightarrow> int" where
  "working_day_sum start stop floor_code calendar =
     sum_list (map (day_working start stop floor_code calendar)
       [(start + ist_offset_ms - floor_opens floor_code * minute_ms) div day_ms ..
        (stop + ist_offset_ms - floor_opens floor_code * minute_ms) div day_ms])"

text \<open>C21: For instants on whole minutes and a validated schedule the working minutes of a movement wait
  are exactly the sum over the days of the open hours in range less the breaks, days off
  counting nothing: the sum of binary64 numbers loses nothing. They lie between zero and the
  minutes elapsed.\<close>

theorem movement_minutes_exact:
  assumes "validate_production_breaks raw = Inr (calendar_breaks calendar)"
    and "minute_ms dvd start" "minute_ms dvd stop" "start \<le> stop" "stop - start \<le> 2 ^ 53"
  shows "material_movement_working_minutes start stop floor_code calendar =
      Inr (num_int (working_day_sum start stop floor_code calendar))
    \<and> 0 \<le> working_day_sum start stop floor_code calendar
    \<and> working_day_sum start stop floor_code calendar * minute_ms \<le> stop - start"
proof -
  let ?total = "working_day_sum start stop floor_code calendar"
  let ?days = "[(start + ist_offset_ms - floor_opens floor_code * minute_ms) div day_ms ..
      (stop + ist_offset_ms - floor_opens floor_code * minute_ms) div day_ms]"
  have total: "?total = sum_list (map (day_working start stop floor_code calendar) ?days)"
    unfolding working_day_sum_def ..
  have nonneg: "0 \<le> ?total" unfolding total
    by (rule sum_list_nonneg) (auto intro: add_working_day(1) [OF assms(1-3)])
  have upper: "?total * minute_ms \<le> stop - start" unfolding total
    by (rule day_working_total [OF assms(1-4)])
  have "?total \<le> 2 ^ 53" using nonneg upper assms(5) by simp
  then have "add_working_days start stop floor_code calendar ?days (Fin 0) = Inr (num_int ?total)"
    using add_working_days_sum [OF assms(1-3), of 0 floor_code ?days] unfolding total by simp
  then have "material_movement_working_minutes start stop floor_code calendar = Inr (num_int ?total)"
    using nonneg by (simp add: material_movement_working_minutes_def Let_def num_max_def)
  then show ?thesis using nonneg upper by simp
qed

theorem movement_minutes_exact_witness:
  "material_movement_working_minutes 1767243600000 1767330000000 ''forging''
      \<lparr>holiday_dates = [], working_dates = [], calendar_breaks = [\<lparr>start_time = ''13:00'', end_time = ''13:30''\<rparr>]\<rparr> =
    Inr (num_int (working_day_sum 1767243600000 1767330000000 ''forging''
      \<lparr>holiday_dates = [], working_dates = [], calendar_breaks = [\<lparr>start_time = ''13:00'', end_time = ''13:30''\<rparr>]\<rparr>))
    \<and> 0 \<le> working_day_sum 1767243600000 1767330000000 ''forging''
      \<lparr>holiday_dates = [], working_dates = [], calendar_breaks = [\<lparr>start_time = ''13:00'', end_time = ''13:30''\<rparr>]\<rparr>
    \<and> working_day_sum 1767243600000 1767330000000 ''forging''
      \<lparr>holiday_dates = [], working_dates = [], calendar_breaks = [\<lparr>start_time = ''13:00'', end_time = ''13:30''\<rparr>]\<rparr> * minute_ms
      \<le> 1767330000000 - 1767243600000"
  by (rule movement_minutes_exact [of "[\<lparr>start_time = ''13:00'', end_time = ''13:30''\<rparr>]"]; code_simp)

end
