(* ===== verification/JS_Value.thy ===== *)
theory JS_Value
  imports JS_Number
begin

section \<open>JavaScript values and their conversions\<close>

text \<open>
  Values of type \<open>unknown\<close> (decoded JSON, rows of the read models) and the conversions the program
  applies to them: \<open>String(v)\<close>, \<open>Number(v)\<close>, truth, strict equality and property access. An object is
  an association list in insertion order, \<open>Number::toString\<close> is the shortest decimal that
  rounds to the number, and \<open>StringToNumber\<close> reads decimal, exponent and prefixed literals.
\<close>

datatype jsval =
    Undefined
  | Null
  | Bool bool
  | Num jsnum
  | Str string
  | Arr "jsval list"
  | Obj "(string \<times> jsval) list"

type_synonym jsrow = "(string \<times> jsval) list"

definition get :: "jsrow \<Rightarrow> string \<Rightarrow> jsval" where
  "get row key = (case map_of row key of None \<Rightarrow> Undefined | Some v \<Rightarrow> v)"

definition nullish :: "jsval \<Rightarrow> bool" where
  "nullish v \<longleftrightarrow> v = Undefined \<or> v = Null"

text \<open>\<open>v ?? d\<close>\<close>

definition or_default :: "jsval \<Rightarrow> jsval \<Rightarrow> jsval" where
  "or_default v d = (if nullish v then d else v)"

subsection \<open>Numbers to text\<close>

text \<open>The least \<open>e\<close> with \<open>x < 10 ^ e\<close>, searched from an estimate by the binary exponent.\<close>

definition decimal_exponent :: "rat \<Rightarrow> int" where
  "decimal_exponent x =
     (let estimate = (floor_log2 x * 30103) div 100000
      in if x < 10 powi estimate then estimate
         else if x < 10 powi (estimate + 1) then estimate + 1 else estimate + 2)"

text \<open>For \<open>k\<close> digits: the two integers around \<open>x * 10 ^ (k - e)\<close>, the nearer one first; a carry to
  \<open>10 ^ k\<close> is one digit at the next exponent.\<close>

definition digit_candidates :: "rat \<Rightarrow> int \<Rightarrow> int \<Rightarrow> (int \<times> int \<times> int) list" where
  "digit_candidates x e k =
     (let y = x * 10 powi (k - e); n = \<lfloor>y\<rfloor>;
          entry = (\<lambda>m. if m = 10 ^ nat k then (1, 1, e + 1) else (m, k, e))
      in if y - of_int n \<le> 1/2 then [entry n, entry (n + 1)] else [entry (n + 1), entry n])"

definition shortest_digits :: "rat \<Rightarrow> int \<times> int \<times> int" where
  "shortest_digits x =
     (let e = decimal_exponent x in
      case List.find (\<lambda>(n, k, s). fl (of_int n * 10 powi (s - k)) = Fin x)
        (concat (map (digit_candidates x e) [1..17])) of
        Some c \<Rightarrow> c | None \<Rightarrow> (0, 1, 1))"

definition text_of_digits :: "int \<times> int \<times> int \<Rightarrow> string" where
  "text_of_digits = (\<lambda>(n, k, s).
     let ds = show_int n in
     if k \<le> s \<and> s \<le> 21 then ds @ replicate (nat (s - k)) (CHR ''0'')
     else if 0 < s \<and> s \<le> 21 then take (nat s) ds @ ''.'' @ drop (nat s) ds
     else if - 6 < s \<and> s \<le> 0 then ''0.'' @ replicate (nat (- s)) (CHR ''0'') @ ds
     else (if k = 1 then ds else take 1 ds @ ''.'' @ drop 1 ds)
       @ ''e'' @ (if 0 \<le> s - 1 then ''+'' else ''-'') @ show_int \<bar>s - 1\<bar>)"

fun num_text :: "jsnum \<Rightarrow> string" where
  "num_text (Fin x) =
     (if of_int \<lfloor>x\<rfloor> = x \<and> \<bar>x\<bar> \<le> 2 ^ 53 then show_int \<lfloor>x\<rfloor>
      else if x < 0 then ''-'' @ text_of_digits (shortest_digits (- x))
      else text_of_digits (shortest_digits x))"
| "num_text PosInf = ''Infinity''"
| "num_text NegInf = ''-Infinity''"
| "num_text NaN = ''NaN''"

text \<open>\<open>String(v)\<close>; an array joins its elements with commas, \<open>null\<close> and \<open>undefined\<close> in it are empty.\<close>

fun to_text :: "jsval \<Rightarrow> string" where
  "to_text Undefined = ''undefined''"
| "to_text Null = ''null''"
| "to_text (Bool b) = (if b then ''true'' else ''false'')"
| "to_text (Num x) = num_text x"
| "to_text (Str s) = s"
| "to_text (Arr vs) = join '','' (map (\<lambda>v. if v = Undefined \<or> v = Null then [] else to_text v) vs)"
| "to_text (Obj fs) = ''[object Object]''"

text \<open>\<open>JSON.stringify(v)\<close> of a value that is not \<open>undefined\<close>: control characters, quotes and backslashes
  are escaped, a number that is not finite is \<open>null\<close>, an undefined member is left out.\<close>

definition hex_digit :: "nat \<Rightarrow> char" where
  "hex_digit n = ''0123456789abcdef'' ! n"

definition json_char :: "char \<Rightarrow> string" where
  "json_char c = (let n = (of_char c :: nat) in
     if c = CHR 0x22 then [CHR 0x5C, CHR 0x22]
     else if c = CHR 0x5C then [CHR 0x5C, CHR 0x5C]
     else if n = 8 then CHR 0x5C # ''b'' else if n = 9 then CHR 0x5C # ''t''
     else if n = 10 then CHR 0x5C # ''n'' else if n = 12 then CHR 0x5C # ''f''
     else if n = 13 then CHR 0x5C # ''r''
     else if n < 32 then CHR 0x5C # ''u00'' @ [hex_digit (n div 16), hex_digit (n mod 16)]
     else [c])"

definition json_string :: "string \<Rightarrow> string" where
  "json_string s = CHR 0x22 # concat (map json_char s) @ [CHR 0x22]"

fun to_json :: "jsval \<Rightarrow> string" where
  "to_json Undefined = ''null''"
| "to_json Null = ''null''"
| "to_json (Bool b) = (if b then ''true'' else ''false'')"
| "to_json (Num x) = (if is_finite x then num_text x else ''null'')"
| "to_json (Str s) = json_string s"
| "to_json (Arr vs) = ''['' @ join '','' (map to_json vs) @ '']''"
| "to_json (Obj fs) = ''{'' @ join '','' (map (\<lambda>(k, v). json_string k @ '':'' @ to_json v)
     (filter (\<lambda>(k, v). v \<noteq> Undefined) fs)) @ ''}''"

subsection \<open>Text to numbers\<close>

definition hex_value :: "char \<Rightarrow> int option" where
  "hex_value c = (let n = (of_char (lower_char c) :: int) in
     if is_digit c then Some (digit_value c)
     else if 97 \<le> n \<and> n \<le> 102 then Some (n - 87) else None)"

fun read_base :: "int \<Rightarrow> int \<Rightarrow> string \<Rightarrow> int option" where
  "read_base base acc [] = Some acc"
| "read_base base acc (c # cs) = (case hex_value c of
       Some d \<Rightarrow> if d < base then read_base base (base * acc + d) cs else None
     | None \<Rightarrow> None)"

definition num_of_base :: "int \<Rightarrow> string \<Rightarrow> jsnum" where
  "num_of_base base ds = (if ds = [] then NaN else
     case read_base base 0 ds of Some n \<Rightarrow> fl (of_int n) | None \<Rightarrow> NaN)"

text \<open>An optional sign and at least one digit, for exponents.\<close>

definition read_exponent :: "string \<Rightarrow> int option" where
  "read_exponent s = (case s of
       [] \<Rightarrow> None
     | c # cs \<Rightarrow>
         let body = (if c = CHR ''+'' \<or> c = CHR ''-'' then cs else s);
             sign = (if c = CHR ''-'' then - 1 else 1)
         in if body \<noteq> [] \<and> list_all is_digit body then Some (sign * read_nat body) else None)"

definition num_of_decimal :: "string \<Rightarrow> jsnum" where
  "num_of_decimal s =
     (let int_part = takeWhile is_digit s; rest = dropWhile is_digit s;
          frac = (case rest of c # cs \<Rightarrow> if c = CHR ''.'' then takeWhile is_digit cs else [] | [] \<Rightarrow> []);
          tail = (case rest of c # cs \<Rightarrow> if c = CHR ''.'' then dropWhile is_digit cs else rest | [] \<Rightarrow> []);
          mantissa = (of_int (read_nat (int_part @ frac)) :: rat) / 10 ^ length frac
      in if int_part @ frac = [] then NaN
         else case tail of
             [] \<Rightarrow> fl mantissa
           | c # cs \<Rightarrow> if c = CHR ''e'' \<or> c = CHR ''E''
               then (case read_exponent cs of Some e \<Rightarrow> fl (mantissa * 10 powi e) | None \<Rightarrow> NaN)
               else NaN)"

definition num_of_signless :: "string \<Rightarrow> jsnum" where
  "num_of_signless s = (if s = ''Infinity'' then PosInf else num_of_decimal s)"

definition num_of_text :: "string \<Rightarrow> jsnum" where
  "num_of_text text =
     (let s = trim text in
      if s = [] then Fin 0
      else if to_lower (take 2 s) = ''0x'' then num_of_base 16 (drop 2 s)
      else if to_lower (take 2 s) = ''0b'' then num_of_base 2 (drop 2 s)
      else if to_lower (take 2 s) = ''0o'' then num_of_base 8 (drop 2 s)
      else if hd s = CHR ''-'' then num_neg (num_of_signless (tl s))
      else if hd s = CHR ''+'' then num_of_signless (tl s)
      else num_of_signless s)"

text \<open>\<open>Number(v)\<close>\<close>

fun to_num :: "jsval \<Rightarrow> jsnum" where
  "to_num Undefined = NaN"
| "to_num Null = Fin 0"
| "to_num (Bool b) = (if b then Fin 1 else Fin 0)"
| "to_num (Num x) = x"
| "to_num (Str s) = num_of_text s"
| "to_num (Arr vs) = num_of_text (to_text (Arr vs))"
| "to_num (Obj fs) = NaN"

text \<open>A value as a condition.\<close>

fun truth :: "jsval \<Rightarrow> bool" where
  "truth Undefined = False"
| "truth Null = False"
| "truth (Bool b) = b"
| "truth (Num x) = truthy x"
| "truth (Str s) = (s \<noteq> [])"
| "truth _ = True"

subsection \<open>Laws\<close>

lemma get_Nil [simp]: "get [] k = Undefined"
  by (simp add: get_def)

lemma get_Cons [simp]: "get ((k', v) # row) k = (if k' = k then v else get row k)"
  by (simp add: get_def)

lemma num_text_int [simp]: "\<bar>i\<bar> \<le> 2 ^ 53 \<Longrightarrow> num_text (num_int i) = show_int i"
proof -
  assume "\<bar>i\<bar> \<le> 2 ^ 53"
  then have "(of_int \<bar>i\<bar> :: rat) \<le> of_int (2 ^ 53)" by (simp only: of_int_le_iff)
  then show ?thesis by simp
qed

lemma num_of_digits:
  assumes "s \<noteq> []" "list_all is_digit s"
  shows "num_of_text s = fl (of_int (read_nat s))"
proof -
  obtain c cs where s: "s = c # cs" using assms(1) by (cases s) auto
  have c: "is_digit c" using assms(2) by (simp add: s)
  have sp: "\<not> is_space d" if "is_digit d" for d
    using that by (auto simp: is_space_def is_digit_def Let_def)
  have trim: "trim s = s" using assms sp by (intro trim_fixed) (auto simp: list_all_iff)
  have tw: "takeWhile is_digit s = s" "dropWhile is_digit s = []"
    using assms(2) by (simp_all add: list_all_iff)
  have second: "to_lower (take 2 s) \<noteq> CHR ''0'' # [d]" if d: "d \<in> set ''xbo''" for d
  proof (cases cs)
    case (Cons d' ds)
    then have "is_digit d'" using assms(2) s by simp
    then have "lower_char d' = d'" by (auto simp: lower_char_def is_digit_def Let_def)
    moreover have "\<not> is_digit d" using d by (auto simp: is_digit_def)
    ultimately show ?thesis using \<open>is_digit d'\<close> by (auto simp: s Cons to_lower_def)
  qed (simp add: s to_lower_def)
  have "c \<noteq> CHR ''-''" "c \<noteq> CHR ''+''" "c \<noteq> CHR ''I''" using c by (auto simp: is_digit_def)
  then show ?thesis using second [of "CHR ''x''"] second [of "CHR ''b''"] second [of "CHR ''o''"] assms(1)
    by (simp add: num_of_text_def trim Let_def num_of_signless_def num_of_decimal_def tw) (simp add: s)
qed

text \<open>Text of an integer reads back as the integer.\<close>

lemma num_of_show_int: "\<bar>i\<bar> \<le> 2 ^ 53 \<Longrightarrow> 0 \<le> i \<Longrightarrow> num_of_text (show_int i) = num_int i"
  using num_of_digits [of "show_int i"] show_nat_digits [of _ "nat i"]
  by (simp add: show_int_def list_all_iff fl_of_int)

end
