(* ===== verification/Production_Floors.thy ===== *)
theory Production_Floors
  imports JS_Value
begin

section \<open>Production floors\<close>

text \<open>
  \<open>packages/db/src/production-floors.ts\<close>: the floors, the names under which they are found in imported rows,
  and the floor a department belongs to. A floor is its code. Names are compared in lower case, with every run
  of other characters than letters and digits as one blank.
\<close>

record production_floor =
  pf_code :: string
  pf_label :: string
  pf_short :: string

definition production_floors :: "production_floor list" where
  "production_floors = [
     \<lparr>pf_code = ''conventional'', pf_label = ''PPAC Conventional-01'', pf_short = ''Conventional-01''\<rparr>,
     \<lparr>pf_code = ''conventional-02'', pf_label = ''PPAC Conventional-02'', pf_short = ''Conventional-02''\<rparr>,
     \<lparr>pf_code = ''cnc'', pf_label = ''PPAC CNC-01'', pf_short = ''CNC-01''\<rparr>,
     \<lparr>pf_code = ''forging'', pf_label = ''PPAC Forging'', pf_short = ''Forging''\<rparr>]"

definition default_production_floor_code :: string where
  "default_production_floor_code = ''conventional''"

fun floor_record :: "jsval \<Rightarrow> jsrow" where
  "floor_record (Obj fs) = fs"
| "floor_record _ = []"

fun floor_text :: "jsval \<Rightarrow> string" where
  "floor_text (Str s) = to_lower (trim s)"
| "floor_text _ = []"

text \<open>\<open>replace(/[^a-z0-9]+/g, " ")\<close>\<close>

definition name_char :: "char \<Rightarrow> bool" where
  "name_char c \<longleftrightarrow> is_digit c \<or> (let n = (of_char c :: nat) in 97 \<le> n \<and> n \<le> 122)"

fun blank_runs :: "bool \<Rightarrow> string \<Rightarrow> string" where
  "blank_runs inside [] = []"
| "blank_runs inside (c # cs) =
     (if name_char c then c # blank_runs False cs
      else if inside then blank_runs True cs else CHR '' '' # blank_runs True cs)"

definition comparable_floor_name :: "jsval \<Rightarrow> string" where
  "comparable_floor_name v =
     trim (blank_runs False (concat (map (\<lambda>c. if c = CHR ''&'' then '' and '' else [c]) (floor_text v))))"

definition ends_with :: "string \<Rightarrow> string \<Rightarrow> bool" where
  "ends_with s suffix \<longleftrightarrow> starts_with (rev s) (rev suffix)"

definition floor_by_ending :: "string \<Rightarrow> string option" where
  "floor_by_ending name =
     (if ends_with name ''conventional 01'' then Some ''conventional''
      else if ends_with name ''conventional 02'' then Some ''conventional-02''
      else if ends_with name ''cnc 01'' then Some ''cnc''
      else if ends_with name ''forging'' then Some ''forging''
      else None)"

definition parse_production_floor_code :: "jsval \<Rightarrow> string option" where
  "parse_production_floor_code v = (let name = comparable_floor_name v in
     if name = [] then None
     else (case List.find (\<lambda>f. name \<in> comparable_floor_name ` Str ` {pf_code f, pf_label f, pf_short f}) production_floors of
         Some f \<Rightarrow> Some (pf_code f)
       | None \<Rightarrow> floor_by_ending name))"

definition normalize_production_floor_code :: "jsval \<Rightarrow> string" where
  "normalize_production_floor_code v =
     (case parse_production_floor_code v of Some c \<Rightarrow> c | None \<Rightarrow> default_production_floor_code)"

definition floor_by_code_prefix :: "string \<Rightarrow> string option" where
  "floor_by_code_prefix code =
     (if starts_with code ''PPC-CV02'' then Some ''conventional-02''
      else if starts_with code ''PPC-CV'' then Some ''conventional''
      else if starts_with code ''PPC-CNC'' then Some ''cnc''
      else if starts_with code ''PPC-FG'' then Some ''forging''
      else None)"

definition production_floor_from_department :: "jsval \<Rightarrow> jsval \<Rightarrow> string option" where
  "production_floor_from_department department department_code =
     (case floor_by_code_prefix (to_upper (trim (to_text department_code))) of
        Some c \<Rightarrow> Some c
      | None \<Rightarrow> (case parse_production_floor_code department of
          Some c \<Rightarrow> Some c
        | None \<Rightarrow> map_option pf_code (List.find (\<lambda>f. starts_with (to_lower (trim (to_text department))) (to_lower (pf_label f) @ '' ''))
            production_floors)))"

definition shop_floor_department_codes :: "string list" where
  "shop_floor_department_codes = [''PPC-CVSF'', ''PPC-CV02SF'', ''PPC-CNCSF'', ''PPC-FGSF'']"

text \<open>\<open>/\bshop\s+floor\b/i\<close>: the text with the character before it, in lower case.\<close>

definition word_char :: "char \<Rightarrow> bool" where
  "word_char c \<longleftrightarrow> name_char (lower_char c) \<or> c = CHR ''_''"

definition shop_floor_here :: "string \<Rightarrow> bool" where
  "shop_floor_here s \<longleftrightarrow> starts_with s ''shop'' \<and>
     (let after = drop 4 s; rest = dropWhile is_space after
      in after \<noteq> rest \<and> starts_with rest ''floor''
         \<and> (case drop 5 rest of [] \<Rightarrow> True | c # _ \<Rightarrow> \<not> word_char c))"

fun has_shop_floor :: "bool \<Rightarrow> string \<Rightarrow> bool" where
  "has_shop_floor boundary [] = False"
| "has_shop_floor boundary (c # cs) \<longleftrightarrow> boundary \<and> shop_floor_here (c # cs) \<or> has_shop_floor (\<not> word_char c) cs"

definition is_shop_floor_department :: "jsval \<Rightarrow> jsval \<Rightarrow> string \<Rightarrow> bool" where
  "is_shop_floor_department department department_code floor_code \<longleftrightarrow>
     production_floor_from_department department department_code = Some floor_code
     \<and> (to_upper (trim (to_text department_code)) \<in> set shop_floor_department_codes
        \<or> has_shop_floor True (to_lower (to_text department)))"

definition production_floor_code_for_record :: "jsval \<Rightarrow> string" where
  "production_floor_code_for_record v =
     (let row = floor_record v; payload = floor_record (get row ''payload'');
          source_payload = floor_record (get row ''sourcePayload'')
      in normalize_production_floor_code
           (or_default (get row ''productionFloorCode'')
           (or_default (get row ''productionFloor'')
           (or_default (get payload ''productionFloorCode'')
           (or_default (get payload ''productionFloor'')
           (or_default (get source_payload ''productionFloorCode'')
             (get source_payload ''productionFloor'')))))))"

definition with_production_floor :: "jsrow \<Rightarrow> string \<Rightarrow> jsrow" where
  "with_production_floor fs floor_code = put ''productionFloorCode'' (Str floor_code) fs"

subsection \<open>Every name of a floor is read as that floor\<close>

text \<open>The names of the floors as they are compared.\<close>

definition floor_keys :: "(string \<times> string list) list" where
  "floor_keys = [(''conventional'', [''conventional'', ''ppac conventional 01'', ''conventional 01'']),
     (''conventional-02'', [''conventional 02'', ''ppac conventional 02'', ''conventional 02'']),
     (''cnc'', [''cnc'', ''ppac cnc 01'', ''cnc 01'']), (''forging'', [''forging'', ''ppac forging'', ''forging''])]"

lemma floor_keys:
  "map (\<lambda>f. (pf_code f, map (\<lambda>s. comparable_floor_name (Str s)) [pf_code f, pf_label f, pf_short f])) production_floors = floor_keys"
  by code_simp

definition floor_of_key :: "string \<Rightarrow> string option" where
  "floor_of_key k = (if k = [] then None
     else (case List.find (\<lambda>(c, ks). k \<in> set ks) floor_keys of Some (c, ks) \<Rightarrow> Some c | None \<Rightarrow> floor_by_ending k))"

lemma find_image: "(case List.find (\<lambda>f. k \<in> set (g f)) fs of Some f \<Rightarrow> Some (c f) | None \<Rightarrow> d)
    = (case List.find (\<lambda>(c, ks). k \<in> set ks) (map (\<lambda>f. (c f, g f)) fs) of Some (c, ks) \<Rightarrow> Some c | None \<Rightarrow> d)"
  by (induction fs) auto

lemma parse_by_key: "parse_production_floor_code v = floor_of_key (comparable_floor_name v)"
  using find_image [where k = "comparable_floor_name v" and g = "\<lambda>f. map (\<lambda>s. comparable_floor_name (Str s)) [pf_code f, pf_label f, pf_short f]"
    and fs = production_floors and c = pf_code and d = "floor_by_ending (comparable_floor_name v)", unfolded floor_keys]
  by (simp add: parse_production_floor_code_def floor_of_key_def Let_def image_image)

lemma keys_read_back: "(c, ks) \<in> set floor_keys \<Longrightarrow> k \<in> set ks \<Longrightarrow> floor_of_key k = Some c"
proof -
  have "list_all (\<lambda>(c, ks). list_all (\<lambda>k. floor_of_key k = Some c) ks) floor_keys" by code_simp
  then show "(c, ks) \<in> set floor_keys \<Longrightarrow> k \<in> set ks \<Longrightarrow> floor_of_key k = Some c" by (auto simp: list_all_iff)
qed

lemma floor_names_read_back:
  assumes "f \<in> set production_floors" "name \<in> {pf_code f, pf_label f, pf_short f}"
  shows "parse_production_floor_code (Str name) = Some (pf_code f)"
proof -
  have "(pf_code f, map (\<lambda>s. comparable_floor_name (Str s)) [pf_code f, pf_label f, pf_short f]) \<in> set floor_keys"
    using assms(1) by (auto simp flip: floor_keys)
  then show ?thesis unfolding parse_by_key by (rule keys_read_back) (use assms(2) in auto)
qed

lemma parsed_floor_exists:
  assumes "parse_production_floor_code v = Some c"
  shows "c \<in> pf_code ` set production_floors"
proof -
  have found: "List.find P production_floors = Some f \<Longrightarrow> pf_code f \<in> pf_code ` set production_floors" for P f
    by (auto simp: find_Some_iff)
  show ?thesis using assms unfolding parse_production_floor_code_def Let_def floor_by_ending_def
    by (auto split: if_splits option.splits dest: found simp: production_floors_def)
qed

text \<open>A record is always given a known floor, and stamping a record with a floor and reading it back gives that floor.\<close>

theorem record_floor_roundtrip:
  "production_floor_code_for_record v \<in> pf_code ` set production_floors
   \<and> (\<forall>f \<in> set production_floors. production_floor_code_for_record (Obj (with_production_floor fs (pf_code f))) = pf_code f)"
proof
  have "default_production_floor_code \<in> pf_code ` set production_floors"
    by (simp add: default_production_floor_code_def production_floors_def)
  then show "production_floor_code_for_record v \<in> pf_code ` set production_floors"
    by (auto simp: production_floor_code_for_record_def Let_def normalize_production_floor_code_def split: option.splits
      dest: parsed_floor_exists)
  show "\<forall>f \<in> set production_floors. production_floor_code_for_record (Obj (with_production_floor fs (pf_code f))) = pf_code f"
    by (auto simp: production_floor_code_for_record_def Let_def normalize_production_floor_code_def with_production_floor_def
      get_def map_of_put or_default_def nullish_def floor_names_read_back)
qed

end
