(* ===== verification/Planning_Rules.thy ===== *)
theory Planning_Rules
  imports JS_Value Production_Session
begin

section \<open>Planning rules\<close>

text \<open>
  \<^verbatim>\<open>packages/db/src/planning-rules.ts\<close>: the rules the planner and the screens share: the production
  date, the machine type of a family, priorities, reschedule actions, and the exceptions of the
  planning calendar. Rows are objects of unknown values. The one call that reads the host's
  time zone (\<open>Date.getDay\<close>) has it as a parameter.
\<close>

subsection \<open>Operations\<close>

definition planning_text :: "jsval \<Rightarrow> string" where
  "planning_text v = (case v of Str s \<Rightarrow> trim s | Null \<Rightarrow> [] | Undefined \<Rightarrow> [] | _ \<Rightarrow> to_text v)"

text \<open>\<open>String(v ?? "").trim()\<close>\<close>

definition trimmed_text :: "jsval \<Rightarrow> string" where
  "trimmed_text v = trim (to_text (or_default v (Str [])))"

definition planning_production_date :: "string option \<Rightarrow> instant option \<Rightarrow> string js_result" where
  "planning_production_date floor_code i =
     bind_result (production_shift_at (case floor_code of None \<Rightarrow> [] | Some f \<Rightarrow> f) i) (\<lambda>found.
       case found of Some c \<Rightarrow> return (sc_production_date c)
       | None \<Rightarrow> (case i of Some t \<Rightarrow> return (plant_date t) | None \<Rightarrow> throw ''Invalid time value''))"

definition machine_type_for_family :: "jsrow list \<Rightarrow> jsval \<Rightarrow> string" where
  "machine_type_for_family rows family =
     (let key = to_lower (trimmed_text family) in
      if key = [] then []
      else
        let types = foldl (\<lambda>types row.
              if to_lower (trimmed_text (get row ''machineFamily'')) \<noteq> key then types
              else let ty = trimmed_text (get row ''machineType'') in put (to_lower ty) ty types) [] rows
        in (case types of [(k, ty)] \<Rightarrow> ty | _ \<Rightarrow> []))"

definition format_planning_finish :: "jsval \<Rightarrow> jsval \<Rightarrow> string" where
  "format_planning_finish date working_hours =
     (let label = trimmed_text date in
      if label = [] then ''-''
      else case working_hours of
          Num h \<Rightarrow>
            if \<not> is_finite h then label
            else
              (case num_round (num_mul (num_max (Fin 0) h) (Fin 60)) of
                 Fin m \<Rightarrow>
                   let minutes = \<lfloor>m\<rfloor>; hours = num_text (num_floor (num_div (Fin m) (Fin 60)));
                       remainder = minutes mod 60
                   in label @ '' '' @ [CHR 0xB7] @ '' '' @ hours @ ''h''
                      @ (if remainder \<noteq> 0 then '' '' @ show_int remainder @ ''m'' else []) @ '' into working day''
               | _ \<Rightarrow> label @ '' '' @ [CHR 0xB7] @ '' Infinityh into working day'')
        | _ \<Rightarrow> label)"

definition closed_planner_statuses :: "string list" where
  "closed_planner_statuses = [''closed'', ''resolved'', ''cancelled'', ''canceled'', ''available'', ''inactive'']"

definition priority_scores :: "(string \<times> int) list" where
  "priority_scores = [(''urgent'', 100), (''top'', 100), (''critical'', 100), (''today'', 100), (''now'', 100),
     (''high'', 75), (''h'', 75), (''medium'', 50), (''med'', 50), (''m'', 50), (''normal'', 50),
     (''low'', 25), (''l'', 25)]"

definition planning_holiday_weekdays :: "int list" where
  "planning_holiday_weekdays = [5]"

definition machine_family_matches :: "jsval \<Rightarrow> jsval \<Rightarrow> bool" where
  "machine_family_matches route_family explicit_family =
     (let family = to_lower (planning_text explicit_family) in
      family \<noteq> [] \<and> to_lower (planning_text route_family) = family)"

text \<open>\<open>a || b\<close> on strings\<close>

definition or_text :: "string \<Rightarrow> string \<Rightarrow> string" where
  "or_text a b = (if a = [] then b else a)"

definition machine_master_family :: "jsrow \<Rightarrow> string" where
  "machine_master_family row = or_text (planning_text (get row ''machineFamily''))
     (or_text (planning_text (get row ''MACHINE FAMILY'')) (planning_text (get row ''Machine Family'')))"

definition is_active_planner_decision :: "jsval \<Rightarrow> bool" where
  "is_active_planner_decision status =
     (let normalized = to_lower (planning_text status) in
      normalized = [] \<or> normalized \<notin> set closed_planner_statuses)"

fun increasing_numbers :: "string list \<Rightarrow> bool" where
  "increasing_numbers (a # b # rest) =
     (\<not> num_le (num_of_text b) (num_of_text a) \<and> increasing_numbers (b # rest))"
| "increasing_numbers _ = True"

definition valid_confirmed_priority_setup_numbers :: "jsval \<Rightarrow> string list option" where
  "valid_confirmed_priority_setup_numbers value = (case value of
       Arr vs \<Rightarrow>
         if vs = [] then None
         else
           let numbers = map (\<lambda>v. trim (to_text v)) vs in
           if list_ex (\<lambda>e. e = [] \<or> \<not> is_finite (num_of_text e)) numbers then None
           else if increasing_numbers numbers then Some numbers else None
     | _ \<Rightarrow> None)"

record work_order_identity =
  wo_item_id :: string
  wo_number :: string

definition work_order_identity_matches :: "work_order_identity \<Rightarrow> work_order_identity \<Rightarrow> bool" where
  "work_order_identity_matches existing requested \<longleftrightarrow>
     norm_key (wo_item_id existing) = norm_key (wo_item_id requested)
     \<and> norm_key (wo_number existing) = norm_key (wo_number requested)"

datatype reschedule_action = Delay | ShiftAll | ShiftRequired

definition normalize_reschedule_action :: "jsval \<Rightarrow> reschedule_action" where
  "normalize_reschedule_action value =
     (let normalized = to_lower (planning_text value) in
      if normalized \<in> set [''delay'', ''delay plan'', ''delay_on_machine'', ''delay on machine''] then Delay
      else if normalized \<in> set [''shift full plan'', ''shift_all'', ''full'', ''move all'', ''shift all'']
      then ShiftAll else ShiftRequired)"

definition reschedule_action_label :: "jsval \<Rightarrow> string" where
  "reschedule_action_label value = (case normalize_reschedule_action value of
       Delay \<Rightarrow> ''Delay plan'' | ShiftAll \<Rightarrow> ''Shift full plan'' | ShiftRequired \<Rightarrow> ''Shift only compulsory parts'')"

definition priority_score :: "jsval \<Rightarrow> jsnum" where
  "priority_score value =
     (let normalized = to_lower (planning_text value) in
      if normalized = [] then Fin 0
      else case map_of priority_scores normalized of
          Some score \<Rightarrow> num_int score
        | None \<Rightarrow>
            let n = to_num value in
            if is_finite n \<and> num_lt (Fin 0) n then num_max (Fin 0) (num_sub (Fin 100) n) else Fin 50)"

definition priority_label :: "jsval \<Rightarrow> string" where
  "priority_label value = or_text (planning_text value) ''Normal''"

definition is_working_friday :: "jsrow \<Rightarrow> bool" where
  "is_working_friday row \<longleftrightarrow> to_lower (planning_text (get row ''dayType'')) = ''working friday''"

definition planning_calendar_scope :: "jsval \<Rightarrow> string js_result" where
  "planning_calendar_scope value =
     (let scope = or_text (to_lower (planning_text value)) ''factory'' in
      if scope \<notin> set [''factory'', ''cnc'', ''conventional'', ''conventional-02'', ''forging'']
      then throw ''Choose Whole Factory or a production unit.'' else return scope)"

definition planning_calendar_shift :: "jsval \<Rightarrow> string \<Rightarrow> string js_result" where
  "planning_calendar_shift value scope =
     (let shift = or_text (planning_text value) ''All'';
          allowed = (if scope = ''cnc'' then [''All'', ''A'', ''B'', ''C'']
            else if scope = ''factory'' then [''All'', ''A'', ''B'', ''C'', ''General''] else [''All'', ''General''])
      in if shift \<notin> set allowed then throw ''Choose a shift used by the selected unit.'' else return shift)"

record calendar_exceptions =
  exception_holidays :: "string list"
  exception_working :: "string list"
  capacity_fractions :: "(string \<times> jsnum) list"

definition shifts_of_floor :: "string \<Rightarrow> string list" where
  "shifts_of_floor floor_code = (if floor_code = ''cnc'' then [''A'', ''B'', ''C''] else [''General''])"

text \<open>The loop over the rows: the stopped shifts of each date (a map of sets, both in insertion order)
  and the working dates.\<close>

type_synonym calendar_state = "(string \<times> string list) list \<times> string list"

definition add_item :: "'a \<Rightarrow> 'a list \<Rightarrow> 'a list" where
  "add_item x xs = (if x \<in> set xs then xs else xs @ [x])"

definition calendar_row :: "string \<Rightarrow> calendar_state \<Rightarrow> jsrow \<Rightarrow> calendar_state" where
  "calendar_row floor_code st row = (case st of (stops, working) \<Rightarrow>
     let scope = or_text (planning_text (get row ''calendarScope'')) ''factory'';
         date = planning_text (get row ''date'') in
     if scope \<noteq> ''factory'' \<and> scope \<noteq> floor_code then st
     else if date = [] then st
     else if is_working_friday row then (stops, add_item date working)
     else
       let shift = or_text (planning_text (get row ''shift'')) ''All'';
           already = (case map_of stops date of None \<Rightarrow> [] | Some s \<Rightarrow> s);
           stopped = foldl (\<lambda>acc selected.
             if shift = ''All'' \<or> shift = selected then add_item selected acc else acc)
             already (shifts_of_floor floor_code)
       in (if stopped \<noteq> [] then put date stopped stops else stops, working))"

definition planning_calendar_exceptions :: "jsrow list \<Rightarrow> string \<Rightarrow> calendar_exceptions" where
  "planning_calendar_exceptions rows floor_code =
     (let (stops, working) = run_steps (calendar_row floor_code) ([], []) rows;
          n = int (length (shifts_of_floor floor_code));
          fraction = (\<lambda>stopped :: string list. num_div (num_int (n - int (length stopped))) (num_int n))
      in \<lparr>exception_holidays = map fst (filter (\<lambda>(d, stopped). \<not> truthy (fraction stopped)) stops),
          exception_working = working,
          capacity_fractions = map (\<lambda>(d, stopped). (d, fraction stopped)) stops\<rparr>)"

text \<open>\<open>getDay\<close> of an instant: the week day at the offset of the host's time zone.\<close>

definition is_planning_workday :: "(instant \<Rightarrow> int) \<Rightarrow> instant \<Rightarrow> bool \<Rightarrow> bool" where
  "is_planning_workday host_offset t working_friday \<longleftrightarrow>
     working_friday \<or> week_day ((t + host_offset t) div day_ms) \<notin> set planning_holiday_weekdays"

subsection \<open>Priorities, families, setups\<close>

text \<open>A priority score is a number between 0 and 100, whatever value it is computed from.\<close>

theorem priority_score_bounds:
  "num_le (Fin 0) (priority_score value) \<and> num_le (priority_score value) (Fin 100)"
proof -
  have table: "0 \<le> score \<and> score \<le> 100" if "map_of priority_scores k = Some score" for k score
    using that map_of_SomeD [OF that] by (auto simp: priority_scores_def)
  have sub: "\<exists>y. num_sub (Fin 100) (Fin x) = fl y \<and> y \<le> 100" if "0 < x" for x
    using that by (intro exI [of _ "100 - x"]) (simp add: num_sub_def)
  have cap: "num_le (num_max (Fin 0) (fl y)) (Fin 100)" if "y \<le> 100" for y
    using fl_mono [OF that] num_le_trans by (auto simp: num_max_def)
  have low: "num_le (Fin 0) (num_max (Fin 0) (fl y))" for y
    using num_le_total [of "Fin 0" "fl y"] by (auto simp: num_max_def)
  show ?thesis
  proof (cases "map_of priority_scores (to_lower (planning_text value))")
    case None
    show ?thesis
    proof (cases "is_finite (to_num value) \<and> num_lt (Fin 0) (to_num value)")
      case True
      then obtain x where x: "to_num value = Fin x" "0 < x" by (cases "to_num value") auto
      with sub obtain y where "num_sub (Fin 100) (Fin x) = fl y" "y \<le> 100" by blast
      then show ?thesis using x cap low None by (simp add: priority_score_def Let_def)
    qed (auto simp: priority_score_def Let_def None)
  next
    case (Some score)
    then show ?thesis using table [OF Some] by (simp add: priority_score_def Let_def)
  qed
qed

lemma increasing_numbers_sorted:
  "increasing_numbers es \<Longrightarrow> \<forall>e \<in> set es. is_finite (num_of_text e) \<Longrightarrow>
     sorted_wrt (\<lambda>a b. num_lt (num_of_text a) (num_of_text b)) es"
proof (induction es rule: increasing_numbers.induct)
  case (1 a b rest)
  then obtain x y where xy: "num_of_text a = Fin x" "num_of_text b = Fin y"
    by (cases "num_of_text a"; cases "num_of_text b") auto
  have ab: "x < y" using 1 xy by simp
  have IH: "sorted_wrt (\<lambda>a b. num_lt (num_of_text a) (num_of_text b)) (b # rest)" using 1 by simp
  have "num_lt (num_of_text a) (num_of_text c)" if c: "c \<in> set rest" for c
  proof -
    have "num_lt (Fin y) (num_of_text c)" using IH c xy by simp
    then show ?thesis using ab xy 1(3) c by (cases "num_of_text c") auto
  qed
  then show ?case using IH ab xy by simp
qed auto

text \<open>A confirmed priority is accepted only as a non-empty list of finite setup numbers that strictly
  increase from each to every later one; the list returned is the trimmed text of the entries.\<close>

theorem confirmed_setups_increase:
  assumes "valid_confirmed_priority_setup_numbers value = Some numbers"
  shows "numbers \<noteq> [] \<and> (\<exists>vs. value = Arr vs \<and> numbers = map (\<lambda>v. trim (to_text v)) vs)
    \<and> list_all (\<lambda>e. is_finite (num_of_text e)) numbers
    \<and> sorted_wrt (\<lambda>a b. num_lt (num_of_text a) (num_of_text b)) numbers"
proof -
  obtain vs where vs: "value = Arr vs" "vs \<noteq> []" "numbers = map (\<lambda>v. trim (to_text v)) vs"
    "increasing_numbers numbers" "\<not> list_ex (\<lambda>e. e = [] \<or> \<not> is_finite (num_of_text e)) numbers"
    using assms by (auto simp: valid_confirmed_priority_setup_numbers_def Let_def split: jsval.splits if_splits)
  then show ?thesis using increasing_numbers_sorted [of numbers] by (auto simp: list_ex_iff list_all_iff)
qed

theorem confirmed_setups_increase_witness:
  "[''1'', ''2'', ''3''] \<noteq> [] \<and>
   (\<exists>vs. Arr [Num (num_int 1), Str '' 2 '', Str ''3''] = Arr vs \<and> [''1'', ''2'', ''3''] = map (\<lambda>v. trim (to_text v)) vs)
    \<and> list_all (\<lambda>e. is_finite (num_of_text e)) [''1'', ''2'', ''3'']
    \<and> sorted_wrt (\<lambda>a b. num_lt (num_of_text a) (num_of_text b)) [''1'', ''2'', ''3'']"
  by (rule confirmed_setups_increase; code_simp)

subsection \<open>Calendar exceptions\<close>

text \<open>What one row says, apart from the order of the rows: it applies to the floor, is no working Friday
  and stops the given shift of the given date.\<close>

definition row_applies :: "string \<Rightarrow> string \<Rightarrow> jsrow \<Rightarrow> bool" where
  "row_applies floor_code date row \<longleftrightarrow>
     or_text (planning_text (get row ''calendarScope'')) ''factory'' \<in> {''factory'', floor_code}
     \<and> date \<noteq> [] \<and> planning_text (get row ''date'') = date"

definition row_stops :: "string \<Rightarrow> string \<Rightarrow> string \<Rightarrow> jsrow \<Rightarrow> bool" where
  "row_stops floor_code date shift row \<longleftrightarrow> row_applies floor_code date row \<and> \<not> is_working_friday row
     \<and> shift \<in> set (shifts_of_floor floor_code)
     \<and> or_text (planning_text (get row ''shift'')) ''All'' \<in> {''All'', shift}"

definition stopped_on :: "(string \<times> string list) list \<Rightarrow> string \<Rightarrow> string list" where
  "stopped_on stops date = (case map_of stops date of None \<Rightarrow> [] | Some s \<Rightarrow> s)"

lemma set_add_item [simp]: "set (add_item x xs) = insert x (set xs)"
  by (auto simp: add_item_def)

lemma distinct_add_item: "distinct xs \<Longrightarrow> distinct (add_item x xs)"
  by (simp add: add_item_def)

lemma add_items_set:
  "set (foldl (\<lambda>acc x. if P x then add_item x acc else acc) acc xs) = set acc \<union> {x \<in> set xs. P x}"
  by (induction xs arbitrary: acc) auto

lemma add_items_distinct:
  "distinct acc \<Longrightarrow> distinct (foldl (\<lambda>acc x. if P x then add_item x acc else acc) acc xs)"
  by (induction xs arbitrary: acc) (auto simp: distinct_add_item)

text \<open>The state of the loop after some rows: each date at most once, with a non-empty set of the
  floor's shifts.\<close>

definition calendar_inv :: "string \<Rightarrow> calendar_state \<Rightarrow> bool" where
  "calendar_inv floor_code st \<longleftrightarrow> (case st of (stops, working) \<Rightarrow> distinct (map fst stops) \<and>
     (\<forall>x \<in> set stops. snd x \<noteq> [] \<and> distinct (snd x) \<and> set (snd x) \<subseteq> set (shifts_of_floor floor_code)))"

lemma stopped_on_put: "stopped_on (put d v m) e = (if e = d then v else stopped_on m e)"
  by (simp add: stopped_on_def map_of_put)

definition stopped_after :: "string \<Rightarrow> jsrow \<Rightarrow> string list \<Rightarrow> string list" where
  "stopped_after floor_code row already =
     foldl (\<lambda>acc selected. if or_text (planning_text (get row ''shift'')) ''All'' = ''All'' \<or>
       or_text (planning_text (get row ''shift'')) ''All'' = selected then add_item selected acc else acc)
     already (shifts_of_floor floor_code)"

lemma stopped_after_set:
  "set (stopped_after floor_code row already) = set already \<union>
     {s \<in> set (shifts_of_floor floor_code). or_text (planning_text (get row ''shift'')) ''All'' \<in> {''All'', s}}"
  by (auto simp: stopped_after_def add_items_set)

lemma stopped_after_Nil:
  "stopped_after floor_code row already = [] \<longleftrightarrow> already = [] \<and>
     (\<forall>s \<in> set (shifts_of_floor floor_code). or_text (planning_text (get row ''shift'')) ''All'' \<notin> {''All'', s})"
  unfolding set_empty [symmetric] stopped_after_set by auto

lemma calendar_row_cases:
  "calendar_row floor_code (stops, working) row =
     (let date = planning_text (get row ''date'') in
      if \<not> row_applies floor_code date row then (stops, working)
      else if is_working_friday row then (stops, add_item date working)
      else let new = stopped_after floor_code row (stopped_on stops date) in
        (if new \<noteq> [] then put date new stops else stops, working))"
  by (simp add: calendar_row_def row_applies_def stopped_after_def stopped_on_def Let_def)

lemma calendar_row_inv:
  assumes inv: "calendar_inv floor_code st"
  shows "calendar_inv floor_code (calendar_row floor_code st row)"
proof -
  obtain stops working where st: "st = (stops, working)" by (cases st)
  define date where "date = planning_text (get row ''date'')"
  define new where "new = stopped_after floor_code row (stopped_on stops date)"
  have ok: "distinct (stopped_on stops date) \<and> set (stopped_on stops date) \<subseteq> set (shifts_of_floor floor_code)"
    using inv map_of_SomeD [of stops date] by (fastforce simp: calendar_inv_def st stopped_on_def split: option.splits)
  then have "distinct new" "set new \<subseteq> set (shifts_of_floor floor_code)"
    by (auto simp: new_def stopped_after_set) (simp add: stopped_after_def add_items_distinct)
  moreover have "x = (date, new) \<or> x \<in> set stops" if "x \<in> set (put date new stops)" for x
    using that set_put_subset [of date new stops] by blast
  ultimately have "calendar_inv floor_code (put date new stops, working)" if "new \<noteq> []"
    using that inv unfolding calendar_inv_def st prod.case by (metis distinct_put snd_conv)
  moreover have "calendar_inv floor_code (stops, w)" for w using inv by (simp add: calendar_inv_def st)
  ultimately show ?thesis unfolding st calendar_row_cases Let_def date_def [symmetric] new_def [symmetric]
    by (simp split: if_split)
qed

interpretation calendar: invariant_machine "calendar_row floor_code" "calendar_inv floor_code" for floor_code
  by unfold_locales (rule calendar_row_inv)

text \<open>What the whole loop computes does not depend on the order of the rows.\<close>

lemma calendar_run:
  "case run_steps (calendar_row floor_code) (stops, working) rows of (stops', working') \<Rightarrow>
     set (stopped_on stops' date) = set (stopped_on stops date) \<union> {s. \<exists>row \<in> set rows. row_stops floor_code date s row}
     \<and> set working' = set working \<union> {d. \<exists>row \<in> set rows. row_applies floor_code d row \<and> is_working_friday row}"
proof (induction rows arbitrary: stops working)
  case (Cons row rows)
  define d where "d = planning_text (get row ''date'')"
  obtain stops1 working1 where one: "calendar_row floor_code (stops, working) row = (stops1, working1)" by fastforce
  have "set (stopped_on stops1 date) = set (stopped_on stops date) \<union> {s. row_stops floor_code date s row}"
    using one by (auto simp: calendar_row_cases d_def [symmetric] Let_def stopped_on_put stopped_after_set stopped_after_Nil row_stops_def
        row_applies_def split: if_splits)
  moreover have "set working1 = set working \<union> {d. row_applies floor_code d row \<and> is_working_friday row}"
    using one by (auto simp: calendar_row_cases d_def Let_def row_applies_def split: if_splits)
  ultimately show ?case using Cons.IH [of stops1 working1] by (auto simp: one split: prod.splits)
qed auto

lemma fraction_zero:
  assumes "distinct s" "set s \<subseteq> set (shifts_of_floor floor_code)"
  shows "num_div (num_int (int (length (shifts_of_floor floor_code)) - int (length s)))
      (num_int (int (length (shifts_of_floor floor_code)))) = Fin 0 \<longleftrightarrow> set s = set (shifts_of_floor floor_code)"
proof -
  let ?all = "shifts_of_floor floor_code"
  have all: "distinct ?all" "length ?all = 1 \<or> length ?all = 3" by (simp_all add: shifts_of_floor_def)
  have len: "length s \<le> length ?all" using assms all by (metis card_mono distinct_card finite_set)
  have eq: "length s = length ?all \<longleftrightarrow> set s = set ?all"
    using assms all by (metis card_subset_eq distinct_card finite_set)
  show ?thesis
  proof (cases "length s = length ?all")
    case True
    then show ?thesis using eq all by auto
  next
    case False
    let ?n = "of_int (int (length ?all) - int (length s)) :: rat" and ?m = "of_int (int (length ?all)) :: rat"
    have "1 \<le> ?n" "?m \<le> 3" "0 < ?m" using False len all by auto
    then have "1/4 \<le> ?n / ?m" by (simp add: field_simps)
    then have "fl (?n / ?m) \<noteq> Fin 0" by (rule fl_nonzero)
    moreover have "num_div (Fin ?n) (Fin ?m) = fl (?n / ?m)" using \<open>0 < ?m\<close> by simp
    ultimately show ?thesis using False eq by metis
  qed
qed

lemma mem_map_fst_filter: "distinct (map fst m) \<Longrightarrow>
    d \<in> set (map fst (filter (\<lambda>(d, v). P v) m)) \<longleftrightarrow> (\<exists>v. map_of m d = Some v \<and> P v)"
  by (induction m) (auto simp: rev_image_eqI)

text \<open>C22: A date is a holiday of a floor exactly when the rows that apply to the floor stop every one of its
  shifts on it, and a working date exactly when a working-Friday row names it: the order of
  the rows, and which of them stops which shift, do not matter.\<close>

theorem planning_holidays_iff:
  "(date \<in> set (exception_holidays (planning_calendar_exceptions rows floor_code))) =
     list_all (\<lambda>shift. list_ex (row_stops floor_code date shift) rows) (shifts_of_floor floor_code)
   \<and> (date \<in> set (exception_working (planning_calendar_exceptions rows floor_code))) =
     list_ex (\<lambda>row. row_applies floor_code date row \<and> is_working_friday row) rows"
proof -
  obtain stops working where run: "run_steps (calendar_row floor_code) ([], []) rows = (stops, working)" by fastforce
  have "calendar_inv floor_code ([], [])" by (simp add: calendar_inv_def)
  then have "calendar_inv floor_code (run_steps (calendar_row floor_code) ([], []) rows)" by (rule calendar.run_inv)
  then have inv: "calendar_inv floor_code (stops, working)" by (simp only: run)
  have sets: "set (stopped_on stops date) = {s. \<exists>row \<in> set rows. row_stops floor_code date s row}"
    "set working = {d. \<exists>row \<in> set rows. row_applies floor_code d row \<and> is_working_friday row}"
    using calendar_run [where stops = "[]" and working = "[]" and rows = rows and date = date and floor_code = floor_code] by (simp_all add: run stopped_on_def)
  let ?frac = "\<lambda>s :: string list. num_div (num_int (int (length (shifts_of_floor floor_code)) - int (length s)))
      (num_int (int (length (shifts_of_floor floor_code))))"
  have frac: "\<not> truthy (?frac s) \<longleftrightarrow> set s = set (shifts_of_floor floor_code)" if "(d, s) \<in> set stops" for d s
    using that inv fraction_zero [of s floor_code] by (auto simp: calendar_inv_def truthy_def)
  have "date \<in> set (exception_holidays (planning_calendar_exceptions rows floor_code)) \<longleftrightarrow>
      (\<exists>s. map_of stops date = Some s \<and> \<not> truthy (?frac s))"
    using inv by (simp add: planning_calendar_exceptions_def run Let_def mem_map_fst_filter calendar_inv_def
        del: num_div.simps set_map)
  also have "\<dots> \<longleftrightarrow> (\<exists>s. map_of stops date = Some s \<and> set s = set (shifts_of_floor floor_code))"
    using frac map_of_SomeD [of stops date] by blast
  also have "\<dots> \<longleftrightarrow> set (shifts_of_floor floor_code) = set (stopped_on stops date)"
  proof (cases "map_of stops date")
    case None
    then show ?thesis by (simp add: stopped_on_def shifts_of_floor_def)
  next
    case (Some s)
    then show ?thesis by (auto simp: stopped_on_def)
  qed
  also have "\<dots> \<longleftrightarrow> list_all (\<lambda>shift. list_ex (row_stops floor_code date shift) rows) (shifts_of_floor floor_code)"
    by (auto simp: sets list_ex_iff list_all_iff row_stops_def)
  finally show ?thesis using sets(2) by (simp add: planning_calendar_exceptions_def run Let_def list_ex_iff)
qed

end
