(* ===== verification/Planning_Rows.thy ===== *)
theory Planning_Rows
  imports Planning_Rules
begin

section \<open>Rows of the planner: access, dates, numbers, durations\<close>

text \<open>
  The helpers at the end of \<^verbatim>\<open>packages/db/src/legacy-dashboard-analysis.ts\<close> through which the whole
  planner reads its rows: lookup by alternative column names, cleaned text, canonical keys,
  numbers, dates in the formats of the workbooks, durations, and the keys of the data entries.
  The bounded memo tables of the code return what the memoized function returns and are not
  modelled. What the language leaves to its host (reading of a date in an unknown format, the
  time zone, collation, the clock) is the record \<open>js_host\<close>.
\<close>

record js_host =
  native_date :: "string \<Rightarrow> instant option"
  host_offset :: "instant \<Rightarrow> int"
  collate_numeric :: "string \<Rightarrow> string \<Rightarrow> int"
  locale_compare :: "string \<Rightarrow> string \<Rightarrow> int"
  clock_now :: instant

text \<open>A host in UTC whose native \<open>Date.parse\<close> reads nothing and whose collation is the code-unit
  order: the instance the witnesses compute with.\<close>

definition utc_host :: js_host where
  "utc_host = \<lparr>native_date = (\<lambda>_. None), host_offset = (\<lambda>_. 0),
     collate_numeric = (\<lambda>a b. if a = b then 0 else if a < b then - 1 else 1),
     locale_compare = (\<lambda>a b. if a = b then 0 else if a < b then - 1 else 1), clock_now = 0\<rparr>"

subsection \<open>Row access\<close>

definition clean_text :: "jsval \<Rightarrow> string" where
  "clean_text v = (if nullish v then [] else trim (to_text v))"

text \<open>\<open>s.replace(/\s+/g, r)\<close>: every run of white space becomes \<open>r\<close>.\<close>

fun replace_spaces :: "string \<Rightarrow> bool \<Rightarrow> string \<Rightarrow> string" where
  "replace_spaces r inside [] = []"
| "replace_spaces r inside (c # cs) =
     (if is_space c then (if inside then replace_spaces r True cs else r @ replace_spaces r True cs)
      else c # replace_spaces r False cs)"

definition normalize_header :: "string \<Rightarrow> string" where
  "normalize_header v = trim (replace_spaces '' '' False (to_upper v))"

definition blank_value :: "jsval \<Rightarrow> bool" where
  "blank_value v \<longleftrightarrow> nullish v \<or> v = Str []"

definition first_value :: "(string \<Rightarrow> jsval) \<Rightarrow> string list \<Rightarrow> jsval" where
  "first_value look names = (case List.find (\<lambda>n. \<not> blank_value (look n)) names of
     Some n \<Rightarrow> look n | None \<Rightarrow> Undefined)"

definition normalized_row :: "jsrow \<Rightarrow> jsrow" where
  "normalized_row row = rev (map (\<lambda>(k, v). (normalize_header k, v)) row)"

definition row_value :: "jsrow \<Rightarrow> string list \<Rightarrow> jsval" where
  "row_value row names =
     (let direct = first_value (get row) names in
      if \<not> blank_value direct then direct
      else first_value (\<lambda>n. get (normalized_row row) (normalize_header n)) names)"

definition row_text :: "jsrow \<Rightarrow> string list \<Rightarrow> string" where
  "row_text row names = clean_text (row_value row names)"

definition as_record :: "jsval \<Rightarrow> jsrow" where
  "as_record v = (case v of Obj fs \<Rightarrow> fs | _ \<Rightarrow> [])"

definition canonical_text :: "string \<Rightarrow> string" where
  "canonical_text s = to_lower (replace_spaces [] False (trim s))"

definition canonical_key :: "jsval \<Rightarrow> string" where
  "canonical_key v = to_lower (replace_spaces [] False (clean_text v))"

definition safe_number :: "jsval \<Rightarrow> jsnum" where
  "safe_number v = (case v of
       Num (Fin x) \<Rightarrow> Fin x
     | _ \<Rightarrow> (let parsed = num_of_text (trim (filter (\<lambda>c. c \<noteq> CHR '','') (to_text (or_default v (Str [])))))
           in if is_finite parsed then parsed else Fin 0))"

definition epsilon :: rat where
  "epsilon = 1 / 2 ^ 52"

definition round_to :: "nat \<Rightarrow> jsnum \<Rightarrow> jsnum" where
  "round_to digits value =
     num_div (num_round (num_mul (num_add value (Fin epsilon)) (Fin (10 ^ digits)))) (Fin (10 ^ digits))"

definition ratio :: "jsnum \<Rightarrow> jsnum \<Rightarrow> jsnum" where
  "ratio numerator denominator = (if truthy denominator then num_div numerator denominator else Fin 0)"

definition sum_numbers :: "jsnum list \<Rightarrow> jsnum" where
  "sum_numbers values = foldl num_add (Fin 0) values"

subsection \<open>Dates\<close>

definition month_names :: "(string \<times> int) list" where
  "month_names = [(''january'', 1), (''jan'', 1), (''february'', 2), (''feb'', 2), (''march'', 3), (''mar'', 3),
     (''april'', 4), (''apr'', 4), (''may'', 5), (''june'', 6), (''jun'', 6), (''july'', 7), (''jul'', 7),
     (''august'', 8), (''aug'', 8), (''september'', 9), (''sep'', 9), (''sept'', 9), (''october'', 10), (''oct'', 10),
     (''november'', 11), (''nov'', 11), (''december'', 12), (''dec'', 12)]"

definition month_short :: "string list" where
  "month_short = [''Jan'', ''Feb'', ''Mar'', ''Apr'', ''May'', ''Jun'', ''Jul'', ''Aug'', ''Sep'', ''Oct'', ''Nov'', ''Dec'']"

definition excel_serial_iso :: "int \<Rightarrow> string" where
  "excel_serial_iso whole_days = iso_day (whole_days - 25569)"

definition plant_iso_date :: "instant \<Rightarrow> string" where
  "plant_iso_date t = plant_date t"

text \<open>A calendar date that exists; \<open>Date.UTC\<close> reads a year below 100 as a year of the 1900s, so the
  code's comparison of the year fails there.\<close>

definition existing_day :: "int \<Rightarrow> int \<Rightarrow> int \<Rightarrow> string option" where
  "existing_day y m d =
     (if 100 \<le> y \<and> 1 \<le> m \<and> m \<le> 12 \<and> 1 \<le> d \<and> d \<le> days_in_month y m
      then Some (iso_day (day_of_ymd (YMD y m d))) else None)"

definition is_letter :: "char \<Rightarrow> bool" where
  "is_letter c \<longleftrightarrow> (let n = (of_char (lower_char c) :: nat) in 97 \<le> n \<and> n \<le> 122)"

text \<open>A run of characters of a class, of a length allowed, followed by a separator.\<close>

definition lead :: "(char \<Rightarrow> bool) \<Rightarrow> (nat \<Rightarrow> bool) \<Rightarrow> (char \<Rightarrow> bool) \<Rightarrow> string \<Rightarrow> (string \<times> string) option" where
  "lead cls len sep s = (let run = takeWhile cls s in
     case dropWhile cls s of
       c # rest \<Rightarrow> if len (length run) \<and> sep c then Some (run, rest) else None
     | [] \<Rightarrow> None)"

definition final_run :: "(char \<Rightarrow> bool) \<Rightarrow> (nat \<Rightarrow> bool) \<Rightarrow> string \<Rightarrow> string option" where
  "final_run cls len s = (let run = takeWhile cls s; rest = dropWhile cls s in
     if len (length run) \<and> (rest = [] \<or> is_space (hd rest)) then Some run else None)"

definition named_day_first :: "string \<Rightarrow> string option" where
  "named_day_first raw =
     (let sep = (\<lambda>c. c = CHR ''-'' \<or> is_space c) in
      case lead is_digit (\<lambda>n. n = 1 \<or> n = 2) sep raw of None \<Rightarrow> None | Some (d, r1) \<Rightarrow>
      (case lead is_letter (\<lambda>n. 1 \<le> n) sep r1 of None \<Rightarrow> None | Some (m, r2) \<Rightarrow>
      (case final_run is_digit (\<lambda>n. n = 2 \<or> n = 4) r2 of None \<Rightarrow> None | Some y \<Rightarrow>
      (case map_of month_names (to_lower m) of None \<Rightarrow> None | Some month \<Rightarrow>
        existing_day (if length y = 2 then 2000 + read_nat y else read_nat y) month (read_nat d)))))"

definition numeric_day_first :: "string \<Rightarrow> string option" where
  "numeric_day_first raw =
     (let sep = (\<lambda>c. c = CHR ''/'' \<or> c = CHR ''-'') in
      case lead is_digit (\<lambda>n. n = 1 \<or> n = 2) sep raw of None \<Rightarrow> None | Some (d, r1) \<Rightarrow>
      (case lead is_digit (\<lambda>n. n = 1 \<or> n = 2) sep r1 of None \<Rightarrow> None | Some (m, r2) \<Rightarrow>
      (case final_run is_digit (\<lambda>n. n = 4) r2 of None \<Rightarrow> None | Some y \<Rightarrow>
        existing_day (read_nat y) (read_nat m) (read_nat d))))"

text \<open>\<open>/^\d{4,6}(?:\.\d+)?$/\<close>, the whole days of an Excel serial number.\<close>

definition serial_text :: "string \<Rightarrow> int option" where
  "serial_text raw =
     (let whole = takeWhile is_digit raw; rest = dropWhile is_digit raw in
      if 4 \<le> length whole \<and> length whole \<le> 6
         \<and> (rest = [] \<or> (hd rest = CHR ''.'' \<and> tl rest \<noteq> [] \<and> list_all is_digit (tl rest)))
      then Some (read_nat whole) else None)"

definition date_prefix :: "string \<Rightarrow> bool" where
  "date_prefix raw \<longleftrightarrow> 10 \<le> length raw \<and> matches_date (take 10 raw)"

definition parse_date :: "js_host \<Rightarrow> string \<Rightarrow> string" where
  "parse_date host value =
     (let raw = trim value in
      if raw = [] then []
      else case serial_text raw of Some n \<Rightarrow> excel_serial_iso n
      | None \<Rightarrow>
        if date_prefix raw then take 10 raw
        else case named_day_first raw of Some d \<Rightarrow> d
        | None \<Rightarrow> (case numeric_day_first raw of Some d \<Rightarrow> d
        | None \<Rightarrow> (case native_date host raw of Some t \<Rightarrow> plant_iso_date t | None \<Rightarrow> [])))"

text \<open>Of any value: a finite number is an Excel serial, out of the range of dates it throws.\<close>

definition parse_date_value :: "js_host \<Rightarrow> jsval \<Rightarrow> string js_result" where
  "parse_date_value host v = (case v of
       Str s \<Rightarrow> return (parse_date host s)
     | Num (Fin x) \<Rightarrow>
         (if \<bar>\<lfloor>x\<rfloor> - 25569\<bar> \<le> 100000000 then return (excel_serial_iso \<lfloor>x\<rfloor>) else throw ''Invalid time value'')
     | _ \<Rightarrow> return (parse_date host (clean_text v)))"

text \<open>\<open>parseDate(v) || v\<close>\<close>

definition date_or_text :: "js_host \<Rightarrow> string \<Rightarrow> string" where
  "date_or_text host v = or_text (parse_date host v) v"

definition instant_prefix :: "string \<Rightarrow> bool" where
  "instant_prefix raw \<longleftrightarrow> 16 \<le> length raw \<and> matches_date (take 10 raw) \<and> (raw ! 10 = CHR ''T'' \<or> raw ! 10 = CHR '' '')
     \<and> list_all is_digit (slice 11 13 raw) \<and> raw ! 13 = CHR '':'' \<and> list_all is_digit (slice 14 16 raw)"

definition recorded_completion_date :: "js_host \<Rightarrow> jsval \<Rightarrow> string js_result" where
  "recorded_completion_date host v =
     (let raw = clean_text v in
      case (if instant_prefix raw then native_date host raw else None) of
        Some t \<Rightarrow> return (plant_iso_date t)
      | None \<Rightarrow> parse_date_value host v)"

definition month_label :: "string \<Rightarrow> string \<Rightarrow> string" where
  "month_label month year =
     (let i = read_nat month - 1 in
      (if 0 \<le> i \<and> i < 12 then month_short ! nat i else ''undefined'') @ ''-'' @ year)"

definition month_key :: "js_host \<Rightarrow> string \<Rightarrow> string \<times> string" where
  "month_key host value =
     (let date = parse_date host value in
      if date = [] then ([], trim value)
      else (take 7 date, month_label (slice 5 7 date) (slice 2 4 date)))"

definition date_label :: "js_host \<Rightarrow> string \<Rightarrow> string" where
  "date_label host value =
     (let date = parse_date host value in
      if date = [] then trim value
      else slice 8 10 date @ ''/'' @ slice 5 7 date @ ''/'' @ take 4 date)"

definition date_key :: "js_host \<Rightarrow> string \<Rightarrow> string \<times> string" where
  "date_key host value = (let date = parse_date host value in (date, date_label host date))"

definition matches_month :: "string \<Rightarrow> bool" where
  "matches_month key \<longleftrightarrow> length key = 7 \<and> list_all is_digit (take 4 key) \<and> key ! 4 = CHR ''-'' \<and> list_all is_digit (drop 5 key)"

definition month_label_from_key :: "string \<Rightarrow> string" where
  "month_label_from_key key = (if \<not> matches_month key then key else month_label (slice 5 7 key) (slice 2 4 key))"

definition attendance_month_bounds :: "string \<Rightarrow> string \<times> string" where
  "attendance_month_bounds key =
     (if \<not> matches_month key then ([], [])
      else
        let year = read_nat (take 4 key); month = read_nat (slice 5 7 key);
            next_year = (if month = 12 then year + 1 else year); next_month = (if month = 12 then 1 else month + 1);
            day_one = (\<lambda>y m. show_int y @ ''-'' @ pad_start 2 (CHR ''0'') (show_int m) @ ''-01'')
        in (day_one year month, day_one next_year next_month))"

definition max_date :: "string list \<Rightarrow> string" where
  "max_date values = (let vs = sort (filter (\<lambda>v. v \<noteq> []) values) in if vs = [] then [] else last vs)"

end
