(* ===== verification/Planning_Entries.thy ===== *)
theory Planning_Entries
  imports Planning_Rows
begin

section \<open>Entries: keys, shop-floor status, durations, rejections\<close>

text \<open>
  The part of \<^verbatim>\<open>packages/db/src/legacy-dashboard-analysis.ts\<close> that turns data entries into the rows the
  planner works on: the keys under which decisions, statuses and master rows replace one
  another, the stages of a setup's life, the selection of one active status per machine, and
  the minutes, downtime and rejections of a production entry.
\<close>

subsection \<open>Setup keys\<close>

definition setup_step_key :: "string \<Rightarrow> string \<Rightarrow> string" where
  "setup_step_key setup_no option_no =
     (let setup_key = canonical_text setup_no; option_key = canonical_text option_no;
          major = takeWhile is_digit setup_key; rest = dropWhile is_digit setup_key in
      if setup_key = [] then []
      else case rest of
          c # minor \<Rightarrow>
            if major \<noteq> [] \<and> c = CHR ''.'' \<and> minor \<noteq> [] \<and> list_all is_digit minor \<and> major = option_key
            then minor else setup_key
        | [] \<Rightarrow> setup_key)"

definition strip_prefix :: "string \<Rightarrow> string \<Rightarrow> string" where
  "strip_prefix p s = (if take (length p) s = p then drop (length p) s else s)"

definition planner_setup_key :: "string \<Rightarrow> string" where
  "planner_setup_key value =
     (let key = canonical_text value;
          digits = (if take 5 key = ''setup'' then drop 5 key else if take 1 key = ''p'' then drop 1 key else key)
      in if digits \<noteq> [] \<and> list_all is_digit digits then num_text (num_of_text digits) else key)"

text \<open>The parts of a key joined with bars, empty when one of them is.\<close>

definition key_of_parts :: "string list \<Rightarrow> string" where
  "key_of_parts parts = (if list_all (\<lambda>p. p \<noteq> []) parts then join ''|'' parts else [])"

record setup_target =
  st_jc_no :: string
  st_part_code :: string
  st_option_number :: string
  st_setup_no :: string
  st_machine :: string

definition setup_checklist_key :: "setup_target \<Rightarrow> string" where
  "setup_checklist_key t = key_of_parts [canonical_text (st_jc_no t), canonical_text (st_part_code t),
     canonical_text (st_option_number t), setup_step_key (st_setup_no t) (st_option_number t), canonical_text (st_machine t)]"

definition setup_key_without_machine :: "setup_target \<Rightarrow> string" where
  "setup_key_without_machine t = key_of_parts [canonical_text (st_jc_no t), canonical_text (st_part_code t),
     canonical_text (st_option_number t), setup_step_key (st_setup_no t) (st_option_number t)]"

definition machine_plan_setup_key :: "setup_target \<Rightarrow> string" where
  "machine_plan_setup_key t = key_of_parts [canonical_text (st_jc_no t), canonical_text (st_part_code t),
     canonical_text (st_option_number t), setup_step_key (st_setup_no t) (st_option_number t), canonical_text (st_machine t)]"

definition production_setup_key :: "setup_target \<Rightarrow> string" where
  "production_setup_key t = key_of_parts [canonical_text (st_jc_no t), canonical_text (st_part_code t),
     canonical_text (st_setup_no t), canonical_text (st_machine t)]"

definition production_setup_base_key :: "setup_target \<Rightarrow> string" where
  "production_setup_base_key t = key_of_parts [canonical_text (st_jc_no t), canonical_text (st_part_code t), canonical_text (st_setup_no t)]"

definition master_key :: "jsrow \<Rightarrow> string" where
  "master_key row = (let option_no = row_text row [''OPTION NUMBER'', ''optionNumber''] in
     join ''|'' [canonical_text (row_text row [''PART NO'', ''PART CODE'', ''partNo'', ''partCode'']), option_no,
       setup_step_key (row_text row [''SETUP NO.'', ''SETUP CODE'', ''setupNo'']) option_no])"

text \<open>The column names of a status row.\<close>

definition status_target :: "jsrow \<Rightarrow> setup_target" where
  "status_target row = \<lparr>st_jc_no = row_text row [''jcNo'', ''JC NO.'', ''JC NO''],
     st_part_code = row_text row [''partCode'', ''partNo'', ''PART CODE'', ''PART NO''],
     st_option_number = row_text row [''optionNumber'', ''OPTION NUMBER'', ''OPTION NO''],
     st_setup_no = row_text row [''setupNo'', ''SETUP NO.'', ''SETUP NO'', ''SET UP''],
     st_machine = row_text row [''machine'', ''machineNo'', ''M/C NO'', ''MACHINE NO'', ''MACHINE NO.'']\<rparr>"

subsection \<open>Decision keys and the merge of decisions\<close>

definition joined_keys :: "jsrow \<Rightarrow> string list list \<Rightarrow> string" where
  "joined_keys row columns = join ''|'' (map (\<lambda>names. canonical_text (row_text row names)) columns)"

definition route_selection_decision_key :: "jsrow \<Rightarrow> string" where
  "route_selection_decision_key row = joined_keys row
     [[''jcNo'', ''jobCardNumber'', ''JC NO.'', ''JC NO''], [''partCode'', ''PART CODE'', ''PART NO''],
      [''optionNumber'', ''routeCode'', ''SELECTED ROUTE OPTION'', ''OPTION NUMBER'']]"

definition priority_decision_key :: "jsrow \<Rightarrow> string" where
  "priority_decision_key row = joined_keys row
     [[''target'', ''TARGET''], [''jcNo'', ''JC NO.'', ''JC NO''], [''partCode'', ''PART CODE'', ''PART NO''],
      [''priority'', ''PRIORITY'']]"

definition machine_constraint_decision_key :: "jsrow \<Rightarrow> string" where
  "machine_constraint_decision_key row = join ''|''
     [canonical_text (row_text row [''machineNumber'', ''machineNo'', ''machine'', ''MACHINE NO.'', ''MACHINE NO'', ''M/C NO'']),
      row_text row [''unavailableFrom'', ''UNAVAILABLE FROM''], row_text row [''unavailableTo'', ''UNAVAILABLE TO'']]"

definition override_target_columns :: "string list" where
  "override_target_columns = [''target'', ''jobCardNumber'', ''jcNo'', ''JC NO.'', ''JC NO'', ''PART CODE'', ''PART NO'']"

definition plan_override_decision_key :: "jsrow \<Rightarrow> string" where
  "plan_override_decision_key row = joined_keys row
     [override_target_columns, [''setupNumber'', ''setupNo'', ''SETUP NO.'', ''SETUP NO''],
      [''fromMachineNumber'', ''fromMachine'', ''FROM MACHINE''], [''toMachineNumber'', ''toMachine'', ''TO MACHINE'']]"

definition route_change_decision_key :: "jsrow \<Rightarrow> string" where
  "route_change_decision_key row = joined_keys row
     [override_target_columns, [''newRouteCode'', ''newOption'', ''NEW ROUTE OPTION'', ''NEW OPTION''],
      [''applyFromSetup'', ''APPLY FROM SETUP'']]"

definition setup_completion_decision_key :: "jsrow \<Rightarrow> string" where
  "setup_completion_decision_key row = joined_keys row
     [[''jcNo'', ''JC NO.'', ''JC NO''], [''setupNo'', ''SETUP NO.'', ''SETUP NO''], [''machine'', ''MACHINE NO.'', ''MACHINE NO'']]"

definition normalize_plan_override_decision :: "jsrow \<Rightarrow> jsrow" where
  "normalize_plan_override_decision row =
     put ''toMachine'' (Str (row_text row [''toMachineNumber'', ''toMachine'', ''TO MACHINE'']))
     (put ''fromMachine'' (Str (row_text row [''fromMachineNumber'', ''fromMachine'', ''FROM MACHINE'']))
     (put ''setupNo'' (Str (row_text row [''setupNumber'', ''setupNo'', ''SETUP NO.'', ''SETUP NO'']))
     (put ''target'' (Str (row_text row override_target_columns)) row)))"

definition merge_source_action_rows :: "jsrow list \<Rightarrow> jsrow list \<Rightarrow> (jsrow \<Rightarrow> string) \<Rightarrow> jsrow list" where
  "merge_source_action_rows source_rows live_rows key_of =
     map snd (foldl (\<lambda>merged row. put (or_text (key_of row) (to_json (Obj row))) row merged) [] (source_rows @ live_rows))"

subsection \<open>Entries that replace one another\<close>

definition latest_entry_timestamp :: "jsrow \<Rightarrow> string" where
  "latest_entry_timestamp row = row_text row [''taskCompletedAt'', ''completedAt'', ''createdAt'']"

definition keep_latest :: "(jsrow \<Rightarrow> string) \<Rightarrow> (jsrow \<Rightarrow> string) \<Rightarrow> (string \<times> jsrow) list \<Rightarrow> jsrow \<Rightarrow> (string \<times> jsrow) list" where
  "keep_latest key_of time_of latest row =
     (let key = key_of row in
      if key = [] then latest
      else case map_of latest key of
          None \<Rightarrow> put key row latest
        | Some current \<Rightarrow> if time_of current \<le> time_of row then put key row latest else latest)"

definition entry_key :: "(jsrow \<Rightarrow> string) \<Rightarrow> jsrow \<Rightarrow> string" where
  "entry_key key_for_row row = or_text (key_for_row row) (or_text (row_text row [''key'']) (row_text row [''_id'']))"

definition latest_entry_rows_by_key :: "jsrow list \<Rightarrow> (jsrow \<Rightarrow> string) \<Rightarrow> jsrow list" where
  "latest_entry_rows_by_key rows key_for_row =
     map snd (run_steps (keep_latest (entry_key key_for_row) latest_entry_timestamp) [] rows)"

definition latest_shop_floor_status_by_setup :: "jsrow list \<Rightarrow> (string \<times> jsrow) list" where
  "latest_shop_floor_status_by_setup rows =
     run_steps (keep_latest (\<lambda>row. setup_checklist_key (status_target row)) (\<lambda>row. row_text row [''completedAt'', ''createdAt''])) [] rows"

definition find_shop_floor_status :: "(string \<times> jsrow) list \<Rightarrow> setup_target \<Rightarrow> jsrow option" where
  "find_shop_floor_status latest target =
     (let key = setup_checklist_key target in if key = [] then None else map_of latest key)"

subsection \<open>The stages of a setup\<close>

definition setup_lifecycle_stages :: "string list" where
  "setup_lifecycle_stages = [''planned'', ''raw_material_at_machine'', ''presetting'', ''setting'', ''quality_approval'',
     ''operator_started'', ''item_complete'']"

definition normalize_setup_lifecycle_stage :: "string \<Rightarrow> string" where
  "normalize_setup_lifecycle_stage stage =
     (case map_of [(''planned'', ''planned''), (''shop_floor_rm'', ''raw_material_at_machine''),
        (''raw_material_at_machine'', ''raw_material_at_machine''), (''tools_drawing'', ''presetting''),
        (''presetting'', ''presetting''), (''setting'', ''setting''), (''qc_approval'', ''quality_approval''),
        (''quality_approval'', ''quality_approval''), (''worker_start'', ''operator_started''),
        (''operator_started'', ''operator_started''), (''item_complete'', ''item_complete'')] stage of
       Some s \<Rightarrow> s | None \<Rightarrow> [])"

fun index_of :: "'a \<Rightarrow> 'a list \<Rightarrow> int option" where
  "index_of x [] = None"
| "index_of x (y # ys) = (if x = y then Some 0 else map_option (\<lambda>i. i + 1) (index_of x ys))"

definition setup_lifecycle_stage_rank :: "string \<Rightarrow> int" where
  "setup_lifecycle_stage_rank stage =
     (case index_of (normalize_setup_lifecycle_stage stage) setup_lifecycle_stages of Some i \<Rightarrow> i | None \<Rightarrow> - 1)"

definition setup_lifecycle_stage_label :: "string \<Rightarrow> string" where
  "setup_lifecycle_stage_label stage =
     (case map_of [(''planned'', ''Planned''), (''raw_material_at_machine'', ''Raw material at the machine''),
        (''presetting'', ''Pre setting done''), (''setting'', ''Setting done''), (''quality_approval'', ''Quality approval''),
        (''operator_started'', ''Operator assigned and machine started''), (''item_complete'', ''Item complete'')] stage of
       Some s \<Rightarrow> s | None \<Rightarrow> [])"

definition effective_shop_floor_stage :: "jsrow option \<Rightarrow> jsnum option \<Rightarrow> string" where
  "effective_shop_floor_stage status actual_rows =
     (let saved = normalize_setup_lifecycle_stage (case status of None \<Rightarrow> [] | Some s \<Rightarrow> row_text s [''stage'']);
          recorded = (case status of None \<Rightarrow> False
            | Some s \<Rightarrow> (case get s ''hasRecordedStart'' of Bool _ \<Rightarrow> True | _ \<Rightarrow> False)) in
      if saved = ''planned'' \<or> (saved \<noteq> [] \<and> recorded) then saved
      else
        let produced = (case actual_rows of Some n \<Rightarrow> if truthy n then ''operator_started'' else [] | None \<Rightarrow> [])
        in hd (sort_by (\<lambda>a b. setup_lifecycle_stage_rank b - setup_lifecycle_stage_rank a) [saved, produced]))"

definition shop_floor_locked_machines_for_setup :: "jsrow list \<Rightarrow> setup_target \<Rightarrow> string list" where
  "shop_floor_locked_machines_for_setup rows target =
     (let target_key = setup_key_without_machine target in
      if target_key = [] then []
      else foldl (\<lambda>machines row.
        if setup_lifecycle_stage_rank (row_text row [''stage'']) < setup_lifecycle_stage_rank ''raw_material_at_machine''
        then machines
        else if setup_key_without_machine (status_target row) \<noteq> target_key then machines
        else let machine = st_machine (status_target row) in if machine \<noteq> [] then add_item machine machines else machines)
        [] rows)"

subsection \<open>One active status per machine\<close>

definition shop_floor_status_blocks_machine :: "jsrow \<Rightarrow> bool" where
  "shop_floor_status_blocks_machine row =
     (let stage = normalize_setup_lifecycle_stage (row_text row [''stage'', ''shopFloorStage'']) in
      stage \<noteq> [] \<and> stage \<noteq> ''planned'' \<and> stage \<noteq> ''item_complete'')"

definition shop_floor_status_owner_rank :: "jsrow \<Rightarrow> int" where
  "shop_floor_status_owner_rank row = (if row_text row [''ownerId''] \<noteq> [] then 1 else 0)"

definition shop_floor_status_entry_key :: "jsrow \<Rightarrow> string" where
  "shop_floor_status_entry_key row = setup_checklist_key (status_target row)"

text \<open>\<open>a || b\<close> on the results of comparisons\<close>

definition or_else :: "int \<Rightarrow> int \<Rightarrow> int" where
  "or_else a b = (if a = 0 then b else a)"

definition status_owner_order :: "js_host \<Rightarrow> jsrow \<Rightarrow> jsrow \<Rightarrow> int" where
  "status_owner_order host a b =
     or_else (shop_floor_status_owner_rank a - shop_floor_status_owner_rank b)
     (or_else (locale_compare host (latest_entry_timestamp a) (latest_entry_timestamp b))
       (locale_compare host (shop_floor_status_entry_key a) (shop_floor_status_entry_key b)))"

text \<open>The loop: the machines that have their active row, and the keys of the rows that came later.\<close>

definition claim_machine :: "string list \<times> string list \<Rightarrow> jsrow \<Rightarrow> string list \<times> string list" where
  "claim_machine st row = (case st of (machines, blocked) \<Rightarrow>
     let machine = canonical_text (st_machine (status_target row)) in
     if machine = [] then st
     else if machine \<in> set machines then (machines, add_item (shop_floor_status_entry_key row) blocked)
     else (add_item machine machines, blocked))"

definition single_active_shop_floor_status_rows :: "js_host \<Rightarrow> jsrow list \<Rightarrow> jsrow list" where
  "single_active_shop_floor_status_rows host rows =
     (let active = sort_by (status_owner_order host) (filter shop_floor_status_blocks_machine rows);
          (machines, blocked) = run_steps claim_machine ([], []) active
      in filter (\<lambda>row. shop_floor_status_entry_key row \<notin> set blocked) rows)"

subsection \<open>Keys of the other entries\<close>

definition first_piece_report_entry_key :: "jsrow \<Rightarrow> string" where
  "first_piece_report_entry_key row = setup_checklist_key (status_target row)"

definition downtime_reason_master_entry_key :: "jsrow \<Rightarrow> string" where
  "downtime_reason_master_entry_key row = to_lower (row_text row [''code'', ''downtimeCode'', ''DOWNTIME CODE''])"

definition rejection_master_entry_key :: "jsrow \<Rightarrow> string" where
  "rejection_master_entry_key row = to_lower (row_text row [''code'', ''CODE''])"

definition production_card_entry_key :: "jsrow \<Rightarrow> string" where
  "production_card_entry_key row = or_text (row_text row [''cardId'']) (joined_keys row
     [[''prodDate'', ''PROD DATE'', ''PRODUCTION DATE''], [''jobCard'', ''jcNo'', ''JC NO.'', ''JC NO''],
      [''partCode'', ''partNo'', ''PART CODE'', ''PART NO''], [''setupNo'', ''SETUP NO.'', ''SETUP NO'', ''SET UP''],
      [''machine'', ''machineNo'', ''M/C NO'', ''MACHINE NO'', ''MACHINE NO.''], [''startTime''], [''endTime'']])"

definition quality_parameter_master_entry_key :: "jsrow \<Rightarrow> string" where
  "quality_parameter_master_entry_key row = joined_keys row
     [[''partNo'', ''partCode'', ''PART NO'', ''PART CODE''], [''optionNumber'', ''OPTION NUMBER'', ''OPTION NO''],
      [''setupNo'', ''SETUP NO.'', ''SETUP NO'', ''SET UP''], [''code'', ''parameterCode'', ''CODE'']]"

definition hourly_quality_check_entry_key :: "jsrow \<Rightarrow> string" where
  "hourly_quality_check_entry_key row = or_text (row_text row [''checkId'']) (joined_keys row
     [[''prodDate'', ''date''], [''shift''], [''hourSlot''], [''machine'', ''machineNo''], [''partCode'', ''partNo''],
      [''optionNumber''], [''setupNo'']])"

definition maintenance_master_entry_key :: "jsrow \<Rightarrow> string" where
  "maintenance_master_entry_key row = or_text (row_text row [''maintenanceCode'', ''code'', ''CODE''])
     (row_text row [''maintenanceTitle'', ''title'', ''TITLE''])"

definition maintenance_checklist_master_entry_key :: "jsrow \<Rightarrow> string" where
  "maintenance_checklist_master_entry_key row = joined_keys row
     [[''checklistCode'', ''CHECKLIST CODE''], [''sequence'', ''SEQUENCE'', ''STEP NO'']]"

definition maintenance_schedule_entry_key :: "jsrow \<Rightarrow> string" where
  "maintenance_schedule_entry_key row = joined_keys row
     [[''machineNo'', ''machine'', ''MACHINE NO'', ''M/C NO''], [''maintenanceCode'', ''code'', ''CODE'']]"

definition maintenance_task_entry_key :: "js_host \<Rightarrow> jsrow \<Rightarrow> string js_result" where
  "maintenance_task_entry_key host row =
     (let task = row_text row [''taskId''] in
      if task \<noteq> [] then return task
      else bind_result (parse_date_value host (row_value row [''completedDate'', ''date''])) (\<lambda>date.
        return (join ''|'' (map canonical_text
          [row_text row [''machineNo'', ''machine'', ''MACHINE NO'', ''M/C NO''], row_text row [''maintenanceCode'', ''code'', ''CODE''],
           or_text date (row_text row [''completedDate'', ''date''])]))))"

definition setup_checklist_session_entry_key :: "jsrow \<Rightarrow> string" where
  "setup_checklist_session_entry_key row = or_text (row_text row [''sessionId'']) (setup_checklist_key (status_target row))"

definition holiday_date_columns :: "string list" where
  "holiday_date_columns = [''date'', ''holidayDate'', ''fromDate'', ''startDate'']"

text \<open>An element of a joined array: \<open>null\<close> and \<open>undefined\<close> cannot occur, a false value takes the default.\<close>

definition truthy_text :: "jsval \<Rightarrow> string \<Rightarrow> string" where
  "truthy_text v d = (if truth v then to_text v else d)"

definition planning_holiday_entry_key :: "js_host \<Rightarrow> jsrow \<Rightarrow> string js_result" where
  "planning_holiday_entry_key host row =
     bind_result (parse_date_value host (row_value row holiday_date_columns)) (\<lambda>date.
       return (join ''|'' [or_text date (row_text row holiday_date_columns),
         truthy_text (get row ''calendarScope'') ''factory'', truthy_text (get row ''shift'') ''All'']))"

definition route_key :: "jsval \<Rightarrow> jsval \<Rightarrow> string" where
  "route_key part_no setup_no =
     (if clean_text part_no \<noteq> [] \<and> clean_text setup_no \<noteq> []
      then clean_text part_no @ ''|'' @ clean_text setup_no else [])"

record route_facts =
  rf_machine_type :: string
  rf_machine_used :: string
  rf_setup_name :: string

definition load_route_lookup :: "jsrow list \<Rightarrow> (string \<times> route_facts) list" where
  "load_route_lookup rows = foldl (\<lambda>lookup row.
     let base_key = route_key (row_value row [''PART CODE'', ''PART NO'', ''partNo''])
           (row_value row [''SETUP CODE'', ''SETUP NO.'', ''SET UP'', ''setupNo'']);
         rework = get row ''reworkJobCardNumber'';
         key = (if truth rework then canonical_text (to_text rework) @ ''|'' @ base_key else base_key) in
     if key = [] \<or> map_of lookup key \<noteq> None then lookup
     else put key \<lparr>rf_machine_type = row_text row [''MACHINE TYPE'', ''machineType''],
            rf_machine_used = row_text row [''MACHINE USED'', ''machineUsed''],
            rf_setup_name = row_text row [''SETUP NAME'', ''setupName'']\<rparr> lookup) [] rows"

subsection \<open>Minutes, downtime, rejections\<close>

text \<open>\<open>/^(\d{1,2}):(\d{2})(?::(\d{2}))?$/\<close>: hours, minutes, seconds.\<close>

definition clock_text :: "string \<Rightarrow> (int \<times> int \<times> int) option" where
  "clock_text raw =
     (case lead is_digit (\<lambda>n. n = 1 \<or> n = 2) (\<lambda>c. c = CHR '':'') raw of None \<Rightarrow> None
      | Some (h, rest) \<Rightarrow>
          let m = take 2 rest; tail = drop 2 rest in
          if length m = 2 \<and> list_all is_digit m
          then (if tail = [] then Some (read_nat h, read_nat m, 0)
                else if hd tail = CHR '':'' \<and> length tail = 3 \<and> list_all is_digit (tl tail)
                then Some (read_nat h, read_nat m, read_nat (tl tail)) else None)
          else None)"

definition duration_minutes :: "jsval \<Rightarrow> jsnum" where
  "duration_minutes value =
     (let raw = clean_text value in
      if raw = [] then Fin 0
      else case clock_text raw of
          Some (h, m, s) \<Rightarrow> num_add (num_int (h * 60 + m)) (num_div (num_int s) (Fin 60))
        | None \<Rightarrow>
            let numeric = safe_number value in
            if num_le numeric (Fin 1) \<and> num_lt (Fin 0) numeric
            then num_mul (num_mul numeric (Fin 24)) (Fin 60) else numeric)"

definition time_range_minutes :: "jsval \<Rightarrow> jsval \<Rightarrow> jsnum" where
  "time_range_minutes start stop =
     (let from = duration_minutes start; until = duration_minutes stop in
      if \<not> truthy from \<or> \<not> truthy until then Fin 0
      else
        let until' = (if num_lt until from then num_add until (Fin 1440) else until)
        in num_max (num_sub until' from) (Fin 0))"

definition elapsed_minutes_from_row :: "jsrow \<Rightarrow> jsnum" where
  "elapsed_minutes_from_row row =
     (let range = time_range_minutes (row_value row [''MACHINE START TIME'', ''M/C START TIME''])
            (row_value row [''MACHINE END TIME'', ''M/C END TIME'']) in
      if truthy range
      then num_max (num_sub range (duration_minutes
             (row_value row [''SCHEDULED BREAK TIME (MINUTES)'', ''BREAK TIME (MINUTES)'', ''Breaks'']))) (Fin 0)
      else
        let hours = safe_number (row_value row [''AVAILABLE RUN HOURS'', ''LOGGED HOURS AFTER LUNCH'', ''LOGGED HOURS'', ''TOTAL HOUR'']);
            minutes = safe_number (row_value row [''AVAILABLE RUN MINUTES REMAINING'', ''LOGGED MINUTES AFTER LUNCH'', ''LOGGED MINUTES'', ''TOTAL MIN''])
        in if truthy hours \<or> truthy minutes then num_add (num_mul hours (Fin 60)) minutes
           else duration_minutes (row_value row [''AVAILABLE MACHINE TIME (MINUTES)'', ''AVAILABLE RUN TIME (MINUTES)'',
             ''LOGGED TIME IN MINUTES AFTER LUNCH'', ''LOGGED TIME IN MINUTES'', ''TOTAL MACHINE RUN TIME IN MIN'']))"

definition downtime_reason_fields :: "(string \<times> string list) list" where
  "downtime_reason_fields =
     [(''QC Approval'', [''QC APPROVAL DOWNTIME (MIN)'', ''QC APPROVAL'', ''QCDown'']),
      (''Machine Setting'', [''MACHINE SETTING DOWNTIME (MIN)'', ''MACHINE SETTING'', ''SettingDown'']),
      (''No Raw Material'', [''NO RAW MATERIAL DOWNTIME (MIN)'', ''NO RM'', ''NoRMDown'']),
      (''No Operator'', [''NO OPERATOR DOWNTIME (MIN)'', ''NO OPERATOR'', ''NoOpDown'']),
      (''No Electricity'', [''NO ELECTRICITY DOWNTIME (MIN)'', ''NO ELECTRICITY'', ''NoElecDown'']),
      (''Other'', [''OTHER DOWNTIME (MIN)'', ''OTHER'', ''OtherDown''])]"

definition unassigned_downtime_reason :: string where
  "unassigned_downtime_reason = ''Reason Not Entered''"

definition downtime_values_from_row :: "jsrow \<Rightarrow> (string \<times> jsnum) list \<times> jsnum" where
  "downtime_values_from_row row =
     (let values = filter (\<lambda>(label, minutes). num_lt (Fin 0) minutes)
            (map (\<lambda>(label, aliases). (label, duration_minutes (row_value row aliases))) downtime_reason_fields);
          reason_total = sum_numbers (map snd values);
          total_downtime = duration_minutes (row_value row [''TOTAL DOWNTIME MINUTES'', ''M/C DOWN TIME'', ''DownTime'']);
          effective = num_max reason_total total_downtime;
          missing = num_max (num_sub total_downtime reason_total) (Fin 0)
      in (if num_lt (Fin 0) missing then values @ [(unassigned_downtime_reason, missing)] else values, effective))"

definition runtime_hours_from_row :: "jsrow \<Rightarrow> jsnum \<Rightarrow> jsnum" where
  "runtime_hours_from_row row downtime_minutes =
     num_div (num_max (num_sub (elapsed_minutes_from_row row) downtime_minutes) (Fin 0)) (Fin 60)"

record rejection_entry =
  re_type :: string
  re_reason :: string
  re_remark :: string
  re_qty :: jsnum

definition numbered :: "string list \<Rightarrow> int \<Rightarrow> string list" where
  "numbered suffixes i = map (\<lambda>s. ''REJECTION '' @ show_int i @ '' '' @ s) suffixes"

definition rejection_entry_at :: "jsrow \<Rightarrow> int \<Rightarrow> rejection_entry list" where
  "rejection_entry_at row i =
     (let qty = safe_number (row_value row
            (numbered [''QUANTITY (PCS)'', ''REJECTION QUANTITY'', ''QTY (PCS)''] i @ [''RejQty'' @ show_int i])) in
      if num_le qty (Fin 0) then []
      else [\<lparr>re_type = row_text row (numbered [''TYPE OF REJECTION'', ''TYPE''] i @ [''RejType'' @ show_int i]),
             re_reason = row_text row (numbered [''REASON FOR REJECTION'', ''REASON''] i @ [''RejReason'' @ show_int i]),
             re_remark = row_text row (numbered [''REMARK'', ''REJECTION REMARK''] i @ [''RejRemarks'' @ show_int i]),
             re_qty = qty\<rparr>])"

definition rejection_entries_from_row :: "jsrow \<Rightarrow> rejection_entry list" where
  "rejection_entries_from_row row =
     (let entries = concat (map (rejection_entry_at row) [1..5]) in
      if entries \<noteq> [] then entries
      else
        let legacy = safe_number (row_value row [''REJECTION QTY (PCS)'', ''REJ QTY IN PCS'']) in
        if num_lt (Fin 0) legacy
        then [\<lparr>re_type = ''Unclassified Rejection'', re_reason = ''Legacy rejection quantity'',
               re_remark = row_text row [''REMARKS'', ''REMARK''], re_qty = legacy\<rparr>] else [])"

definition rejection_total_from_row :: "jsrow \<Rightarrow> jsnum" where
  "rejection_total_from_row row = sum_numbers (map re_qty (rejection_entries_from_row row))"

definition setting_minutes_from_row :: "jsrow \<Rightarrow> jsnum" where
  "setting_minutes_from_row row =
     (let explicit = duration_minutes (row_value row [''SETTING TIME (MIN)'', ''SETTING MINUTES'', ''SETTING DURATION'']) in
      if truthy explicit then explicit
      else time_range_minutes (row_value row [''SETTING START TIME'', ''START TIME'', ''settingStartTime''])
             (row_value row [''SETTING END TIME'', ''END TIME'', ''settingEndTime'']))"

subsection \<open>The latest row of every key\<close>

text \<open>What holds of the table after the rows \<open>seen\<close>: every key that is not empty has its row, one of those
  seen with that key, and none of them is later.\<close>

definition latest_table :: "(jsrow \<Rightarrow> string) \<Rightarrow> (jsrow \<Rightarrow> string) \<Rightarrow> jsrow list \<Rightarrow> (string \<times> jsrow) list \<Rightarrow> bool" where
  "latest_table key_of time_of seen m \<longleftrightarrow> distinct (map fst m)
     \<and> set (map fst m) = set (map key_of seen) - {[]}
     \<and> (\<forall>(k, r) \<in> set m. key_of r = k \<and> r \<in> set seen \<and> (\<forall>q \<in> set seen. key_of q = k \<longrightarrow> time_of q \<le> time_of r))"

lemma latest_table_lookup:
  "latest_table key_of time_of seen m \<Longrightarrow> map_of m k = None \<longleftrightarrow> k = [] \<or> k \<notin> key_of ` set seen"
  by (auto simp: latest_table_def map_of_eq_None_iff simp flip: set_map)

lemma keep_latest_table:
  assumes t: "latest_table key_of time_of seen m"
  shows "latest_table key_of time_of (seen @ [row]) (keep_latest key_of time_of m row)"
proof -
  note d = t [unfolded latest_table_def]
  have old: "key_of q = k \<and> q \<in> set seen \<and> (\<forall>p \<in> set seen. key_of p = k \<longrightarrow> time_of p \<le> time_of q)"
    and key: "k \<noteq> [] \<and> k \<in> key_of ` set seen" if "(k, q) \<in> set m" for k q
  proof -
    show "key_of q = k \<and> q \<in> set seen \<and> (\<forall>p \<in> set seen. key_of p = k \<longrightarrow> time_of p \<le> time_of q)"
      using d that by auto
    have "k \<in> set (map fst m)" using that by force
    then show "k \<noteq> [] \<and> k \<in> key_of ` set seen" using d by auto
  qed
  have later: "\<forall>(k, q) \<in> set (put (key_of row) row m). key_of q = k \<and> q \<in> set (seen @ [row]) \<and>
      (\<forall>p \<in> set (seen @ [row]). key_of p = k \<longrightarrow> time_of p \<le> time_of q)"
    if "\<And>q. q \<in> set seen \<Longrightarrow> key_of q = key_of row \<Longrightarrow> time_of q \<le> time_of row"
    using d old that by (auto simp: set_put)
  show ?thesis
  proof (cases "key_of row = []")
    case True
    have "\<forall>(k, q) \<in> set m. key_of q = k \<and> q \<in> set (seen @ [row]) \<and>
        (\<forall>p \<in> set (seen @ [row]). key_of p = k \<longrightarrow> time_of p \<le> time_of q)"
      using old key True by auto
    then show ?thesis using d True by (simp add: latest_table_def keep_latest_def)
  next
    case False
    show ?thesis
    proof (cases "map_of m (key_of row)")
      case None
      then have new: "key_of row \<notin> key_of ` set seen" using latest_table_lookup [OF t] False by blast
      have "latest_table key_of time_of (seen @ [row]) (put (key_of row) row m)"
        unfolding latest_table_def
      proof (intro conjI)
        show "distinct (map fst (put (key_of row) row m))" using d by (simp add: distinct_put)
        have "key_of row \<notin> set (map fst m)" using d new by simp
        then show "set (map fst (put (key_of row) row m)) = set (map key_of (seen @ [row])) - {[]}"
          using d False by (auto simp: keys_put)
        show "\<forall>(k, q) \<in> set (put (key_of row) row m). key_of q = k \<and> q \<in> set (seen @ [row]) \<and>
            (\<forall>p \<in> set (seen @ [row]). key_of p = k \<longrightarrow> time_of p \<le> time_of q)"
        proof (rule later)
          fix q assume "q \<in> set seen" "key_of q = key_of row"
          then show "time_of q \<le> time_of row" using new by (metis imageI)
        qed
      qed
      then show ?thesis using False None by (simp add: keep_latest_def)
    next
      case (Some r)
      then have r: "(key_of row, r) \<in> set m" by (rule map_of_SomeD)
      then have "key_of row \<in> fst ` set m" by force
      then have keys: "set (map fst m) = set (map key_of (seen @ [row])) - {[]}"
        "set (map fst (put (key_of row) row m)) = set (map key_of (seen @ [row])) - {[]}"
        using d False by (auto simp: keys_put)
      show ?thesis
      proof (cases "time_of r \<le> time_of row")
        case True
        then have top: "q \<in> set seen \<Longrightarrow> key_of q = key_of row \<Longrightarrow> time_of q \<le> time_of row" for q
          using old [OF r] order_trans by blast
        have "latest_table key_of time_of (seen @ [row]) (put (key_of row) row m)"
          unfolding latest_table_def using d keys later [OF top] by (simp add: distinct_put)
        then show ?thesis using False Some True by (simp add: keep_latest_def)
      next
        case False
        then have less: "time_of row \<le> time_of r" by simp
        have uniq: "q = r" if "(key_of row, q) \<in> set m" for q
          using that r d by (meson eq_key_imp_eq_value)
        have "\<forall>(k, q) \<in> set m. key_of q = k \<and> q \<in> set (seen @ [row]) \<and>
            (\<forall>p \<in> set (seen @ [row]). key_of p = k \<longrightarrow> time_of p \<le> time_of q)"
        proof clarify
          fix k q assume kq: "(k, q) \<in> set m"
          with old [OF kq] uniq less show "key_of q = k \<and> q \<in> set (seen @ [row]) \<and>
            (\<forall>p \<in> set (seen @ [row]). key_of p = k \<longrightarrow> time_of p \<le> time_of q)" by auto
        qed
        then have "latest_table key_of time_of (seen @ [row]) m"
          unfolding latest_table_def using d keys by blast
        then show ?thesis using Some False \<open>key_of row \<noteq> []\<close> by (simp add: keep_latest_def)
      qed
    qed
  qed
qed

lemma run_latest_table: "latest_table key_of time_of rows (run_steps (keep_latest key_of time_of) [] rows)"
proof (induction rows rule: rev_induct)
  case Nil
  show ?case by (simp add: latest_table_def)
next
  case (snoc row rows)
  from keep_latest_table [OF this] show ?case by (simp add: run_steps_append)
qed

text \<open>The rows kept are one per key that is not empty, in which no row of the input is later than the one
  kept for its key.\<close>

theorem latest_entry_rows_latest:
  "distinct (map (entry_key key_for_row) (latest_entry_rows_by_key rows key_for_row))
   \<and> set (map (entry_key key_for_row) (latest_entry_rows_by_key rows key_for_row)) = set (map (entry_key key_for_row) rows) - {[]}
   \<and> list_all (\<lambda>kept. kept \<in> set rows \<and> list_all (\<lambda>row. latest_entry_timestamp row \<le> latest_entry_timestamp kept)
         (filter (\<lambda>row. entry_key key_for_row row = entry_key key_for_row kept) rows))
       (latest_entry_rows_by_key rows key_for_row)"
proof -
  let ?key = "entry_key key_for_row"
  define m where "m = run_steps (keep_latest ?key latest_entry_timestamp) [] rows"
  have out: "latest_entry_rows_by_key rows key_for_row = map snd m"
    by (simp add: latest_entry_rows_by_key_def m_def)
  have t: "latest_table ?key latest_entry_timestamp rows m" unfolding m_def by (rule run_latest_table)
  then have keys: "map ?key (map snd m) = map fst m" by (auto simp: latest_table_def)
  have "list_all (\<lambda>kept. kept \<in> set rows \<and> list_all (\<lambda>row. latest_entry_timestamp row \<le> latest_entry_timestamp kept)
      (filter (\<lambda>row. ?key row = ?key kept) rows)) (map snd m)"
    using t by (fastforce simp: latest_table_def list_all_iff)
  then show ?thesis using t unfolding out keys by (simp add: latest_table_def)
qed

subsection \<open>The machines of the active rows\<close>

abbreviation status_machine :: "jsrow \<Rightarrow> string" where
  "status_machine row \<equiv> canonical_text (st_machine (status_target row))"

text \<open>The loop only adds blocked keys: it is a monotone machine.\<close>

interpretation claims: monotone_machine claim_machine "\<lambda>_. True" "\<lambda>st. set (snd st)"
  by unfold_locales (auto simp: claim_machine_def Let_def add_item_def split: prod.splits)

lemma claimed_keys:
  "run_steps claim_machine (machines, blocked) rows = (machines', blocked') \<Longrightarrow>
     set blocked' \<subseteq> set blocked \<union> shop_floor_status_entry_key ` set rows"
proof (induction rows arbitrary: machines blocked)
  case (Cons row rows)
  obtain ms bl where st: "claim_machine (machines, blocked) row = (ms, bl)" by force
  then have "set bl \<subseteq> insert (shop_floor_status_entry_key row) (set blocked)"
    by (auto simp: claim_machine_def Let_def add_item_def split: if_splits)
  moreover have "set blocked' \<subseteq> set bl \<union> shop_floor_status_entry_key ` set rows"
    using Cons.IH Cons.prems st by simp
  ultimately show ?case by auto
qed simp

lemma claimed_machines_distinct:
  assumes "run_steps claim_machine (machines, blocked) rows = (machines', blocked')"
    and "kept = filter (\<lambda>row. status_machine row \<noteq> [] \<and> shop_floor_status_entry_key row \<notin> set blocked') rows"
  shows "distinct (map status_machine kept) \<and> set (map status_machine kept) \<inter> set machines = {}"
  using assms
proof (induction rows arbitrary: machines blocked kept)
  case (Cons row rows)
  let ?st = "claim_machine (machines, blocked) row"
  obtain ms bl where st: "?st = (ms, bl)" by force
  define rest where "rest = filter (\<lambda>row. status_machine row \<noteq> [] \<and> shop_floor_status_entry_key row \<notin> set blocked') rows"
  have run: "run_steps claim_machine (ms, bl) rows = (machines', blocked')" using Cons.prems(1) st by simp
  from Cons.IH [OF run rest_def] have ih: "distinct (map status_machine rest)" "set (map status_machine rest) \<inter> set ms = {}"
    by blast+
  have grows: "set bl \<subseteq> set blocked'" using claims.run_mono [of "(ms, bl)" rows] run by simp
  consider "status_machine row = []" | "status_machine row \<in> set machines" "status_machine row \<noteq> []"
    | "status_machine row \<notin> set machines" "status_machine row \<noteq> []" by blast
  then show ?case
  proof cases
    case 1
    then have "ms = machines" "kept = rest" using st Cons.prems(2) by (auto simp: claim_machine_def rest_def)
    with ih show ?thesis by simp
  next
    case 2
    then have "ms = machines" "shop_floor_status_entry_key row \<in> set blocked'"
      using st grows by (auto simp: claim_machine_def Let_def add_item_def split: if_splits)
    then have "kept = rest" using Cons.prems(2) by (simp add: rest_def)
    with ih \<open>ms = machines\<close> show ?thesis by simp
  next
    case 3
    then have "set ms = insert (status_machine row) (set machines)"
      using st by (auto simp: claim_machine_def Let_def add_item_def)
    with ih 3 show ?thesis using Cons.prems(2) by (auto simp: rest_def)
  qed
qed simp

text \<open>C23: Among the status rows kept, the rows that occupy a machine name it once: no machine has two active
  setups. A row dropped has the setup key of a row that occupies a machine.\<close>

theorem single_active_status_per_machine:
  "distinct (map (\<lambda>row. canonical_text (st_machine (status_target row)))
     (filter (\<lambda>row. shop_floor_status_blocks_machine row \<and> canonical_text (st_machine (status_target row)) \<noteq> [])
       (single_active_shop_floor_status_rows host rows)))
   \<and> set rows - set (single_active_shop_floor_status_rows host rows)
     \<subseteq> {row. shop_floor_status_entry_key row \<in> shop_floor_status_entry_key ` set (filter shop_floor_status_blocks_machine rows)}"
proof -
  define active where "active = sort_by (status_owner_order host) (filter shop_floor_status_blocks_machine rows)"
  obtain ms bl where run: "run_steps claim_machine ([], []) active = (ms, bl)" by force
  have out: "single_active_shop_floor_status_rows host rows = filter (\<lambda>row. shop_floor_status_entry_key row \<notin> set bl) rows"
    using run by (simp add: single_active_shop_floor_status_rows_def active_def)
  let ?Q = "\<lambda>row. status_machine row \<noteq> [] \<and> shop_floor_status_entry_key row \<notin> set bl"
  have "mset (filter ?Q active) = mset (filter ?Q (filter shop_floor_status_blocks_machine rows))"
    by (simp add: active_def filter_filter_mset)
  then have "mset (map status_machine (filter ?Q active)) = mset (map status_machine (filter ?Q (filter shop_floor_status_blocks_machine rows)))"
    by simp
  then have "distinct (map status_machine (filter ?Q (filter shop_floor_status_blocks_machine rows)))"
    using claimed_machines_distinct [OF run refl] mset_eq_imp_distinct_iff by blast
  moreover have "filter ?Q (filter shop_floor_status_blocks_machine rows)
      = filter (\<lambda>row. shop_floor_status_blocks_machine row \<and> status_machine row \<noteq> [])
          (single_active_shop_floor_status_rows host rows)"
    unfolding out by (simp add: conj_commute conj_left_commute)
  ultimately show ?thesis using claimed_keys [OF run] by (auto simp: out active_def)
qed

end
