(* ===== verification/Planning_Calendar.thy ===== *)
theory Planning_Calendar
  imports Planning_Entries
begin

section \<open>The planning calendar\<close>

text \<open>
  \<^verbatim>\<open>packages/db/src/legacy-dashboard-analysis.ts\<close>, the calendar of the planner: working days and their
  capacity, offsets by calendar days and by working days, counts of production days, the
  finish of a production run that starts on a date, and the comparison of dates as text. The
  loops run under the guards of the code, which are the fuel of the recursions here.
\<close>

subsection \<open>Data\<close>

record planning_calendar =
  pc_holidays :: "string list"
  pc_working :: "string list"
  pc_hours :: jsnum
  pc_current :: "string option"
  pc_capacity :: "(string \<times> jsnum) list"

record production_actual =
  pa_machine :: string
  pa_start :: string
  pa_latest :: string
  pa_output :: jsnum
  pa_actual :: jsnum
  pa_rows :: jsnum
  pa_dates :: "string list"

record production_finish =
  pf_date :: string
  pf_hours :: "jsnum option"

subsection \<open>Days\<close>

definition production_planning_daily_hours :: "string \<Rightarrow> jsnum" where
  "production_planning_daily_hours floor_code = (if floor_code = ''cnc'' then Fin (45/2) else Fin 8)"

definition planning_setup_buffer_days :: int where "planning_setup_buffer_days = 1"
definition planning_dispatch_target_days :: int where "planning_dispatch_target_days = 25"
definition minimum_parallel_machine_work_days :: int where "minimum_parallel_machine_work_days = 15"

definition default_planning_calendar :: planning_calendar where
  "default_planning_calendar = \<lparr>pc_holidays = [], pc_working = [], pc_hours = Fin 8, pc_current = None, pc_capacity = []\<rparr>"

definition setup_plan_vs_actual :: "js_host \<Rightarrow> string \<Rightarrow> string \<Rightarrow> string" where
  "setup_plan_vs_actual host planned_completion actual_completion =
     (let planned = parse_date host planned_completion; actual = parse_date host actual_completion in
      if planned = [] then ''Plan date missing''
      else if actual = [] then ''Pending actual''
      else if actual < planned then ''Early''
      else if actual = planned then ''On time'' else ''Delayed'')"

definition add_calendar_days :: "string \<Rightarrow> int \<Rightarrow> string" where
  "add_calendar_days date days = (case parse_day date of None \<Rightarrow> [] | Some d \<Rightarrow> iso_day (d + days))"

definition is_planning_date :: "js_host \<Rightarrow> planning_calendar \<Rightarrow> string \<Rightarrow> bool" where
  "is_planning_date host cal date =
     (let normalized = date_or_text host date in
      if normalized = [] \<or> normalized \<in> set (pc_holidays cal) then False
      else case parse_day normalized of None \<Rightarrow> False
        | Some d \<Rightarrow> is_planning_workday (host_offset host) (d * day_ms) (normalized \<in> set (pc_working cal)))"

definition planning_capacity_fraction :: "js_host \<Rightarrow> planning_calendar \<Rightarrow> string \<Rightarrow> jsnum" where
  "planning_capacity_fraction host cal date =
     (if is_planning_date host cal date
      then (case map_of (pc_capacity cal) date of Some f \<Rightarrow> f | None \<Rightarrow> Fin 1) else Fin 0)"

text \<open>\<open>while (current && !isPlanningDate(current) && guard < 370)\<close>\<close>

fun seek_planning_date :: "js_host \<Rightarrow> planning_calendar \<Rightarrow> int \<Rightarrow> nat \<Rightarrow> string \<Rightarrow> string" where
  "seek_planning_date host cal stp 0 current = current"
| "seek_planning_date host cal stp (Suc guard) current =
     (if current \<noteq> [] \<and> \<not> is_planning_date host cal current
      then seek_planning_date host cal stp guard (add_calendar_days current stp) else current)"

definition move_to_planning_date :: "js_host \<Rightarrow> planning_calendar \<Rightarrow> string \<Rightarrow> int \<Rightarrow> string" where
  "move_to_planning_date host cal date stp = seek_planning_date host cal stp 370 (date_or_text host date)"

text \<open>\<open>while (remaining > 0 && guard < 5000)\<close>\<close>

fun count_workdays :: "js_host \<Rightarrow> planning_calendar \<Rightarrow> int \<Rightarrow> nat \<Rightarrow> string \<Rightarrow> int \<Rightarrow> string \<times> int" where
  "count_workdays host cal stp 0 current remaining = (current, remaining)"
| "count_workdays host cal stp (Suc guard) current remaining =
     (if 0 < remaining
      then let next_day = add_calendar_days current stp in
        count_workdays host cal stp guard next_day
          (if is_planning_date host cal next_day then remaining - 1 else remaining)
      else (current, remaining))"

definition add_days :: "js_host \<Rightarrow> planning_calendar \<Rightarrow> string \<Rightarrow> int \<Rightarrow> string" where
  "add_days host cal date days =
     (let start = date_or_text host date; stp = (if days < 0 then - 1 else 1) in
      if start = [] then []
      else if days = 0
      then (if is_planning_date host cal start then start else move_to_planning_date host cal start stp)
      else let (current, remaining) = count_workdays host cal stp 5000 start \<bar>days\<bar>
        in if remaining = 0 then current else [])"

text \<open>A number of days that is not an integer, infinite or \<open>NaN\<close> never reaches zero: the result is empty.\<close>

definition add_number_of_days :: "js_host \<Rightarrow> planning_calendar \<Rightarrow> string \<Rightarrow> jsnum \<Rightarrow> string" where
  "add_number_of_days host cal date n = 
     (case n of Fin x \<Rightarrow> if of_int \<lfloor>x\<rfloor> = x then add_days host cal date \<lfloor>x\<rfloor> else [] | _ \<Rightarrow> [])"

definition planning_calendar_from_rows ::
  "js_host \<Rightarrow> jsrow list \<Rightarrow> jsnum \<Rightarrow> string \<Rightarrow> string \<Rightarrow> planning_calendar js_result" where
  "planning_calendar_from_rows host rows hours current_date floor_code =
     bind_result (map_result (\<lambda>row.
         bind_result (parse_date_value host (row_value row holiday_date_columns)) (\<lambda>d. return (put ''date'' (Str d) row))) rows)
       (\<lambda>dated. let e = planning_calendar_exceptions dated floor_code in
         return \<lparr>pc_holidays = exception_holidays e, pc_working = exception_working e, pc_hours = hours,
                 pc_current = Some current_date, pc_capacity = capacity_fractions e\<rparr>)"

definition current_planning_production_date :: "js_host \<Rightarrow> planning_calendar \<Rightarrow> string" where
  "current_planning_production_date host cal =
     (case pc_current cal of Some d \<Rightarrow> d | None \<Rightarrow> plant_iso_date (clock_now host))"

record holiday_view =
  hv_date :: string
  hv_date_value :: string
  hv_day_type :: string
  hv_reason :: string
  hv_scope :: string
  hv_calendar_scope :: string
  hv_shift :: string
  hv_machine :: string
  hv_department :: string
  hv_remark :: string

definition holiday_view_row :: "js_host \<Rightarrow> jsrow \<Rightarrow> holiday_view js_result" where
  "holiday_view_row host row =
     bind_result (parse_date_value host (row_value row holiday_date_columns)) (\<lambda>parsed.
       let date = or_text parsed (row_text row holiday_date_columns) in
       return \<lparr>hv_date = date_label host date, hv_date_value = date,
         hv_day_type = (if is_working_friday row then ''Working Friday'' else ''Holiday''),
         hv_reason = or_text (row_text row [''reason'', ''holidayReason'']) ''Plant holiday'',
         hv_scope = or_text (row_text row [''scope'']) ''Plant'',
         hv_calendar_scope = or_text (row_text row [''calendarScope'']) ''factory'',
         hv_shift = or_text (row_text row [''shift'']) ''All'',
         hv_machine = row_text row [''machine'', ''machineNo'', ''MACHINE NO'', ''M/C NO''],
         hv_department = row_text row [''department''], hv_remark = row_text row [''remark'', ''remarks'']\<rparr>)"

definition planning_holiday_view_rows :: "js_host \<Rightarrow> jsrow list \<Rightarrow> holiday_view list js_result" where
  "planning_holiday_view_rows host rows =
     bind_result (map_result (holiday_view_row host) rows) (\<lambda>views.
       return (sort_by (\<lambda>a b. locale_compare host (trim (hv_date_value a)) (trim (hv_date_value b))) views))"

subsection \<open>Dates as text\<close>

definition max_date_value :: "js_host \<Rightarrow> string list \<Rightarrow> string" where
  "max_date_value host values =
     foldl (\<lambda>latest value. let date = parse_date host value in if latest < date then date else latest) [] values"

definition min_date_value :: "js_host \<Rightarrow> string list \<Rightarrow> string" where
  "min_date_value host values =
     foldl (\<lambda>earliest value. let date = parse_date host value in
       if date \<noteq> [] \<and> (earliest = [] \<or> date < earliest) then date else earliest) [] values"

definition dispatch_target_date :: "js_host \<Rightarrow> planning_calendar \<Rightarrow> string \<Rightarrow> string" where
  "dispatch_target_date host cal rm_inward =
     (let rm = date_or_text host rm_inward in
      if rm \<noteq> [] then add_days host cal rm planning_dispatch_target_days else [])"

text \<open>\<open>while (current && current <= end && guard < 1000)\<close>\<close>

fun count_production_days :: "js_host \<Rightarrow> planning_calendar \<Rightarrow> string \<Rightarrow> nat \<Rightarrow> string \<Rightarrow> jsnum \<Rightarrow> jsnum" where
  "count_production_days host cal stop 0 current days = days"
| "count_production_days host cal stop (Suc guard) current days =
     (if current \<noteq> [] \<and> current \<le> stop
      then count_production_days host cal stop guard (add_calendar_days current 1)
        (if is_planning_date host cal current then num_add days (planning_capacity_fraction host cal current) else days)
      else days)"

definition planned_production_days :: "js_host \<Rightarrow> planning_calendar \<Rightarrow> string \<Rightarrow> string \<Rightarrow> jsnum" where
  "planned_production_days host cal start_date end_date =
     (let start = date_or_text host start_date; stop = date_or_text host end_date in
      if start = [] \<or> stop = [] then Fin 0
      else if stop < start then Fin 0
      else count_production_days host cal stop 1000 start (Fin 0))"

fun count_planning_days :: "js_host \<Rightarrow> planning_calendar \<Rightarrow> string \<Rightarrow> nat \<Rightarrow> string \<Rightarrow> int \<Rightarrow> int" where
  "count_planning_days host cal stop 0 current days = days"
| "count_planning_days host cal stop (Suc guard) current days =
     (if current \<noteq> [] \<and> current < stop
      then let next_day = add_calendar_days current 1 in
        count_planning_days host cal stop guard next_day
          (if next_day \<le> stop \<and> is_planning_date host cal next_day then days + 1 else days)
      else days)"

definition planning_days_between :: "js_host \<Rightarrow> planning_calendar \<Rightarrow> string \<Rightarrow> string \<Rightarrow> int" where
  "planning_days_between host cal start_date end_date = count_planning_days host cal end_date 5000 start_date 0"

definition planning_date_gap :: "js_host \<Rightarrow> planning_calendar \<Rightarrow> string \<Rightarrow> string \<Rightarrow> string \<Rightarrow> int" where
  "planning_date_gap host cal left_date right_date fallback_date =
     (let l = or_text (parse_date host left_date) (parse_date host fallback_date);
          r = or_text (parse_date host right_date) (parse_date host fallback_date) in
      if l = [] \<or> r = [] \<or> l = r then 0
      else if l < r then - planning_days_between host cal l r else planning_days_between host cal r l)"

subsection \<open>The finish of a production run\<close>

definition cycle_row :: "jsrow option \<Rightarrow> jsrow" where
  "cycle_row cycle = (case cycle of None \<Rightarrow> [] | Some c \<Rightarrow> c)"

definition cycle_seconds :: "jsrow option \<Rightarrow> jsnum" where
  "cycle_seconds cycle =
     num_add (safe_number (row_value (cycle_row cycle) [''cycleTime'', ''CYCLE TIME'']))
       (safe_number (row_value (cycle_row cycle) [''loadingUnloading'', ''LOADING AND UNLOADING'']))"

definition cycle_daily_qty :: "planning_calendar \<Rightarrow> jsrow option \<Rightarrow> jsnum" where
  "cycle_daily_qty cal cycle =
     (let secs = cycle_seconds cycle in
      if truthy secs then num_div (num_mul (pc_hours cal) (Fin 3600)) secs else Fin 0)"

definition cycle_revision_effective_date :: "js_host \<Rightarrow> planning_calendar \<Rightarrow> jsrow option \<Rightarrow> string" where
  "cycle_revision_effective_date host cal cycle =
     (let effective = row_text (cycle_row cycle) [''cycleRevisionEffectiveAt''] in
      if effective \<noteq> [] then add_days host cal (date_or_text host effective) 0 else [])"

text \<open>The loop over the days: the hours of each day are taken from the remaining hours until they fit.\<close>

fun finish_on_day ::
  "js_host \<Rightarrow> planning_calendar \<Rightarrow> nat \<Rightarrow> string \<Rightarrow> jsnum \<Rightarrow> production_finish" where
  "finish_on_day host cal 0 date remaining = \<lparr>pf_date = [], pf_hours = None\<rparr>"
| "finish_on_day host cal (Suc guard) date remaining =
     (if date = [] then \<lparr>pf_date = [], pf_hours = None\<rparr>
      else
        let hours = num_mul (pc_hours cal) (planning_capacity_fraction host cal date) in
        if num_le remaining (num_add hours (fl (1 / 1000000)))
        then \<lparr>pf_date = date, pf_hours = Some (round_to 4 remaining)\<rparr>
        else finish_on_day host cal guard (add_days host cal date 1) (num_sub remaining hours))"

definition planned_production_finish ::
  "js_host \<Rightarrow> planning_calendar \<Rightarrow> string \<Rightarrow> jsnum \<Rightarrow> jsrow option \<Rightarrow> production_actual option \<Rightarrow> production_finish" where
  "planned_production_finish host cal start_date order_pcs cycle actual =
     (let start = add_days host cal (date_or_text host start_date) 0 in
      if start = [] then \<lparr>pf_date = [], pf_hours = None\<rparr>
      else
        let revision = cycle_revision_effective_date host cal cycle;
            latest = (case actual of None \<Rightarrow> [] | Some a \<Rightarrow> pa_latest a);
            produced = (case actual of None \<Rightarrow> Fin 0 | Some a \<Rightarrow> pa_actual a);
            dates = (case actual of None \<Rightarrow> [] | Some a \<Rightarrow> pa_dates a) in
        if latest \<noteq> [] \<and> num_le order_pcs produced
        then \<lparr>pf_date = max_date_value host [start, latest], pf_hours = None\<rparr>
        else
          let remaining_start = max_date_value host [start, revision,
                (if latest \<noteq> [] \<and> dates \<noteq> [] then add_days host cal (date_or_text host latest) 1 else [])];
              secs = cycle_seconds cycle in
          if \<not> truthy order_pcs \<or> \<not> truthy secs then \<lparr>pf_date = remaining_start, pf_hours = None\<rparr>
          else finish_on_day host cal 5000 (add_days host cal remaining_start 0)
                 (num_div (num_mul (num_max (num_sub order_pcs produced) (Fin 0)) secs) (Fin 3600)))"

definition planned_production_end ::
  "js_host \<Rightarrow> planning_calendar \<Rightarrow> string \<Rightarrow> jsnum \<Rightarrow> jsrow option \<Rightarrow> production_actual option \<Rightarrow> string" where
  "planned_production_end host cal start_date order_pcs cycle actual =
     pf_date (planned_production_finish host cal start_date order_pcs cycle actual)"

subsection \<open>Dates of the calendar\<close>

lemma iso_day_chars:
  assumes "plain_day d"
  shows "length (iso_day d) = 10" "list_all is_digit (slice 0 4 (iso_day d))" "iso_day d ! 4 = CHR ''-''"
    "list_all is_digit (slice 8 10 (iso_day d))"
  using matches_iso_day [OF assms] by (simp_all add: matches_date_def)

lemma is_digit_not_space: "is_digit c \<Longrightarrow> \<not> is_space c"
  by (auto simp: is_space_def is_digit_def Let_def)

lemma trim_iso_day [simp]: "plain_day d \<Longrightarrow> trim (iso_day d) = iso_day d"
proof -
  assume p: "plain_day d"
  note c = iso_day_chars [OF p]
  have "hd (iso_day d) \<in> set (slice 0 4 (iso_day d))" "last (iso_day d) \<in> set (slice 8 10 (iso_day d))"
    using c(1) by (auto simp: slice_def eval_nat_numeral length_Suc_conv)
  then show ?thesis using c by (intro trim_fixed) (auto simp: list_all_iff dest: is_digit_not_space)
qed

lemma serial_text_iso_day: "plain_day d \<Longrightarrow> serial_text (iso_day d) = None"
proof -
  assume p: "plain_day d"
  obtain a b c e rest where i: "iso_day d = a # b # c # e # CHR ''-'' # rest" and
    dig: "is_digit a" "is_digit b" "is_digit c" "is_digit e"
    using iso_day_chars [OF p] by (auto simp: slice_def eval_nat_numeral length_Suc_conv)
  have "\<not> is_digit (CHR ''-'')" by code_simp
  then show ?thesis using dig by (simp add: serial_text_def i Let_def)
qed

lemma parse_date_iso_day [simp]: "plain_day d \<Longrightarrow> parse_date host (iso_day d) = iso_day d"
  by (simp add: parse_date_def serial_text_iso_day date_prefix_def Let_def)

lemma date_or_text_iso_day [simp]: "plain_day d \<Longrightarrow> date_or_text host (iso_day d) = iso_day d"
  by (simp add: date_or_text_def or_text_def)

lemma add_calendar_days_iso_day [simp]: "plain_day d \<Longrightarrow> add_calendar_days (iso_day d) n = iso_day (d + n)"
  by (simp add: add_calendar_days_def)

abbreviation planning_day :: "js_host \<Rightarrow> planning_calendar \<Rightarrow> int \<Rightarrow> bool" where
  "planning_day host cal d \<equiv> is_planning_date host cal (iso_day d)"

lemma plain_day_between: "plain_day a \<Longrightarrow> plain_day b \<Longrightarrow> a \<le> d \<Longrightarrow> d \<le> b \<Longrightarrow> plain_day d"
  by (auto simp: plain_day_def)

text \<open>The working days after \<open>s\<close> up to \<open>e\<close>.\<close>

definition working_days :: "js_host \<Rightarrow> planning_calendar \<Rightarrow> int \<Rightarrow> int \<Rightarrow> int list" where
  "working_days host cal s e = filter (planning_day host cal) [s + 1 .. e]"

lemma working_days_step: "s < e \<Longrightarrow> working_days host cal s e =
    (if planning_day host cal (s + 1) then [s + 1] else []) @ working_days host cal (s + 1) e"
  by (simp add: working_days_def upto_rec1)

lemma count_workdays_spec:
  assumes "plain_day s" "plain_day (s + int guard)" "0 \<le> n"
    "count_workdays host cal 1 guard (iso_day s) n = (current, remaining)"
  shows "\<exists>e. s \<le> e \<and> e \<le> s + int guard \<and> current = iso_day e \<and> 0 \<le> remaining
    \<and> remaining = n - int (length (working_days host cal s e))
    \<and> (0 < remaining \<longrightarrow> e = s + int guard) \<and> (s < e \<and> remaining = 0 \<longrightarrow> planning_day host cal e)"
  using assms
proof (induction guard arbitrary: s n)
  case 0
  then show ?case by (auto simp: working_days_def)
next
  case (Suc guard)
  show ?case
  proof (cases "0 < n")
    case False
    then show ?thesis using Suc.prems by (auto simp: working_days_def intro!: exI [of _ s])
  next
    case True
    have p1: "plain_day (s + 1)" "plain_day (s + 1 + int guard)"
      using plain_day_between [OF Suc.prems(1,2), of "s + 1"] Suc.prems(2) by (simp_all add: algebra_simps)
    let ?n = "if planning_day host cal (s + 1) then n - 1 else n"
    have run: "count_workdays host cal 1 guard (iso_day (s + 1)) ?n = (current, remaining)"
      using Suc.prems(1,4) True by (simp add: Let_def)
    have n0: "0 \<le> ?n" using True by simp
    from Suc.IH [OF p1 n0 run] obtain e where e: "s + 1 \<le> e" "e \<le> s + 1 + int guard" "current = iso_day e" "0 \<le> remaining"
      "remaining = ?n - int (length (working_days host cal (s + 1) e))"
      "0 < remaining \<longrightarrow> e = s + 1 + int guard" "s + 1 < e \<and> remaining = 0 \<longrightarrow> planning_day host cal e"
      by (elim exE conjE) (rule that; assumption)
    have "remaining = n - int (length (working_days host cal s e))"
      using e(1,5) by (simp add: working_days_step)
    moreover have "planning_day host cal e" if "remaining = 0"
    proof (cases "e = s + 1")
      case True
      then show ?thesis using that e(5) \<open>0 < n\<close> by (auto simp: working_days_def split: if_splits)
    qed (use e(1,7) that in simp)
    moreover have "s \<le> e" "e \<le> s + int (Suc guard)" "0 < remaining \<longrightarrow> e = s + int (Suc guard)"
      using e(1,2,6) by simp_all
    ultimately show ?thesis using e(3,4) by blast
  qed
qed

text \<open>The \<open>n\<close>-th working day after a day, found by the guarded loop or not at all.\<close>

lemma add_days_forward:
  assumes "plain_day s" "plain_day (s + 5000)" "0 < n"
  shows "(\<exists>e. s < e \<and> e \<le> s + 5000 \<and> add_days host cal (iso_day s) n = iso_day e
      \<and> planning_day host cal e \<and> int (length (working_days host cal s e)) = n)
    \<or> add_days host cal (iso_day s) n = [] \<and> int (length (working_days host cal s (s + 5000))) < n"
proof -
  obtain current remaining where run: "count_workdays host cal 1 5000 (iso_day s) n = (current, remaining)" by fastforce
  have "plain_day (s + int 5000)" using assms(2) by simp
  from count_workdays_spec [OF assms(1) this less_imp_le [OF assms(3)] run]
  obtain e where e: "s \<le> e" "e \<le> s + int 5000" "current = iso_day e" "0 \<le> remaining"
      "remaining = n - int (length (working_days host cal s e))"
      "0 < remaining \<longrightarrow> e = s + int 5000" "s < e \<and> remaining = 0 \<longrightarrow> planning_day host cal e" by blast
  have add: "add_days host cal (iso_day s) n = (if remaining = 0 then iso_day e else [])"
    using assms(1,3) by (simp add: add_days_def run e(3) del: count_workdays.simps)
  show ?thesis
  proof (cases "remaining = 0")
    case True
    then have "s < e" using e(1,5) assms(3) by (cases "s = e") (auto simp: working_days_def)
    moreover have "e \<le> s + 5000" using e(2) by simp
    moreover have "add_days host cal (iso_day s) n = iso_day e" unfolding add using True by (rule if_P)
    moreover have "int (length (working_days host cal s e)) = n" using e(5) True by linarith
    ultimately show ?thesis using e(7) True by blast
  next
    case False
    then have "add_days host cal (iso_day s) n = []" unfolding add by (rule if_not_P)
    moreover have "e = s + 5000" using e(4,6) False by simp
    ultimately show ?thesis using e(4,5) False by force
  qed
qed

text \<open>C24: Counting working days forward: the date returned is a working day, the one with exactly \<open>n\<close>
  working days from the day after the start up to it; an empty result means that fewer than
  \<open>n\<close> working days lie in the 5000 days after the start.\<close>

theorem add_days_nth_working_day:
  assumes "plain_day s" "plain_day (s + 5000)" "0 < n"
  shows "(\<exists>e. s < e \<and> e \<le> s + 5000 \<and> add_days host cal (iso_day s) n = iso_day e
      \<and> planning_day host cal e \<and> int (length (working_days host cal s e)) = n)
    \<or> add_days host cal (iso_day s) n = [] \<and> int (length (working_days host cal s (s + 5000))) < n"
  using assms by (rule add_days_forward)

theorem add_days_nth_working_day_witness:
  "(\<exists>e. 20454 < e \<and> e \<le> 20454 + 5000 \<and> add_days utc_host default_planning_calendar (iso_day 20454) 3 = iso_day e
      \<and> planning_day utc_host default_planning_calendar e
      \<and> int (length (working_days utc_host default_planning_calendar 20454 e)) = 3)
    \<or> add_days utc_host default_planning_calendar (iso_day 20454) 3 = []
      \<and> int (length (working_days utc_host default_planning_calendar 20454 (20454 + 5000))) < 3"
  by (rule add_days_nth_working_day) (simp_all add: plain_day_def)

subsection \<open>More pieces never finish earlier\<close>

text \<open>A calendar as it is built from rows: finite hours, and capacity fractions between zero and one.\<close>

definition ordinary_capacity :: "planning_calendar \<Rightarrow> bool" where
  "ordinary_capacity cal \<longleftrightarrow> (\<exists>h. pc_hours cal = Fin h \<and> 0 \<le> h \<and> h \<le> 24)
     \<and> list_all (\<lambda>(d, f). \<exists>x. f = Fin x \<and> 0 \<le> x \<and> x \<le> 1) (pc_capacity cal)"

lemma fl_finite: "0 \<le> x \<Longrightarrow> x \<le> 24 \<Longrightarrow> \<exists>y. fl x = Fin y \<and> 0 \<le> y \<and> y \<le> 24"
  using fl_mono [of x 24] fl_nonneg [of x] by (cases "fl x") auto

lemma day_hours_finite:
  assumes "ordinary_capacity cal"
  shows "\<exists>y. num_mul (pc_hours cal) (planning_capacity_fraction host cal date) = Fin y \<and> 0 \<le> y \<and> y \<le> 24"
proof -
  obtain h where h: "pc_hours cal = Fin h" "0 \<le> h" "h \<le> 24" using assms by (auto simp: ordinary_capacity_def)
  have "\<exists>x. planning_capacity_fraction host cal date = Fin x \<and> 0 \<le> x \<and> x \<le> 1"
    using assms map_of_SomeD [of "pc_capacity cal" date]
    by (fastforce simp: planning_capacity_fraction_def ordinary_capacity_def list_all_iff split: option.splits)
  then obtain x where x: "planning_capacity_fraction host cal date = Fin x" "0 \<le> x" "x \<le> 1" by blast
  have "h * x \<le> 24 * 1" using h x by (intro mult_mono) auto
  then show ?thesis using h x fl_finite [of "h * x"] by simp
qed

definition next_working_date :: "js_host \<Rightarrow> planning_calendar \<Rightarrow> string \<Rightarrow> string" where
  "next_working_date host cal date = add_days host cal date 1"

lemmas finish_steps = finish_on_day.simps [folded next_working_date_def]

lemma finish_on_day_later:
  "pf_date (finish_on_day host cal guard date r) = [] \<or>
   (\<exists>k. pf_date (finish_on_day host cal guard date r) = (next_working_date host cal ^^ k) date)"
proof (induction guard arbitrary: date r)
  case (Suc guard)
  let ?hours = "num_mul (pc_hours cal) (planning_capacity_fraction host cal date)"
  let ?nxt = "next_working_date host cal"
  let ?next = "finish_on_day host cal guard (?nxt date) (num_sub r ?hours)"
  have stop: "\<exists>k. date = (?nxt ^^ k) date" by (rule exI [of _ 0]) simp
  from Suc [of "?nxt date" "num_sub r ?hours"] show ?case
  proof
    assume "\<exists>k. pf_date ?next = (?nxt ^^ k) (?nxt date)"
    then obtain k where "pf_date ?next = (?nxt ^^ k) (?nxt date)" ..
    also have "(?nxt ^^ k) (?nxt date) = (?nxt ^^ Suc k) date" by (simp add: funpow_swap1)
    finally have "\<exists>k. pf_date ?next = (?nxt ^^ k) date" by blast
    with stop show ?thesis by (auto simp: finish_steps Let_def simp del: funpow.simps finish_on_day.simps)
  next
    assume "pf_date ?next = []"
    with stop show ?thesis by (auto simp: finish_steps Let_def simp del: funpow.simps finish_on_day.simps)
  qed
qed simp

lemma finish_on_day_mono:
  assumes cap: "ordinary_capacity cal" and r: "num_le r1 r2"
  shows "pf_date (finish_on_day host cal guard date r2) = [] \<or>
    (\<exists>k1 k2. k1 \<le> k2 \<and> pf_date (finish_on_day host cal guard date r1) = (next_working_date host cal ^^ k1) date
       \<and> pf_date (finish_on_day host cal guard date r2) = (next_working_date host cal ^^ k2) date)"
  using r
proof (induction guard arbitrary: date r1 r2)
  case (Suc guard)
  let ?nxt = "next_working_date host cal"
  obtain y where y: "num_mul (pc_hours cal) (planning_capacity_fraction host cal date) = Fin y" "0 \<le> y" "y \<le> 24"
    using day_hours_finite [OF cap] by blast
  define limit where "limit = num_add (Fin y) (fl (1 / 1000000))"
  note nn = num_le_not_NaN [OF Suc.prems]
  have step: "finish_on_day host cal (Suc guard) date r =
      (if date = [] \<or> num_le r limit then finish_on_day host cal (Suc guard) date r
       else finish_on_day host cal guard (?nxt date) (num_sub r (Fin y)))" for r
    by (simp add: finish_steps Let_def limit_def y del: finish_on_day.simps)
  have stop: "date = [] \<or> num_le r limit \<Longrightarrow> pf_date (finish_on_day host cal (Suc guard) date r) = date" for r
    by (auto simp: finish_steps Let_def limit_def y simp del: finish_on_day.simps)
  show ?case
  proof (cases "date = [] \<or> num_le r1 limit")
    case True
    from stop [OF this] have "pf_date (finish_on_day host cal (Suc guard) date r1) = (?nxt ^^ 0) date" by simp
    with finish_on_day_later [of host cal "Suc guard" date r2] show ?thesis by (metis le0)
  next
    case False
    then have later: "\<not> (date = [] \<or> num_le r2 limit)" using num_le_trans [OF Suc.prems] by blast
    moreover have "num_le (num_sub r1 (Fin y)) (num_sub r2 (Fin y))"
      unfolding num_sub_def using nn
      by (intro num_add_mono [OF Suc.prems]) (cases r1; cases r2; simp)+
    note Suc.IH [OF this, of "?nxt date"]
    ultimately have "pf_date (finish_on_day host cal guard (?nxt date) (num_sub r2 (Fin y))) = []
      \<or> (\<exists>k1 k2. k1 \<le> k2
        \<and> pf_date (finish_on_day host cal guard (?nxt date) (num_sub r1 (Fin y))) = (?nxt ^^ Suc k1) date
        \<and> pf_date (finish_on_day host cal guard (?nxt date) (num_sub r2 (Fin y))) = (?nxt ^^ Suc k2) date)"
      by (simp add: funpow_swap1)
    moreover have "finish_on_day host cal (Suc guard) date r1 = finish_on_day host cal guard (?nxt date) (num_sub r1 (Fin y))"
      using step [of r1] False by (rule trans [OF _ if_not_P])
    moreover have "finish_on_day host cal (Suc guard) date r2 = finish_on_day host cal guard (?nxt date) (num_sub r2 (Fin y))"
      using step [of r2] later by (rule trans [OF _ if_not_P])
    ultimately show ?thesis by (metis Suc_le_mono)
  qed
qed (simp add: finish_steps)

lemma num_mul_pos_mono: "num_le (Fin x) (Fin y) \<Longrightarrow> 0 < s \<Longrightarrow> num_le (num_mul (Fin x) (Fin s)) (num_mul (Fin y) (Fin s))"
  by (simp add: fl_mono)

lemma num_div_pos_mono: "num_le a b \<Longrightarrow> 0 < s \<Longrightarrow> num_le (num_div a (Fin s)) (num_div b (Fin s))"
proof -
  have "num_le (fl x) PosInf" "num_le NegInf (fl x)" for x by (cases "fl x"; use fl_not_NaN [of x] in simp)+
  then show "num_le a b \<Longrightarrow> 0 < s \<Longrightarrow> ?thesis"
    by (cases a; cases b) (auto intro!: fl_mono divide_right_mono)
qed

text \<open>A bigger order never finishes earlier: on the sequence of working dates from the first one
  possible, the finish of more pieces is none within the horizon, or lies at the same place
  as the finish of fewer pieces or after it.\<close>

theorem production_finish_mono:
  assumes cap: "ordinary_capacity cal" and pcs: "1 \<le> n" "n \<le> m" "m \<le> 2 ^ 53"
    and secs: "cycle_seconds cycle = Fin secs" "0 < secs"
    and start: "add_days host cal (date_or_text host start) 0 \<noteq> []"
    and first: "first = add_days host cal (max_date_value host [add_days host cal (date_or_text host start) 0,
          cycle_revision_effective_date host cal cycle, []]) 0"
  shows "pf_date (planned_production_finish host cal start (num_int m) cycle None) = [] \<or>
    (\<exists>k1 k2. k1 \<le> k2 \<and>
       pf_date (planned_production_finish host cal start (num_int n) cycle None) = (next_working_date host cal ^^ k1) first \<and>
       pf_date (planned_production_finish host cal start (num_int m) cycle None) = (next_working_date host cal ^^ k2) first)"
proof -
  let ?left = "\<lambda>n. num_div (num_mul (num_int n) (Fin secs)) (Fin 3600)"
  have run: "planned_production_finish host cal start (num_int k) cycle None = finish_on_day host cal 5000 first (?left k)"
    if "1 \<le> k" "k \<le> 2 ^ 53" for k
  proof -
    have "truthy (num_int k)" using that by (simp add: truthy_def)
    moreover have "num_max (num_sub (num_int k) (Fin 0)) (Fin 0) = num_int k"
      using num_sub_int [of k 0] that by (simp add: num_max_def del: num_add.simps)
    moreover have "truthy (Fin secs)" using secs(2) by (simp add: truthy_def)
    ultimately show ?thesis
      using start secs(1) by (simp add: planned_production_finish_def Let_def first del: finish_on_day.simps num_mul.simps num_div.simps)
  qed
  have "num_le (num_int n) (num_int m)" using pcs by simp
  then have "num_le (?left n) (?left m)"
    using secs(2) by (intro num_div_pos_mono num_mul_pos_mono) simp_all
  from finish_on_day_mono [OF cap this, of host 5000 first] show ?thesis
    using run [of n] run [of m] pcs by simp
qed

theorem production_finish_mono_witness:
  "\<exists>first. pf_date (planned_production_finish utc_host default_planning_calendar (iso_day 20454) (num_int 4000) (Some [(''cycleTime'', Num (Fin 60))]) None) = [] \<or>
    (\<exists>k1 k2. k1 \<le> k2 \<and>
       pf_date (planned_production_finish utc_host default_planning_calendar (iso_day 20454) (num_int 1000) (Some [(''cycleTime'', Num (Fin 60))]) None) = (next_working_date utc_host default_planning_calendar ^^ k1) first \<and>
       pf_date (planned_production_finish utc_host default_planning_calendar (iso_day 20454) (num_int 4000) (Some [(''cycleTime'', Num (Fin 60))]) None) = (next_working_date utc_host default_planning_calendar ^^ k2) first)"
proof -
  have "ordinary_capacity default_planning_calendar" by (simp add: ordinary_capacity_def default_planning_calendar_def)
  moreover have "cycle_seconds (Some [(''cycleTime'', Num (Fin 60))]) = Fin 60" by code_simp
  moreover have "add_days utc_host default_planning_calendar (date_or_text utc_host (iso_day 20454)) 0 \<noteq> []" by code_simp
  ultimately show ?thesis
    by (intro exI) (rule production_finish_mono [where secs = 60], simp_all)
qed

end
