(* ===== verification/Machine_Unavailable.thy ===== *)
theory Machine_Unavailable
  imports Planning_Calendar
begin

section \<open>Machines that are unavailable and plan overrides\<close>

text \<open>
  \<^verbatim>\<open>packages/db/src/legacy-dashboard-analysis.ts\<close>, the part that reads machine constraints and planner
  overrides: the windows in which a machine is unavailable, the setups they interrupt and the
  queue places they decide, the delay of a production run past the windows it overlaps, the split
  of an interrupted setup over the machines that take over, and the override (or the conflict
  of overrides) that applies to a setup. Sets and maps of the code are lists without repetition
  and association lists in insertion order.
\<close>

subsection \<open>Data\<close>

record unavailable_interruption =
  ui_jc_no :: string
  ui_setup_no :: string
  ui_machine :: string
  ui_finished_qty :: jsnum

record queue_before_setup =
  qb_jc_no :: string
  qb_setup_no :: string
  qb_machine :: string

record queue_placement =
  qp_decision_at :: instant
  qp_jc_no :: string
  qp_part_code :: string
  qp_setup_no :: string
  qp_source_machine :: string
  qp_machine :: string
  qp_before :: "queue_before_setup list"

record unavailable_window =
  uw_machine :: string
  uw_from :: string
  uw_to :: string
  uw_action :: string
  uw_reason :: string
  uw_interrupted :: "unavailable_interruption list"
  uw_placements :: "queue_placement list"

record setup_interruption = unavailable_interruption +
  si_window :: unavailable_window

datatype split_role = ProducedOnUnavailable | RemainingMoved | RemainingDelayed

record split_assignment =
  sa_machine :: string
  sa_role :: split_role
  sa_order_pcs :: jsnum

record split_plan =
  sp_produced_key :: string
  sp_remaining_keys :: "string list"
  sp_order_pcs :: "(string \<times> jsnum) list"
  sp_produced_actual :: "(string \<times> production_actual) list"
  sp_assignments :: "split_assignment list"
  sp_produced_qty :: jsnum
  sp_remaining_qty :: jsnum

text \<open>The planning data a row of the machine plan carries (\<open>__planningMeta\<close>).\<close>

record planning_meta =
  pm_ready_date :: "string option"
  pm_base_ready_date :: "string option"
  pm_early_ready_date :: "string option"
  pm_minimum_end_date :: "string option"
  pm_can_pull_forward :: "bool option"
  pm_assignment_locked :: bool
  pm_simulation_reservation :: bool
  pm_previous_setup_no :: "string option"
  pm_continuity_after :: "string option"
  pm_continuity_protected :: bool
  pm_order_pcs :: "jsnum option"
  pm_total_order_pcs :: "jsnum option"
  pm_carried_good_qty :: "jsnum option"
  pm_upstream_consumed_qty :: "jsnum option"
  pm_cycle :: "jsrow option"
  pm_actual :: "production_actual option"
  pm_windows :: "unavailable_window list option"

definition number_or_zero :: "jsnum option \<Rightarrow> jsnum" where
  "number_or_zero n = (case n of None \<Rightarrow> Fin 0 | Some x \<Rightarrow> x)"

subsection \<open>Reading constraints\<close>

text \<open>The objects in an array, other elements dropped; a value that is no array has none.\<close>

definition objects_of :: "jsval \<Rightarrow> jsrow list" where
  "objects_of v = (case v of Arr vs \<Rightarrow> concat (map (\<lambda>x. case x of Obj fs \<Rightarrow> [fs] | _ \<Rightarrow> []) vs) | _ \<Rightarrow> [])"

definition jc_columns :: "string list" where
  "jc_columns = [''jobCardNumber'', ''jcNo'', ''JC NO'', ''jobCard'']"
definition setup_columns :: "string list" where
  "setup_columns = [''setupNumber'', ''setupNo'', ''SETUP NO'', ''setup'']"
definition machine_columns :: "string list" where
  "machine_columns = [''machineNumber'', ''machine'', ''machineNo'', ''MACHINE NO'', ''M/C NO'']"

text \<open>\<open>Date.parse(value)\<close>, zero where it is not a number.\<close>

definition date_ms_or_zero :: "js_host \<Rightarrow> string \<Rightarrow> instant" where
  "date_ms_or_zero host s = (if s = [] then 0 else case native_date host s of Some t \<Rightarrow> t | None \<Rightarrow> 0)"

definition row_created_at_ms :: "js_host \<Rightarrow> jsrow \<Rightarrow> instant" where
  "row_created_at_ms host row = date_ms_or_zero host (row_text row [''createdAt'', ''CREATED AT'', ''timestamp'', ''updatedAt''])"

definition machine_unavailable_interrupted_setups :: "jsrow \<Rightarrow> unavailable_interruption list" where
  "machine_unavailable_interrupted_setups row =
     filter (\<lambda>i. ui_jc_no i \<noteq> [] \<and> ui_setup_no i \<noteq> [] \<and> ui_machine i \<noteq> [])
       (map (\<lambda>item. \<lparr>ui_jc_no = canonical_text (row_text item jc_columns),
          ui_setup_no = canonical_text (row_text item setup_columns),
          ui_machine = canonical_text (row_text item machine_columns),
          ui_finished_qty = safe_number (row_value item
            [''finishedQuantity'', ''finishedQty'', ''FINISHED QTY'', ''producedQty'', ''PRODUCED QTY''])\<rparr>)
         (objects_of (get row ''interruptedSetups'')))"

definition queue_before_of :: "jsrow \<Rightarrow> queue_before_setup list" where
  "queue_before_of item =
     filter (\<lambda>q. qb_jc_no q \<noteq> [] \<and> qb_setup_no q \<noteq> [] \<and> qb_machine q \<noteq> [])
       (map (\<lambda>q. \<lparr>qb_jc_no = canonical_text (row_text q jc_columns),
          qb_setup_no = canonical_text (row_text q setup_columns),
          qb_machine = canonical_text (row_text q machine_columns)\<rparr>)
         (objects_of (get item ''queueBeforeSetups'')))"

definition machine_unavailable_queue_placements :: "js_host \<Rightarrow> jsrow \<Rightarrow> queue_placement list" where
  "machine_unavailable_queue_placements host row =
     filter (\<lambda>p. qp_jc_no p \<noteq> [] \<and> qp_setup_no p \<noteq> [] \<and> qp_machine p \<noteq> [])
       (map (\<lambda>item. \<lparr>qp_decision_at = row_created_at_ms host row,
          qp_jc_no = canonical_text (row_text item [''targetJobCardNumber'', ''targetJcNo'', ''jcNo'', ''JC NO'', ''jobCard'']),
          qp_part_code = canonical_text (row_text item [''targetPartCode'', ''partCode'', ''PART CODE'', ''partNo'']),
          qp_setup_no = canonical_text (row_text item [''targetSetupNumber'', ''targetSetupNo'', ''setupNo'', ''SETUP NO'', ''setup'']),
          qp_source_machine = canonical_text (row_text item
            [''targetSourceMachineNumber'', ''targetSourceMachine'', ''sourceMachine'', ''fromMachine'', ''machine'']),
          qp_machine = canonical_text (row_text item
            [''targetMachineNumber'', ''targetMachine'', ''toMachine'', ''machine'', ''machineNo'']),
          qp_before = queue_before_of item\<rparr>)
         (objects_of (get row ''queuePlacements'')))"

subsection \<open>Windows\<close>

text \<open>The day before a date; of a date that does not exist \<open>toISOString\<close> throws.\<close>

definition last_unavailable_day :: "string \<Rightarrow> string js_result" where
  "last_unavailable_day available_on =
     (case parse_day available_on of Some d \<Rightarrow> return (iso_day (d - 1)) | None \<Rightarrow> throw ''Invalid time value'')"

definition unavailable_window_of :: "js_host \<Rightarrow> planning_calendar \<Rightarrow> jsrow \<Rightarrow> unavailable_window js_result" where
  "unavailable_window_of host cal row =
     (let today = current_planning_production_date host cal;
          from_date = or_text (parse_date host (row_text row [''unavailableFrom'', ''UNAVAILABLE FROM''])) today;
          raw_to = or_text (parse_date host (row_text row [''unavailableTo'', ''UNAVAILABLE TO''])) from_date;
          to_date = (if raw_to < from_date then from_date else raw_to);
          available_on = parse_date host (row_text row [''availableOn'']) in
      bind_result
        (if available_on = [] then return to_date
         else bind_result (last_unavailable_day available_on) (\<lambda>last_day. return (min_date_value host [to_date, last_day])))
        (\<lambda>until. return
          \<lparr>uw_machine = canonical_text (row_text row [''machineNo'', ''machine'', ''MACHINE NO.'', ''MACHINE NO'', ''M/C NO'']),
           uw_from = from_date, uw_to = until,
           uw_action = or_text (row_text row [''rescheduleAction'', ''STATUS'']) ''shift_required'',
           uw_reason = row_text row [''reason'', ''REASON'', ''remark'', ''REMARK''],
           uw_interrupted = machine_unavailable_interrupted_setups row,
           uw_placements = machine_unavailable_queue_placements host row\<rparr>))"

definition constraint_applies :: "jsrow \<Rightarrow> bool" where
  "constraint_applies row \<longleftrightarrow> is_active_planner_decision (Str (row_text row [''status'', ''STATUS''])) \<or> row_text row [''availableOn''] \<noteq> []"

definition window_complete :: "unavailable_window \<Rightarrow> bool" where
  "window_complete w \<longleftrightarrow> uw_machine w \<noteq> [] \<and> uw_from w \<noteq> [] \<and> uw_to w \<noteq> []"

definition window_order :: "js_host \<Rightarrow> unavailable_window \<Rightarrow> unavailable_window \<Rightarrow> int" where
  "window_order host a b = or_else (locale_compare host (uw_from a) (uw_from b)) (collate_numeric host (uw_machine a) (uw_machine b))"

definition calculate_active_windows :: "js_host \<Rightarrow> planning_calendar \<Rightarrow> jsrow list \<Rightarrow> unavailable_window list js_result" where
  "calculate_active_windows host cal rows =
     bind_result (map_result (unavailable_window_of host cal) (filter constraint_applies rows))
       (\<lambda>windows. return (sort_by (window_order host) (filter window_complete windows)))"

text \<open>The windows as a simulation prepares them: the ones of each row by themselves, kept with the row, then all
  sorted.\<close>

definition prepared_active_windows :: "js_host \<Rightarrow> planning_calendar \<Rightarrow> jsrow list \<Rightarrow> unavailable_window list js_result" where
  "prepared_active_windows host cal rows =
     bind_result (map_result (\<lambda>row. calculate_active_windows host cal [row]) rows)
       (\<lambda>groups. return (sort_by (window_order host) (concat groups)))"

definition machine_unavailable_window_wants_alternate :: "unavailable_window \<Rightarrow> bool" where
  "machine_unavailable_window_wants_alternate w \<longleftrightarrow> canonical_text (uw_action w) \<noteq> ''delay''"

definition machine_unavailable_windows_for :: "unavailable_window list \<Rightarrow> string \<Rightarrow> unavailable_window list" where
  "machine_unavailable_windows_for windows machine =
     filter (\<lambda>w. uw_machine w = canonical_text machine \<and> uw_from w \<le> uw_to w) windows"

text \<open>The index of the windows by machine that a simulation keeps.\<close>

definition index_window :: "(string \<times> unavailable_window list) list \<Rightarrow> unavailable_window \<Rightarrow> (string \<times> unavailable_window list) list" where
  "index_window by_machine w =
     (if uw_to w < uw_from w then by_machine
      else put (uw_machine w) ((case map_of by_machine (uw_machine w) of Some ws \<Rightarrow> ws | None \<Rightarrow> []) @ [w]) by_machine)"

definition indexed_windows_for :: "unavailable_window list \<Rightarrow> string \<Rightarrow> unavailable_window list" where
  "indexed_windows_for windows machine =
     (case map_of (run_steps index_window [] windows) (canonical_text machine) of Some ws \<Rightarrow> ws | None \<Rightarrow> [])"

definition machine_has_delay_unavailable_window :: "string \<Rightarrow> unavailable_window list \<Rightarrow> bool" where
  "machine_has_delay_unavailable_window machine windows \<longleftrightarrow> canonical_text machine \<noteq> []
     \<and> list_ex (\<lambda>w. uw_machine w = canonical_text machine \<and> uw_from w \<le> uw_to w
         \<and> \<not> machine_unavailable_window_wants_alternate w) windows"

definition first_overlapping_machine_unavailable_window ::
  "js_host \<Rightarrow> unavailable_window list \<Rightarrow> string \<Rightarrow> string \<Rightarrow> unavailable_window option" where
  "first_overlapping_machine_unavailable_window host windows start_date end_date =
     (let start = date_or_text host start_date; stop = date_or_text host end_date in
      if start = [] \<or> stop = [] then None
      else List.find (\<lambda>w. uw_from w \<le> uw_to w \<and> start \<le> uw_to w \<and> uw_from w \<le> stop) windows)"

definition machine_unavailable_resume_date :: "unavailable_window \<Rightarrow> string" where
  "machine_unavailable_resume_date w = add_calendar_days (uw_to w) 1"

definition machine_unavailable_message :: "js_host \<Rightarrow> unavailable_window \<Rightarrow> string" where
  "machine_unavailable_message host w =
     ''Machine '' @ uw_machine w @ '' unavailable '' @ date_label host (uw_from w) @ '' to '' @ date_label host (uw_to w)
     @ (if uw_reason w \<noteq> [] then '' ('' @ uw_reason w @ '')'' else []) @ ''; forecast moved after availability''"

definition candidate_machine_available_for_assignment ::
  "js_host \<Rightarrow> planning_calendar \<Rightarrow> string \<Rightarrow> string \<Rightarrow> jsnum \<Rightarrow> jsrow option \<Rightarrow> (string \<times> string) list
    \<Rightarrow> unavailable_window list \<Rightarrow> bool" where
  "candidate_machine_available_for_assignment host cal machine ready_date order_pcs cycle next_setup_date windows =
     (let relevant = filter machine_unavailable_window_wants_alternate (machine_unavailable_windows_for windows machine) in
      if relevant = [] then True
      else
        let machine_ready = (case map_of next_setup_date (canonical_text machine) of Some d \<Rightarrow> d | None \<Rightarrow> []);
            start = max_date_value host [ready_date, machine_ready];
            stop = planned_production_end host cal start order_pcs cycle None
        in first_overlapping_machine_unavailable_window host relevant start stop = None)"

subsection \<open>Decisions of a window about a setup\<close>

definition keep_later_placement :: "string \<Rightarrow> string \<Rightarrow> string \<Rightarrow> queue_placement option \<Rightarrow> queue_placement \<Rightarrow> queue_placement option" where
  "keep_later_placement jc part setup latest p =
     (if qp_jc_no p \<noteq> jc then latest
      else if qp_part_code p \<noteq> [] \<and> part \<noteq> [] \<and> qp_part_code p \<noteq> part then latest
      else if planner_setup_key (qp_setup_no p) \<noteq> setup then latest
      else case latest of None \<Rightarrow> Some p | Some l \<Rightarrow> if qp_decision_at l < qp_decision_at p then Some p else latest)"

definition machine_unavailable_queue_placement_for_setup ::
  "unavailable_window list \<Rightarrow> string \<Rightarrow> string \<Rightarrow> string \<Rightarrow> queue_placement option" where
  "machine_unavailable_queue_placement_for_setup windows jc_no part_no setup_no =
     (let jc = canonical_text jc_no; part = canonical_text part_no; setup = planner_setup_key setup_no in
      if jc = [] \<or> setup = [] then None
      else run_steps (keep_later_placement jc part setup) None (concat (map uw_placements windows)))"

definition machine_unavailable_queue_before_setups_for_machine :: "queue_placement option \<Rightarrow> string \<Rightarrow> queue_before_setup list" where
  "machine_unavailable_queue_before_setups_for_machine placement machine =
     (case placement of None \<Rightarrow> [] | Some p \<Rightarrow> if qp_machine p = canonical_text machine then qp_before p else [])"

text \<open>The interruption of a setup that is locked to machines, the machine written as the lock names it.\<close>

definition locked_machine_named :: "string list \<Rightarrow> string \<Rightarrow> string" where
  "locked_machine_named locked machine =
     (case List.find (\<lambda>m. canonical_text m = machine) locked of Some m \<Rightarrow> m | None \<Rightarrow> machine)"

definition interruption_matches :: "string \<Rightarrow> string \<Rightarrow> string list \<Rightarrow> unavailable_interruption \<Rightarrow> bool" where
  "interruption_matches jc setup locked i \<longleftrightarrow> ui_jc_no i = jc \<and> planner_setup_key (ui_setup_no i) = setup
     \<and> ui_machine i \<in> set (map canonical_text locked)"

definition interruption_in :: "unavailable_window \<Rightarrow> string list \<Rightarrow> unavailable_interruption \<Rightarrow> setup_interruption" where
  "interruption_in w locked i = \<lparr>ui_jc_no = ui_jc_no i, ui_setup_no = ui_setup_no i,
     ui_machine = locked_machine_named locked (ui_machine i),
     ui_finished_qty = num_max (Fin 0) (ui_finished_qty i), si_window = w\<rparr>"

definition machine_unavailable_interruption_for_setup ::
  "unavailable_window list \<Rightarrow> string \<Rightarrow> string \<Rightarrow> string list \<Rightarrow> setup_interruption option" where
  "machine_unavailable_interruption_for_setup windows jc_no setup_no locked_machines =
     (let jc = canonical_text jc_no; setup = planner_setup_key setup_no; locked = filter (\<lambda>m. m \<noteq> []) locked_machines in
      if jc = [] \<or> setup = [] \<or> locked = [] then None
      else map_option (\<lambda>(w, i). interruption_in w locked i)
        (List.find (\<lambda>(w, i). interruption_matches jc setup locked i)
          (concat (map (\<lambda>w. map (Pair w) (uw_interrupted w)) windows))))"

subsection \<open>The delay of a production run\<close>

text \<open>The loop: the start moves past the window it overlaps and the end is computed again; at most 20 turns.\<close>

fun delay_loop ::
  "js_host \<Rightarrow> planning_calendar \<Rightarrow> planning_meta \<Rightarrow> unavailable_window list \<Rightarrow> nat \<Rightarrow> string \<Rightarrow> string
    \<Rightarrow> unavailable_window option \<Rightarrow> string \<times> unavailable_window option" where
  "delay_loop host cal meta windows 0 start stop matched = (start, matched)"
| "delay_loop host cal meta windows (Suc guard) start stop matched =
     (case first_overlapping_machine_unavailable_window host windows start stop of
        None \<Rightarrow> (start, matched)
      | Some w \<Rightarrow>
          let resume = machine_unavailable_resume_date w in
          if resume = [] \<or> resume \<le> start then (start, Some w)
          else
            let stop' = planned_production_end host cal resume (number_or_zero (pm_order_pcs meta)) (pm_cycle meta) (pm_actual meta)
            in if stop' = [] then (resume, Some w) else delay_loop host cal meta windows guard resume stop' (Some w))"

record production_delay =
  pd_start :: "string option"
  pd_window :: "unavailable_window option"

definition machine_unavailable_production_delay ::
  "js_host \<Rightarrow> planning_calendar \<Rightarrow> planning_meta \<Rightarrow> string \<Rightarrow> string \<Rightarrow> production_delay" where
  "machine_unavailable_production_delay host cal meta start_date end_date =
     (let windows = (case pm_windows meta of None \<Rightarrow> [] | Some ws \<Rightarrow> ws);
          start = date_or_text host start_date; stop = date_or_text host end_date in
      if windows = [] \<or> start = [] \<or> stop = [] then \<lparr>pd_start = None, pd_window = None\<rparr>
      else
        let (adjusted, matched) = delay_loop host cal meta windows 20 start stop None
        in if matched \<noteq> None \<and> adjusted \<noteq> start then \<lparr>pd_start = Some adjusted, pd_window = matched\<rparr>
           else \<lparr>pd_start = None, pd_window = matched\<rparr>)"

definition machine_unavailable_remaining_production_end ::
  "js_host \<Rightarrow> planning_calendar \<Rightarrow> planning_meta \<Rightarrow> unavailable_window \<Rightarrow> string" where
  "machine_unavailable_remaining_production_end host cal meta w =
     (let resume = machine_unavailable_resume_date w;
          produced = (case pm_actual meta of None \<Rightarrow> Fin 0 | Some a \<Rightarrow> pa_actual a);
          remaining = num_max (num_sub (number_or_zero (pm_order_pcs meta)) produced) (Fin 0) in
      if resume = [] \<or> \<not> truthy remaining then []
      else planned_production_end host cal resume remaining (pm_cycle meta) None)"

subsection \<open>The split of an interrupted setup\<close>

definition assigned_machine_order_pcs :: "jsnum \<Rightarrow> int \<Rightarrow> jsnum" where
  "assigned_machine_order_pcs order_pcs machine_count =
     (if \<not> truthy order_pcs \<or> machine_count \<le> 1 then order_pcs
      else num_ceil (num_div order_pcs (num_int machine_count)))"

text \<open>The loop over the machines that take over: each gets the share, the last ones what is left of it.\<close>

definition machine_share :: "jsnum \<Rightarrow> jsnum \<Rightarrow> int \<Rightarrow> jsnum" where
  "machine_share remaining share i =
     num_min share (num_max (num_sub remaining (num_mul (num_int i) share)) (Fin 0))"

fun share_out :: "jsnum \<Rightarrow> jsnum \<Rightarrow> int \<Rightarrow> string list
    \<Rightarrow> string list \<times> (string \<times> jsnum) list \<times> split_assignment list
    \<Rightarrow> string list \<times> (string \<times> jsnum) list \<times> split_assignment list" where
  "share_out remaining share i [] acc = acc"
| "share_out remaining share i (machine # machines) (keys, pcs, assignments) =
     (let key = canonical_text machine in
      if key = [] then share_out remaining share (i + 1) machines (keys, pcs, assignments)
      else let qty = machine_share remaining share i in
        share_out remaining share (i + 1) machines
          (add_item key keys, put key qty pcs,
           assignments @ [\<lparr>sa_machine = machine, sa_role = RemainingMoved, sa_order_pcs = qty\<rparr>]))"

definition machine_unavailable_split_plan :: "jsnum \<Rightarrow> string list \<Rightarrow> setup_interruption option \<Rightarrow> split_plan option" where
  "machine_unavailable_split_plan setup_order_pcs assigned_machines interruption =
     (case interruption of None \<Rightarrow> None | Some i \<Rightarrow>
      let key = canonical_text (ui_machine i) in
      if assigned_machines = [] \<or> key = [] then None
      else
        let others = filter (\<lambda>m. canonical_text m \<noteq> key) assigned_machines;
            produced = num_max (Fin 0) (ui_finished_qty i);
            remaining = num_max (num_sub setup_order_pcs produced) (Fin 0);
            share = assigned_machine_order_pcs remaining (max 1 (int (length others)));
            made = num_lt (Fin 0) produced;
            pcs0 = (if made then [(key, produced)] else []);
            assignments0 = (if made then [\<lparr>sa_machine = ui_machine i, sa_role = ProducedOnUnavailable, sa_order_pcs = produced\<rparr>] else []);
            (keys, pcs, assignments) =
              (if others \<noteq> [] then share_out remaining share 0 others ([], pcs0, assignments0)
               else if num_lt (Fin 0) remaining
               then ([key], pcs0, assignments0 @ [\<lparr>sa_machine = ui_machine i, sa_role = RemainingDelayed, sa_order_pcs = remaining\<rparr>])
               else ([], pcs0, assignments0));
            date = uw_from (si_window i)
        in Some \<lparr>sp_produced_key = key, sp_remaining_keys = keys, sp_order_pcs = pcs,
             sp_produced_actual = (if date \<noteq> [] \<and> made
               then [(key, \<lparr>pa_machine = [], pa_start = date, pa_latest = date, pa_output = produced, pa_actual = produced,
                        pa_rows = Fin 1, pa_dates = [date]\<rparr>)] else []),
             sp_assignments = assignments, sp_produced_qty = produced, sp_remaining_qty = remaining\<rparr>)"

definition merged_production_actual ::
  "js_host \<Rightarrow> production_actual option \<Rightarrow> production_actual option \<Rightarrow> production_actual option" where
  "merged_production_actual host actual manual =
     (case manual of None \<Rightarrow> actual | Some m \<Rightarrow>
      (case actual of None \<Rightarrow> manual | Some a \<Rightarrow>
        Some (a\<lparr>pa_start := or_text (pa_start a) (pa_start m), pa_latest := max_date_value host [pa_latest a, pa_latest m],
          pa_output := num_max (pa_output a) (pa_output m), pa_actual := num_max (pa_actual a) (pa_actual m),
          pa_rows := num_max (pa_rows a) (pa_rows m),
          pa_dates := foldl (\<lambda>ds d. add_item d ds) [] (pa_dates a @ pa_dates m)\<rparr>)))"

subsection \<open>Plan overrides\<close>

definition assignment_mode :: "jsrow \<Rightarrow> string" where
  "assignment_mode row = canonical_text (row_text row [''assignmentMode'', ''assignmentAction''])"

definition is_parallel_machine_override :: "jsrow \<Rightarrow> bool" where
  "is_parallel_machine_override row \<longleftrightarrow> assignment_mode row = ''add_parallel_machine''"

definition is_early_downstream_override :: "jsrow \<Rightarrow> bool" where
  "is_early_downstream_override row \<longleftrightarrow> assignment_mode row = ''early_downstream''"

definition decision_active :: "jsrow \<Rightarrow> bool" where
  "decision_active row \<longleftrightarrow> is_active_planner_decision (Str (row_text row [''status'', ''STATUS'']))"

definition plan_override_applies :: "js_host \<Rightarrow> jsrow \<Rightarrow> string \<Rightarrow> string option \<Rightarrow> jsrow \<Rightarrow> bool" where
  "plan_override_applies host work_order setup_no display_setup_no row =
     (let changed = date_ms_or_zero host (row_text work_order [''routeChangeCreatedAt'']);
          jc = canonical_text (row_text work_order [''jcNo'', ''JC NO.'', ''JC NO'']);
          part = canonical_text (row_text work_order [''partCode'', ''PART CODE'', ''PART NO'']);
          setups = filter (\<lambda>k. k \<noteq> []) [planner_setup_key setup_no,
            planner_setup_key (case display_setup_no of None \<Rightarrow> [] | Some d \<Rightarrow> d)];
          row_jc = canonical_text (row_text row [''jobCardNumber'', ''jcNo'', ''JC NO.'', ''JC NO'']);
          target = or_text row_jc (canonical_text (row_text row [''target'', ''partCode'', ''PART CODE'', ''PART NO'']));
          row_setup = planner_setup_key (row_text row [''setupNumber'', ''setupNo'', ''SETUP NO.'', ''SETUP NO'']) in
      decision_active row \<and> \<not> (changed \<noteq> 0 \<and> row_created_at_ms host row \<le> changed)
      \<and> target \<noteq> [] \<and> (target = jc \<or> row_jc = [] \<and> target = part)
      \<and> (row_setup = [] \<or> row_setup \<in> set setups))"

definition matching_plan_overrides_for_setup ::
  "js_host \<Rightarrow> jsrow list \<Rightarrow> jsrow \<Rightarrow> string \<Rightarrow> string option \<Rightarrow> jsrow list" where
  "matching_plan_overrides_for_setup host overrides work_order setup_no display_setup_no =
     filter (plan_override_applies host work_order setup_no display_setup_no) overrides"

definition to_machine_columns :: "string list" where
  "to_machine_columns = [''toMachine'', ''TO MACHINE'', ''PLAN ON MACHINE'', ''TARGET MACHINE'']"

text \<open>\<open>.sort()\<close> without a comparator: the order of code units.\<close>

definition text_order :: "string \<Rightarrow> string \<Rightarrow> int" where
  "text_order a b = (if a < b then - 1 else if a = b then 0 else 1)"

interpretation code_units: comparator text_order
  by unfold_locales (auto simp: text_order_def split: if_splits)

definition plan_override_decision_signature :: "js_host \<Rightarrow> jsrow \<Rightarrow> string" where
  "plan_override_decision_signature host row =
     (let target = canonical_text (row_text row to_machine_columns);
          placement_text = (\<lambda>p. qp_machine p @ '':'' @
            join '','' (map (\<lambda>q. qb_jc_no q @ ''/'' @ qb_setup_no q @ ''/'' @ qb_machine q) (qp_before p))) in
      if target = [] then []
      else target @ ''|'' @ join ''|''
        (sort_by text_order (map placement_text (machine_unavailable_queue_placements host row))))"

record override_choice =
  oc_target_id :: string
  oc_target_key :: string
  oc_target_label :: string
  oc_target :: string
  oc_setup_no :: string
  oc_from_machine :: string
  oc_to_machine :: string
  oc_reason :: string
  oc_created_at :: string

definition plan_override_conflict_choice :: "jsrow \<Rightarrow> override_choice" where
  "plan_override_conflict_choice row =
     \<lparr>oc_target_id = row_text row [''_id'', ''id''],
      oc_target_key = join '' / '' (filter (\<lambda>p. p \<noteq> []) [row_text row [''target''],
        row_text row [''setupNo'', ''SETUP NO.'', ''SETUP NO''], row_text row [''fromMachine''], row_text row [''toMachine'']]),
      oc_target_label = ''Keep '' @ or_text (row_text row [''target'']) ''setup'' @ '' on ''
        @ or_text (row_text row to_machine_columns) ''target machine'',
      oc_target = row_text row [''target''], oc_setup_no = row_text row [''setupNo'', ''SETUP NO.'', ''SETUP NO''],
      oc_from_machine = row_text row [''fromMachine'', ''FROM MACHINE''], oc_to_machine = row_text row to_machine_columns,
      oc_reason = row_text row [''reason'', ''REASON''],
      oc_created_at = row_text row [''createdAt'', ''CREATED AT'', ''timestamp'', ''updatedAt'']\<rparr>"

text \<open>Newest decisions first.\<close>

definition newest_first :: "js_host \<Rightarrow> jsrow \<Rightarrow> jsrow \<Rightarrow> int" where
  "newest_first host a b = row_created_at_ms host b - row_created_at_ms host a"

definition oldest_first :: "js_host \<Rightarrow> jsrow \<Rightarrow> jsrow \<Rightarrow> int" where
  "oldest_first host a b = row_created_at_ms host a - row_created_at_ms host b"

record override_conflict =
  ov_message :: string
  ov_choices :: "override_choice list"

definition plan_override_conflict_for_matches :: "js_host \<Rightarrow> jsrow list \<Rightarrow> jsrow \<Rightarrow> string \<Rightarrow> override_conflict option" where
  "plan_override_conflict_for_matches host matches work_order setup_no =
     (if length matches < 2 then None
      else
        let active = filter (\<lambda>row. plan_override_decision_signature host row \<noteq> []) matches;
            signatures = remdups (map (plan_override_decision_signature host) active) in
        if length signatures < 2 then None
        else
          let choices = map plan_override_conflict_choice (sort_by (newest_first host) active);
              target = or_text (row_text work_order [''jcNo'', ''JC NO.'', ''JC NO''])
                (row_text work_order [''partCode'', ''PART CODE'', ''PART NO'']) in
          Some \<lparr>ov_message = ''Planner action conflict: '' @ or_text target ''selected setup'' @ '' setup ''
                 @ or_text setup_no ''-'' @ '' has '' @ show_int (int (length choices))
                 @ '' active machine-switch decisions. Choose one action to keep.'',
               ov_choices = choices\<rparr>)"

record override_decision =
  od_override :: "jsrow option"
  od_parallel :: "jsrow list"
  od_conflict :: "override_conflict option"

definition plan_override_decision_for_setup ::
  "js_host \<Rightarrow> jsrow list \<Rightarrow> jsrow \<Rightarrow> string \<Rightarrow> string option \<Rightarrow> override_decision" where
  "plan_override_decision_for_setup host overrides work_order setup_no display_setup_no =
     (let matches = matching_plan_overrides_for_setup host overrides work_order setup_no display_setup_no;
          parallel = sort_by (oldest_first host) (filter is_parallel_machine_override matches);
          moves = filter (\<lambda>row. \<not> is_parallel_machine_override row) matches in
      case plan_override_conflict_for_matches host moves work_order
          (case display_setup_no of Some d \<Rightarrow> or_text d setup_no | None \<Rightarrow> setup_no) of
        Some conflict \<Rightarrow> \<lparr>od_override = None, od_parallel = parallel, od_conflict = Some conflict\<rparr>
      | None \<Rightarrow> \<lparr>od_override = (case sort_by (newest_first host) moves of [] \<Rightarrow> None | row # _ \<Rightarrow> Some row),
           od_parallel = parallel, od_conflict = None\<rparr>)"

text \<open>The window an override stands for: the planner moves the setup off its machine.\<close>

definition override_window :: "js_host \<Rightarrow> jsrow \<Rightarrow> string \<Rightarrow> string \<Rightarrow> string \<Rightarrow> unavailable_window" where
  "override_window host row machine date reason =
     \<lparr>uw_machine = canonical_text machine, uw_from = date, uw_to = date, uw_action = ''shift_required'', uw_reason = reason,
      uw_interrupted = machine_unavailable_interrupted_setups row, uw_placements = machine_unavailable_queue_placements host row\<rparr>"

definition plan_override_interruption_for_setup ::
  "js_host \<Rightarrow> jsrow \<Rightarrow> string \<Rightarrow> string \<Rightarrow> string list \<Rightarrow> setup_interruption option" where
  "plan_override_interruption_for_setup host row jc_no setup_no locked_machines =
     (let jc = canonical_text jc_no; setup = planner_setup_key setup_no; locked = filter (\<lambda>m. m \<noteq> []) locked_machines in
      if \<not> decision_active row \<or> jc = [] \<or> setup = [] \<or> locked = [] then None
      else map_option (\<lambda>i.
          interruption_in (override_window host row (locked_machine_named locked (ui_machine i))
            (or_text (parse_date host (row_text row [''createdAt''])) (plant_iso_date (clock_now host)))
            (or_text (row_text row [''reason'', ''REASON'']) ''Planner machine switch'')) locked i)
        (List.find (interruption_matches jc setup locked) (machine_unavailable_interrupted_setups row)))"

definition plan_override_queue_placement_for_setup ::
  "js_host \<Rightarrow> jsrow \<Rightarrow> string \<Rightarrow> string \<Rightarrow> string \<Rightarrow> queue_placement option" where
  "plan_override_queue_placement_for_setup host row jc_no part_no setup_no =
     (if \<not> decision_active row then None
      else machine_unavailable_queue_placement_for_setup
        [override_window host row (row_text row [''fromMachine'', ''machine'', ''machineNo''])
           (plant_iso_date (clock_now host)) (row_text row [''reason'', ''REASON''])] jc_no part_no setup_no)"

subsection \<open>Prepared and indexed windows\<close>

lemma prepared_windows:
  "bind_result (map_result (\<lambda>row. calculate_active_windows host cal [row]) rows) (\<lambda>groups. return (concat groups))
   = bind_result (map_result (unavailable_window_of host cal) (filter constraint_applies rows))
       (\<lambda>windows. return (filter window_complete windows))"
proof (induction rows)
  case (Cons row rows)
  show ?case
  proof (cases "constraint_applies row")
    case True
    then show ?thesis using Cons
      by (cases "unavailable_window_of host cal row";
          cases "map_result (\<lambda>row. calculate_active_windows host cal [row]) rows";
          cases "map_result (unavailable_window_of host cal) (filter constraint_applies rows)")
        (auto simp: calculate_active_windows_def return_def)
  next
    case False
    then show ?thesis using Cons
      by (cases "map_result (\<lambda>row. calculate_active_windows host cal [row]) rows")
        (auto simp: calculate_active_windows_def return_def)
  qed
qed (simp add: return_def)

text \<open>Preparing the windows of every constraint by itself and sorting them together gives the windows computed
  from all constraints at once, errors included.\<close>

theorem prepared_windows_equal:
  "prepared_active_windows host cal rows = calculate_active_windows host cal rows"
  using prepared_windows [of host cal rows]
  unfolding prepared_active_windows_def calculate_active_windows_def [of host cal rows]
  by (cases "map_result (\<lambda>row. calculate_active_windows host cal [row]) rows";
      cases "map_result (unavailable_window_of host cal) (filter constraint_applies rows)") (simp_all add: return_def)

definition kept_windows :: "unavailable_window list \<Rightarrow> string \<Rightarrow> unavailable_window list" where
  "kept_windows windows key = filter (\<lambda>w. uw_machine w = key \<and> uw_from w \<le> uw_to w) windows"

lemma index_window_step:
  assumes "\<And>k. (case map_of m k of Some ws \<Rightarrow> ws | None \<Rightarrow> []) = kept_windows seen k"
  shows "(case map_of (index_window m w) k of Some ws \<Rightarrow> ws | None \<Rightarrow> []) = kept_windows (seen @ [w]) k"
  using assms [of k] assms [of "uw_machine w"] by (auto simp: index_window_def kept_windows_def map_of_put)

lemma index_windows:
  "(case map_of (run_steps index_window [] windows) k of Some ws \<Rightarrow> ws | None \<Rightarrow> []) = kept_windows windows k"
proof (induction windows arbitrary: k rule: rev_induct)
  case (snoc w windows)
  from index_window_step [OF this, of w k] show ?case by (simp add: run_steps_append)
qed (simp add: kept_windows_def)

text \<open>The windows of a machine looked up in the index of a simulation are the ones filtered from the list.\<close>

theorem indexed_windows_equal:
  "indexed_windows_for windows machine = machine_unavailable_windows_for windows machine"
  by (simp add: indexed_windows_for_def index_windows kept_windows_def machine_unavailable_windows_for_def)

subsection \<open>A delayed run clears the windows\<close>

text \<open>A window between two calendar days.\<close>

definition dated_window :: "unavailable_window \<Rightarrow> bool" where
  "dated_window w \<longleftrightarrow> (\<exists>a b. plain_day a \<and> plain_day b \<and> plain_day (b + 1) \<and> uw_from w = iso_day a \<and> uw_to w = iso_day b)"

definition run_end :: "js_host \<Rightarrow> planning_calendar \<Rightarrow> planning_meta \<Rightarrow> string \<Rightarrow> string" where
  "run_end host cal meta start =
     planned_production_end host cal start (number_or_zero (pm_order_pcs meta)) (pm_cycle meta) (pm_actual meta)"

definition clear_of :: "js_host \<Rightarrow> unavailable_window list \<Rightarrow> string \<Rightarrow> string \<Rightarrow> bool" where
  "clear_of host windows start stop \<longleftrightarrow> stop = [] \<or> first_overlapping_machine_unavailable_window host windows start stop = None"

lemma overlapping_resume:
  assumes s: "plain_day s" and w: "first_overlapping_machine_unavailable_window host windows (iso_day s) stop = Some w"
    and dated: "list_all dated_window windows"
  obtains e where "w \<in> set windows" "uw_to w = iso_day e" "s \<le> e" "plain_day (e + 1)" "machine_unavailable_resume_date w = iso_day (e + 1)"
proof -
  have "w \<in> set windows" "iso_day s \<le> uw_to w"
    using w s by (auto simp: first_overlapping_machine_unavailable_window_def Let_def find_Some_iff split: if_splits)
  moreover obtain e where "plain_day e" "plain_day (e + 1)" "uw_to w = iso_day e"
    using dated \<open>w \<in> set windows\<close> by (auto simp: list_all_iff dated_window_def)
  ultimately show ?thesis using s by (intro that [of e]) (auto simp: iso_day_le_iff machine_unavailable_resume_date_def)
qed

lemma delay_loop_clears:
  assumes "list_all dated_window windows" "plain_day s"
    and "card {w \<in> set windows. iso_day s \<le> uw_to w} < guard"
    and "delay_loop host cal meta windows guard (iso_day s) stop matched = (start, m)"
  shows "(start = iso_day s \<and> first_overlapping_machine_unavailable_window host windows (iso_day s) stop = None)
    \<or> (\<exists>e. s < e \<and> plain_day e \<and> start = iso_day e \<and> clear_of host windows start (run_end host cal meta start))"
  using assms(2-)
proof (induction guard arbitrary: s stop matched)
  case (Suc guard)
  show ?case
  proof (cases "first_overlapping_machine_unavailable_window host windows (iso_day s) stop")
    case None
    then show ?thesis using Suc.prems(3) by simp
  next
    case (Some w)
    obtain e where e: "w \<in> set windows" "uw_to w = iso_day e" "s \<le> e" "plain_day (e + 1)"
      "machine_unavailable_resume_date w = iso_day (e + 1)"
      using overlapping_resume [OF Suc.prems(1) Some assms(1)] .
    let ?stop = "run_end host cal meta (iso_day (e + 1))"
    have later: "\<not> iso_day (e + 1) \<le> iso_day s" using e Suc.prems(1) by (simp add: iso_day_le_iff)
    have eq: "delay_loop host cal meta windows (Suc guard) (iso_day s) stop matched =
        (if ?stop = [] then (iso_day (e + 1), Some w) else delay_loop host cal meta windows guard (iso_day (e + 1)) ?stop (Some w))"
      using later e(4) by (simp add: Some e(5) run_end_def Let_def)
    show ?thesis
    proof (cases "?stop = []")
      case True
      then have "start = iso_day (e + 1)" using Suc.prems(3) eq by simp
      then show ?thesis using True e(3,4) by (intro disjI2 exI [of _ "e + 1"]) (simp add: clear_of_def)
    next
      case False
      have "{v \<in> set windows. iso_day (e + 1) \<le> uw_to v} \<subset> {v \<in> set windows. iso_day s \<le> uw_to v}"
      proof (rule psubsetI)
        have "iso_day s \<le> iso_day (e + 1)" using later by simp
        then show "{v \<in> set windows. iso_day (e + 1) \<le> uw_to v} \<subseteq> {v \<in> set windows. iso_day s \<le> uw_to v}"
          using order_trans by blast
        have pe: "plain_day e" using e(3,4) Suc.prems(1) by (auto simp: plain_day_def)
        then have "w \<in> {v \<in> set windows. iso_day s \<le> uw_to v}" "w \<notin> {v \<in> set windows. iso_day (e + 1) \<le> uw_to v}"
          using e Suc.prems(1) by (auto simp: iso_day_le_iff)
        then show "{v \<in> set windows. iso_day (e + 1) \<le> uw_to v} \<noteq> {v \<in> set windows. iso_day s \<le> uw_to v}" by blast
      qed
      then have "card {v \<in> set windows. iso_day (e + 1) \<le> uw_to v} < card {v \<in> set windows. iso_day s \<le> uw_to v}"
        by (rule psubset_card_mono [rotated]) simp
      then have fuel: "card {v \<in> set windows. iso_day (e + 1) \<le> uw_to v} < guard" using Suc.prems(2) by simp
      have "delay_loop host cal meta windows guard (iso_day (e + 1)) ?stop (Some w) = (start, m)"
        using Suc.prems(3) eq False by simp
      from Suc.IH [OF e(4) fuel this] show ?thesis
      proof
        assume "start = iso_day (e + 1) \<and> first_overlapping_machine_unavailable_window host windows (iso_day (e + 1)) ?stop = None"
        then show ?thesis using e(3,4) by (intro disjI2 exI [of _ "e + 1"]) (simp add: clear_of_def)
      next
        assume "\<exists>f. e + 1 < f \<and> plain_day f \<and> start = iso_day f \<and> clear_of host windows start (run_end host cal meta start)"
        then obtain f where "e + 1 < f" "plain_day f" "start = iso_day f" "clear_of host windows start (run_end host cal meta start)" by blast
        then show ?thesis using e(3) by (intro disjI2 exI [of _ f]) simp
      qed
    qed
  qed
qed simp

lemma delay_loop_matched:
  "delay_loop host cal meta windows guard begin_date stop matched = (start, m) \<Longrightarrow> m = None \<Longrightarrow> matched = None \<and> start = begin_date"
proof (induction guard arbitrary: begin_date stop matched)
  case (Suc guard)
  then show ?case by (auto simp: Let_def split: option.splits if_splits)
qed simp

text \<open>Inputs for the witnesses: a window of machine m1, and a run of pieces at ten minutes each.\<close>

definition sample_window :: "int \<Rightarrow> int \<Rightarrow> unavailable_window" where
  "sample_window a b = \<lparr>uw_machine = ''m1'', uw_from = iso_day a, uw_to = iso_day b, uw_action = ''delay'', uw_reason = [],
     uw_interrupted = [], uw_placements = []\<rparr>"

lemma sample_window_dated:
  "plain_day a \<Longrightarrow> plain_day b \<Longrightarrow> plain_day (b + 1) \<Longrightarrow> dated_window (sample_window a b)"
  unfolding dated_window_def sample_window_def by auto

definition sample_meta :: "int \<Rightarrow> unavailable_window list \<Rightarrow> planning_meta" where
  "sample_meta pcs windows = \<lparr>pm_ready_date = None, pm_base_ready_date = None, pm_early_ready_date = None,
     pm_minimum_end_date = None, pm_can_pull_forward = None, pm_assignment_locked = False,
     pm_simulation_reservation = False, pm_previous_setup_no = None, pm_continuity_after = None,
     pm_continuity_protected = False, pm_order_pcs = Some (num_int pcs), pm_total_order_pcs = None,
     pm_carried_good_qty = None, pm_upstream_consumed_qty = None, pm_cycle = Some [(''cycleTime'', Num (Fin 600))],
     pm_actual = None, pm_windows = Some windows\<rparr>"

text \<open>C12: With fewer than 20 dated windows, a production run that is delayed starts on a later day, and from that day to its
  new end no window of the machine overlaps it (or it has no end); one that is not delayed overlaps none.\<close>

theorem production_delay_clears_windows:
  assumes "plain_day s" "list_all dated_window windows" "length windows < 20" "pm_windows meta = Some windows"
    and "date_or_text host stop \<noteq> []"
  shows "case pd_start (machine_unavailable_production_delay host cal meta (iso_day s) stop) of
      None \<Rightarrow> first_overlapping_machine_unavailable_window host windows (iso_day s) (date_or_text host stop) = None
    | Some start \<Rightarrow> (\<exists>e. s < e \<and> start = iso_day e \<and> clear_of host windows start (run_end host cal meta start))"
proof (cases "windows = []")
  case True
  then show ?thesis using assms by (simp add: machine_unavailable_production_delay_def first_overlapping_machine_unavailable_window_def Let_def)
next
  case False
  let ?stop = "date_or_text host stop"
  obtain start m where run: "delay_loop host cal meta windows 20 (iso_day s) ?stop None = (start, m)" by force
  have "card {w \<in> set windows. iso_day s \<le> uw_to w} \<le> card (set windows)" by (rule card_mono) auto
  also have "\<dots> \<le> length windows" by (rule card_length)
  finally have "card {w \<in> set windows. iso_day s \<le> uw_to w} < 20" using assms(3) by simp
  note clears = delay_loop_clears [OF assms(2,1) this run]
  have result: "pd_start (machine_unavailable_production_delay host cal meta (iso_day s) stop)
      = (if m \<noteq> None \<and> start \<noteq> iso_day s then Some start else None)"
    using False assms(1,4,5) run by (simp add: machine_unavailable_production_delay_def Let_def del: delay_loop.simps)
  show ?thesis
  proof (cases "start = iso_day s")
    case True
    then have "first_overlapping_machine_unavailable_window host windows (iso_day s) ?stop = None"
      using clears assms(1) iso_day_inj by auto
    then show ?thesis using result True by simp
  next
    case moved: False
    then have "m \<noteq> None" using delay_loop_matched [OF run] by blast
    then have "pd_start (machine_unavailable_production_delay host cal meta (iso_day s) stop) = Some start"
      using result moved by simp
    moreover obtain e where "s < e" "start = iso_day e" "clear_of host windows start (run_end host cal meta start)"
      using clears moved by blast
    ultimately show ?thesis by (simp only: option.case) blast
  qed
qed

theorem production_delay_clears_windows_witness:
  "case pd_start (machine_unavailable_production_delay utc_host default_planning_calendar (sample_meta 100 [sample_window 20455 20457]) (iso_day 20454) (iso_day 20456)) of
      None \<Rightarrow> first_overlapping_machine_unavailable_window utc_host [sample_window 20455 20457] (iso_day 20454) (date_or_text utc_host (iso_day 20456)) = None
    | Some start \<Rightarrow> (\<exists>e. 20454 < e \<and> start = iso_day e
        \<and> clear_of utc_host [sample_window 20455 20457] start (run_end utc_host default_planning_calendar (sample_meta 100 [sample_window 20455 20457]) start))"
proof (rule production_delay_clears_windows)
  show "list_all dated_window [sample_window 20455 20457]"
    by (simp add: sample_window_dated plain_day_def)
qed (simp_all add: plain_day_def sample_meta_def)

subsection \<open>A split conserves the pieces\<close>

lemma share_out_pcs:
  "list_all (\<lambda>m. canonical_text m \<noteq> []) machines \<Longrightarrow>
   map sa_order_pcs (snd (snd (share_out remaining share i machines (keys, pcs, assignments))))
   = map sa_order_pcs assignments @ map (\<lambda>j. machine_share remaining share (i + int j)) [0..<length machines]"
proof (induction machines arbitrary: i keys pcs assignments)
  case (Cons m machines)
  then show ?case by (simp add: Let_def upt_conv_Cons ac_simps flip: map_Suc_upt del: upt_Suc)
qed simp

lemma share_total:
  assumes "0 \<le> s" "r \<le> (j + int m) * s"
  shows "(\<Sum>i\<leftarrow>[0..<m]. min s (max (r - (j + int i) * s) 0)) = max (r - j * s) (0 :: int)"
  using assms(2)
proof (induction m arbitrary: j)
  case (Suc m)
  have shift: "[0..<Suc m] = 0 # map Suc [0..<m]" by (simp add: map_Suc_upt upt_conv_Cons del: upt_Suc)
  have "(\<Sum>i\<leftarrow>[0..<Suc m]. min s (max (r - (j + int i) * s) 0))
      = min s (max (r - j * s) 0) + (\<Sum>i\<leftarrow>[0..<m]. min s (max (r - ((j + 1) + int i) * s) 0))"
    unfolding shift by (simp add: comp_def algebra_simps)
  also have "(\<Sum>i\<leftarrow>[0..<m]. min s (max (r - ((j + 1) + int i) * s) 0)) = max (r - (j + 1) * s) 0"
    using Suc.prems by (intro Suc.IH) (simp add: algebra_simps)
  also have "min s (max (r - j * s) 0) + max (r - (j + 1) * s) 0 = max (r - j * s) 0"
    using assms(1) by (simp add: algebra_simps)
  finally show ?case .
qed simp

lemma num_max_int: "num_max (num_int a) (num_int b) = num_int (max a b)"
  by (simp add: num_max_def max_def)

lemma num_min_int: "num_min (num_int a) (num_int b) = num_int (min a b)"
  by (simp add: num_min_def min_def)

lemma assigned_pcs_int:
  assumes r: "0 \<le> r" "r \<le> 2 ^ 51" and k: "1 \<le> k" "k \<le> 2 ^ 51"
  obtains s where "assigned_machine_order_pcs (num_int r) k = num_int s" "0 \<le> s" "r \<le> k * s" "k * s \<le> r + k"
proof (cases "r = 0 \<or> k \<le> 1")
  case True
  then show ?thesis using r k by (intro that [of r]) (auto simp: assigned_machine_order_pcs_def truthy_def)
next
  case False
  let ?s = "- ((- r) div k)"
  have "num_div (num_int r) (num_int k) = fl (of_int r / of_int k)" using False by simp
  then have "assigned_machine_order_pcs (num_int r) k = num_int ?s"
    using ceil_fl_quotient [OF r _ k(2)] False k by (simp add: assigned_machine_order_pcs_def truthy_def del: num_div.simps)
  moreover have "k * ((- r) div k) \<le> - r" "- r < k * ((- r) div k) + k"
    using k div_bounds [of k "- r"] by (simp_all add: algebra_simps)
  moreover have "(- r) div k \<le> 0" using r k by (simp add: div_nonpos_pos_le0)
  ultimately show ?thesis by (intro that [of ?s]) auto
qed

lemma machine_share_int:
  assumes "0 \<le> i" "0 \<le> s" "i * s \<le> 2 ^ 52" "0 \<le> r" "r \<le> 2 ^ 52"
  shows "machine_share (num_int r) (num_int s) i = num_int (min s (max (r - i * s) 0))"
proof -
  have "0 \<le> i * s" using assms by simp
  then have mul: "num_mul (num_int i) (num_int s) = num_int (i * s)" using assms(3) by (intro num_mul_int) simp
  have "num_sub (num_int r) (num_int (i * s)) = num_int (r - i * s)"
    proof (rule num_sub_int)
    have "r \<le> 2 ^ 53" "i * s \<le> 2 ^ 53" using assms(3,5) by simp_all
    then show "\<bar>r - i * s\<bar> \<le> 2 ^ 53" using assms \<open>0 \<le> i * s\<close> by linarith
  qed
  moreover have "num_max (num_int (r - i * s)) (Fin 0) = num_int (max (r - i * s) 0)"
    using num_max_int [of "r - i * s" 0] by simp
  ultimately show ?thesis
    unfolding machine_share_def mul by (simp only: num_min_int)
qed

lemma sum_numbers_int:
  assumes "list_all (\<lambda>x. 0 \<le> x) xs" "sum_list xs \<le> 2 ^ 53"
  shows "sum_numbers (map num_int xs) = num_int (sum_list xs)"
proof -
  have "foldl num_add (num_int a) (map num_int xs) = num_int (a + sum_list xs)"
    if "0 \<le> a" "list_all (\<lambda>x. 0 \<le> x) xs" "a + sum_list xs \<le> 2 ^ 53" for a xs
    using that
  proof (induction xs arbitrary: a)
    case (Cons x xs)
    have "0 \<le> sum_list xs" using Cons.prems(2) by (intro sum_list_nonneg) (simp add: list_all_iff)
    then have "num_add (num_int a) (num_int x) = num_int (a + x)" using Cons.prems by (intro num_add_int) simp
    moreover have "foldl num_add (num_int (a + x)) (map num_int xs) = num_int (a + x + sum_list xs)"
      using Cons.prems by (intro Cons.IH) auto
    ultimately show ?case by (simp only: list.map foldl.simps sum_list.Cons add.assoc)
  qed simp
  from this [of 0 xs] show ?thesis using assms by (simp add: sum_numbers_def)
qed

lemma split_assignments_total:
  assumes n: "0 \<le> n" "n \<le> 2 ^ 51" and p: "0 \<le> p" "p \<le> 2 ^ 51" and few: "int (length machines) \<le> 2 ^ 51"
    and keys: "list_all (\<lambda>m. canonical_text m \<noteq> []) machines" and qty: "ui_finished_qty i = num_int p"
    and plan: "machine_unavailable_split_plan (num_int n) machines (Some i) = Some plan"
  shows "sum_numbers (map sa_order_pcs (sp_assignments plan)) = num_int (max n p)"
proof -
  let ?others = "filter (\<lambda>m. canonical_text m \<noteq> canonical_text (ui_machine i)) machines"
  let ?r = "max (n - p) 0" and ?k = "max 1 (int (length ?others))"
  have produced: "num_max (Fin 0) (ui_finished_qty i) = num_int p" using num_max_int [of 0 p] p qty by (simp add: max_def)
  have remaining: "num_max (num_sub (num_int n) (num_int p)) (Fin 0) = num_int ?r"
    using num_sub_int [of n p] n p num_max_int [of "n - p" 0] by simp
  have k: "1 \<le> ?k" "?k \<le> 2 ^ 51" using few order_trans [OF length_filter_le [of "\<lambda>m. canonical_text m \<noteq> canonical_text (ui_machine i)" machines], of "2 ^ 51"] by auto
  have r: "0 \<le> ?r" "?r \<le> 2 ^ 51" using n p by auto
  obtain s where s: "assigned_machine_order_pcs (num_int ?r) ?k = num_int s" "0 \<le> s" "?r \<le> ?k * s" "?k * s \<le> ?r + ?k"
    using assigned_pcs_int [OF r k] by metis
  define qs where "qs = (if ?others \<noteq> [] then map (\<lambda>j. min s (max (?r - int j * s) 0)) [0..<length ?others] else if 0 < ?r then [?r] else [])"
  have pcs: "map sa_order_pcs (sp_assignments plan) = map num_int ((if 0 < p then [p] else []) @ qs)"
  proof (cases "?others = []")
    case True
    then show ?thesis using plan produced remaining
      by (auto simp: machine_unavailable_split_plan_def Let_def qs_def split: if_splits)
  next
    case False
    have split: "sp_assignments plan = snd (snd (share_out (num_int ?r) (num_int s) 0 ?others
        ([], if 0 < p then [(canonical_text (ui_machine i), num_int p)] else [],
         if 0 < p then [\<lparr>sa_machine = ui_machine i, sa_role = ProducedOnUnavailable, sa_order_pcs = num_int p\<rparr>] else [])))"
      using plan s(1) False unfolding machine_unavailable_split_plan_def
      by (simp add: Let_def produced remaining split: if_splits prod.splits) auto
    have "list_all (\<lambda>m. canonical_text m \<noteq> []) ?others" using keys by (simp add: list_all_iff)
    from share_out_pcs [OF this, of "num_int ?r" "num_int s" 0]
    have "map sa_order_pcs (sp_assignments plan) = map num_int (if 0 < p then [p] else [])
        @ map (\<lambda>j. machine_share (num_int ?r) (num_int s) (int j)) [0..<length ?others]"
      unfolding split by simp
    moreover have qs: "qs = map (\<lambda>j. min s (max (?r - int j * s) 0)) [0..<length ?others]" using False by (simp add: qs_def)
    have "map (\<lambda>j. machine_share (num_int ?r) (num_int s) (int j)) [0..<length ?others] = map num_int qs"
      unfolding qs map_map comp_def
    proof (rule map_cong [OF refl])
      fix j assume "j \<in> set [0..<length ?others]"
      then have "int j * s \<le> ?k * s" using s(2) by (intro mult_right_mono) auto
      also have "?k * s \<le> ?r + ?k" by (rule s(4))
      also have "?r + ?k \<le> 2 ^ 51 + 2 ^ 51" using r(2) k(2) by (rule add_mono)
      finally have "int j * s \<le> 2 ^ 52" by simp
      then show "machine_share (num_int ?r) (num_int s) (int j) = num_int (min s (max (?r - int j * s) 0))"
        using r s(2) by (intro machine_share_int) auto
    qed
    ultimately show ?thesis by simp
  qed
  have total: "sum_list qs = ?r"
  proof (cases "?others = []")
    case False
    then have "0 < length ?others" by (simp only: length_greater_0_conv not_False_eq_True)
    then have "?k = 0 + int (length ?others)" by linarith
    with s(3) have "?r \<le> (0 + int (length ?others)) * s" by (simp only:)
    from share_total [OF s(2) this] show ?thesis using False by (simp add: qs_def)
  qed (use r in \<open>auto simp: qs_def\<close>)
  have "list_all (\<lambda>q. 0 \<le> q) qs" using s(2) by (auto simp: qs_def list_all_iff)
  then have "sum_numbers (map num_int ((if 0 < p then [p] else []) @ qs)) = num_int (sum_list ((if 0 < p then [p] else []) @ qs))"
    using p n total by (intro sum_numbers_int) (auto simp: list_all_iff)
  also have "sum_list ((if 0 < p then [p] else []) @ qs) = max n p" using p total by (auto simp: max_def)
  finally show ?thesis using pcs by simp
qed

lemma split_plan_defined:
  "machine_unavailable_split_plan n machines (Some i) \<noteq> None \<longleftrightarrow> machines \<noteq> [] \<and> canonical_text (ui_machine i) \<noteq> []"
  by (auto simp: machine_unavailable_split_plan_def Let_def split_beta)

text \<open>C4: The split of an interrupted setup conserves the pieces: over the machine that produced and the ones that take
  over they add up to the order, or to what was produced when that is more.\<close>

theorem split_plan_conserves_pieces:
  assumes "0 \<le> n" "n \<le> 2 ^ 51" "0 \<le> p" "p \<le> 2 ^ 51" "int (length machines) \<le> 2 ^ 51"
    and "list_all (\<lambda>m. canonical_text m \<noteq> []) machines" "ui_finished_qty i = num_int p"
    and "machine_unavailable_split_plan (num_int n) machines (Some i) = Some plan"
  shows "sum_numbers (map sa_order_pcs (sp_assignments plan)) = num_int (max n p)"
  using assms by (rule split_assignments_total)

theorem split_plan_conserves_pieces_witness:
  "sum_numbers (map sa_order_pcs (sp_assignments (the (machine_unavailable_split_plan (num_int 1000) [''M1'', ''M2'', ''M3'', ''M4'']
     (Some \<lparr>ui_jc_no = ''j'', ui_setup_no = ''1'', ui_machine = ''M1'', ui_finished_qty = num_int 299, si_window = sample_window 1 2\<rparr>)))))
   = num_int (max 1000 299)"
proof -
  let ?i = "\<lparr>ui_jc_no = ''j'', ui_setup_no = ''1'', ui_machine = ''M1'', ui_finished_qty = num_int 299, si_window = sample_window 1 2\<rparr>"
  have keys: "list_all (\<lambda>m. canonical_text m \<noteq> []) [''M1'', ''M2'', ''M3'', ''M4'']" by code_simp
  have "canonical_text ''M1'' \<noteq> []" by code_simp
  then have "machine_unavailable_split_plan (num_int 1000) [''M1'', ''M2'', ''M3'', ''M4''] (Some ?i) \<noteq> None"
    using split_plan_defined [of "num_int 1000" "[''M1'', ''M2'', ''M3'', ''M4'']" ?i] by simp
  then obtain plan where plan: "machine_unavailable_split_plan (num_int 1000) [''M1'', ''M2'', ''M3'', ''M4''] (Some ?i) = Some plan"
    by blast
  have "sum_numbers (map sa_order_pcs (sp_assignments plan)) = num_int (max 1000 299)"
    by (rule split_plan_conserves_pieces [OF _ _ _ _ _ keys _ plan]) simp_all
  then show ?thesis unfolding plan by simp
qed

end
