(* ===== verification/Planning_Capacity.thy ===== *)
theory Planning_Capacity
  imports Machine_Unavailable
begin

section \<open>Capacity: machines for a setup and the stock between setups\<close>

text \<open>
  \<^verbatim>\<open>packages/db/src/legacy-dashboard-analysis.ts\<close>, the choice of physical machines for a setup (candidates,
  their order, the stability of an earlier assignment, the number of machines for the dispatch
  target) and the work-in-progress buffer: from which date the next setup can run on what the
  previous one has supplied. The cached supply of a stream is the state machine \<open>stream_index\<close>,
  proved equal to the count it replaces.
\<close>

subsection \<open>Comparing numbers\<close>

text \<open>\<open>a - b\<close> as the result of a comparator: \<open>NaN\<close> counts as zero.\<close>

definition number_order :: "jsnum \<Rightarrow> jsnum \<Rightarrow> int" where
  "number_order a b = (let d = num_sub a b in if num_lt d (Fin 0) then - 1 else if num_lt (Fin 0) d then 1 else 0)"

definition numeric_sort :: "js_host \<Rightarrow> string \<Rightarrow> string \<Rightarrow> int" where
  "numeric_sort host a b =
     (let left = num_of_text (trim a); right = num_of_text (trim b) in
      if is_finite left \<and> is_finite right then number_order left right else collate_numeric host a b)"

definition lookup_number :: "(string \<times> jsnum) list \<Rightarrow> string \<Rightarrow> jsnum" where
  "lookup_number m key = (case map_of m key of Some n \<Rightarrow> n | None \<Rightarrow> Fin 0)"

definition lookup_text :: "(string \<times> string) list \<Rightarrow> string \<Rightarrow> string" where
  "lookup_text m key = (case map_of m key of Some s \<Rightarrow> s | None \<Rightarrow> [])"

subsection \<open>Candidate machines\<close>

record physical_machine =
  ph_machine :: string
  ph_type :: string
  ph_family :: string
  ph_status :: string

definition is_machine_active :: "string \<Rightarrow> bool" where
  "is_machine_active status \<longleftrightarrow> status = []
     \<or> to_lower status \<in> set [''active'', ''yes'', ''true'', ''running'', ''available'']"

definition active_physical_machine_rows :: "js_host \<Rightarrow> string \<Rightarrow> string \<Rightarrow> jsrow list \<Rightarrow> physical_machine list" where
  "active_physical_machine_rows host route_machine machine_type rows =
     (let type_key = canonical_text machine_type in
      sort_by (\<lambda>a b. collate_numeric host (ph_machine a) (ph_machine b))
        (filter (\<lambda>m. type_key = [] \<or> canonical_text (ph_type m) = [] \<or> canonical_text (ph_type m) = type_key)
        (filter (\<lambda>m. machine_family_matches (Str route_machine) (Str (ph_family m)))
        (filter (\<lambda>m. is_machine_active (ph_status m))
        (filter (\<lambda>m. ph_machine m \<noteq> [])
          (map (\<lambda>row. \<lparr>ph_machine = row_text row [''machine'', ''machineNo'', ''MACHINE NO'', ''M/C NO'', ''MACHINE NO.''],
             ph_type = row_text row [''machineType'', ''MACHINE TYPE'', ''type'', ''TYPE''],
             ph_family = machine_master_family row,
             ph_status = row_text row [''status'', ''activeStatus'', ''isActive'', ''ACTIVE'', ''active'', ''Active'']\<rparr>) rows))))))"

record assignment_context =
  ac_load :: "(string \<times> jsnum) list"
  ac_next_setup :: "(string \<times> string) list"
  ac_planned_days :: "(string \<times> jsnum) list"
  ac_planned_qty :: "(string \<times> jsnum) list"
  ac_windows :: "unavailable_window list"
  ac_order_pcs :: jsnum
  ac_cycle :: "jsrow option"
  ac_ready :: string

definition candidate_order :: "js_host \<Rightarrow> assignment_context \<Rightarrow> physical_machine \<Rightarrow> physical_machine \<Rightarrow> int" where
  "candidate_order host ctx a b =
     (let ka = canonical_text (ph_machine a); kb = canonical_text (ph_machine b) in
      or_else (number_order (lookup_number (ac_planned_days ctx) ka) (lookup_number (ac_planned_days ctx) kb))
      (or_else (number_order (lookup_number (ac_planned_qty ctx) ka) (lookup_number (ac_planned_qty ctx) kb))
      (or_else (locale_compare host (lookup_text (ac_next_setup ctx) ka) (lookup_text (ac_next_setup ctx) kb))
      (or_else (number_order (lookup_number (ac_load ctx) ka) (lookup_number (ac_load ctx) kb))
        (collate_numeric host (ph_machine a) (ph_machine b))))))"

definition candidate_physical_machines ::
  "js_host \<Rightarrow> assignment_context \<Rightarrow> string \<Rightarrow> string \<Rightarrow> jsrow list \<Rightarrow> physical_machine list" where
  "candidate_physical_machines host ctx route_machine machine_type rows =
     sort_by (candidate_order host ctx) (active_physical_machine_rows host route_machine machine_type rows)"

subsection \<open>Stability of an earlier assignment\<close>

text \<open>The loop of \<open>feasibleMachineAssignmentStart\<close>, at most 20 turns.\<close>

fun feasible_start_loop ::
  "js_host \<Rightarrow> planning_calendar \<Rightarrow> assignment_context \<Rightarrow> unavailable_window list \<Rightarrow> nat \<Rightarrow> string \<Rightarrow> string" where
  "feasible_start_loop host cal ctx windows 0 start = start"
| "feasible_start_loop host cal ctx windows (Suc guard) start =
     (case first_overlapping_machine_unavailable_window host windows start
         (planned_production_end host cal start (ac_order_pcs ctx) (ac_cycle ctx) None) of
        None \<Rightarrow> start
      | Some w \<Rightarrow> let resume = machine_unavailable_resume_date w in
          if resume = [] \<or> resume \<le> start then start else feasible_start_loop host cal ctx windows guard resume)"

definition feasible_machine_assignment_start ::
  "js_host \<Rightarrow> planning_calendar \<Rightarrow> assignment_context \<Rightarrow> string \<Rightarrow> string" where
  "feasible_machine_assignment_start host cal ctx machine =
     feasible_start_loop host cal ctx (machine_unavailable_windows_for (ac_windows ctx) machine) 20
       (max_date_value host [ac_ready ctx, lookup_text (ac_next_setup ctx) (canonical_text machine)])"

definition previous_assignment_move_is_material ::
  "js_host \<Rightarrow> planning_calendar \<Rightarrow> assignment_context \<Rightarrow> jsnum \<Rightarrow> physical_machine \<Rightarrow> physical_machine \<Rightarrow> bool" where
  "previous_assignment_move_is_material host cal ctx planned_qty_band best previous =
     (let best_key = canonical_text (ph_machine best); previous_key = canonical_text (ph_machine previous);
          gain = (\<lambda>m. num_sub (lookup_number m previous_key) (lookup_number m best_key)) in
      if feasible_machine_assignment_start host cal ctx (ph_machine previous)
           < feasible_machine_assignment_start host cal ctx (ph_machine best) then False
      else num_le (Fin 2) (gain (ac_planned_days ctx))
        \<or> num_le planned_qty_band (gain (ac_planned_qty ctx))
        \<or> 2 \<le> planning_date_gap host cal (lookup_text (ac_next_setup ctx) previous_key)
             (lookup_text (ac_next_setup ctx) best_key) (ac_ready ctx)
        \<or> num_le (Fin 2) (gain (ac_load ctx)))"

definition find_candidate :: "physical_machine list \<Rightarrow> string \<Rightarrow> physical_machine option" where
  "find_candidate candidates machine = List.find (\<lambda>c. canonical_text (ph_machine c) = canonical_text machine) candidates"

definition stable_machine_assignment_candidates ::
  "js_host \<Rightarrow> planning_calendar \<Rightarrow> assignment_context \<Rightarrow> jsnum \<Rightarrow> physical_machine list \<Rightarrow> string list \<Rightarrow> physical_machine list" where
  "stable_machine_assignment_candidates host cal ctx planned_qty_band candidates previous_list =
     (if previous_list = [] \<or> length candidates \<le> 1 then candidates
      else case concat (map (\<lambda>m. case find_candidate candidates m of None \<Rightarrow> [] | Some c \<Rightarrow> [c]) previous_list) of
        [] \<Rightarrow> candidates
      | previous # others \<Rightarrow>
          let best = hd candidates; keys = map (\<lambda>c. canonical_text (ph_machine c)) (previous # others) in
          if canonical_text (ph_machine best) = canonical_text (ph_machine previous)
             \<or> previous_assignment_move_is_material host cal ctx planned_qty_band best previous then candidates
          else previous # others @ filter (\<lambda>c. canonical_text (ph_machine c) \<notin> set keys) candidates)"

definition previous_machine_assignments_by_setup :: "jsrow list \<Rightarrow> (string \<times> string list) list" where
  "previous_machine_assignments_by_setup rows = foldl (\<lambda>assignments row.
     let machine = row_text row [''machine'', ''machineNo'', ''M/C NO'', ''MACHINE NO'', ''MACHINE NO.''];
         key = machine_plan_setup_key \<lparr>st_jc_no = row_text row [''jcNo'', ''JC NO.'', ''JC NO''],
           st_part_code = row_text row [''partCode'', ''partNo'', ''PART CODE'', ''PART NO''],
           st_option_number = row_text row [''optionNumber'', ''OPTION NUMBER'', ''OPTION NO''],
           st_setup_no = row_text row [''setupNo'', ''SETUP NO.'', ''SETUP NO'', ''SET UP''],
           st_machine = row_text row [''routeMachine'', ''MACHINE USED'', ''machineUsed'', ''routeMachineCode'']\<rparr> in
     if key = [] \<or> machine = [] then assignments
     else put key (add_item machine (case map_of assignments key of Some ms \<Rightarrow> ms | None \<Rightarrow> [])) assignments) [] rows"

subsection \<open>How many machines\<close>

definition int_range :: "jsnum \<Rightarrow> jsnum \<Rightarrow> int list" where
  "int_range a b = (case (a, b) of (Fin x, Fin y) \<Rightarrow> [\<lfloor>x\<rfloor>..\<lfloor>y\<rfloor>] | _ \<Rightarrow> [])"

text \<open>The end of the last machine when the order is shared by the first \<open>n\<close> candidates.\<close>

definition latest_end_on ::
  "js_host \<Rightarrow> planning_calendar \<Rightarrow> assignment_context \<Rightarrow> physical_machine list \<Rightarrow> string \<Rightarrow> int \<Rightarrow> string" where
  "latest_end_on host cal ctx candidates ready n =
     max_date_value host (map (\<lambda>c.
       planned_production_end host cal
         (max_date_value host [ready, lookup_text (ac_next_setup ctx) (canonical_text (ph_machine c))])
         (assigned_machine_order_pcs (ac_order_pcs ctx) n) (ac_cycle ctx) None) (take (nat n) candidates))"

definition production_days_needed :: "planning_calendar \<Rightarrow> assignment_context \<Rightarrow> jsnum" where
  "production_days_needed cal ctx =
     num_max (Fin 1) (num_ceil (num_div
       (num_div (num_mul (ac_order_pcs ctx) (cycle_seconds (ac_cycle ctx))) (Fin 3600)) (pc_hours cal)))"

definition required_machine_count_for_target ::
  "js_host \<Rightarrow> planning_calendar \<Rightarrow> assignment_context \<Rightarrow> physical_machine list \<Rightarrow> string \<Rightarrow> jsnum" where
  "required_machine_count_for_target host cal ctx candidates deadline_date =
     (let available = int (length candidates) in
      if \<not> truthy (ac_order_pcs ctx) \<or> \<not> truthy (cycle_seconds (ac_cycle ctx)) \<or> available \<le> 1 then Fin 1
      else
        let days = production_days_needed cal ctx;
            available_days = num_int (max 1 (planning_dispatch_target_days - planning_setup_buffer_days));
            limit = num_min (num_int available)
              (num_max (Fin 1) (num_floor (num_div days (num_int minimum_parallel_machine_work_days))));
            duration_count = num_min limit (num_max (Fin 1) (num_ceil (num_div days available_days)));
            ready = date_or_text host (ac_ready ctx);
            deadline = date_or_text host deadline_date in
        if ready = [] \<or> deadline = [] then duration_count
        else case List.find (\<lambda>n. let latest = latest_end_on host cal ctx candidates ready n in latest \<noteq> [] \<and> latest \<le> deadline)
            (int_range duration_count limit) of
          Some n \<Rightarrow> num_int n | None \<Rightarrow> duration_count)"

text \<open>\<open>xs.slice(0, n)\<close> for a count that may be \<open>NaN\<close>\<close>

definition slice_first :: "jsnum \<Rightarrow> 'a list \<Rightarrow> 'a list" where
  "slice_first n xs = (case n of Fin x \<Rightarrow> take (nat \<lfloor>x\<rfloor>) xs | PosInf \<Rightarrow> xs | _ \<Rightarrow> [])"

subsection \<open>The machines of a setup\<close>

definition combine_machines :: "string list \<Rightarrow> string list" where
  "combine_machines machines = map snd (foldl (\<lambda>combined machine.
     let key = canonical_text machine in
     if key \<noteq> [] \<and> map_of combined key = None then put key machine combined else combined) [] machines)"

record assignment_input =
  ai_route_machine :: string
  ai_machine_type :: string
  ai_machine_rows :: "jsrow list"
  ai_deadline :: string
  ai_override :: "jsrow option"
  ai_additional :: "string list"
  ai_actual_machines :: "string list"
  ai_locked :: "string list"
  ai_awaiting_material :: "string list"
  ai_previous :: "string list"

definition sorted_names :: "js_host \<Rightarrow> string list \<Rightarrow> string list" where
  "sorted_names host names = sort_by (collate_numeric host) (filter (\<lambda>m. m \<noteq> []) names)"

definition assignment_candidates ::
  "js_host \<Rightarrow> assignment_context \<Rightarrow> assignment_input \<Rightarrow> physical_machine list" where
  "assignment_candidates host ctx inp = filter (\<lambda>c. canonical_text (ph_machine c) \<notin> set (ai_awaiting_material inp))
     (candidate_physical_machines host ctx (ai_route_machine inp) (ai_machine_type inp) (ai_machine_rows inp))"

definition additional_machines :: "physical_machine list \<Rightarrow> string list \<Rightarrow> string list" where
  "additional_machines candidates additional =
     (let keys = filter (\<lambda>k. k \<noteq> []) (map canonical_text additional) in
      map ph_machine (filter (\<lambda>c. canonical_text (ph_machine c) \<in> set keys) candidates))"

text \<open>The branches in their order: recorded production, the override, the lock, a machine to wait for, the candidates.
  \<open>None\<close> is the return without the additional machines.\<close>

definition assigned_choice ::
  "js_host \<Rightarrow> planning_calendar \<Rightarrow> assignment_context \<Rightarrow> assignment_input \<Rightarrow> string list option" where
  "assigned_choice host cal ctx inp =
     (let override_machine = (case ai_override inp of None \<Rightarrow> [] | Some row \<Rightarrow> row_text row to_machine_columns);
          candidates = assignment_candidates host ctx inp;
          available = filter (\<lambda>c. candidate_machine_available_for_assignment host cal (ph_machine c) (ac_ready ctx)
            (ac_order_pcs ctx) (ac_cycle ctx) (ac_next_setup ctx) (ac_windows ctx)) candidates;
          assignable = (if available \<noteq> [] then available else candidates);
          recorded = sorted_names host (ai_actual_machines inp);
          locked = sorted_names host (ai_locked inp);
          previous = sorted_names host (ai_previous inp);
          delayed = filter (\<lambda>m. machine_has_delay_unavailable_window m (ac_windows ctx)) previous;
          exact = (if override_machine = [] then None else find_candidate assignable override_machine) in
      if recorded \<noteq> [] then Some recorded
      else case exact of Some c \<Rightarrow> Some [ph_machine c]
      | None \<Rightarrow>
          if locked \<noteq> [] then Some locked
          else if delayed \<noteq> [] then Some delayed
          else if assignable = [] then None
          else
            let band = num_max (Fin 1) (num_ceil (cycle_daily_qty cal (ac_cycle ctx)));
                ordered = stable_machine_assignment_candidates host cal ctx band assignable previous;
                n = required_machine_count_for_target host cal ctx ordered (ai_deadline inp)
            in Some (map ph_machine (slice_first n ordered)))"

definition assigned_physical_machines ::
  "js_host \<Rightarrow> planning_calendar \<Rightarrow> assignment_context \<Rightarrow> assignment_input \<Rightarrow> string list" where
  "assigned_physical_machines host cal ctx inp =
     (case assigned_choice host cal ctx inp of None \<Rightarrow> []
      | Some machines \<Rightarrow> combine_machines (machines @ additional_machines (assignment_candidates host ctx inp) (ai_additional inp)))"

subsection \<open>Supply of the previous setup\<close>

record wip_stream =
  ws_machine :: string
  ws_start :: string
  ws_end :: string
  ws_quantity :: jsnum
  ws_daily :: jsnum
  ws_recorded :: bool
  ws_start_hours :: jsnum

text \<open>The days a stream counts from its start: a recorded working day is a whole one, a planned one has the
  capacity of the day. The guard is the one of the code.\<close>

definition stream_day :: "js_host \<Rightarrow> planning_calendar \<Rightarrow> wip_stream \<Rightarrow> string \<Rightarrow> jsnum \<Rightarrow> jsnum" where
  "stream_day host cal s current days =
     (if is_planning_date host cal current
      then num_add days (if ws_recorded s then Fin 1 else planning_capacity_fraction host cal current) else days)"

fun count_stream_days :: "js_host \<Rightarrow> planning_calendar \<Rightarrow> wip_stream \<Rightarrow> string \<Rightarrow> nat \<Rightarrow> string \<Rightarrow> jsnum \<Rightarrow> jsnum" where
  "count_stream_days host cal s through 0 current days = days"
| "count_stream_days host cal s through (Suc guard) current days =
     (if current \<noteq> [] \<and> current \<le> through
      then count_stream_days host cal s through guard (add_calendar_days current 1) (stream_day host cal s current days)
      else days)"

definition stream_through :: "js_host \<Rightarrow> wip_stream \<Rightarrow> string \<Rightarrow> string" where
  "stream_through host s date = min_date_value host [date_or_text host (ws_end s), date_or_text host date]"

definition supplied_in :: "planning_calendar \<Rightarrow> wip_stream \<Rightarrow> jsnum \<Rightarrow> jsnum" where
  "supplied_in cal s counted =
     (let elapsed = (if ws_recorded s then num_max (Fin 1) counted
            else num_max (Fin 0) (num_sub counted (num_div (ws_start_hours s) (pc_hours cal))))
      in num_min (ws_quantity s) (num_mul elapsed (ws_daily s)))"

definition stream_supply :: "js_host \<Rightarrow> planning_calendar \<Rightarrow> wip_stream \<Rightarrow> string \<Rightarrow> jsnum" where
  "stream_supply host cal s date =
     (let start = date_or_text host (ws_start s); through = stream_through host s date in
      if start = [] \<or> through = [] \<or> through < start then Fin 0
      else supplied_in cal s (count_stream_days host cal s through 1000 start (Fin 0)))"

text \<open>The index each stream keeps between the queries of one readiness calculation.\<close>

record stream_index =
  ix_counts :: "(string \<times> jsnum) list"
  ix_current :: string
  ix_counted_through :: string
  ix_days :: jsnum
  ix_guard :: nat

definition new_stream_index :: "js_host \<Rightarrow> wip_stream \<Rightarrow> stream_index" where
  "new_stream_index host s = \<lparr>ix_counts = [], ix_current = date_or_text host (ws_start s), ix_counted_through = [],
     ix_days = Fin 0, ix_guard = 0\<rparr>"

text \<open>One turn of the loop, and the loop: the fuel is what the guard leaves of 1000.\<close>

definition advance_index :: "js_host \<Rightarrow> planning_calendar \<Rightarrow> wip_stream \<Rightarrow> stream_index \<Rightarrow> stream_index" where
  "advance_index host cal s ix =
     (let days = stream_day host cal s (ix_current ix) (ix_days ix) in
      \<lparr>ix_counts = put (ix_current ix) days (ix_counts ix), ix_current = add_calendar_days (ix_current ix) 1,
       ix_counted_through = ix_current ix, ix_days = days, ix_guard = ix_guard ix + 1\<rparr>)"

fun walk_index :: "js_host \<Rightarrow> planning_calendar \<Rightarrow> wip_stream \<Rightarrow> string \<Rightarrow> nat \<Rightarrow> stream_index \<Rightarrow> stream_index" where
  "walk_index host cal s through 0 ix = ix"
| "walk_index host cal s through (Suc fuel) ix =
     (if ix_current ix \<noteq> [] \<and> ix_current ix \<le> through
      then walk_index host cal s through fuel (advance_index host cal s ix) else ix)"

definition indexed_supply ::
  "js_host \<Rightarrow> planning_calendar \<Rightarrow> wip_stream \<Rightarrow> stream_index \<Rightarrow> string \<Rightarrow> stream_index \<times> jsnum" where
  "indexed_supply host cal s ix date =
     (let start = date_or_text host (ws_start s); through = stream_through host s date in
      if start = [] \<or> through = [] \<or> through < start then (ix, Fin 0)
      else case map_of (ix_counts ix) through of
        Some n \<Rightarrow> (ix, supplied_in cal s n)
      | None \<Rightarrow>
          if through < ix_counted_through ix
          then (ix, supplied_in cal s (planned_production_days host cal start through))
          else let ix' = walk_index host cal s through (1000 - ix_guard ix) ix
            in (ix', supplied_in cal s (ix_days ix')))"

definition pooled_wip_supply_through_date ::
  "js_host \<Rightarrow> planning_calendar \<Rightarrow> wip_stream list \<Rightarrow> jsnum \<Rightarrow> string \<Rightarrow> jsnum" where
  "pooled_wip_supply_through_date host cal streams order_pcs date =
     num_min order_pcs (sum_numbers (map (\<lambda>s.
       stream_supply host cal s (if ws_recorded s then date else add_days host cal date (- 1))) streams))"

subsection \<open>Streams of a readiness calculation\<close>

definition unique_production_actuals :: "production_actual list \<Rightarrow> production_actual list" where
  "unique_production_actuals actuals =
     (let key = (\<lambda>a. join ''|'' [pa_machine a, pa_start a, pa_latest a, num_text (pa_output a), num_text (pa_actual a),
            join '','' (sort_by text_order (pa_dates a))])
      in map snd (foldl (\<lambda>seen a. if map_of seen (key a) = None then seen @ [(key a, a)] else seen) [] actuals))"

definition stream_usable :: "wip_stream \<Rightarrow> bool" where
  "stream_usable s \<longleftrightarrow> ws_start s \<noteq> [] \<and> ws_end s \<noteq> [] \<and> ws_start s \<le> ws_end s
     \<and> num_lt (Fin 0) (ws_quantity s) \<and> num_lt (Fin 0) (ws_daily s)"

definition planned_stream_of :: "js_host \<Rightarrow> string \<Rightarrow> wip_stream \<Rightarrow> wip_stream" where
  "planned_stream_of host revision s = s\<lparr>ws_start := max_date_value host [date_or_text host (ws_start s), revision],
     ws_end := date_or_text host (ws_end s), ws_quantity := num_max (ws_quantity s) (Fin 0),
     ws_daily := num_max (ws_daily s) (Fin 0), ws_recorded := False,
     ws_start_hours := num_max (ws_start_hours s) (Fin 0)\<rparr>"

definition date_count :: "production_actual \<Rightarrow> jsnum" where
  "date_count a = (if pa_dates a = [] then Fin 1 else num_int (int (length (pa_dates a))))"

definition recorded_stream_of :: "js_host \<Rightarrow> production_actual \<Rightarrow> wip_stream" where
  "recorded_stream_of host a =
     (let quantity = num_max (pa_actual a) (Fin 0) in
      \<lparr>ws_machine = pa_machine a,
       ws_start = or_text (parse_date host (pa_start a)) (date_or_text host (pa_latest a)),
       ws_end = date_or_text host (pa_latest a), ws_quantity = quantity,
       ws_daily = num_div quantity (date_count a), ws_recorded = True, ws_start_hours = Fin 0\<rparr>)"

text \<open>What a planned stream still supplies after what its machine has recorded.\<close>

definition future_stream_of ::
  "js_host \<Rightarrow> planning_calendar \<Rightarrow> string \<Rightarrow> wip_stream list \<Rightarrow> wip_stream \<Rightarrow> wip_stream list" where
  "future_stream_of host cal revision recorded s =
     (case List.find (\<lambda>r. canonical_text (ws_machine r) = canonical_text (ws_machine s)) (rev recorded) of
        None \<Rightarrow> [s]
      | Some r \<Rightarrow>
          let remaining = num_max (num_sub (ws_quantity s) (ws_quantity r)) (Fin 0);
              start = max_date_value host [add_days host cal (ws_end r) 1, revision] in
          if \<not> truthy remaining \<or> start = [] \<or> ws_end s < start then []
          else [s\<lparr>ws_start := start, ws_quantity := remaining\<rparr>])"

subsection \<open>From which date the next setup can run\<close>

text \<open>The run of the next setup on the stock, day by day, at most 1000 days.\<close>

fun run_on_stock ::
  "js_host \<Rightarrow> planning_calendar \<Rightarrow> (string \<Rightarrow> jsnum) \<Rightarrow> jsnum \<Rightarrow> jsnum \<Rightarrow> nat \<Rightarrow> string \<Rightarrow> jsnum \<Rightarrow> bool" where
  "run_on_stock host cal available order_pcs next_daily 0 current consumed = num_le order_pcs consumed"
| "run_on_stock host cal available order_pcs next_daily (Suc guard) current consumed =
     (if current \<noteq> [] \<and> num_lt consumed order_pcs
      then
        if is_planning_date host cal current
        then
          let consumed' = num_min order_pcs (num_add consumed (num_mul next_daily (planning_capacity_fraction host cal current))) in
          if num_lt (num_add (available current) (fl (1 / 1000))) consumed' then False
          else run_on_stock host cal available order_pcs next_daily guard (add_calendar_days current 1) consumed'
        else run_on_stock host cal available order_pcs next_daily guard (add_calendar_days current 1) consumed
      else num_le order_pcs consumed)"

definition downstream_wip_run_is_feasible ::
  "js_host \<Rightarrow> planning_calendar \<Rightarrow> (string \<Rightarrow> jsnum) \<Rightarrow> jsnum \<Rightarrow> jsnum \<Rightarrow> string \<Rightarrow> bool" where
  "downstream_wip_run_is_feasible host cal available order_pcs next_daily start_date =
     run_on_stock host cal available order_pcs next_daily 1000 start_date (Fin 0)"

fun seek_feasible_start ::
  "js_host \<Rightarrow> planning_calendar \<Rightarrow> (string \<Rightarrow> bool) \<Rightarrow> string \<Rightarrow> nat \<Rightarrow> string \<Rightarrow> string" where
  "seek_feasible_start host cal feasible last_date 0 candidate = []"
| "seek_feasible_start host cal feasible last_date (Suc guard) candidate =
     (if candidate \<noteq> [] \<and> candidate \<le> last_date
      then if feasible candidate then candidate
        else seek_feasible_start host cal feasible last_date guard (add_days host cal candidate 1)
      else [])"

definition downstream_wip_feasible_start_date ::
  "js_host \<Rightarrow> planning_calendar \<Rightarrow> wip_stream list \<Rightarrow> (string \<Rightarrow> jsnum) \<Rightarrow> jsnum \<Rightarrow> jsnum \<Rightarrow> string \<Rightarrow> string" where
  "downstream_wip_feasible_start_date host cal streams available order_pcs next_daily start_not_before =
     (let candidate = add_days host cal start_not_before 0;
          last_supply = max_date_value host (map ws_end streams);
          run_days = num_max (Fin 1) (num_ceil (num_div order_pcs next_daily));
          last_candidate = add_number_of_days host cal (max_date_value host [candidate, last_supply]) (num_add run_days (Fin 30))
      in seek_feasible_start host cal (downstream_wip_run_is_feasible host cal available order_pcs next_daily)
           last_candidate 1000 candidate)"

text \<open>The search for the first date with enough stock has no guard in the code; a search that does not end is
  \<open>None\<close>.\<close>

partial_function (option) seek_buffer_date ::
  "js_host \<Rightarrow> planning_calendar \<Rightarrow> (string \<Rightarrow> bool) \<Rightarrow> string \<Rightarrow> string \<Rightarrow> string option" where
  "seek_buffer_date host cal enough last_date date =
     (if date = [] \<or> last_date < date then Some []
      else if enough date then Some date
      else seek_buffer_date host cal enough last_date (add_days host cal date 1))"

declare seek_buffer_date.simps [code]

record wip_request =
  wq_streams :: "wip_stream list"
  wq_order_pcs :: jsnum
  wq_previous_cycle :: "jsrow option"
  wq_next_cycle :: "jsrow option"
  wq_next_machines :: jsnum
  wq_carried :: jsnum
  wq_consumed :: jsnum
  wq_actuals :: "production_actual list"

definition recorded_streams :: "js_host \<Rightarrow> wip_request \<Rightarrow> wip_stream list" where
  "recorded_streams host q = filter stream_usable (map (recorded_stream_of host) (unique_production_actuals (wq_actuals q)))"

definition future_streams :: "js_host \<Rightarrow> planning_calendar \<Rightarrow> wip_request \<Rightarrow> wip_stream list" where
  "future_streams host cal q =
     (let revision = cycle_revision_effective_date host cal (wq_previous_cycle q) in
      concat (map (future_stream_of host cal revision (recorded_streams host q))
        (filter stream_usable (map (planned_stream_of host revision) (wq_streams q)))))"

definition first_start :: "wip_stream list \<Rightarrow> string" where
  "first_start streams = (case sort_by text_order (map ws_start streams) of [] \<Rightarrow> [] | d # _ \<Rightarrow> d)"

definition planned_wip_buffer_ready_date :: "js_host \<Rightarrow> planning_calendar \<Rightarrow> wip_request \<Rightarrow> string option" where
  "planned_wip_buffer_ready_date host cal q =
     (let recorded = recorded_streams host q; future = future_streams host cal q; supply = recorded @ future;
          future_keys = map (\<lambda>s. canonical_text (ws_machine s)) future;
          previous_daily = num_add (sum_numbers (map ws_daily future))
            (sum_numbers (map (\<lambda>_. cycle_daily_qty cal (wq_previous_cycle q))
              (filter (\<lambda>s. canonical_text (ws_machine s) \<notin> set future_keys) recorded)));
          next_daily = num_mul (cycle_daily_qty cal (wq_next_cycle q)) (num_max (Fin 1) (wq_next_machines q));
          supply_pcs = num_add (wq_order_pcs q) (wq_carried q);
          order_pcs = num_max (num_sub supply_pcs (wq_consumed q)) (Fin 0);
          net = (\<lambda>supplied. num_min order_pcs (num_max (Fin 0) (num_sub (num_add supplied (wq_carried q)) (wq_consumed q))));
          actual_qty = net (sum_numbers (map ws_quantity recorded));
          unlock_qty = num_min order_pcs (num_mul next_daily (num_int minimum_parallel_machine_work_days));
          can_start = (recorded = [] \<or> num_le unlock_qty actual_qty);
          required = num_min order_pcs (num_mul next_daily (if num_lt previous_daily next_daily then Fin 3 else Fin 2));
          first = first_start (if can_start then supply else future) in
      if supply = [] \<or> \<not> truthy (wq_order_pcs q) \<or> wq_next_cycle q = None then Some []
      else if \<not> truthy previous_daily \<or> \<not> truthy next_daily then Some []
      else if \<not> truthy order_pcs then Some []
      else if first = [] then Some []
      else
        let date = (if truthy (wq_carried q) \<or> truthy (wq_consumed q)
              then max_date_value host [first, current_planning_production_date host cal] else first);
            last_date = or_text (add_days host cal (max_date_value host (map ws_end supply)) 1)
              (add_number_of_days host cal date (num_max (Fin 365)
                (num_add (num_add (num_ceil (num_div order_pcs previous_daily)) (num_int (int (length supply)))) (Fin 30))));
            available = (\<lambda>d. net (pooled_wip_supply_through_date host cal supply supply_pcs d))
        in map_option (\<lambda>found. if found = [] then []
             else downstream_wip_feasible_start_date host cal supply available order_pcs next_daily found)
             (seek_buffer_date host cal (\<lambda>d. num_le required (available d)) last_date date))"

record wip_readiness =
  wr_ready :: bool
  wr_available :: jsnum
  wr_required :: jsnum
  wr_buffer_days :: jsnum
  wr_machine_count :: jsnum

definition actual_wip_buffer_readiness :: "js_host \<Rightarrow> planning_calendar \<Rightarrow> wip_request \<Rightarrow> wip_readiness" where
  "actual_wip_buffer_readiness host cal q =
     (let previous_daily = cycle_daily_qty cal (wq_previous_cycle q);
          machines = num_max (Fin 1) (wq_next_machines q);
          next_daily = num_mul (cycle_daily_qty cal (wq_next_cycle q)) machines;
          actual_daily = sum_numbers (map (\<lambda>a. num_div (num_max (pa_actual a) (Fin 0)) (date_count a)) (wq_actuals q));
          effective = (if cycle_revision_effective_date host cal (wq_previous_cycle q) \<noteq> [] then previous_daily
            else if truthy actual_daily then actual_daily else previous_daily);
          days = (if num_lt effective next_daily then Fin 3 else Fin 2);
          required = num_min (wq_order_pcs q) (num_mul next_daily days);
          produced = num_min (wq_order_pcs q) (num_max (Fin 0)
            (num_sub (sum_numbers (map (\<lambda>a. num_max (pa_actual a) (Fin 0)) (wq_actuals q))) (wq_consumed q)))
      in \<lparr>wr_ready = truthy (wq_order_pcs q) \<and> truthy previous_daily \<and> truthy next_daily \<and> num_le required produced,
          wr_available = produced, wr_required = required, wr_buffer_days = days, wr_machine_count = machines\<rparr>)"

definition actual_wip_buffer_available :: "js_host \<Rightarrow> planning_calendar \<Rightarrow> wip_request \<Rightarrow> bool" where
  "actual_wip_buffer_available host cal q = wr_ready (actual_wip_buffer_readiness host cal q)"

subsection \<open>The index of a stream\<close>

lemma min_date_value_iso [simp]:
  "plain_day a \<Longrightarrow> plain_day b \<Longrightarrow> min_date_value host [iso_day a, iso_day b] = iso_day (min a b)"
  by (auto simp: min_date_value_def Let_def min_def iso_day_less_iff)

fun stream_days :: "js_host \<Rightarrow> planning_calendar \<Rightarrow> wip_stream \<Rightarrow> int \<Rightarrow> nat \<Rightarrow> jsnum" where
  "stream_days host cal s a 0 = Fin 0"
| "stream_days host cal s a (Suc k) = stream_day host cal s (iso_day (a + int k)) (stream_days host cal s a k)"

declare stream_days.simps(2) [simp del]

lemmas fold_day = stream_days.simps(2) [symmetric]

definition index_at :: "js_host \<Rightarrow> planning_calendar \<Rightarrow> wip_stream \<Rightarrow> int \<Rightarrow> nat \<Rightarrow> stream_index" where
  "index_at host cal s a k = \<lparr>ix_counts = map (\<lambda>i. (iso_day (a + int i), stream_days host cal s a (Suc i))) [0..<k],
     ix_current = iso_day (a + int k), ix_counted_through = (if k = 0 then [] else iso_day (a + int k - 1)),
     ix_days = stream_days host cal s a k, ix_guard = k\<rparr>"

definition dated_stream :: "wip_stream \<Rightarrow> int \<Rightarrow> int \<Rightarrow> bool" where
  "dated_stream s a b \<longleftrightarrow> ws_start s = iso_day a \<and> ws_end s = iso_day b \<and> plain_day a \<and> plain_day b \<and> plain_day (a + 1000)"

lemma stream_plain: "dated_stream s a b \<Longrightarrow> k \<le> 1000 \<Longrightarrow> plain_day (a + int k)"
  by (auto simp: dated_stream_def plain_day_def)

lemma count_stream_days_eq:
  assumes "dated_stream s a b" "plain_day t" "k + fuel \<le> 1000" "a + int k \<le> t + 1"
  shows "count_stream_days host cal s (iso_day t) fuel (iso_day (a + int k)) (stream_days host cal s a k)
    = stream_days host cal s a (k + min fuel (nat (t - (a + int k) + 1)))"
  using assms(3,4)
proof (induction fuel arbitrary: k)
  case (Suc fuel)
  have p: "plain_day (a + int k)" using stream_plain [OF assms(1)] Suc.prems(1) by simp
  show ?case
  proof (cases "a + int k \<le> t")
    case True
    have "count_stream_days host cal s (iso_day t) fuel (iso_day (a + int (Suc k))) (stream_days host cal s a (Suc k))
        = stream_days host cal s a (Suc k + min fuel (nat (t - (a + int (Suc k)) + 1)))"
      using Suc.prems True by (intro Suc.IH) auto
    moreover have "k + min (Suc fuel) (nat (t - (a + int k) + 1)) = Suc k + min fuel (nat (t - (a + int (Suc k)) + 1))"
      using True by (auto simp: min_def nat_eq_iff)
    moreover have "count_stream_days host cal s (iso_day t) (Suc fuel) (iso_day (a + int k)) (stream_days host cal s a k)
        = count_stream_days host cal s (iso_day t) fuel (iso_day (a + int (Suc k))) (stream_days host cal s a (Suc k))"
      using True p assms(2) by (simp add: iso_day_le_iff add.assoc add.commute [of 1] fold_day)
    ultimately show ?thesis by (simp only:)
  next
    case False
    then show ?thesis using p assms(2) Suc.prems by (simp add: iso_day_le_iff)
  qed
qed simp

lemma advance_index_at:
  assumes "dated_stream s a b" "k < 1000"
  shows "advance_index host cal s (index_at host cal s a k) = index_at host cal s a (Suc k)"
proof -
  have "iso_day (a + int k) \<notin> set (map fst (map (\<lambda>i. (iso_day (a + int i), stream_days host cal s a (Suc i))) [0..<k]))"
    using stream_plain [OF assms(1)] assms(2) by (auto simp: iso_day_inj)
  note fresh = put_fresh [OF this]
  have p: "plain_day (a + int k)" using stream_plain [OF assms(1)] assms(2) by simp
  have "add_calendar_days (iso_day (a + int k)) 1 = iso_day (a + int (Suc k))"
    using p by (simp add: add.assoc add.commute [of 1])
  then show ?thesis
    using fresh by (simp add: advance_index_def Let_def index_at_def fold_day)
qed

lemma walk_index_at:
  assumes "dated_stream s a b" "plain_day t" "k + fuel \<le> 1000" "a + int k \<le> t + 1"
  shows "walk_index host cal s (iso_day t) fuel (index_at host cal s a k)
    = index_at host cal s a (k + min fuel (nat (t - (a + int k) + 1)))"
  using assms(3,4)
proof (induction fuel arbitrary: k)
  case (Suc fuel)
  have p: "plain_day (a + int k)" using stream_plain [OF assms(1)] Suc.prems(1) by simp
  then have cur: "ix_current (index_at host cal s a k) \<noteq> [] \<and> ix_current (index_at host cal s a k) \<le> iso_day t \<longleftrightarrow> a + int k \<le> t"
    using assms(2) by (simp add: index_at_def iso_day_le_iff)
  show ?case
  proof (cases "a + int k \<le> t")
    case True
    have "walk_index host cal s (iso_day t) fuel (index_at host cal s a (Suc k))
        = index_at host cal s a (Suc k + min fuel (nat (t - (a + int (Suc k)) + 1)))"
      using Suc.prems True by (intro Suc.IH) auto
    moreover have "k + min (Suc fuel) (nat (t - (a + int k) + 1)) = Suc k + min fuel (nat (t - (a + int (Suc k)) + 1))"
      using True by (auto simp: min_def nat_eq_iff)
    ultimately show ?thesis using True cur advance_index_at [OF assms(1)] Suc.prems(1) by simp
  next
    case False
    then show ?thesis using cur Suc.prems by auto
  qed
qed simp

lemma index_lookup:
  assumes "dated_stream s a b" "k \<le> 1000" "plain_day t" "a \<le> t"
  shows "map_of (ix_counts (index_at host cal s a k)) (iso_day t)
    = (if t < a + int k then Some (stream_days host cal s a (Suc (nat (t - a)))) else None)"
  using assms(2)
proof (induction k)
  case (Suc k)
  have "plain_day (a + int k)" using stream_plain [OF assms(1)] Suc.prems by simp
  then have "iso_day t = iso_day (a + int k) \<longleftrightarrow> t = a + int k" using assms(3) by (simp add: iso_day_inj)
  moreover have "map_of (ix_counts (index_at host cal s a (Suc k))) (iso_day t) =
      (case map_of (ix_counts (index_at host cal s a k)) (iso_day t) of
        Some n \<Rightarrow> Some n | None \<Rightarrow> if iso_day t = iso_day (a + int k) then Some (stream_days host cal s a (Suc k)) else None)"
    by (simp add: index_at_def map_add_def split: option.splits)
  ultimately show ?case using Suc assms(4) by auto
qed (use assms(4) in \<open>simp add: index_at_def\<close>)

lemma indexed_supply_step:
  assumes s: "dated_stream s a b" and k: "k \<le> 1000" and t: "plain_day t"
  shows "\<exists>k' \<le> 1000. indexed_supply host cal s (index_at host cal s a k) (iso_day t)
    = (index_at host cal s a k', stream_supply host cal s (iso_day t))"
proof -
  let ?m = "min b t"
  have d: "date_or_text host (ws_start s) = iso_day a" "stream_through host s (iso_day t) = iso_day ?m"
    "plain_day a" "plain_day ?m"
    using s t by (auto simp: dated_stream_def stream_through_def min_def)
  have less: "iso_day ?m < iso_day a \<longleftrightarrow> ?m < a" using d by (simp add: iso_day_less_iff)
  show ?thesis
  proof (cases "?m < a")
    case True
    then show ?thesis using d less k by (auto simp: indexed_supply_def stream_supply_def Let_def)
  next
    case False
    let ?j = "Suc (nat (?m - a))"
    have count: "count_stream_days host cal s (iso_day ?m) 1000 (iso_day a) (Fin 0) = stream_days host cal s a (min 1000 ?j)"
    proof -
      have "nat (?m - (a + int 0) + 1) = ?j" using False by simp
      then show ?thesis using count_stream_days_eq [OF s d(4), of 0 1000 host cal] False by simp
    qed
    have direct: "stream_supply host cal s (iso_day t) = supplied_in cal s (stream_days host cal s a (min 1000 ?j))"
      using d less False count by (simp add: stream_supply_def Let_def)
    have "a \<le> ?m" using False by (simp only: not_less)
    note look = index_lookup [OF s k d(4) this, of host cal]
    show ?thesis
    proof (cases "?m < a + int k")
      case True
      then have "min 1000 ?j = ?j" using k False by linarith
      then have "indexed_supply host cal s (index_at host cal s a k) (iso_day t)
          = (index_at host cal s a k, stream_supply host cal s (iso_day t))"
        using d less False look True direct by (auto simp: indexed_supply_def Let_def)
      then show ?thesis using k by blast
    next
      case beyond: False
      have "\<not> iso_day ?m < ix_counted_through (index_at host cal s a k)"
      proof (cases k)
        case (Suc k')
        then have "plain_day (a + int k')" using stream_plain [OF s, of k'] k by simp
        then show ?thesis using Suc beyond d by (simp add: index_at_def iso_day_less_iff)
      qed (simp add: index_at_def)
      moreover have walk: "walk_index host cal s (iso_day ?m) (1000 - k) (index_at host cal s a k) = index_at host cal s a (min 1000 ?j)"
      proof -
        have "k + min (1000 - k) (nat (?m - (a + int k) + 1)) = min 1000 ?j" using beyond k by linarith
        then show ?thesis using walk_index_at [OF s d(4), of k "1000 - k" host cal] beyond k by simp
      qed
      moreover have "ix_guard (index_at host cal s a k) = k" by (simp add: index_at_def)
      moreover have "ix_days (index_at host cal s a (min 1000 ?j)) = stream_days host cal s a (min 1000 ?j)"
        by (simp add: index_at_def)
      ultimately have "indexed_supply host cal s (index_at host cal s a k) (iso_day t)
          = (index_at host cal s a (min 1000 ?j), stream_supply host cal s (iso_day t))"
        using d less False look beyond direct by (simp add: indexed_supply_def Let_def)
      then show ?thesis by (intro exI [of _ "min 1000 ?j"]) simp
    qed
  qed
qed

text \<open>The answers to a sequence of queries, the index kept from one to the next.\<close>

fun indexed_supplies :: "js_host \<Rightarrow> planning_calendar \<Rightarrow> wip_stream \<Rightarrow> stream_index \<Rightarrow> string list \<Rightarrow> jsnum list" where
  "indexed_supplies host cal s ix [] = []"
| "indexed_supplies host cal s ix (d # ds) =
     (let (ix', q) = indexed_supply host cal s ix d in q # indexed_supplies host cal s ix' ds)"

text \<open>C8: The index a stream keeps between queries changes no answer: whatever dates are asked in whatever order, each
  answer is the supply counted from the start of the stream.\<close>

theorem indexed_supplies_equal:
  assumes s: "dated_stream s a b" and t: "list_all plain_day ts"
  shows "indexed_supplies host cal s (new_stream_index host s) (map iso_day ts)
    = map (\<lambda>t. stream_supply host cal s (iso_day t)) ts"
proof -
  have start: "new_stream_index host s = index_at host cal s a 0"
    using s by (simp add: new_stream_index_def index_at_def dated_stream_def)
  have "indexed_supplies host cal s (index_at host cal s a k) (map iso_day ts)
      = map (\<lambda>t. stream_supply host cal s (iso_day t)) ts" if "k \<le> 1000" "list_all plain_day ts" for k
    using that
  proof (induction ts arbitrary: k)
    case (Cons t ts)
    then obtain k' where "k' \<le> 1000" "indexed_supply host cal s (index_at host cal s a k) (iso_day t)
        = (index_at host cal s a k', stream_supply host cal s (iso_day t))"
      using indexed_supply_step [OF s Cons.prems(1), of t host cal] by auto
    then show ?case using Cons by simp
  qed simp
  from this [of 0] show ?thesis using t start by simp
qed

theorem indexed_supplies_equal_witness:
  "indexed_supplies utc_host default_planning_calendar
     \<lparr>ws_machine = ''m1'', ws_start = iso_day 20454, ws_end = iso_day 20460, ws_quantity = Fin 900, ws_daily = Fin 200,
      ws_recorded = False, ws_start_hours = Fin 0\<rparr>
     (new_stream_index utc_host \<lparr>ws_machine = ''m1'', ws_start = iso_day 20454, ws_end = iso_day 20460, ws_quantity = Fin 900,
        ws_daily = Fin 200, ws_recorded = False, ws_start_hours = Fin 0\<rparr>) (map iso_day [20458, 20455, 20470])
   = map (\<lambda>t. stream_supply utc_host default_planning_calendar
       \<lparr>ws_machine = ''m1'', ws_start = iso_day 20454, ws_end = iso_day 20460, ws_quantity = Fin 900, ws_daily = Fin 200,
        ws_recorded = False, ws_start_hours = Fin 0\<rparr> (iso_day t)) [20458, 20455, 20470]"
  by (rule indexed_supplies_equal [where a = 20454 and b = 20460]) (simp_all add: dated_stream_def plain_day_def)

subsection \<open>Assigned machines\<close>

lemma combined_machines:
  fixes combine :: "(string \<times> string) list \<Rightarrow> string \<Rightarrow> (string \<times> string) list"
  assumes combine: "combine = (\<lambda>combined machine. let key = canonical_text machine in
     if key \<noteq> [] \<and> map_of combined key = None then put key machine combined else combined)"
    and m: "distinct (map fst m)" "list_all (\<lambda>(k, v). k = canonical_text v \<and> k \<noteq> []) m"
  shows "distinct (map fst (foldl combine m ms)) \<and> list_all (\<lambda>(k, v). k = canonical_text v \<and> k \<noteq> []) (foldl combine m ms)
    \<and> set (map fst (foldl combine m ms)) = set (map fst m) \<union> (set (map canonical_text ms) - {[]})"
  using m
proof (induction ms arbitrary: m)
  case (Cons x ms)
  have "distinct (map fst (combine m x)) \<and> list_all (\<lambda>(k, v). k = canonical_text v \<and> k \<noteq> []) (combine m x)
      \<and> set (map fst (combine m x)) = set (map fst m) \<union> (set [canonical_text x] - {[]})"
    using Cons.prems by (auto simp: combine Let_def distinct_put set_put keys_put list_all_iff map_of_eq_None_iff dest: map_of_SomeD)
  with Cons.IH [of "combine m x"] show ?case by (simp only: foldl_Cons) auto
qed simp

lemma combine_machines_keys:
  "distinct (map canonical_text (combine_machines ms)) \<and> set (map canonical_text (combine_machines ms)) = set (map canonical_text ms) - {[]}"
proof -
  define m where "m = foldl (\<lambda>combined machine. let key = canonical_text machine in
     if key \<noteq> [] \<and> map_of combined key = None then put key machine combined else combined) [] ms"
  have c: "distinct (map fst m)" "list_all (\<lambda>(k, v). k = canonical_text v \<and> k \<noteq> []) m"
    "set (map fst m) = set (map canonical_text ms) - {[]}"
    using combined_machines [OF refl, of "[]" ms] by (simp_all add: m_def)
  have keys: "map canonical_text (map snd m) = map fst m" using c(2) by (auto simp: list_all_iff)
  show ?thesis unfolding combine_machines_def m_def [symmetric] keys using c by blast
qed

text \<open>The machines assigned to a setup are physical machines without repetition, whatever branch decides them, and
  machines that have recorded production stay assigned.\<close>

theorem assigned_machines_distinct:
  "distinct (map canonical_text (assigned_physical_machines host cal ctx inp))
   \<and> [] \<notin> set (map canonical_text (assigned_physical_machines host cal ctx inp))
   \<and> set (map canonical_text (ai_actual_machines inp)) - {[]}
     \<subseteq> set (map canonical_text (assigned_physical_machines host cal ctx inp))"
proof (cases "assigned_choice host cal ctx inp")
  case None
  have "sorted_names host (ai_actual_machines inp) = []"
    using None by (auto simp: assigned_choice_def Let_def split: if_splits)
  then have "filter (\<lambda>m. m \<noteq> []) (ai_actual_machines inp) = []"
    unfolding sorted_names_def by (metis length_sort_by length_0_conv)
  then have "\<forall>m \<in> set (ai_actual_machines inp). m = []" by (simp add: filter_empty_conv)
  then show ?thesis using None by (auto simp: assigned_physical_machines_def canonical_text_def to_lower_def)
next
  case (Some ms)
  have "set (map canonical_text (ai_actual_machines inp)) - {[]} \<subseteq> canonical_text ` set ms"
  proof (cases "sorted_names host (ai_actual_machines inp) = []")
    case True
    then have "filter (\<lambda>m. m \<noteq> []) (ai_actual_machines inp) = []"
      unfolding sorted_names_def by (metis length_sort_by length_0_conv)
    then have "\<forall>m \<in> set (ai_actual_machines inp). m = []" by (simp add: filter_empty_conv)
    then show ?thesis by (auto simp: canonical_text_def to_lower_def)
  next
    case False
    then have "ms = sorted_names host (ai_actual_machines inp)" using Some by (simp add: assigned_choice_def Let_def)
    then show ?thesis by (auto simp: sorted_names_def canonical_text_def to_lower_def)
  qed
  then show ?thesis
    using Some combine_machines_keys [of "ms @ additional_machines (assignment_candidates host ctx inp) (ai_additional inp)"]
    by (auto simp: assigned_physical_machines_def)
qed

lemma seek_buffer_date_total:
  assumes "plain_day l" "plain_day (l + 5000)" "plain_day d"
  shows "\<exists>r. seek_buffer_date host cal enough (iso_day l) (iso_day d) = Some r"
  using assms(3)
proof (induction "nat (l + 1 - d)" arbitrary: d rule: less_induct)
  case less
  show ?case
  proof (cases "l < d")
    case True
    then show ?thesis using assms(1) less.prems by (subst seek_buffer_date.simps) (simp add: iso_day_less_iff)
  next
    case False
    have p: "plain_day (d + 5000)" using False less.prems assms(2) by (auto simp: plain_day_def)
    have eq: "seek_buffer_date host cal enough (iso_day l) (iso_day d) =
        (if enough (iso_day d) then Some (iso_day d) else seek_buffer_date host cal enough (iso_day l) (add_days host cal (iso_day d) 1))"
      using False assms(1) less.prems by (subst seek_buffer_date.simps) (simp add: iso_day_less_iff)
    from add_days_forward [OF less.prems p, of 1 host cal]
    consider e where "d < e" "e \<le> d + 5000" "add_days host cal (iso_day d) 1 = iso_day e" | "add_days host cal (iso_day d) 1 = []"
      by auto
    then show ?thesis
    proof cases
      case 1
      then have "plain_day e" using less.prems p by (auto simp: plain_day_def)
      moreover have "nat (l + 1 - e) < nat (l + 1 - d)" using 1(1) False by simp
      ultimately show ?thesis using less.hyps [of e] eq 1(3) by simp
    next
      case 2
      then have "seek_buffer_date host cal enough (iso_day l) [] = Some []" by (subst seek_buffer_date.simps) simp
      with 2 eq show ?thesis by auto
    qed
  qed
qed

text \<open>C25: The search for the first date with enough stock, which the code runs without a guard, ends: between calendar days it
  returns after at most one turn for every day.\<close>

theorem buffer_search_terminates:
  assumes "plain_day l" "plain_day (l + 5000)" "plain_day d"
  shows "\<exists>r. seek_buffer_date host cal enough (iso_day l) (iso_day d) = Some r"
  using assms by (rule seek_buffer_date_total)

theorem buffer_search_terminates_witness:
  "\<exists>r. seek_buffer_date utc_host default_planning_calendar (\<lambda>d. d = iso_day 20460) (iso_day 20470) (iso_day 20454) = Some r"
  by (rule buffer_search_terminates) (simp_all add: plain_day_def)

lemma find_candidate_mem: "find_candidate cs m = Some c \<Longrightarrow> c \<in> set cs \<and> canonical_text (ph_machine c) = canonical_text m"
  by (auto simp: find_candidate_def find_Some_iff)

text \<open>Keeping an earlier assignment only reorders the candidates: the result has the same machines.\<close>

theorem stable_candidates_permute:
  assumes "distinct (map (\<lambda>c. canonical_text (ph_machine c)) candidates)" "distinct (map canonical_text previous_list)"
  shows "mset (stable_machine_assignment_candidates host cal ctx band candidates previous_list) = mset candidates"
proof -
  let ?key = "\<lambda>c. canonical_text (ph_machine c)"
  define found where "found = concat (map (\<lambda>m. case find_candidate candidates m of None \<Rightarrow> [] | Some c \<Rightarrow> [c]) previous_list)"
  have sub: "set found \<subseteq> set candidates" by (auto simp: found_def dest: find_candidate_mem [OF sym] split: option.splits)
  have "map ?key found = map canonical_text (filter (\<lambda>m. find_candidate candidates m \<noteq> None) previous_list)"
    unfolding found_def by (induction previous_list) (auto dest: find_candidate_mem)
  then have keys: "distinct (map ?key found)" using assms(2) by (simp add: distinct_map_filter)
  have inj: "inj_on ?key (set candidates)" using assms(1) by (simp add: distinct_map)
  have "mset (found @ filter (\<lambda>c. ?key c \<notin> set (map ?key found)) candidates) = mset candidates"
  proof -
    have "distinct candidates" "distinct found" using assms(1) keys by (auto simp: distinct_map)
    moreover have "set (filter (\<lambda>c. ?key c \<notin> set (map ?key found)) candidates) = set candidates - set found"
      using sub inj by (auto simp: inj_on_def)
    ultimately show ?thesis using sub by (intro iffD1 [OF set_eq_iff_mset_eq_distinct]) auto
  qed
  then show ?thesis
    by (auto simp: stable_machine_assignment_candidates_def found_def [symmetric] Let_def split: list.splits)
qed

theorem stable_candidates_permute_witness:
  "mset (stable_machine_assignment_candidates utc_host default_planning_calendar
     \<lparr>ac_load = [], ac_next_setup = [], ac_planned_days = [], ac_planned_qty = [], ac_windows = [], ac_order_pcs = Fin 100,
      ac_cycle = None, ac_ready = ''2026-01-02''\<rparr> (Fin 1)
     (map (\<lambda>m. \<lparr>ph_machine = m, ph_type = [], ph_family = [], ph_status = []\<rparr>) [''m1'', ''m2'', ''m3'']) [''M2'', ''M9''])
   = mset (map (\<lambda>m. \<lparr>ph_machine = m, ph_type = [], ph_family = [], ph_status = []\<rparr>) [''m1'', ''m2'', ''m3''])"
  by (rule stable_candidates_permute; code_simp)

subsection \<open>The number of machines\<close>

lemma num_max_bounds: "b \<noteq> NaN \<Longrightarrow> num_max (Fin 1) b \<noteq> NaN \<and> num_le (Fin 1) (num_max (Fin 1) b)"
  by (cases b) (auto simp: num_max_def)

lemma num_min_bounds:
  "num_le c a \<Longrightarrow> num_le c b \<Longrightarrow> num_le c (num_min a b) \<and> num_le (num_min a b) a"
  by (cases a; cases b; cases c) (auto simp: num_min_def)

lemma nonneg_not_NaN: "nonneg a \<Longrightarrow> a \<noteq> NaN"
  by auto

lemma nonneg_ceil: "nonneg a \<Longrightarrow> nonneg (num_ceil a)"
proof (cases a)
  case (Fin x)
  moreover assume "nonneg a"
  ultimately have "(0 :: int) \<le> \<lceil>x\<rceil>" by (simp add: le_ceiling_iff)
  then show ?thesis using Fin by simp
qed simp_all

lemma nonneg_floor: "nonneg a \<Longrightarrow> nonneg (num_floor a)"
  by (cases a) auto

lemma ge_one_nonneg: "num_le (Fin 1) a \<Longrightarrow> nonneg a"
  unfolding nonneg_def by (rule num_le_trans [of _ "Fin 1"]) auto

lemma production_days_ge_one:
  assumes "pc_hours cal = Fin h" "0 < h" "ac_order_pcs ctx = Fin n" "0 < n" "cycle_seconds (ac_cycle ctx) = Fin c" "0 < c"
  shows "num_le (Fin 1) (production_days_needed cal ctx)"
proof -
  have "nonneg (num_mul (Fin n) (Fin c))" using assms by (intro nonneg_mul_fin) simp_all
  then have "nonneg (num_ceil (num_div (num_div (num_mul (Fin n) (Fin c)) (Fin 3600)) (Fin h)))"
    using assms(2) by (intro nonneg_ceil nonneg_div) simp_all
  then show ?thesis
    using num_max_bounds [OF nonneg_not_NaN] assms by (simp add: production_days_needed_def)
qed

lemma required_machine_count_within:
  assumes "pc_hours cal = Fin h" "0 < h" "ac_order_pcs ctx = Fin n" "0 < n" "cycle_seconds (ac_cycle ctx) = Fin c" "0 < c"
  shows "num_le (Fin 1) (required_machine_count_for_target host cal ctx candidates deadline)
    \<and> num_le (required_machine_count_for_target host cal ctx candidates deadline) (num_int (max 1 (int (length candidates))))"
proof (cases "int (length candidates) \<le> 1")
  case True
  then have "required_machine_count_for_target host cal ctx candidates deadline = Fin 1"
    by (simp add: required_machine_count_for_target_def)
  then show ?thesis by simp
next
  case False
  define days where "days = production_days_needed cal ctx"
  define limit where "limit = num_min (num_int (int (length candidates)))
    (num_max (Fin 1) (num_floor (num_div days (num_int minimum_parallel_machine_work_days))))"
  define dc where "dc = num_min limit (num_max (Fin 1) (num_ceil (num_div days
    (num_int (max 1 (planning_dispatch_target_days - planning_setup_buffer_days))))))"
  have d: "nonneg days" using production_days_ge_one [OF assms] by (simp add: days_def ge_one_nonneg)
  have "num_le (Fin 1) (num_max (Fin 1) (num_floor (num_div days (num_int minimum_parallel_machine_work_days))))"
    using num_max_bounds [OF nonneg_not_NaN [OF nonneg_floor [OF nonneg_div [OF d]]]]
    by (simp add: minimum_parallel_machine_work_days_def)
  then have l: "num_le (Fin 1) limit" "num_le limit (num_int (int (length candidates)))"
    using num_min_bounds [of "Fin 1" "num_int (int (length candidates))"] False by (auto simp: limit_def)
  have "num_le (Fin 1) (num_max (Fin 1) (num_ceil (num_div days (num_int (max 1 (planning_dispatch_target_days - planning_setup_buffer_days))))))"
    using num_max_bounds [OF nonneg_not_NaN [OF nonneg_ceil [OF nonneg_div [OF d]]]]
    by (simp add: planning_dispatch_target_days_def planning_setup_buffer_days_def)
  then have c: "num_le (Fin 1) dc" "num_le dc limit" using num_min_bounds [OF l(1)] by (auto simp: dc_def)
  have dcn: "num_le dc (num_int (int (length candidates)))" using num_le_trans [OF c(2) l(2)] .
  define result where "result = required_machine_count_for_target host cal ctx candidates deadline"
  have "result = dc \<or> (\<exists>k \<in> set (int_range dc limit). result = num_int k)"
    unfolding result_def required_machine_count_for_target_def Let_def days_def [symmetric] limit_def [symmetric] dc_def [symmetric]
    using assms False by (auto simp: truthy_def find_Some_iff split: option.splits)
  moreover have "num_le (Fin 1) (num_int k) \<and> num_le (num_int k) (num_int (int (length candidates)))" if "k \<in> set (int_range dc limit)" for k
  proof -
    obtain x y where xy: "dc = Fin x" "limit = Fin y" "\<lfloor>x\<rfloor> \<le> k" "k \<le> \<lfloor>y\<rfloor>"
      using \<open>k \<in> set (int_range dc limit)\<close> by (auto simp: int_range_def split: jsnum.splits)
    have "1 \<le> \<lfloor>x\<rfloor>" using c(1) xy(1) by (simp add: le_floor_iff)
    moreover have "\<lfloor>y\<rfloor> \<le> int (length candidates)" using l(2) xy(2) by (simp add: floor_le_iff)
    ultimately have "1 \<le> k" "k \<le> int (length candidates)" using xy(3,4) by linarith+
    then show ?thesis by simp
  qed
  ultimately have "num_le (Fin 1) result \<and> num_le result (num_int (int (length candidates)))" using c(1) dcn by auto
  then show ?thesis using False by (simp add: result_def max_def)
qed

text \<open>The number of machines the dispatch target asks for lies between one and the number of candidates.\<close>

theorem required_machine_count_bounds:
  assumes "pc_hours cal = Fin h" "0 < h" "ac_order_pcs ctx = Fin n" "0 < n" "cycle_seconds (ac_cycle ctx) = Fin c" "0 < c"
  shows "num_le (Fin 1) (required_machine_count_for_target host cal ctx candidates deadline)
    \<and> num_le (required_machine_count_for_target host cal ctx candidates deadline) (num_int (max 1 (int (length candidates))))"
  using assms by (rule required_machine_count_within)

theorem required_machine_count_bounds_witness:
  "num_le (Fin 1) (required_machine_count_for_target utc_host default_planning_calendar
      \<lparr>ac_load = [], ac_next_setup = [], ac_planned_days = [], ac_planned_qty = [], ac_windows = [], ac_order_pcs = Fin 90000,
       ac_cycle = Some [(''cycleTime'', Num (Fin 60))], ac_ready = ''2026-01-02''\<rparr>
      (map (\<lambda>m. \<lparr>ph_machine = m, ph_type = [], ph_family = [], ph_status = []\<rparr>) [''m1'', ''m2'', ''m3'']) ''2026-03-01'')
   \<and> num_le (required_machine_count_for_target utc_host default_planning_calendar
      \<lparr>ac_load = [], ac_next_setup = [], ac_planned_days = [], ac_planned_qty = [], ac_windows = [], ac_order_pcs = Fin 90000,
       ac_cycle = Some [(''cycleTime'', Num (Fin 60))], ac_ready = ''2026-01-02''\<rparr>
      (map (\<lambda>m. \<lparr>ph_machine = m, ph_type = [], ph_family = [], ph_status = []\<rparr>) [''m1'', ''m2'', ''m3'']) ''2026-03-01'')
     (num_int (max 1 (int (length (map (\<lambda>m. \<lparr>ph_machine = m, ph_type = [], ph_family = [], ph_status = []\<rparr>) [''m1'', ''m2'', ''m3''])))))"
proof -
  have "cycle_seconds (Some [(''cycleTime'', Num (Fin 60))]) = Fin 60" by code_simp
  then show ?thesis
    by (intro required_machine_count_bounds [where h = 8 and n = 90000 and c = 60]) (simp_all add: default_planning_calendar_def)
qed

end
