(* ===== verification/Planning_Queue.thy ===== *)
theory Planning_Queue
  imports Planning_Capacity
begin

section \<open>The queue of a machine\<close>

text \<open>
  \<^verbatim>\<open>packages/db/src/legacy-dashboard-analysis.ts\<close>, the order in which the setups planned on a machine run: the state of a
  setup, priority decisions and what they may interrupt or must stay behind, reviewed queue
  placements, the comparator of the queue, the replay of placements and the choice of the next row
  for a free slot. A row of the plan is the record of its fields, the planning data attached to it and an
  identity (\<open>!==\<close> on the objects of the code).
\<close>

subsection \<open>Rows of the plan\<close>

record plan_row =
  pr_id :: nat
  pr_fields :: jsrow
  pr_meta :: planning_meta

abbreviation field_text :: "plan_row \<Rightarrow> string list \<Rightarrow> string" where
  "field_text row names \<equiv> row_text (pr_fields row) names"

abbreviation field_number :: "plan_row \<Rightarrow> string list \<Rightarrow> jsnum" where
  "field_number row names \<equiv> safe_number (row_value (pr_fields row) names)"

definition set_field :: "string \<Rightarrow> jsval \<Rightarrow> plan_row \<Rightarrow> plan_row" where
  "set_field name v row = row\<lparr>pr_fields := put name v (pr_fields row)\<rparr>"

text \<open>\<open>row.a || row.b\<close>\<close>

definition either_field :: "plan_row \<Rightarrow> string \<Rightarrow> string \<Rightarrow> jsval" where
  "either_field row a b = (if truth (get (pr_fields row) a) then get (pr_fields row) a else get (pr_fields row) b)"

definition date_ms :: "js_host \<Rightarrow> string \<Rightarrow> instant option" where
  "date_ms host s = (if s = [] then None else native_date host s)"

definition row_machine :: "plan_row \<Rightarrow> string" where
  "row_machine row = canonical_text (field_text row [''machine'', ''machineNo''])"

definition running_status :: "plan_row \<Rightarrow> string" where
  "running_status row = to_lower (field_text row [''runningStatus''])"

definition shop_floor_row_is_complete :: "plan_row \<Rightarrow> bool" where
  "shop_floor_row_is_complete row \<longleftrightarrow> running_status row = ''complete''
     \<or> to_lower (field_text row [''shopFloorStage'']) = ''item_complete''"

definition schedule_row_key :: "plan_row \<Rightarrow> string" where
  "schedule_row_key row = join ''|'' [field_text row [''jcNo''], canonical_text (field_text row [''partCode'']),
     field_text row [''optionNumber''], field_text row [''setupNo''], canonical_text (field_text row [''machine''])]"

definition actual_production_start_date :: "js_host \<Rightarrow> planning_meta \<Rightarrow> string" where
  "actual_production_start_date host meta = (case pm_actual meta of None \<Rightarrow> [] | Some a \<Rightarrow> parse_date host (pa_start a))"

definition locked_production_start_date :: "js_host \<Rightarrow> plan_row \<Rightarrow> string" where
  "locked_production_start_date host row =
     (if running_status row = ''complete'' \<or> field_text row [''shopFloorStage''] = ''planned'' then []
      else
        let meta_start = actual_production_start_date host (pr_meta row);
            row_start = parse_date host (field_text row [''actualProductionStartDate'', ''actualStartDate'']) in
        if meta_start \<noteq> [] then meta_start
        else if row_start \<noteq> [] then row_start
        else if running_status row \<noteq> ''running'' then []
        else parse_date host (field_text row
          [''setupCompletionDate'', ''completionDate'', ''setupCompletedOn'', ''plannedProductionStartDate'']))"

datatype queue_state = Running | StartedNotRunning | Idle

definition priority_queue_state :: "js_host \<Rightarrow> plan_row \<Rightarrow> queue_state" where
  "priority_queue_state host row =
     (let stage = to_lower (field_text row [''shopFloorStage'']); running = running_status row in
      if running = ''complete'' then Idle
      else if locked_production_start_date host row \<noteq> [] \<or> running = ''running'' then Running
      else if stage \<noteq> [] \<and> stage \<noteq> ''planned'' \<and> stage \<noteq> ''item_complete'' then StartedNotRunning
      else if running = ''setup complete'' then StartedNotRunning
      else Idle)"

definition priority_queue_state_rank :: "js_host \<Rightarrow> plan_row \<Rightarrow> int" where
  "priority_queue_state_rank host row =
     (case priority_queue_state host row of Running \<Rightarrow> 0 | StartedNotRunning \<Rightarrow> 1 | Idle \<Rightarrow> 2)"

subsection \<open>Interruptions and places named by a row\<close>

record setup_place =
  pl_target_setup :: string
  pl_jc_no :: string
  pl_setup_no :: string
  pl_machine :: string
  pl_finished_qty :: jsnum

definition place_of :: "string list \<Rightarrow> jsrow \<Rightarrow> setup_place" where
  "place_of quantity_columns item = \<lparr>pl_target_setup = canonical_text (row_text item
       [''targetSetupNumber'', ''targetSetupNo'', ''TARGET SETUP NO'', ''targetSetup'', ''prioritySetupNo'']),
     pl_jc_no = canonical_text (row_text item jc_columns), pl_setup_no = canonical_text (row_text item setup_columns),
     pl_machine = canonical_text (row_text item machine_columns),
     pl_finished_qty = safe_number (row_value item quantity_columns)\<rparr>"

definition priority_interrupted_setups :: "plan_row \<Rightarrow> setup_place list" where
  "priority_interrupted_setups row = filter (\<lambda>p. pl_jc_no p \<noteq> [] \<and> pl_setup_no p \<noteq> [])
     (map (place_of [''finishedQuantity'', ''finishedQty'', ''FINISHED QTY''])
       (objects_of (either_field row ''interruptedSetups'' ''priorityInterruptedSetups'')))"

definition plan_override_interrupted_setups :: "plan_row \<Rightarrow> setup_place list" where
  "plan_override_interrupted_setups row = filter (\<lambda>p. pl_jc_no p \<noteq> [] \<and> pl_setup_no p \<noteq> [])
     (map (place_of [''finishedQuantity'', ''finishedQty'', ''FINISHED QTY'', ''producedQty'', ''PRODUCED QTY''])
       (objects_of (either_field row ''planOverrideInterruptedSetups'' ''interruptedSetups'')))"

definition priority_queue_before_setups :: "plan_row \<Rightarrow> setup_place list" where
  "priority_queue_before_setups row =
     filter (\<lambda>p. pl_target_setup p \<noteq> [] \<and> pl_jc_no p \<noteq> [] \<and> pl_setup_no p \<noteq> [])
       (map (place_of []) (objects_of (either_field row ''queueBeforeSetups'' ''priorityQueueBeforeSetups'')))"

definition machine_unavailable_queue_before_setups_for_sort :: "plan_row \<Rightarrow> setup_place list" where
  "machine_unavailable_queue_before_setups_for_sort row =
     filter (\<lambda>p. pl_jc_no p \<noteq> [] \<and> pl_setup_no p \<noteq> [] \<and> pl_machine p \<noteq> [])
       (map (place_of []) (objects_of (get (pr_fields row) ''machineUnavailableQueueBeforeSetups'')))"

text \<open>The place names the row: job card, setup, and the machine when it names one.\<close>

definition place_matches_row :: "setup_place \<Rightarrow> plan_row \<Rightarrow> bool" where
  "place_matches_row p row \<longleftrightarrow> pl_jc_no p = canonical_text (field_text row [''jcNo'', ''JC NO.'', ''JC NO''])
     \<and> planner_setup_key (pl_setup_no p) = planner_setup_key (field_text row [''setupNo'', ''SETUP NO'', ''SETUP''])
     \<and> (pl_machine p = [] \<or> pl_machine p = canonical_text (field_text row [''machine'', ''machineNo'', ''MACHINE NO'', ''M/C NO'']))"

definition machine_unavailable_has_queue_placement :: "plan_row \<Rightarrow> bool" where
  "machine_unavailable_has_queue_placement row \<longleftrightarrow>
     row_value (pr_fields row) [''machineUnavailableQueuePlacementTarget''] = Bool True
     \<or> to_lower (field_text row [''machineUnavailableQueuePlacementTarget'']) = ''true''"

definition machine_unavailable_keeps_row_before :: "plan_row \<Rightarrow> plan_row \<Rightarrow> bool" where
  "machine_unavailable_keeps_row_before target blocking \<longleftrightarrow>
     list_ex (\<lambda>p. place_matches_row p blocking) (machine_unavailable_queue_before_setups_for_sort target)"

definition priority_keeps_row_before :: "plan_row \<Rightarrow> plan_row \<Rightarrow> bool" where
  "priority_keeps_row_before priority blocking \<longleftrightarrow>
     list_ex (\<lambda>p. planner_setup_key (pl_target_setup p) = planner_setup_key (field_text priority [''setupNo'', ''SETUP NO'', ''SETUP''])
       \<and> place_matches_row p blocking) (priority_queue_before_setups priority)"

subsection \<open>Priority\<close>

definition shop_floor_supersedes_stop :: "js_host \<Rightarrow> plan_row \<Rightarrow> jsval \<Rightarrow> bool" where
  "shop_floor_supersedes_stop host row decision_at \<longleftrightarrow>
     (let stage = field_text row [''shopFloorStage''] in
      stage \<noteq> [] \<and> stage \<noteq> ''planned''
      \<and> (case (date_ms host (field_text row [''shopFloorUpdatedAt'']), date_ms host (to_text (or_default decision_at (Str [])))) of
           (Some workflow, Some decision) \<Rightarrow> decision < workflow | _ \<Rightarrow> False))"

text \<open>Negative when \<open>a\<close> has the higher score, or the same one decided later on the same machine.\<close>

definition compare_machine_queue_priority :: "js_host \<Rightarrow> plan_row \<Rightarrow> plan_row \<Rightarrow> int" where
  "compare_machine_queue_priority host a b =
     (let a_score = field_number a [''plannerPriorityScore''];
          diff = number_order (field_number b [''plannerPriorityScore'']) a_score in
      if diff \<noteq> 0 \<or> num_le a_score (Fin 0) then diff
      else if row_machine a = [] \<or> row_machine a \<noteq> row_machine b then 0
      else date_ms_or_zero host (field_text b [''priorityDecisionAt'']) - date_ms_or_zero host (field_text a [''priorityDecisionAt'']))"

datatype approval_mode = IdleQueueOnly | AllowStartedNotRunning | AllowStopRunning

definition priority_approval_mode :: "plan_row \<Rightarrow> approval_mode" where
  "priority_approval_mode row =
     (let v = to_lower (field_text row [''approvalMode'', ''priorityApprovalMode'', ''PRIORITY APPROVAL MODE'']) in
      if v = ''allow_started_not_running'' then AllowStartedNotRunning
      else if v = ''allow_stop_running'' then AllowStopRunning else IdleQueueOnly)"

definition priority_interrupts_row :: "js_host \<Rightarrow> plan_row \<Rightarrow> plan_row \<Rightarrow> bool" where
  "priority_interrupts_row host priority row =
     (if shop_floor_supersedes_stop host row (get (pr_fields priority) ''priorityDecisionAt'') then False
      else if priority_interrupted_setups priority \<noteq> []
      then list_ex (\<lambda>p. place_matches_row p row) (priority_interrupted_setups priority)
      else
        let jc = canonical_text (field_text priority [''priorityInterruptedJcNo'', ''interruptedJcNo'', ''STOPPED JC NO'']);
            setup = planner_setup_key (field_text priority [''priorityInterruptedSetupNo'', ''interruptedSetupNo'', ''STOPPED SETUP NO'']);
            machine = canonical_text (field_text priority [''priorityInterruptedMachine'', ''interruptedMachine'', ''STOPPED MACHINE''])
        in jc \<noteq> [] \<and> jc = canonical_text (field_text row [''jcNo'', ''JC NO.'', ''JC NO''])
           \<and> (setup = [] \<or> setup = planner_setup_key (field_text row [''setupNo'', ''SETUP NO'', ''SETUP'']))
           \<and> (machine = [] \<or> machine = canonical_text (field_text row [''machine'', ''machineNo'', ''MACHINE NO'', ''M/C NO''])))"

definition priority_approval_has_finished_qty :: "plan_row \<Rightarrow> bool" where
  "priority_approval_has_finished_qty priority =
     (if priority_interrupted_setups priority = [] then num_lt (Fin 0) (field_number priority [''priorityInterruptedFinishedQty''])
      else True)"

definition priority_interruption_has_finished_qty :: "plan_row \<Rightarrow> plan_row \<Rightarrow> bool" where
  "priority_interruption_has_finished_qty priority blocking =
     (if priority_interrupted_setups priority = [] then num_lt (Fin 0) (field_number priority [''priorityInterruptedFinishedQty''])
      else list_ex (\<lambda>p. place_matches_row p blocking) (priority_interrupted_setups priority))"

definition can_priority_preempt :: "js_host \<Rightarrow> plan_row \<Rightarrow> plan_row \<Rightarrow> bool" where
  "can_priority_preempt host blocking priority =
     (if 0 \<le> compare_machine_queue_priority host priority blocking then False
      else case priority_queue_state host blocking of
        Idle \<Rightarrow> \<not> priority_keeps_row_before priority blocking
      | StartedNotRunning \<Rightarrow>
          if priority_approval_mode priority = IdleQueueOnly then False
          else if priority_interrupted_setups priority \<noteq> [] then priority_interrupts_row host priority blocking else True
      | Running \<Rightarrow> priority_approval_mode priority = AllowStopRunning
          \<and> priority_interrupts_row host priority blocking \<and> priority_interruption_has_finished_qty priority blocking)"

definition plan_override_places_row_before_stopped_row :: "js_host \<Rightarrow> plan_row \<Rightarrow> plan_row \<Rightarrow> bool" where
  "plan_override_places_row_before_stopped_row host target blocking \<longleftrightarrow>
     \<not> shop_floor_supersedes_stop host blocking (get (pr_fields target) ''planOverrideDecisionAt'')
     \<and> machine_unavailable_has_queue_placement target
     \<and> schedule_row_key target \<noteq> schedule_row_key blocking
     \<and> row_machine target = row_machine blocking
     \<and> \<not> machine_unavailable_keeps_row_before target blocking
     \<and> list_ex (\<lambda>p. place_matches_row p blocking) (plan_override_interrupted_setups target)"

subsection \<open>Ready dates\<close>

definition or_empty :: "string option \<Rightarrow> string" where
  "or_empty v = (case v of None \<Rightarrow> [] | Some s \<Rightarrow> s)"

definition queue_ready_date :: "js_host \<Rightarrow> plan_row \<Rightarrow> string" where
  "queue_ready_date host row = max_date_value host
     [or_text (or_empty (pm_ready_date (pr_meta row))) (parse_date host (field_text row [''setupPlannedDate''])),
      field_text row [''toolingNextAvailableDate'']]"

definition is_queue_ready :: "js_host \<Rightarrow> plan_row \<Rightarrow> string \<Rightarrow> bool" where
  "is_queue_ready host row slot \<longleftrightarrow>
     queue_ready_date host row \<noteq> [] \<and> slot \<noteq> [] \<and> queue_ready_date host row \<le> slot"

definition earliest_queue_ready_date :: "js_host \<Rightarrow> plan_row list \<Rightarrow> string" where
  "earliest_queue_ready_date host queue =
     (case sort_by text_order (filter (\<lambda>d. d \<noteq> []) (map (queue_ready_date host) queue)) of [] \<Rightarrow> [] | d # _ \<Rightarrow> d)"

definition family_idle_gap_sort_date :: "js_host \<Rightarrow> plan_row \<Rightarrow> string" where
  "family_idle_gap_sort_date host row = parse_date host (field_text row [''familyIdleGapTargetStart''])"

definition compare_family_idle_gap_sort_dates :: "js_host \<Rightarrow> plan_row \<Rightarrow> plan_row \<Rightarrow> int" where
  "compare_family_idle_gap_sort_dates host a b =
     (let a_date = family_idle_gap_sort_date host a; b_date = family_idle_gap_sort_date host b in
      if a_date \<noteq> [] \<and> b_date \<noteq> [] then locale_compare host a_date b_date
      else if a_date \<noteq> [] then - 1 else if b_date \<noteq> [] then 1 else 0)"

definition machine_queue_sort_date :: "js_host \<Rightarrow> plan_row \<Rightarrow> string" where
  "machine_queue_sort_date host row =
     or_text (actual_production_start_date host (pr_meta row))
     (or_text (parse_date host (field_text row [''familyIdleGapTargetStart'']))
     (or_text (queue_ready_date host row) (parse_date host (field_text row [''setupPlannedDate'']))))"

definition stale_unstarted_forecast_start_date :: "js_host \<Rightarrow> planning_calendar \<Rightarrow> plan_row \<Rightarrow> string" where
  "stale_unstarted_forecast_start_date host cal row =
     (let today = current_planning_production_date host cal;
          ready = or_text (or_empty (pm_ready_date (pr_meta row)))
            (parse_date host (field_text row [''setupPlannedDate'', ''plannedStartDate'', ''plannedDate''])) in
      if actual_production_start_date host (pr_meta row) \<noteq> [] \<or> running_status row = ''complete''
         \<or> setup_lifecycle_stage_rank ''setting'' \<le> setup_lifecycle_stage_rank (field_text row [''shopFloorStage'']) then []
      else if ready \<noteq> [] \<and> today \<noteq> [] \<and> ready < today then today else [])"

definition unentered_production_forecast_start_date :: "js_host \<Rightarrow> planning_calendar \<Rightarrow> plan_row \<Rightarrow> string" where
  "unentered_production_forecast_start_date host cal row =
     (if actual_production_start_date host (pr_meta row) \<noteq> [] \<or> running_status row = ''complete'' then []
      else if setup_lifecycle_stage_rank ''setting'' \<le> setup_lifecycle_stage_rank (field_text row [''shopFloorStage''])
      then current_planning_production_date host cal
      else stale_unstarted_forecast_start_date host cal row)"

definition live_running_minimum_end_date :: "js_host \<Rightarrow> planning_calendar \<Rightarrow> plan_row \<Rightarrow> string" where
  "live_running_minimum_end_date host cal row =
     (if field_text row [''priorityStoppedByJcNo''] \<noteq> [] \<or> running_status row \<noteq> ''running''
         \<or> to_lower (field_text row [''shopFloorStage'']) = ''item_complete'' then []
      else add_days host cal (current_planning_production_date host cal) 0)"

definition next_machine_available_date :: "js_host \<Rightarrow> string \<Rightarrow> string" where
  "next_machine_available_date host value =
     (let date = parse_date host value in if date \<noteq> [] then add_calendar_days date 1 else [])"

subsection \<open>The order of the queue\<close>

definition bool_order :: "bool \<Rightarrow> bool \<Rightarrow> int" where
  "bool_order x y = (if x then 1 else 0) - (if y then 1 else 0)"

definition protected_history :: "plan_row \<Rightarrow> bool" where
  "protected_history row \<longleftrightarrow> shop_floor_row_is_complete row \<and> pm_continuity_protected (pr_meta row)"

definition allowed_priority_order :: "js_host \<Rightarrow> plan_row \<Rightarrow> plan_row \<Rightarrow> int" where
  "allowed_priority_order host a b =
     (let diff = compare_machine_queue_priority host a b in
      if 0 < diff then (if can_priority_preempt host a b then diff else 0)
      else if diff < 0 then (if can_priority_preempt host b a then diff else 0) else 0)"

definition machine_queue_sort :: "js_host \<Rightarrow> plan_row \<Rightarrow> plan_row \<Rightarrow> int" where
  "machine_queue_sort host a b =
     (let history = bool_order (protected_history b) (protected_history a);
          a_start = locked_production_start_date host a; b_start = locked_production_start_date host b;
          a_held = priority_keeps_row_before b a; b_held = priority_keeps_row_before a b;
          allowed = allowed_priority_order host a b;
          a_placed = plan_override_places_row_before_stopped_row host a b;
          b_placed = plan_override_places_row_before_stopped_row host b a;
          state = priority_queue_state_rank host a - priority_queue_state_rank host b in
      if history \<noteq> 0 then history
      else if a_held \<and> \<not> b_held then - 1
      else if b_held \<and> \<not> a_held then 1
      else if allowed \<noteq> 0 then allowed
      else if a_placed \<and> \<not> b_placed then - 1
      else if b_placed \<and> \<not> a_placed then 1
      else if a_start \<noteq> [] \<or> b_start \<noteq> []
      then (if a_start \<noteq> [] \<and> b_start \<noteq> [] then locale_compare host a_start b_start else if a_start \<noteq> [] then - 1 else 1)
      else if state \<noteq> 0 then state
      else or_else (compare_family_idle_gap_sort_dates host a b)
        (or_else (locale_compare host (machine_queue_sort_date host a) (machine_queue_sort_date host b))
        (or_else (collate_numeric host (field_text a [''jcNo'']) (field_text b [''jcNo'']))
          (numeric_sort host (field_text a [''setupNo'']) (field_text b [''setupNo''])))))"

text \<open>The order a reviewed placement gives two rows, when one of them has one.\<close>

definition placement_at :: "plan_row \<Rightarrow> jsnum" where
  "placement_at row = (if machine_unavailable_has_queue_placement row
     then safe_number (get (pr_fields row) ''machineUnavailableQueuePlacementAt'') else Fin 0)"

definition placed_order :: "plan_row \<Rightarrow> plan_row \<Rightarrow> int option" where
  "placed_order a b =
     (let a_placed = machine_unavailable_has_queue_placement a; b_placed = machine_unavailable_has_queue_placement b in
      if a_placed \<and> (\<not> b_placed \<or> num_lt (placement_at b) (placement_at a))
      then Some (if machine_unavailable_keeps_row_before a b then 1 else - 1)
      else if b_placed \<and> (\<not> a_placed \<or> num_lt (placement_at a) (placement_at b))
      then Some (if machine_unavailable_keeps_row_before b a then - 1 else 1)
      else None)"

definition reviewed_machine_queue_order :: "js_host \<Rightarrow> plan_row \<Rightarrow> plan_row \<Rightarrow> int option" where
  "reviewed_machine_queue_order host a b =
     (let a_at = date_ms_or_zero host (field_text a [''priorityDecisionAt'']);
          b_at = date_ms_or_zero host (field_text b [''priorityDecisionAt'']);
          latest_first = b_at \<le> a_at;
          latest = (if latest_first then a else b); other = (if latest_first then b else a);
          direction = (if latest_first then 1 else - 1 :: int) in
      if \<not> machine_unavailable_has_queue_placement a \<and> \<not> machine_unavailable_has_queue_placement b then None
      else if num_lt (num_max (placement_at a) (placement_at b)) (num_int (max a_at b_at))
      then (if priority_keeps_row_before latest other then Some direction
            else if can_priority_preempt host other latest then Some (- direction)
            else if can_priority_preempt host latest other then Some direction
            else placed_order a b)
      else placed_order a b)"

definition machine_unavailable_places_row_before :: "js_host \<Rightarrow> plan_row \<Rightarrow> plan_row \<Rightarrow> bool" where
  "machine_unavailable_places_row_before host target other \<longleftrightarrow>
     machine_unavailable_has_queue_placement target
     \<and> schedule_row_key target \<noteq> schedule_row_key other
     \<and> row_machine target = row_machine other
     \<and> (case reviewed_machine_queue_order host target other of
          Some order \<Rightarrow> order < 0 | None \<Rightarrow> \<not> machine_unavailable_keeps_row_before target other)"

definition should_hold_machine_queue_position :: "js_host \<Rightarrow> plan_row \<Rightarrow> plan_row \<Rightarrow> bool" where
  "should_hold_machine_queue_position host ahead candidate =
     (if priority_queue_state host ahead \<noteq> Idle then True
      else if priority_queue_state host candidate \<noteq> Idle then False
      else case reviewed_machine_queue_order host ahead candidate of
        Some order \<Rightarrow> order < 0
      | None \<Rightarrow>
          if machine_unavailable_keeps_row_before candidate ahead then True
          else if machine_unavailable_places_row_before host candidate ahead then False
          else if machine_unavailable_places_row_before host ahead candidate then True
          else can_priority_preempt host candidate ahead)"

text \<open>A placement moves its row behind the rows that hold their position and before the others; the placements are
  replayed in the order they were decided in.\<close>

definition replay_placement :: "js_host \<Rightarrow> plan_row list \<Rightarrow> plan_row \<Rightarrow> plan_row list" where
  "replay_placement host ordered target =
     (let remaining = filter (\<lambda>row. pr_id row \<noteq> pr_id target) ordered in
      filter (\<lambda>row. should_hold_machine_queue_position host row target) remaining @ target #
      filter (\<lambda>row. \<not> should_hold_machine_queue_position host row target) remaining)"

definition placement_order :: "plan_row \<Rightarrow> plan_row \<Rightarrow> int" where
  "placement_order a b = number_order (safe_number (get (pr_fields a) ''machineUnavailableQueuePlacementAt''))
     (safe_number (get (pr_fields b) ''machineUnavailableQueuePlacementAt''))"

definition apply_machine_unavailable_queue_placement_order :: "js_host \<Rightarrow> plan_row list \<Rightarrow> plan_row list" where
  "apply_machine_unavailable_queue_placement_order host queue =
     run_steps (replay_placement host) queue (sort_by placement_order (filter machine_unavailable_has_queue_placement queue))"

subsection \<open>The next row of a free machine\<close>

definition has_queue_barrier_before :: "js_host \<Rightarrow> plan_row list \<Rightarrow> nat \<Rightarrow> plan_row \<Rightarrow> bool" where
  "has_queue_barrier_before host queue i candidate \<longleftrightarrow>
     list_ex (\<lambda>ahead. should_hold_machine_queue_position host ahead candidate) (take i queue)"

definition should_reserve_machine_queue_slot :: "js_host \<Rightarrow> plan_row \<Rightarrow> plan_row list \<Rightarrow> bool" where
  "should_reserve_machine_queue_slot host first queue =
     (if priority_queue_state host first \<noteq> Idle then True
      else if num_le (field_number first [''plannerPriorityScore'']) (Fin 0) then False
      else list_ex (\<lambda>row. can_priority_preempt host row first) (tl queue))"

fun find_index_from :: "nat \<Rightarrow> (nat \<Rightarrow> 'a \<Rightarrow> bool) \<Rightarrow> 'a list \<Rightarrow> nat option" where
  "find_index_from i P [] = None"
| "find_index_from i P (x # xs) = (if P i x then Some i else find_index_from (i + 1) P xs)"

definition remove_at :: "nat \<Rightarrow> 'a list \<Rightarrow> 'a \<times> 'a list" where
  "remove_at i xs = (xs ! i, take i xs @ drop (i + 1) xs)"

text \<open>The first row behind the first that may be pulled forward.\<close>

definition pulled_index :: "js_host \<Rightarrow> plan_row list \<Rightarrow> string \<Rightarrow> nat option" where
  "pulled_index host queue slot = find_index_from 0 (\<lambda>i row. 0 < i \<and> pm_can_pull_forward (pr_meta row) \<noteq> Some False
     \<and> is_queue_ready host row slot \<and> \<not> has_queue_barrier_before host queue i row) queue"

definition usual_index :: "js_host \<Rightarrow> plan_row list \<Rightarrow> string \<Rightarrow> nat" where
  "usual_index host queue machine_next_date =
     (let first = hd queue;
          slot = or_text machine_next_date (or_text (earliest_queue_ready_date host queue) (queue_ready_date host first)) in
      if protected_history first \<or> is_queue_ready host first slot \<or> should_reserve_machine_queue_slot host first queue then 0
      else case pulled_index host queue slot of Some i \<Rightarrow> i | None \<Rightarrow> 0)"

definition continuity_index :: "js_host \<Rightarrow> plan_row list \<Rightarrow> string \<Rightarrow> string \<Rightarrow> nat option" where
  "continuity_index host queue machine_next_date previous_key =
     (if previous_key = [] then None
      else find_index_from 0 (\<lambda>_ row. pm_continuity_after (pr_meta row) = Some previous_key
        \<and> is_queue_ready host row machine_next_date) queue)"

definition next_queue_index :: "js_host \<Rightarrow> plan_row list \<Rightarrow> string \<Rightarrow> string \<Rightarrow> nat" where
  "next_queue_index host queue machine_next_date previous_key =
     (case continuity_index host queue machine_next_date previous_key of
        Some i \<Rightarrow> if has_queue_barrier_before host queue i (queue ! i) then usual_index host queue machine_next_date else i
      | None \<Rightarrow> usual_index host queue machine_next_date)"

definition take_next_machine_queue_row :: "js_host \<Rightarrow> plan_row list \<Rightarrow> string \<Rightarrow> string \<Rightarrow> plan_row \<times> plan_row list" where
  "take_next_machine_queue_row host queue machine_next_date previous_key =
     remove_at (next_queue_index host queue machine_next_date previous_key) queue"

subsection \<open>Quantities of interrupted rows\<close>

definition remaining_after :: "plan_row \<Rightarrow> jsnum" where
  "remaining_after row =
     (let actual = (case pm_actual (pr_meta row) of None \<Rightarrow> Fin 0 | Some a \<Rightarrow> pa_actual a);
          total = (case pm_total_order_pcs (pr_meta row) of Some n \<Rightarrow> n
            | None \<Rightarrow> (case pm_order_pcs (pr_meta row) of Some n \<Rightarrow> n | None \<Rightarrow> field_number row [''orderPcs'']))
      in round_to 2 (num_min (safe_number (get (pr_fields row) ''setupRemainingQty'')) (num_max (num_sub total actual) (Fin 0))))"

definition record_stopped_quantity :: "js_host \<Rightarrow> jsnum \<Rightarrow> plan_row \<Rightarrow> plan_row" where
  "record_stopped_quantity host finished row =
     (if pm_actual (pr_meta row) = None \<and> num_lt (Fin 0) finished
      then let date = parse_date host (field_text row [''setupPlannedDate'']) in
        set_field ''rawActualQty'' (Num (round_to 2 finished)) (set_field ''rawOutputQty'' (Num (round_to 2 finished))
          (row\<lparr>pr_meta := (pr_meta row)\<lparr>pm_actual := Some \<lparr>pa_machine = field_text row [''machine''], pa_start = date,
             pa_latest = date, pa_output = finished, pa_actual = finished, pa_rows = Fin 1,
             pa_dates = (if date = [] then [] else [date])\<rparr>\<rparr>\<rparr>))
      else row)"

definition stop_row_for_override :: "js_host \<Rightarrow> plan_row \<Rightarrow> plan_row \<Rightarrow> plan_row" where
  "stop_row_for_override host override_row row =
     (case List.find (\<lambda>p. place_matches_row p row) (plan_override_interrupted_setups override_row) of
        None \<Rightarrow> row
      | Some p \<Rightarrow>
          if shop_floor_supersedes_stop host row (get (pr_fields override_row) ''planOverrideDecisionAt'') then row
          else
            let counted = record_stopped_quantity host (pl_finished_qty p) row;
                stopped = set_field ''planOverrideStoppedByJcNo'' (Str (field_text override_row [''target'', ''jcNo''])) counted
            in set_field ''shopFloorStageLabel'' (Str ''Planner stopped'') (set_field ''shopFloorStage'' (Str ''planned'')
              (set_field ''runningStatus'' (Str ''Planner stopped'')
                (set_field ''planOverrideRemainingQty'' (Num (remaining_after stopped)) stopped))))"

definition apply_plan_override_interruption_quantities :: "js_host \<Rightarrow> plan_row list \<Rightarrow> plan_row list" where
  "apply_plan_override_interruption_quantities host details =
     run_steps (\<lambda>rows stop. map (stop_row_for_override host stop) rows) details
       (filter (\<lambda>row. plan_override_interrupted_setups row \<noteq> []) details)"

definition stop_row_for_priority :: "js_host \<Rightarrow> plan_row \<Rightarrow> plan_row \<Rightarrow> plan_row" where
  "stop_row_for_priority host approval row =
     (if priority_interrupts_row host approval row
      then let stopped = set_field ''priorityStoppedByJcNo'' (Str (field_text approval [''jcNo''])) row
        in set_field ''priorityRemainingQty'' (Num (remaining_after stopped)) stopped
      else row)"

definition apply_priority_interruption_quantities :: "js_host \<Rightarrow> plan_row list \<Rightarrow> plan_row list" where
  "apply_priority_interruption_quantities host details =
     run_steps (\<lambda>rows approval. map (stop_row_for_priority host approval) rows) details
       (filter (\<lambda>row. priority_approval_mode row = AllowStopRunning \<and> priority_approval_has_finished_qty row) details)"

subsection \<open>The row taken passes no row that holds its position\<close>

lemma find_index_from_Some:
  "find_index_from i P xs = Some j \<Longrightarrow> i \<le> j \<and> j - i < length xs \<and> P j (xs ! (j - i))"
proof (induction xs arbitrary: i)
  case (Cons x xs)
  show ?case
  proof (cases "P i x")
    case False
    with Cons have "i + 1 \<le> j \<and> j - (i + 1) < length xs \<and> P j (xs ! (j - (i + 1)))" by auto
    then show ?thesis by (auto simp: nth_Cons' Suc_diff_le)
  qed (use Cons.prems in auto)
qed simp

lemma next_queue_index_spec:
  assumes "queue \<noteq> []"
  shows "next_queue_index host queue date key < length queue \<and>
    (next_queue_index host queue date key = 0 \<or>
     \<not> has_queue_barrier_before host queue (next_queue_index host queue date key) (queue ! next_queue_index host queue date key))"
proof -
  have usual: "usual_index host queue date < length queue \<and> (usual_index host queue date = 0 \<or>
      \<not> has_queue_barrier_before host queue (usual_index host queue date) (queue ! usual_index host queue date))"
    using assms by (auto simp: usual_index_def pulled_index_def Let_def dest!: find_index_from_Some split: option.splits)
  have "continuity_index host queue date key = Some i \<Longrightarrow> i < length queue" for i
    by (auto simp: continuity_index_def dest!: find_index_from_Some split: if_splits)
  with usual show ?thesis by (auto simp: next_queue_index_def split: option.splits)
qed

text \<open>C26: From a queue that is not empty one row is taken and the others stay in their order; the row taken is the first one, or
  no row ahead of it holds its position against it.\<close>

theorem next_row_passes_no_barrier:
  assumes "queue \<noteq> []"
  shows "\<exists>ahead behind. queue = ahead @ fst (take_next_machine_queue_row host queue date key) # behind
    \<and> snd (take_next_machine_queue_row host queue date key) = ahead @ behind
    \<and> (ahead = [] \<or> list_all (\<lambda>row. \<not> should_hold_machine_queue_position host row
         (fst (take_next_machine_queue_row host queue date key))) ahead)"
proof -
  let ?i = "next_queue_index host queue date key"
  from next_queue_index_spec [OF assms, of host date key]
  have i: "?i < length queue" "?i = 0 \<or> \<not> has_queue_barrier_before host queue ?i (queue ! ?i)" by blast+
  then have "queue = take ?i queue @ queue ! ?i # drop (?i + 1) queue" by (simp add: id_take_nth_drop)
  moreover have "take ?i queue = [] \<or> list_all (\<lambda>row. \<not> should_hold_machine_queue_position host row (queue ! ?i)) (take ?i queue)"
    using i(2) by (auto simp: has_queue_barrier_before_def list_all_iff list_ex_iff)
  ultimately show ?thesis
    by (intro exI [of _ "take ?i queue"] exI [of _ "drop (?i + 1) queue"])
      (simp add: take_next_machine_queue_row_def remove_at_def)
qed

text \<open>Rows for the witnesses.\<close>

definition sample_row :: "nat \<Rightarrow> jsrow \<Rightarrow> plan_row" where
  "sample_row i cells = \<lparr>pr_id = i, pr_fields = cells, pr_meta = sample_meta 100 []\<rparr>"

theorem next_row_passes_no_barrier_witness:
  "\<exists>ahead behind. [sample_row 0 [(''setupPlannedDate'', Str ''2026-01-20'')], sample_row 1 [(''setupPlannedDate'', Str ''2026-01-05'')]]
      = ahead @ fst (take_next_machine_queue_row utc_host [sample_row 0 [(''setupPlannedDate'', Str ''2026-01-20'')],
          sample_row 1 [(''setupPlannedDate'', Str ''2026-01-05'')]] ''2026-01-06'' []) # behind
    \<and> snd (take_next_machine_queue_row utc_host [sample_row 0 [(''setupPlannedDate'', Str ''2026-01-20'')],
          sample_row 1 [(''setupPlannedDate'', Str ''2026-01-05'')]] ''2026-01-06'' []) = ahead @ behind
    \<and> (ahead = [] \<or> list_all (\<lambda>row. \<not> should_hold_machine_queue_position utc_host row
         (fst (take_next_machine_queue_row utc_host [sample_row 0 [(''setupPlannedDate'', Str ''2026-01-20'')],
            sample_row 1 [(''setupPlannedDate'', Str ''2026-01-05'')]] ''2026-01-06'' []))) ahead)"
  by (rule next_row_passes_no_barrier) simp

subsection \<open>Replaying the placements\<close>

lemma mset_split_filter: "mset xs = mset (filter P xs) + mset (filter (\<lambda>x. \<not> P x) xs)"
  by (induction xs) auto

lemma replay_placement_mset:
  assumes "distinct (map pr_id ordered)" "target \<in> set ordered"
  shows "mset (replay_placement host ordered target) = mset ordered"
proof -
  have "filter (\<lambda>row. pr_id row = pr_id target) ordered = [target]"
    using assms
  proof (induction ordered)
    case (Cons row ordered)
    show ?case
    proof (cases "pr_id row = pr_id target")
      case True
      then have "row = target" using Cons.prems by (auto simp: image_iff)
      moreover have "filter (\<lambda>row. pr_id row = pr_id target) ordered = []"
        using Cons.prems(1) True by (auto simp: filter_empty_conv image_iff)
      ultimately show ?thesis by simp
    qed (use Cons in auto)
  qed simp
  then have "mset ordered = add_mset target (mset (filter (\<lambda>row. pr_id row \<noteq> pr_id target) ordered))"
    using mset_split_filter [of ordered "\<lambda>row. pr_id row = pr_id target"] by simp
  also have "mset (filter (\<lambda>row. pr_id row \<noteq> pr_id target) ordered) =
      mset (filter (\<lambda>row. should_hold_machine_queue_position host row target) (filter (\<lambda>row. pr_id row \<noteq> pr_id target) ordered))
      + mset (filter (\<lambda>row. \<not> should_hold_machine_queue_position host row target) (filter (\<lambda>row. pr_id row \<noteq> pr_id target) ordered))"
    by (rule mset_split_filter)
  finally show ?thesis by (simp add: replay_placement_def Let_def)
qed

lemma replay_all_mset:
  "distinct (map pr_id ordered) \<Longrightarrow> set targets \<subseteq> set ordered \<Longrightarrow>
     mset (run_steps (replay_placement host) ordered targets) = mset ordered"
proof (induction targets arbitrary: ordered)
  case (Cons t targets)
  have m: "mset (replay_placement host ordered t) = mset ordered"
    using Cons.prems by (intro replay_placement_mset) auto
  then have "distinct (map pr_id (replay_placement host ordered t))"
    using Cons.prems(1) by (metis mset_eq_imp_distinct_iff mset_map)
  moreover have "set (replay_placement host ordered t) = set ordered" using m by (rule mset_eq_setD)
  ultimately show ?case using Cons m by simp
qed simp

text \<open>Replaying the reviewed placements only reorders the queue, and the placement decided last has its way: its row has
  every row that holds its position ahead of it, and only those.\<close>

theorem placements_reorder_queue:
  assumes "distinct (map pr_id queue)"
  shows "mset (apply_machine_unavailable_queue_placement_order host queue) = mset queue
    \<and> (case rev (sort_by placement_order (filter machine_unavailable_has_queue_placement queue)) of
         [] \<Rightarrow> apply_machine_unavailable_queue_placement_order host queue = queue
       | target # _ \<Rightarrow> (\<exists>before after. apply_machine_unavailable_queue_placement_order host queue = before @ target # after
           \<and> list_all (\<lambda>row. should_hold_machine_queue_position host row target) before
           \<and> list_all (\<lambda>row. \<not> should_hold_machine_queue_position host row target) after))"
proof
  let ?targets = "sort_by placement_order (filter machine_unavailable_has_queue_placement queue)"
  show "mset (apply_machine_unavailable_queue_placement_order host queue) = mset queue"
    unfolding apply_machine_unavailable_queue_placement_order_def using assms by (intro replay_all_mset) auto
  show "case rev ?targets of
         [] \<Rightarrow> apply_machine_unavailable_queue_placement_order host queue = queue
       | target # _ \<Rightarrow> (\<exists>before after. apply_machine_unavailable_queue_placement_order host queue = before @ target # after
           \<and> list_all (\<lambda>row. should_hold_machine_queue_position host row target) before
           \<and> list_all (\<lambda>row. \<not> should_hold_machine_queue_position host row target) after)"
  proof (cases "rev ?targets")
    case Nil
    then show ?thesis by (simp add: apply_machine_unavailable_queue_placement_order_def)
  next
    case (Cons target earlier)
    then have "?targets = rev earlier @ [target]" by (metis rev_rev_ident rev.simps(2))
    then obtain ordered where "apply_machine_unavailable_queue_placement_order host queue = replay_placement host ordered target"
      by (simp add: apply_machine_unavailable_queue_placement_order_def run_steps_append)
    then show ?thesis
      unfolding Cons replay_placement_def Let_def list.case
      by (intro exI conjI) (assumption, simp_all add: list_all_iff)
  qed
qed

theorem placements_reorder_queue_witness:
  "mset (apply_machine_unavailable_queue_placement_order utc_host
      [sample_row 0 [], sample_row 1 [(''machineUnavailableQueuePlacementTarget'', Bool True)]])
     = mset [sample_row 0 [], sample_row 1 [(''machineUnavailableQueuePlacementTarget'', Bool True)]]
   \<and> (case rev (sort_by placement_order (filter machine_unavailable_has_queue_placement
          [sample_row 0 [], sample_row 1 [(''machineUnavailableQueuePlacementTarget'', Bool True)]])) of
        [] \<Rightarrow> apply_machine_unavailable_queue_placement_order utc_host
            [sample_row 0 [], sample_row 1 [(''machineUnavailableQueuePlacementTarget'', Bool True)]]
          = [sample_row 0 [], sample_row 1 [(''machineUnavailableQueuePlacementTarget'', Bool True)]]
      | target # _ \<Rightarrow> (\<exists>before after. apply_machine_unavailable_queue_placement_order utc_host
            [sample_row 0 [], sample_row 1 [(''machineUnavailableQueuePlacementTarget'', Bool True)]] = before @ target # after
          \<and> list_all (\<lambda>row. should_hold_machine_queue_position utc_host row target) before
          \<and> list_all (\<lambda>row. \<not> should_hold_machine_queue_position utc_host row target) after))"
  by (rule placements_reorder_queue) (simp add: sample_row_def)

end
