(* ===== verification/Maintenance_Requests.thy ===== *)
theory Maintenance_Requests
  imports JS_Prelude
begin

section \<open>Maintenance requests\<close>

text \<open>
  \<^verbatim>\<open>packages/db/src/maintenance-request-domain.ts\<close> and \<^verbatim>\<open>packages/db/src/maintenance-requests.ts\<close>: a request is
  submitted, reviewed by a manager, worked on by the trade of its final category and closed. The
  repository's statements run in a transaction with the row locked, so an operation is a
  function from the store (the tables \<open>maintenance.requests\<close> and \<open>maintenance.request_events\<close>) to the
  next one or to the error that rolls it back. The account and the departments of a user,
  which other tables give, are arguments; \<open>now()\<close> is the argument \<open>now\<close>. Times are milliseconds.
  The identifiers the database generates are numbers here.
\<close>

subsection \<open>Data\<close>

datatype maintenance_category = Electrical | Plumbing | Mechanical

datatype maintenance_priority = Urgent | Regular

datatype maintenance_status = PendingApproval | Approved | InProgress | Completed | Closed | Returned | Rejected

datatype manager_action = Approve | Reject | ReturnToRequester

datatype trade_action = StartWork | CompleteWork

definition manager_action_text :: "manager_action \<Rightarrow> string" where
  "manager_action_text action = (case action of Approve \<Rightarrow> ''approve'' | Reject \<Rightarrow> ''reject'' | ReturnToRequester \<Rightarrow> ''return'')"

definition trade_action_text :: "trade_action \<Rightarrow> string" where
  "trade_action_text action = (case action of StartWork \<Rightarrow> ''start'' | CompleteWork \<Rightarrow> ''complete'')"

text \<open>A row of \<open>maintenance.requests\<close>; the row version counts from one.\<close>

record maintenance_request =
  mr_id :: nat
  mr_organization :: nat
  mr_requester :: nat
  mr_requester_name :: string
  mr_department :: string
  mr_location :: string
  mr_problem :: string
  mr_suggested_category :: maintenance_category
  mr_requested_priority :: maintenance_priority
  mr_final_category :: "maintenance_category option"
  mr_final_priority :: "maintenance_priority option"
  mr_status :: maintenance_status
  mr_manager_note :: "string option"
  mr_approved_by :: "nat option"
  mr_approved_at :: "int option"
  mr_assigned_to :: "nat option"
  mr_started_at :: "int option"
  mr_completed_at :: "int option"
  mr_closed_at :: "int option"
  mr_submitted_at :: int
  mr_updated_at :: int
  mr_updated_by :: nat
  mr_row_version :: nat

record request_event =
  re_request :: nat
  re_organization :: nat
  re_action :: string
  re_from :: "maintenance_status option"
  re_to :: maintenance_status
  re_category :: "maintenance_category option"
  re_priority :: "maintenance_priority option"
  re_note :: "string option"
  re_actor :: nat

record maintenance_store =
  ms_requests :: "maintenance_request list"
  ms_events :: "request_event list"
  ms_next_id :: nat

subsection \<open>Transitions\<close>

definition maintenance_manager_transition ::
  "manager_action \<Rightarrow> maintenance_status \<Rightarrow> maintenance_status js_result" where
  "maintenance_manager_transition action status =
     (if status \<noteq> PendingApproval then throw ''Only pending maintenance requests can be reviewed.''
      else return (case action of Approve \<Rightarrow> Approved | ReturnToRequester \<Rightarrow> Returned | Reject \<Rightarrow> Rejected))"

definition maintenance_trade_transition :: "maintenance_status \<Rightarrow> trade_action \<Rightarrow> maintenance_status js_result" where
  "maintenance_trade_transition status action =
     (case action of
        StartWork \<Rightarrow> if status \<noteq> Approved then throw ''Approved maintenance requests can be started.'' else return InProgress
      | CompleteWork \<Rightarrow> if status \<noteq> InProgress then throw ''In-progress maintenance requests can be completed.''
          else return Completed)"

record request_viewer =
  rv_department :: "string option"
  rv_manager :: bool
  rv_trade :: "maintenance_category option"

text \<open>\<open>localeCompare\<close> with the sensitivity of accents is the argument \<open>same_text\<close>.\<close>

definition maintenance_request_is_visible_to ::
  "(string \<Rightarrow> string \<Rightarrow> bool) \<Rightarrow> maintenance_request \<Rightarrow> request_viewer \<Rightarrow> bool" where
  "maintenance_request_is_visible_to same_text request viewer \<longleftrightarrow>
     rv_manager viewer
     \<or> (case rv_department viewer of None \<Rightarrow> False | Some d \<Rightarrow> d \<noteq> [] \<and> same_text d (mr_department request))
     \<or> rv_trade viewer \<noteq> None \<and> rv_trade viewer = mr_final_category request
       \<and> mr_status request \<notin> {PendingApproval, Returned, Rejected}"

subsection \<open>The requester\<close>

record user_account =
  ua_email :: string
  ua_name :: string
  ua_role :: "string option"

record requester_context =
  rc_departments :: "string list"
  rc_administrator :: bool
  rc_email :: string
  rc_name :: string

text \<open>The departments linked to the user's employee records, and the active ones of the organization.\<close>

definition requester_context_with_client ::
  "user_account option \<Rightarrow> string list \<Rightarrow> string list \<Rightarrow> requester_context js_result" where
  "requester_context_with_client account linked active =
     (case account of None \<Rightarrow> throw ''The signed-in user account was not found.''
      | Some user \<Rightarrow>
          let administrator = (ua_role user = Some ''admin''); eligible = (if administrator then active else linked) in
          if eligible = []
          then throw (if administrator then ''No active departments are available for this organization.''
            else ''Your account must be linked to an active Employee Master department.'')
          else return \<lparr>rc_departments = eligible, rc_administrator = administrator, rc_email = ua_email user, rc_name = ua_name user\<rparr>)"

definition required_text :: "string \<Rightarrow> string \<Rightarrow> string js_result" where
  "required_text value label =
     (let result = trim value in if result = [] then throw (label @ '' is required.'') else return result)"

subsection \<open>Operations\<close>

record request_input =
  ri_department :: "string option"
  ri_location :: string
  ri_organization :: nat
  ri_problem :: string
  ri_priority :: maintenance_priority
  ri_requester :: nat
  ri_category :: maintenance_category

definition chosen_department :: "request_input \<Rightarrow> requester_context \<Rightarrow> string js_result" where
  "chosen_department inp context =
     (let given = trim (case ri_department inp of None \<Rightarrow> [] | Some d \<Rightarrow> d);
          department = (if given \<noteq> [] then given
            else case rc_departments context of [d] \<Rightarrow> d | _ \<Rightarrow> []) in
      if department = [] then throw ''Select the department for this maintenance request.''
      else if department \<notin> set (rc_departments context)
      then throw ''Select one of the departments available to your account.''
      else return department)"

definition submit_request ::
  "int \<Rightarrow> user_account option \<Rightarrow> string list \<Rightarrow> string list \<Rightarrow> request_input \<Rightarrow> maintenance_store
    \<Rightarrow> (maintenance_store \<times> nat) js_result" where
  "submit_request now account linked active inp st =
     bind_result (requester_context_with_client account linked active) (\<lambda>context.
     bind_result (chosen_department inp context) (\<lambda>department.
     bind_result (required_text (ri_location inp) ''Location'') (\<lambda>location.
     bind_result (required_text (ri_problem inp) ''Problem description'') (\<lambda>problem.
       let new_id = ms_next_id st in
       return (st\<lparr>ms_requests := ms_requests st @ [\<lparr>mr_id = new_id, mr_organization = ri_organization inp,
             mr_requester = ri_requester inp, mr_requester_name = rc_name context, mr_department = department,
             mr_location = location, mr_problem = problem, mr_suggested_category = ri_category inp,
             mr_requested_priority = ri_priority inp, mr_final_category = None, mr_final_priority = None,
             mr_status = PendingApproval, mr_manager_note = None, mr_approved_by = None, mr_approved_at = None,
             mr_assigned_to = None, mr_started_at = None, mr_completed_at = None, mr_closed_at = None,
             mr_submitted_at = now, mr_updated_at = now, mr_updated_by = ri_requester inp, mr_row_version = 1\<rparr>],
           ms_events := ms_events st @ [\<lparr>re_request = new_id, re_organization = ri_organization inp, re_action = ''Submitted'', re_from = None,
             re_to = PendingApproval, re_category = Some (ri_category inp), re_priority = Some (ri_priority inp),
             re_note = None, re_actor = ri_requester inp\<rparr>],
           ms_next_id := new_id + 1\<rparr>, new_id)))))"

definition find_request :: "nat \<Rightarrow> nat \<Rightarrow> maintenance_store \<Rightarrow> maintenance_request option" where
  "find_request organization request_id st =
     List.find (\<lambda>r. mr_id r = request_id \<and> mr_organization r = organization) (ms_requests st)"

text \<open>\<open>UPDATE \<dots> WHERE id = $1 AND organization_id = $2\<close> with the event that records it.\<close>

definition change_request ::
  "nat \<Rightarrow> nat \<Rightarrow> (maintenance_request \<Rightarrow> maintenance_request) \<Rightarrow> request_event \<Rightarrow> maintenance_store \<Rightarrow> maintenance_store" where
  "change_request organization request_id f event st =
     st\<lparr>ms_requests := map (\<lambda>r. if mr_id r = request_id \<and> mr_organization r = organization then f r else r) (ms_requests st),
        ms_events := ms_events st @ [event]\<rparr>"

definition reviewed ::
  "int \<Rightarrow> nat \<Rightarrow> maintenance_category \<Rightarrow> maintenance_priority \<Rightarrow> string option \<Rightarrow> maintenance_status
    \<Rightarrow> maintenance_request \<Rightarrow> maintenance_request" where
  "reviewed now actor category priority note status r =
     r\<lparr>mr_final_category := Some category, mr_final_priority := Some priority, mr_status := status,
       mr_manager_note := note, mr_approved_by := Some actor,
       mr_approved_at := (if status = Approved then Some now else None),
       mr_updated_by := actor, mr_updated_at := now, mr_row_version := mr_row_version r + 1\<rparr>"

definition review_request ::
  "int \<Rightarrow> manager_action \<Rightarrow> nat \<Rightarrow> maintenance_category \<Rightarrow> string option \<Rightarrow> nat \<Rightarrow> maintenance_priority \<Rightarrow> nat
    \<Rightarrow> maintenance_store \<Rightarrow> maintenance_store js_result" where
  "review_request now action actor category note organization priority request_id st =
     (case find_request organization request_id st of
        None \<Rightarrow> throw ''Maintenance request was not found.''
      | Some r \<Rightarrow>
          bind_result (maintenance_manager_transition action (mr_status r)) (\<lambda>status.
            return (change_request organization request_id (reviewed now actor category priority (optional_text note) status)
              \<lparr>re_request = request_id, re_organization = organization, re_action = manager_action_text action,
               re_from = Some (mr_status r), re_to = status,
               re_category = Some category, re_priority = Some priority, re_note = optional_text note, re_actor = actor\<rparr> st)))"

text \<open>\<open>COALESCE\<close>\<close>

definition coalesce :: "'a option \<Rightarrow> 'a \<Rightarrow> 'a option" where
  "coalesce v d = (case v of None \<Rightarrow> Some d | Some x \<Rightarrow> Some x)"

definition worked :: "int \<Rightarrow> nat \<Rightarrow> maintenance_status \<Rightarrow> maintenance_request \<Rightarrow> maintenance_request" where
  "worked now actor status r =
     r\<lparr>mr_status := status, mr_assigned_to := coalesce (mr_assigned_to r) actor,
       mr_started_at := (if status = InProgress then coalesce (mr_started_at r) now else mr_started_at r),
       mr_completed_at := (if status = Completed then Some now else mr_completed_at r),
       mr_updated_by := actor, mr_updated_at := now, mr_row_version := mr_row_version r + 1\<rparr>"

definition update_trade_status ::
  "int \<Rightarrow> trade_action \<Rightarrow> nat \<Rightarrow> nat \<Rightarrow> nat \<Rightarrow> maintenance_category \<Rightarrow> maintenance_store \<Rightarrow> maintenance_store js_result" where
  "update_trade_status now action actor organization request_id trade st =
     (case find_request organization request_id st of
        None \<Rightarrow> throw ''Maintenance request is not assigned to this trade.''
      | Some r \<Rightarrow>
          if mr_final_category r \<noteq> Some trade then throw ''Maintenance request is not assigned to this trade.''
          else bind_result (maintenance_trade_transition (mr_status r) action) (\<lambda>status.
            return (change_request organization request_id (worked now actor status)
              \<lparr>re_request = request_id, re_organization = organization, re_action = trade_action_text action,
               re_from = Some (mr_status r), re_to = status,
               re_category = Some trade, re_priority = None, re_note = None, re_actor = actor\<rparr> st)))"

definition closed_by :: "int \<Rightarrow> nat \<Rightarrow> maintenance_request \<Rightarrow> maintenance_request" where
  "closed_by now actor r = r\<lparr>mr_status := Closed, mr_closed_at := Some now, mr_updated_at := now, mr_updated_by := actor,
     mr_row_version := mr_row_version r + 1\<rparr>"

definition close_request ::
  "int \<Rightarrow> nat \<Rightarrow> nat \<Rightarrow> nat \<Rightarrow> maintenance_store \<Rightarrow> maintenance_store js_result" where
  "close_request now actor organization request_id st =
     (case find_request organization request_id st of
        None \<Rightarrow> throw ''Only completed maintenance requests can be closed.''
      | Some r \<Rightarrow>
          if mr_status r \<noteq> Completed then throw ''Only completed maintenance requests can be closed.''
          else return (change_request organization request_id (closed_by now actor)
              \<lparr>re_request = request_id, re_organization = organization, re_action = ''close'',
               re_from = Some Completed, re_to = Closed,
               re_category = None, re_priority = None, re_note = None, re_actor = actor\<rparr> st))"

definition authorize_maintenance_request_photo_target ::
  "nat \<Rightarrow> nat \<Rightarrow> nat \<Rightarrow> bool \<Rightarrow> maintenance_store \<Rightarrow> unit js_result" where
  "authorize_maintenance_request_photo_target organization request_id requester require_pending st =
     (case find_request organization request_id st of
        None \<Rightarrow> throw ''Maintenance request photo target was not found or locked.''
      | Some r \<Rightarrow> guard_that (mr_requester r = requester \<and> (require_pending \<longrightarrow> mr_status r = PendingApproval))
          ''Maintenance request photo target was not found or locked.'')"

subsection \<open>The list of requests\<close>

text \<open>\<open>btrim\<close> removes blanks only, \<open>trim\<close> every white space.\<close>

definition btrim :: "string \<Rightarrow> string" where
  "btrim s = rev (dropWhile (\<lambda>c. c = CHR '' '') (rev (dropWhile (\<lambda>c. c = CHR '' '') s)))"

datatype request_scope = ManagerScope | DepartmentScope "string list" | TradeScope maintenance_category

definition in_scope :: "request_scope \<Rightarrow> maintenance_request \<Rightarrow> bool" where
  "in_scope scope r =
     (case scope of
        ManagerScope \<Rightarrow> True
      | DepartmentScope departments \<Rightarrow> to_lower (btrim (mr_department r)) \<in> set (map norm_key departments)
      | TradeScope trade \<Rightarrow> mr_final_category r = Some trade \<and> mr_status r \<in> {Approved, InProgress, Completed})"

definition urgency :: "maintenance_request \<Rightarrow> int" where
  "urgency r = (case (case mr_final_priority r of Some p \<Rightarrow> p | None \<Rightarrow> mr_requested_priority r) of Urgent \<Rightarrow> 0 | Regular \<Rightarrow> 1)"

definition request_order :: "maintenance_request \<Rightarrow> maintenance_request \<Rightarrow> int" where
  "request_order a b =
     (if urgency a \<noteq> urgency b then urgency a - urgency b
      else if mr_submitted_at a \<noteq> mr_submitted_at b then mr_submitted_at b - mr_submitted_at a
      else int (mr_id b) - int (mr_id a))"

definition list_requests ::
  "nat \<Rightarrow> nat option \<Rightarrow> request_scope \<Rightarrow> maintenance_store \<Rightarrow> maintenance_request list" where
  "list_requests organization request_id scope st =
     sort_by request_order (filter (\<lambda>r. mr_organization r = organization \<and> in_scope scope r
       \<and> (case request_id of None \<Rightarrow> True | Some i \<Rightarrow> mr_id r = i)) (ms_requests st))"

subsection \<open>Steps\<close>

inductive maintenance_step :: "maintenance_store \<Rightarrow> maintenance_store \<Rightarrow> bool" where
  Submitted: "submit_request now account linked active inp st = Inr (st', new_id) \<Longrightarrow> maintenance_step st st'"
| Reviewed: "review_request now action actor category note organization priority request_id st = Inr st' \<Longrightarrow> maintenance_step st st'"
| Worked: "update_trade_status now action actor organization request_id trade st = Inr st' \<Longrightarrow> maintenance_step st st'"
| ClosedBy: "close_request now actor organization request_id st = Inr st' \<Longrightarrow> maintenance_step st st'"

inductive_cases maintenance_stepE: "maintenance_step st st'"

definition empty_store :: maintenance_store where
  "empty_store = \<lparr>ms_requests = [], ms_events = [], ms_next_id = 0\<rparr>"

inductive reachable_store :: "maintenance_store \<Rightarrow> bool" where
  start: "reachable_store empty_store"
| next_step: "reachable_store st \<Longrightarrow> maintenance_step st st' \<Longrightarrow> reachable_store st'"

subsection \<open>What a request of the store looks like\<close>

text \<open>The changes of status the program makes, \<open>None\<close> standing for a request that is not there yet.\<close>

definition lawful_change :: "maintenance_status option \<Rightarrow> maintenance_status \<Rightarrow> bool" where
  "lawful_change from to \<longleftrightarrow> (from, to) \<in> {(None, PendingApproval),
     (Some PendingApproval, Approved), (Some PendingApproval, Returned), (Some PendingApproval, Rejected),
     (Some Approved, InProgress), (Some InProgress, Completed), (Some Completed, Closed)}"

fun status_path :: "maintenance_status option \<Rightarrow> request_event list \<Rightarrow> maintenance_status \<Rightarrow> bool" where
  "status_path from [] status \<longleftrightarrow> from = Some status"
| "status_path from (e # es) status \<longleftrightarrow>
     re_from e = from \<and> lawful_change from (re_to e) \<and> status_path (Some (re_to e)) es status"

definition request_history :: "nat \<Rightarrow> maintenance_store \<Rightarrow> request_event list" where
  "request_history i st = filter (\<lambda>e. re_request e = i) (ms_events st)"

text \<open>Which columns are filled in, by the status.\<close>

definition request_consistent :: "maintenance_request \<Rightarrow> bool" where
  "request_consistent r \<longleftrightarrow>
     ((mr_final_category r = None) = (mr_status r = PendingApproval))
     \<and> ((mr_approved_at r = None) = (mr_status r \<in> {PendingApproval, Returned, Rejected}))
     \<and> ((mr_started_at r = None) = (mr_status r \<in> {PendingApproval, Returned, Rejected, Approved}))
     \<and> ((mr_assigned_to r = None) = (mr_started_at r = None))
     \<and> ((mr_completed_at r = None) = (mr_status r \<notin> {Completed, Closed}))
     \<and> ((mr_closed_at r = None) = (mr_status r \<noteq> Closed))"

definition request_recorded :: "maintenance_store \<Rightarrow> maintenance_request \<Rightarrow> bool" where
  "request_recorded st r \<longleftrightarrow> request_consistent r
     \<and> status_path None (request_history (mr_id r) st) (mr_status r)
     \<and> mr_row_version r = length (request_history (mr_id r) st)"

definition store_invariant :: "maintenance_store \<Rightarrow> bool" where
  "store_invariant st \<longleftrightarrow> distinct (map mr_id (ms_requests st))
     \<and> list_all (\<lambda>r. mr_id r < ms_next_id st \<and> request_recorded st r) (ms_requests st)
     \<and> list_all (\<lambda>e. re_request e < ms_next_id st) (ms_events st)"

lemma status_path_extend:
  assumes "status_path from es mid" "re_from e = Some mid" "lawful_change (Some mid) (re_to e)"
  shows "status_path from (es @ [e]) (re_to e)"
  using assms by (induction es arbitrary: "from") auto

lemma coalesce_Some [simp]: "coalesce v d \<noteq> None"
  by (simp add: coalesce_def split: option.splits)

lemma find_request_SomeD:
  assumes "find_request organization i st = Some r"
  shows "r \<in> set (ms_requests st)" "mr_id r = i" "mr_organization r = organization"
  using assms by (auto simp: find_request_def find_Some_iff)

lemma find_request_unique:
  assumes "distinct (map mr_id (ms_requests st))" "r \<in> set (ms_requests st)"
  shows "find_request (mr_organization r) (mr_id r) st = Some r"
proof (cases "find_request (mr_organization r) (mr_id r) st")
  case None
  then show ?thesis using assms(2) by (auto simp: find_request_def find_None_iff)
next
  case (Some q)
  then show ?thesis using assms find_request_SomeD [OF Some] by (auto simp: distinct_map dest: inj_onD)
qed

lemma empty_store_invariant: "store_invariant empty_store"
  by (simp add: store_invariant_def empty_store_def)

text \<open>A change of one request with the event that records it keeps the invariant.\<close>

lemma change_request_invariant:
  assumes inv: "store_invariant st" and found: "find_request organization i st = Some r"
    and event: "re_request e = i" "re_from e = Some (mr_status r)" "lawful_change (Some (mr_status r)) (re_to e)"
    and new: "mr_id (f r) = i" "mr_status (f r) = re_to e" "mr_row_version (f r) = Suc (mr_row_version r)"
      "request_consistent (f r)"
  shows "store_invariant (change_request organization i f e st)"
proof -
  define g where "g q = (if mr_id q = i \<and> mr_organization q = organization then f q else q)" for q
  define new_st where "new_st = change_request organization i f e st"
  have new_simps: "ms_requests new_st = map g (ms_requests st)" "ms_events new_st = ms_events st @ [e]"
      "ms_next_id new_st = ms_next_id st"
    by (simp_all add: new_st_def g_def change_request_def)
  note r = find_request_SomeD [OF found]
  have dist: "distinct (map mr_id (ms_requests st))"
    and rec: "\<And>q. q \<in> set (ms_requests st) \<Longrightarrow> mr_id q < ms_next_id st \<and> request_recorded st q"
    and old: "list_all (\<lambda>e. re_request e < ms_next_id st) (ms_events st)"
    using inv by (auto simp: store_invariant_def list_all_iff)
  have only: "q = r" if "q \<in> set (ms_requests st)" "mr_id q = i" for q
    using that r dist by (auto simp: distinct_map dest: inj_onD)
  have ids: "mr_id (g q) = mr_id q" if "q \<in> set (ms_requests st)" for q
    using only [OF that] new(1) r by (auto simp: g_def)
  have history: "request_history j new_st = request_history j st @ (if j = i then [e] else [])" for j
    using event(1) by (simp add: request_history_def new_simps)
  have "request_recorded new_st (g q)" if q: "q \<in> set (ms_requests st)" for q
  proof (cases "mr_id q = i")
    case True
    then have "g q = f r" using only [OF q] r by (auto simp: g_def)
    then show ?thesis using rec [OF r(1)] new event r(2)
      by (auto simp: request_recorded_def history intro: status_path_extend)
  next
    case False
    then show ?thesis using rec [OF q] by (simp add: request_recorded_def history g_def)
  qed
  then have "list_all (\<lambda>q. mr_id q < ms_next_id new_st \<and> request_recorded new_st q) (ms_requests new_st)"
    using ids rec by (simp add: list_all_iff new_simps)
  moreover have "map mr_id (ms_requests new_st) = map mr_id (ms_requests st)"
    using ids by (simp add: new_simps)
  moreover have "list_all (\<lambda>e. re_request e < ms_next_id new_st) (ms_events new_st)"
    using old event(1) rec [OF r(1)] r(2) by (simp add: new_simps)
  ultimately show ?thesis
    using dist by (simp add: store_invariant_def flip: new_st_def)
qed

lemma manager_transition_Inr:
  "maintenance_manager_transition action status = Inr status' \<longleftrightarrow>
     status = PendingApproval \<and> status' = (case action of Approve \<Rightarrow> Approved | ReturnToRequester \<Rightarrow> Returned | Reject \<Rightarrow> Rejected)"
  by (auto simp: maintenance_manager_transition_def)

lemma trade_transition_Inr:
  "maintenance_trade_transition status action = Inr status' \<longleftrightarrow>
     (action = StartWork \<and> status = Approved \<and> status' = InProgress
      \<or> action = CompleteWork \<and> status = InProgress \<and> status' = Completed)"
  by (auto simp: maintenance_trade_transition_def split: trade_action.splits)

lemma recorded_in_store:
  "store_invariant st \<Longrightarrow> r \<in> set (ms_requests st) \<Longrightarrow> request_recorded st r"
  by (auto simp: store_invariant_def list_all_iff)

lemma submit_request_invariant:
  assumes inv: "store_invariant st" and ok: "submit_request now account linked active inp st = Inr (st', i)"
  shows "store_invariant st'"
proof -
  obtain r e where st': "ms_requests st' = ms_requests st @ [r]" "ms_events st' = ms_events st @ [e]"
      "ms_next_id st' = ms_next_id st + 1"
    and r: "mr_id r = ms_next_id st" "mr_status r = PendingApproval" "mr_row_version r = 1" "request_consistent r"
    and e: "re_request e = ms_next_id st" "re_from e = None" "re_to e = PendingApproval"
    using ok by (auto simp: submit_request_def js_result Let_def request_consistent_def)
  have fresh: "request_history (ms_next_id st) st = []"
    using inv by (auto simp: store_invariant_def request_history_def list_all_iff filter_empty_conv)
  have history: "request_history j st' = request_history j st @ (if j = ms_next_id st then [e] else [])" for j
    using e(1) by (simp add: request_history_def st')
  have "request_recorded st' r"
    using r e by (simp add: request_recorded_def history fresh lawful_change_def)
  moreover have "request_recorded st' q \<and> mr_id q < ms_next_id st'" if "q \<in> set (ms_requests st)" for q
    using that inv by (auto simp: store_invariant_def list_all_iff request_recorded_def history st')
  ultimately show ?thesis
    using inv r e by (auto simp: store_invariant_def list_all_iff st')
qed

lemma review_request_invariant:
  assumes inv: "store_invariant st"
    and ok: "review_request now action actor category nt organization priority i st = Inr st'"
  shows "store_invariant st'"
proof -
  obtain r status where found: "find_request organization i st = Some r"
    and tr: "maintenance_manager_transition action (mr_status r) = Inr status"
    using ok by (auto simp: review_request_def js_result split: option.splits)
  have "request_consistent r"
    using recorded_in_store [OF inv find_request_SomeD(1) [OF found]] by (simp add: request_recorded_def)
  then have c: "request_consistent (reviewed now actor category priority (optional_text nt) status r)"
    using tr by (auto simp: manager_transition_Inr request_consistent_def reviewed_def split: manager_action.splits)
  have l: "lawful_change (Some (mr_status r)) status"
    using tr by (auto simp: manager_transition_Inr lawful_change_def split: manager_action.splits)
  obtain e where st': "st' = change_request organization i (reviewed now actor category priority (optional_text nt) status) e st"
    and e: "re_request e = i" "re_from e = Some (mr_status r)" "re_to e = status"
    using ok found tr by (auto simp: review_request_def)
  show ?thesis
    unfolding st' by (rule change_request_invariant [OF inv found])
      (use e c l find_request_SomeD [OF found] in \<open>simp_all add: reviewed_def\<close>)
qed

lemma update_trade_status_invariant:
  assumes inv: "store_invariant st"
    and ok: "update_trade_status now action actor organization i trade st = Inr st'"
  shows "store_invariant st'"
proof -
  obtain r status where found: "find_request organization i st = Some r"
    and tr: "maintenance_trade_transition (mr_status r) action = Inr status"
    using ok by (auto simp: update_trade_status_def js_result split: option.splits if_splits)
  have "request_consistent r"
    using recorded_in_store [OF inv find_request_SomeD(1) [OF found]] by (simp add: request_recorded_def)
  then have c: "request_consistent (worked now actor status r)"
    using tr unfolding trade_transition_Inr
    by (elim disjE) (simp_all add: request_consistent_def worked_def)
  have l: "lawful_change (Some (mr_status r)) status"
    using tr by (auto simp: trade_transition_Inr lawful_change_def)
  obtain e where st': "st' = change_request organization i (worked now actor status) e st"
    and e: "re_request e = i" "re_from e = Some (mr_status r)" "re_to e = status"
    using ok found tr by (auto simp: update_trade_status_def split: if_splits)
  show ?thesis
    unfolding st' by (rule change_request_invariant [OF inv found])
      (use e c l find_request_SomeD [OF found] in \<open>simp_all add: worked_def\<close>)
qed

lemma close_request_invariant:
  assumes inv: "store_invariant st" and ok: "close_request now actor organization i st = Inr st'"
  shows "store_invariant st'"
proof -
  obtain r where found: "find_request organization i st = Some r" and completed: "mr_status r = Completed"
    using ok by (auto simp: close_request_def split: option.splits if_splits)
  have "request_consistent r"
    using recorded_in_store [OF inv find_request_SomeD(1) [OF found]] by (simp add: request_recorded_def)
  then have c: "request_consistent (closed_by now actor r)"
    using completed by (auto simp: request_consistent_def closed_by_def)
  obtain e where st': "st' = change_request organization i (closed_by now actor) e st"
    and e: "re_request e = i" "re_from e = Some (mr_status r)" "re_to e = Closed"
    using ok found completed by (auto simp: close_request_def)
  show ?thesis
    unfolding st' by (rule change_request_invariant [OF inv found])
      (use e c completed find_request_SomeD [OF found] in \<open>simp_all add: closed_by_def lawful_change_def\<close>)
qed

lemma maintenance_step_invariant: "maintenance_step st st' \<Longrightarrow> store_invariant st \<Longrightarrow> store_invariant st'"
  by (erule maintenance_stepE)
    (blast intro: submit_request_invariant review_request_invariant update_trade_status_invariant close_request_invariant)+

lemma reachable_invariant: "reachable_store st \<Longrightarrow> store_invariant st"
  by (induction rule: reachable_store.induct) (auto intro: empty_store_invariant maintenance_step_invariant)

lemma step_path_invariant: "maintenance_step\<^sup>*\<^sup>* st st' \<Longrightarrow> store_invariant st \<Longrightarrow> store_invariant st'"
  by (induction rule: rtranclp_induct) (auto intro: maintenance_step_invariant)

subsection \<open>Finding a request after a change\<close>

lemma find_map_other:
  assumes "\<And>q. q \<in> set qs \<Longrightarrow> P (g q) = P q" "\<And>q. q \<in> set qs \<Longrightarrow> P q \<Longrightarrow> g q = q"
  shows "List.find P (map g qs) = List.find P qs"
  using assms by (induction qs) auto

lemma find_changed:
  assumes inv: "store_invariant st" and found: "find_request organization i st = Some r"
    and keeps: "mr_id (f r) = mr_id r" "mr_organization (f r) = mr_organization r"
  shows "find_request organization i (change_request organization i f e st) = Some (f r)"
proof -
  have "List.find (\<lambda>r. mr_id r = i \<and> mr_organization r = organization)
      (map (\<lambda>r. if mr_id r = i \<and> mr_organization r = organization then f r else r) qs) = Some (f r)"
    if "List.find (\<lambda>r. mr_id r = i \<and> mr_organization r = organization) qs = Some r" for qs
    using that keeps by (induction qs) (auto split: if_splits)
  then show ?thesis using found by (simp add: find_request_def change_request_def)
qed

lemma find_unchanged:
  assumes inv: "store_invariant st" and other: "find_request org' j st = Some q" "(org', j) \<noteq> (organization, i)"
    and keeps: "find_request organization i st = Some r" "mr_id (f r) = mr_id r" "mr_organization (f r) = mr_organization r"
  shows "find_request org' j (change_request organization i f e st) = Some q"
proof -
  have dist: "distinct (map mr_id (ms_requests st))" using inv by (simp add: store_invariant_def)
  note r = find_request_SomeD [OF keeps(1)]
  have only: "p = r" if "p \<in> set (ms_requests st)" "mr_id p = i" for p
    using that r dist by (auto simp: distinct_map dest: inj_onD)
  have "List.find (\<lambda>r. mr_id r = j \<and> mr_organization r = org')
      (map (\<lambda>r. if mr_id r = i \<and> mr_organization r = organization then f r else r) (ms_requests st))
      = List.find (\<lambda>r. mr_id r = j \<and> mr_organization r = org') (ms_requests st)"
    by (rule find_map_other) (use only keeps other(2) in auto)
  then show ?thesis using other(1) by (simp add: find_request_def change_request_def)
qed

text \<open>A returned or rejected request stays as it is.\<close>

lemma find_after_submit:
  assumes "submit_request now account linked active inp st = Inr (st', i)" "find_request organization j st = Some q"
  shows "find_request organization j st' = Some q"
proof -
  obtain r where "ms_requests st' = ms_requests st @ [r]"
    using assms(1) by (auto simp: submit_request_def js_result Let_def)
  moreover have "List.find P (qs @ rs) = Some q" if "List.find P qs = Some q" for P qs rs and q :: maintenance_request
    using that by (induction qs) auto
  ultimately show ?thesis using assms(2) by (simp add: find_request_def)
qed

lemma dead_end_step:
  assumes inv: "store_invariant st" and found: "find_request organization j st = Some q"
    and dead: "mr_status q \<in> {Returned, Rejected}" and "maintenance_step st st'"
  shows "find_request organization j st' = Some q"
  using assms(4)
proof (cases rule: maintenance_step.cases)
  case Submitted
  then show ?thesis using found by (blast intro: find_after_submit)
next
  case (Reviewed now action actor category nt org' priority i)
  then obtain r status e where r: "find_request org' i st = Some r" "mr_status r = PendingApproval"
    and st': "st' = change_request org' i (reviewed now actor category priority (optional_text nt) status) e st"
    by (auto simp: review_request_def js_result manager_transition_Inr split: option.splits)
  have "(organization, j) \<noteq> (org', i)" using r found dead by auto
  then show ?thesis unfolding st' by (rule find_unchanged [OF inv found _ r(1)]) (simp_all add: reviewed_def)
next
  case (Worked now action actor org' i trade)
  then obtain r status e where r: "find_request org' i st = Some r" "mr_status r \<in> {Approved, InProgress}"
    and st': "st' = change_request org' i (worked now actor status) e st"
    by (auto simp: update_trade_status_def js_result trade_transition_Inr split: option.splits if_splits)
  have "(organization, j) \<noteq> (org', i)" using r found dead by auto
  then show ?thesis unfolding st' by (rule find_unchanged [OF inv found _ r(1)]) (simp_all add: worked_def)
next
  case (ClosedBy now actor org' i)
  then obtain r e where r: "find_request org' i st = Some r" "mr_status r = Completed"
    and st': "st' = change_request org' i (closed_by now actor) e st"
    by (auto simp: close_request_def split: option.splits if_splits)
  have "(organization, j) \<noteq> (org', i)" using r found dead by auto
  then show ?thesis unfolding st' by (rule find_unchanged [OF inv found _ r(1)]) (simp_all add: closed_by_def)
qed

lemma dead_end_path:
  assumes "maintenance_step\<^sup>*\<^sup>* st st'" "store_invariant st" "find_request organization j st = Some q"
    "mr_status q \<in> {Returned, Rejected}"
  shows "find_request organization j st' = Some q"
  using assms by (induction rule: rtranclp_induct) (auto intro: dead_end_step step_path_invariant)

text \<open>Each stage leads to the next one.\<close>

definition can_close :: "nat \<Rightarrow> nat \<Rightarrow> maintenance_store \<Rightarrow> bool" where
  "can_close organization i st \<longleftrightarrow>
     (\<exists>st' r'. maintenance_step\<^sup>*\<^sup>* st st' \<and> find_request organization i st' = Some r' \<and> mr_status r' = Closed)"

lemma can_close_after: "maintenance_step st st1 \<Longrightarrow> can_close organization i st1 \<Longrightarrow> can_close organization i st"
  unfolding can_close_def by (meson converse_rtranclp_into_rtranclp)

lemma completed_can_close:
  assumes "store_invariant st" "find_request organization i st = Some r" "mr_status r = Completed"
  shows "can_close organization i st"
proof -
  obtain e where "close_request 0 0 organization i st = Inr (change_request organization i (closed_by 0 0) e st)"
    using assms by (simp add: close_request_def)
  then have "maintenance_step st (change_request organization i (closed_by 0 0) e st)" by (rule maintenance_step.ClosedBy)
  moreover have "find_request organization i (change_request organization i (closed_by 0 0) e st) = Some (closed_by 0 0 r)"
    by (rule find_changed [OF assms(1,2)]) (simp_all add: closed_by_def)
  ultimately show ?thesis by (auto simp: can_close_def closed_by_def)
qed

lemma work_advances:
  assumes inv: "store_invariant st" and found: "find_request organization i st = Some r"
    and tr: "maintenance_trade_transition (mr_status r) action = Inr status"
  shows "\<exists>st1 r1. maintenance_step st st1 \<and> find_request organization i st1 = Some r1 \<and> mr_status r1 = status"
proof -
  have "mr_final_category r \<noteq> None"
    using recorded_in_store [OF inv find_request_SomeD(1) [OF found]] tr
    by (auto simp: request_recorded_def request_consistent_def trade_transition_Inr)
  then obtain trade where "mr_final_category r = Some trade" by blast
  then obtain e where "update_trade_status 0 action 0 organization i trade st
      = Inr (change_request organization i (worked 0 0 status) e st)"
    using found tr by (simp add: update_trade_status_def)
  then have "maintenance_step st (change_request organization i (worked 0 0 status) e st)" by (rule maintenance_step.Worked)
  moreover have "find_request organization i (change_request organization i (worked 0 0 status) e st) = Some (worked 0 0 status r)"
    by (rule find_changed [OF inv found]) (simp_all add: worked_def)
  ultimately show ?thesis by (auto simp: worked_def)
qed

lemma started_can_close:
  assumes "store_invariant st" "find_request organization i st = Some r" "mr_status r = InProgress"
  shows "can_close organization i st"
proof -
  have "maintenance_trade_transition (mr_status r) CompleteWork = Inr Completed" using assms(3) by (simp add: trade_transition_Inr)
  from work_advances [OF assms(1,2) this] show ?thesis
    using assms(1) by (blast intro: can_close_after completed_can_close maintenance_step_invariant)
qed

lemma approved_can_close:
  assumes "store_invariant st" "find_request organization i st = Some r" "mr_status r = Approved"
  shows "can_close organization i st"
proof -
  have "maintenance_trade_transition (mr_status r) StartWork = Inr InProgress" using assms(3) by (simp add: trade_transition_Inr)
  from work_advances [OF assms(1,2) this] show ?thesis
    using assms(1) by (blast intro: can_close_after started_can_close maintenance_step_invariant)
qed

lemma pending_can_close:
  assumes "store_invariant st" "find_request organization i st = Some r" "mr_status r = PendingApproval"
  shows "can_close organization i st"
proof -
  let ?f = "reviewed 0 0 Mechanical Regular None Approved"
  obtain e where "review_request 0 Approve 0 Mechanical None organization Regular i st = Inr (change_request organization i ?f e st)"
    using assms by (simp add: review_request_def maintenance_manager_transition_def)
  then have stp: "maintenance_step st (change_request organization i ?f e st)" by (rule maintenance_step.Reviewed)
  moreover have "find_request organization i (change_request organization i ?f e st) = Some (?f r)"
    by (rule find_changed [OF assms(1,2)]) (simp_all add: reviewed_def)
  ultimately show ?thesis
    using approved_can_close [OF maintenance_step_invariant [OF stp assms(1)]] by (auto simp: reviewed_def intro: can_close_after)
qed

subsection \<open>Properties\<close>

text \<open>A request of a small store, approved and in work: the input of the witnesses.\<close>

definition sample_request_input :: request_input where
  "sample_request_input = \<lparr>ri_department = None, ri_location = ''Hall 2'', ri_organization = 1, ri_problem = ''No power'',
     ri_priority = Urgent, ri_requester = 7, ri_category = Electrical\<rparr>"

definition sample_pending_request :: maintenance_request where
  "sample_pending_request = \<lparr>mr_id = 0, mr_organization = 1, mr_requester = 7, mr_requester_name = ''A'', mr_department = ''Press'',
     mr_location = ''Hall 2'', mr_problem = ''No power'', mr_suggested_category = Electrical,
     mr_requested_priority = Urgent, mr_final_category = None, mr_final_priority = None,
     mr_status = PendingApproval, mr_manager_note = None, mr_approved_by = None, mr_approved_at = None,
     mr_assigned_to = None, mr_started_at = None, mr_completed_at = None, mr_closed_at = None,
     mr_submitted_at = 5, mr_updated_at = 5, mr_updated_by = 7, mr_row_version = 1\<rparr>"

definition sample_store :: maintenance_store where
  "sample_store = \<lparr>ms_requests = [sample_pending_request],
     ms_events = [\<lparr>re_request = 0, re_organization = 1, re_action = ''Submitted'', re_from = None, re_to = PendingApproval,
       re_category = Some Electrical, re_priority = Some Urgent, re_note = None, re_actor = 7\<rparr>], ms_next_id = 1\<rparr>"

lemma sample_store_reachable: "reachable_store sample_store"
proof -
  have "submit_request 5 (Some \<lparr>ua_email = ''a@b'', ua_name = ''A'', ua_role = None\<rparr>) [''Press''] [] sample_request_input empty_store
      = Inr (sample_store, 0)"
    by code_simp
  then show ?thesis by (blast intro: reachable_store.intros maintenance_step.Submitted)
qed

text \<open>C5: In every store the operations can lead to, the events of a request form a chain of the changes of
  status the rules allow, from its submission to the status it has now; its row version is the number of
  these events, and the columns that are filled in are those of its status: a final category once it was
  reviewed, an approval time only if it was approved, a worker and a start time only if work has begun, a
  completion and a closing time only if it was completed and closed.\<close>

theorem reachable_request_history:
  assumes "reachable_store st" "r \<in> set (ms_requests st)"
  shows "status_path None (request_history (mr_id r) st) (mr_status r)
    \<and> mr_row_version r = length (request_history (mr_id r) st) \<and> request_consistent r"
  using recorded_in_store [OF reachable_invariant [OF assms(1)] assms(2)] by (simp add: request_recorded_def)

theorem reachable_request_history_witness:
  "status_path None (request_history 0 sample_store) PendingApproval"
  using reachable_request_history [OF sample_store_reachable, of sample_pending_request]
  by (simp add: sample_store_def sample_pending_request_def)

text \<open>C27: From every reachable store, some sequence of operations closes a request exactly if it has not been
  returned or rejected: a pending, approved, started or completed request can always be brought to its
  end, while for a returned or rejected one no operation leads anywhere.\<close>

theorem closing_is_possible_iff:
  assumes "reachable_store st" "find_request organization i st = Some r"
  shows "can_close organization i st \<longleftrightarrow> mr_status r \<notin> {Returned, Rejected}"
proof
  assume "can_close organization i st"
  then show "mr_status r \<notin> {Returned, Rejected}"
    using dead_end_path [OF _ reachable_invariant [OF assms(1)] assms(2)]
    by (fastforce simp: can_close_def)
next
  assume live: "mr_status r \<notin> {Returned, Rejected}"
  note inv = reachable_invariant [OF assms(1)]
  show "can_close organization i st"
  proof (cases "mr_status r")
    case Closed
    then show ?thesis using assms(2) by (auto simp: can_close_def)
  qed (use live inv assms(2) pending_can_close approved_can_close started_can_close completed_can_close in auto)
qed

theorem closing_is_possible_iff_witness: "can_close 1 0 sample_store"
proof -
  have "find_request 1 0 sample_store = Some sample_pending_request"
    by (simp add: find_request_def sample_store_def sample_pending_request_def)
  then show ?thesis
    using closing_is_possible_iff [OF sample_store_reachable, of 1 0 sample_pending_request]
    by (simp add: sample_pending_request_def)
qed

interpretation requests: comparator request_order
  by unfold_locales (auto simp: request_order_def split: if_splits)

text \<open>The list of a trade holds exactly the requests of the organization that the visibility rule shows to
  that trade, the closed ones left out; it is ordered with the urgent requests first and, among requests
  of one priority, a later submission before an earlier one.\<close>

theorem trade_list_is_visible_open_work:
  "set (list_requests organization None (TradeScope trade) st)
      = {r \<in> set (ms_requests st). mr_organization r = organization \<and> mr_status r \<noteq> Closed
          \<and> maintenance_request_is_visible_to same_text r \<lparr>rv_department = None, rv_manager = False, rv_trade = Some trade\<rparr>}
   \<and> sorted_wrt (\<lambda>a b. \<not> request_order b a < 0) (list_requests organization None (TradeScope trade) st)"
proof -
  have "mr_status r \<in> {Approved, InProgress, Completed} \<longleftrightarrow>
      mr_status r \<notin> {PendingApproval, Returned, Rejected} \<and> mr_status r \<noteq> Closed" for r
    by (cases "mr_status r") auto
  then show ?thesis
    unfolding list_requests_def
    by (auto simp: in_scope_def maintenance_request_is_visible_to_def intro: requests.sorted_sort_by)
qed

end
