(* ===== verification/Refresh_Worker.thy ===== *)
theory Refresh_Worker
  imports JS_Prelude
begin

section \<open>The durable refresh worker\<close>

text \<open>
  \<^verbatim>\<open>packages/runtime/src/durable-refresh-worker.ts\<close>, the queue of
  \<^verbatim>\<open>packages/db/src/dashboard-refresh-queue.ts\<close> and the version script of
  \<^verbatim>\<open>packages/runtime/src/redis-acceleration.ts\<close>: a change queues a rebuild of the dashboard, a worker
  claims it and publishes the next version of the read model with an event, and the events
  are delivered to Redis. The store is the tables of the schema \<open>derived\<close>. A rebuild is one
  transaction, hence one function; the delivery of an event is two transactions with the
  delivery between them, hence two functions, between which other workers act. The rows other
  transactions hold (\<open>FOR UPDATE SKIP LOCKED\<close>), the advisory lock, the outcome of a rebuild or
  a delivery and \<open>now()\<close> are arguments. Identifiers and random keys are fresh numbers; times are
  milliseconds.
\<close>

subsection \<open>Data\<close>

datatype job_status = JobPending | JobRunning | JobComplete | JobFailed

datatype attempt_status = AttemptRunning | AttemptComplete | AttemptFailed

record refresh_job =
  rj_id :: nat
  rj_organization :: nat
  rj_queue_key :: string
  rj_status :: job_status
  rj_run_after :: int
  rj_attempts :: nat
  rj_created_at :: int
  rj_force_full :: bool
  rj_locked_at :: "int option"
  rj_locked_by :: "string option"
  rj_started_at :: "int option"
  rj_completed_at :: "int option"
  rj_last_duration :: "int option"
  rj_last_version :: "nat option"
  rj_last_error :: "string option"
  rj_updated_at :: int

record job_attempt =
  ja_organization :: nat
  ja_job :: nat
  ja_attempt :: nat
  ja_worker :: string
  ja_status :: attempt_status
  ja_started_at :: int
  ja_completed_at :: "int option"
  ja_duration :: "int option"
  ja_version :: "nat option"
  ja_error :: "string option"

record read_model =
  rm_organization :: nat
  rm_version :: nat
  rm_payload :: string
  rm_watermark :: string

text \<open>The version an event carries is \<open>payload.version\<close>; a request for a refresh has none.\<close>

record outbox_event =
  oe_id :: nat
  oe_organization :: "nat option"
  oe_topic :: string
  oe_aggregate :: "nat option"
  oe_version :: "nat option"
  oe_key :: string
  oe_occurred_at :: int
  oe_available_at :: int
  oe_published_at :: "int option"
  oe_attempts :: nat
  oe_last_error :: "string option"
  oe_locked_at :: "int option"
  oe_locked_by :: "string option"

text \<open>\<open>rs_models\<close> is the read models kept; all of them were published by the worker, none comes from before the
  migration that split them into floors. \<open>rs_redis\<close> is the version Redis holds for an organization, 0 for none, and \<open>rs_messages\<close> what was
  published on the channel, the last first.\<close>

record refresh_store =
  rs_jobs :: "refresh_job list"
  rs_attempts :: "job_attempt list"
  rs_models :: "read_model list"
  rs_watermarks :: "(nat \<times> nat) list"
  rs_outbox :: "outbox_event list"
  rs_next_id :: nat
  rs_redis :: "nat \<Rightarrow> nat"
  rs_messages :: "outbox_event list"

record worker_settings =
  ws_worker :: string
  ws_organization :: "nat option"
  ws_max_attempts :: nat
  ws_retry_delay :: int

definition in_organization :: "worker_settings \<Rightarrow> nat option \<Rightarrow> bool" where
  "in_organization s org \<longleftrightarrow> (case ws_organization s of None \<Rightarrow> True | Some i \<Rightarrow> org = Some i)"

subsection \<open>Queueing a refresh\<close>

definition job_order :: "refresh_job \<Rightarrow> refresh_job \<Rightarrow> int" where
  "job_order a b =
     (if rj_run_after a \<noteq> rj_run_after b then rj_run_after a - rj_run_after b
      else if rj_created_at a \<noteq> rj_created_at b then rj_created_at a - rj_created_at b
      else int (rj_id a) - int (rj_id b))"

definition first_row :: "('a \<Rightarrow> 'a \<Rightarrow> int) \<Rightarrow> ('a \<Rightarrow> bool) \<Rightarrow> 'a list \<Rightarrow> 'a option" where
  "first_row order P rows = (case sort_by order (filter P rows) of [] \<Rightarrow> None | r # _ \<Rightarrow> Some r)"

definition coalescable_job :: "nat \<Rightarrow> nat list \<Rightarrow> refresh_job \<Rightarrow> bool" where
  "coalescable_job organization held job \<longleftrightarrow> rj_organization job = organization \<and> rj_status job = JobPending
     \<and> (rj_queue_key job = ''dashboard'' \<or> starts_with ''dashboard:'' (rj_queue_key job)) \<and> rj_id job \<notin> set held"

definition new_job :: "int \<Rightarrow> nat \<Rightarrow> nat \<Rightarrow> refresh_job" where
  "new_job now organization i = \<lparr>rj_id = i, rj_organization = organization,
     rj_queue_key = ''dashboard:refresh:'' @ show_nat i, rj_status = JobPending, rj_run_after = now, rj_attempts = 0,
     rj_created_at = now, rj_force_full = False, rj_locked_at = None, rj_locked_by = None, rj_started_at = None,
     rj_completed_at = None, rj_last_duration = None, rj_last_version = None, rj_last_error = None, rj_updated_at = now\<rparr>"

definition new_event :: "int \<Rightarrow> nat \<Rightarrow> nat \<Rightarrow> string \<Rightarrow> nat \<Rightarrow> nat option \<Rightarrow> string \<Rightarrow> outbox_event" where
  "new_event now i organization topic aggregate version key = \<lparr>oe_id = i, oe_organization = Some organization, oe_topic = topic,
     oe_aggregate = Some aggregate, oe_version = version, oe_key = key, oe_occurred_at = now, oe_available_at = now,
     oe_published_at = None, oe_attempts = 0, oe_last_error = None, oe_locked_at = None, oe_locked_by = None\<rparr>"

record queue_result =
  qr_job :: nat
  qr_queued :: bool
  qr_skipped :: bool

definition queue_dashboard_refresh ::
  "int \<Rightarrow> nat list \<Rightarrow> nat \<Rightarrow> refresh_store \<Rightarrow> refresh_store \<times> queue_result" where
  "queue_dashboard_refresh now held organization st =
     (case first_row job_order (coalescable_job organization held) (rs_jobs st) of
        Some job \<Rightarrow> (st, \<lparr>qr_job = rj_id job, qr_queued = False, qr_skipped = True\<rparr>)
      | None \<Rightarrow> let i = rs_next_id st in
          (st\<lparr>rs_jobs := rs_jobs st @ [new_job now organization i],
              rs_outbox := rs_outbox st @ [new_event now (i + 1) organization ''dashboard.refresh.requested'' i None (show_nat (i + 2))],
              rs_next_id := i + 3\<rparr>,
           \<lparr>qr_job = i, qr_queued = True, qr_skipped = False\<rparr>))"

subsection \<open>A rebuild\<close>

definition claimable_job :: "worker_settings \<Rightarrow> int \<Rightarrow> nat list \<Rightarrow> refresh_job \<Rightarrow> bool" where
  "claimable_job s now held job \<longleftrightarrow> rj_status job = JobPending \<and> rj_run_after job \<le> now
     \<and> in_organization s (Some (rj_organization job)) \<and> rj_id job \<notin> set held"

definition update_job :: "nat \<Rightarrow> (refresh_job \<Rightarrow> refresh_job) \<Rightarrow> refresh_store \<Rightarrow> refresh_store" where
  "update_job i f st = st\<lparr>rs_jobs := map (\<lambda>j. if rj_id j = i then f j else j) (rs_jobs st)\<rparr>"

definition update_attempt :: "nat \<Rightarrow> nat \<Rightarrow> (job_attempt \<Rightarrow> job_attempt) \<Rightarrow> refresh_store \<Rightarrow> refresh_store" where
  "update_attempt i n f st =
     st\<lparr>rs_attempts := map (\<lambda>a. if ja_job a = i \<and> ja_attempt a = n then f a else a) (rs_attempts st)\<rparr>"

definition started_job :: "worker_settings \<Rightarrow> int \<Rightarrow> nat \<Rightarrow> refresh_job \<Rightarrow> refresh_job" where
  "started_job s now attempt j = j\<lparr>rj_status := JobRunning, rj_attempts := attempt, rj_locked_at := Some now,
     rj_locked_by := Some (ws_worker s), rj_started_at := Some now, rj_completed_at := None, rj_updated_at := now\<rparr>"

definition new_attempt :: "worker_settings \<Rightarrow> int \<Rightarrow> refresh_job \<Rightarrow> job_attempt" where
  "new_attempt s now job = \<lparr>ja_organization = rj_organization job, ja_job = rj_id job,
     ja_attempt = rj_attempts job + 1, ja_worker = ws_worker s, ja_status = AttemptRunning, ja_started_at = now,
     ja_completed_at = None, ja_duration = None, ja_version = None, ja_error = None\<rparr>"

definition start_attempt :: "worker_settings \<Rightarrow> int \<Rightarrow> refresh_job \<Rightarrow> refresh_store \<Rightarrow> refresh_store" where
  "start_attempt s now job st =
     update_job (rj_id job) (started_job s now (rj_attempts job + 1))
       (st\<lparr>rs_attempts := rs_attempts st @ [new_attempt s now job]\<rparr>)"

definition organization_version :: "refresh_store \<Rightarrow> nat \<Rightarrow> nat" where
  "organization_version st org = (case map_of (rs_watermarks st) org of None \<Rightarrow> 0 | Some v \<Rightarrow> v)"

definition add_event :: "outbox_event \<Rightarrow> refresh_store \<Rightarrow> refresh_store" where
  "add_event e st = (if oe_key e \<in> oe_key ` set (rs_outbox st) then st
     else st\<lparr>rs_outbox := rs_outbox st @ [e], rs_next_id := rs_next_id st + 1\<rparr>)"

definition version_key :: "nat \<Rightarrow> nat \<Rightarrow> string" where
  "version_key org version = ''dashboard-read-model:'' @ show_nat org @ '':'' @ show_nat version"

text \<open>\<open>prune_dashboard_history\<close> of the database keeps the two latest versions of the organization and deletes the
  oldest of the others, at most \<open>batch\<close> of them. A version occurs once in an organization.\<close>

definition prune_dashboard_history :: "nat \<Rightarrow> nat \<Rightarrow> refresh_store \<Rightarrow> refresh_store" where
  "prune_dashboard_history org batch st =
     (let versions = map rm_version (filter (\<lambda>m. rm_organization m = org) (rs_models st));
          kept = take 2 (rev (sort versions));
          deleted = take batch (sort (filter (\<lambda>v. v \<notin> set kept) versions))
      in st\<lparr>rs_models := filter (\<lambda>m. \<not> (rm_organization m = org \<and> rm_version m \<in> set deleted)) (rs_models st)\<rparr>)"

text \<open>The rebuild that succeeds: \<open>built\<close> is the payload stored and the source watermark.\<close>

definition publish_model :: "int \<Rightarrow> refresh_job \<Rightarrow> string \<times> string \<Rightarrow> refresh_store \<Rightarrow> refresh_store" where
  "publish_model now job built st =
     (let org = rj_organization job; version = organization_version st org + 1 in
      prune_dashboard_history org 5
        (add_event (new_event now (rs_next_id st) org ''dashboard.read_model.updated'' (rj_id job) (Some version) (version_key org version))
          (st\<lparr>rs_models := rs_models st @ [\<lparr>rm_organization = org, rm_version = version, rm_payload = fst built, rm_watermark = snd built\<rparr>],
              rs_watermarks := put org version (rs_watermarks st)\<rparr>)))"

definition completed_job :: "int \<Rightarrow> int \<Rightarrow> nat \<Rightarrow> refresh_job \<Rightarrow> refresh_job" where
  "completed_job now duration version j = j\<lparr>rj_status := JobComplete, rj_locked_at := None, rj_locked_by := None,
     rj_completed_at := Some now, rj_last_duration := Some duration, rj_last_version := Some version,
     rj_last_error := None, rj_updated_at := now\<rparr>"

definition complete_attempt :: "int \<Rightarrow> int \<Rightarrow> refresh_job \<Rightarrow> nat \<Rightarrow> refresh_store \<Rightarrow> refresh_store" where
  "complete_attempt now duration job version st =
     update_attempt (rj_id job) (rj_attempts job + 1) (\<lambda>a. a\<lparr>ja_status := AttemptComplete, ja_completed_at := Some now,
         ja_duration := Some duration, ja_version := Some version\<rparr>)
       (update_job (rj_id job) (completed_job now duration version) st)"

definition failed_job :: "worker_settings \<Rightarrow> int \<Rightarrow> int \<Rightarrow> nat \<Rightarrow> string \<Rightarrow> refresh_job \<Rightarrow> refresh_job" where
  "failed_job s now duration attempt message j = j\<lparr>rj_status := (if ws_max_attempts s \<le> attempt then JobFailed else JobPending),
     rj_run_after := now + ws_retry_delay s, rj_locked_at := None, rj_locked_by := None, rj_completed_at := Some now,
     rj_last_duration := Some duration, rj_last_error := Some message, rj_updated_at := now\<rparr>"

definition fail_attempt :: "worker_settings \<Rightarrow> int \<Rightarrow> int \<Rightarrow> refresh_job \<Rightarrow> string \<Rightarrow> refresh_store \<Rightarrow> refresh_store" where
  "fail_attempt s now duration job message st =
     update_attempt (rj_id job) (rj_attempts job + 1) (\<lambda>a. a\<lparr>ja_status := AttemptFailed, ja_completed_at := Some now,
         ja_duration := Some duration, ja_error := Some message\<rparr>)
       (update_job (rj_id job) (failed_job s now duration (rj_attempts job + 1) message) st)"

datatype refresh_result =
    RefreshIdle
  | RefreshProcessed nat nat nat nat
  | RefreshRetrying nat string nat nat
  | RefreshFailed nat string nat nat

text \<open>\<open>outcome\<close> is the value of the part after the savepoint: the result of the build or the error that
  rolls back to it. An error outside that part rolls the whole transaction back and leaves the
  store as it is.\<close>

definition run_refresh_once ::
  "worker_settings \<Rightarrow> int \<Rightarrow> int \<Rightarrow> nat list \<Rightarrow> bool \<Rightarrow> (string \<times> string) js_result \<Rightarrow> refresh_store
    \<Rightarrow> refresh_store \<times> refresh_result" where
  "run_refresh_once s now duration held acquired outcome st =
     (case first_row job_order (claimable_job s now held) (rs_jobs st) of
        None \<Rightarrow> (st, RefreshIdle)
      | Some job \<Rightarrow>
          if \<not> acquired then (st, RefreshIdle)
          else let started = start_attempt s now job st; attempt = rj_attempts job + 1; org = rj_organization job in
            (case outcome of
               Inr built \<Rightarrow>
                 let version = organization_version st org + 1 in
                 (complete_attempt now duration job version (publish_model now job built started),
                  RefreshProcessed attempt (rj_id job) org version)
             | Inl message \<Rightarrow>
                 (fail_attempt s now duration job message started,
                  (if ws_max_attempts s \<le> attempt then RefreshFailed else RefreshRetrying) attempt message (rj_id job) org)))"

subsection \<open>Delivery of the events\<close>

definition event_order :: "outbox_event \<Rightarrow> outbox_event \<Rightarrow> int" where
  "event_order a b =
     (if oe_available_at a \<noteq> oe_available_at b then oe_available_at a - oe_available_at b
      else if oe_occurred_at a \<noteq> oe_occurred_at b then oe_occurred_at a - oe_occurred_at b
      else int (oe_id a) - int (oe_id b))"

definition publishable_event :: "worker_settings \<Rightarrow> int \<Rightarrow> outbox_event \<Rightarrow> bool" where
  "publishable_event s now e \<longleftrightarrow> oe_published_at e = None \<and> oe_available_at e \<le> now \<and> in_organization s (oe_organization e)
     \<and> (case oe_locked_at e of None \<Rightarrow> True | Some t \<Rightarrow> t < now - 5 * 60 * 1000)"

definition update_event :: "nat \<Rightarrow> (outbox_event \<Rightarrow> outbox_event) \<Rightarrow> refresh_store \<Rightarrow> refresh_store" where
  "update_event i f st = st\<lparr>rs_outbox := map (\<lambda>e. if oe_id e = i then f e else e) (rs_outbox st)\<rparr>"

text \<open>The event as claimed, before it was locked.\<close>

definition claim_event ::
  "worker_settings \<Rightarrow> int \<Rightarrow> nat list \<Rightarrow> refresh_store \<Rightarrow> refresh_store \<times> outbox_event option" where
  "claim_event s now held st =
     (case first_row event_order (\<lambda>e. publishable_event s now e \<and> oe_id e \<notin> set held) (rs_outbox st) of
        None \<Rightarrow> (st, None)
      | Some e \<Rightarrow> (update_event (oe_id e) (\<lambda>e. e\<lparr>oe_locked_at := Some now, oe_locked_by := Some (ws_worker s),
          oe_attempts := oe_attempts e + 1\<rparr>) st, Some e))"

text \<open>The version script: Redis keeps the greater one.\<close>

definition monotonic_version :: "nat \<Rightarrow> nat \<Rightarrow> nat" where
  "monotonic_version current incoming = (if current < incoming then incoming else current)"

definition store_version :: "outbox_event \<Rightarrow> refresh_store \<Rightarrow> refresh_store" where
  "store_version e st =
     (case (oe_organization e, oe_version e) of
        (Some org, Some v) \<Rightarrow>
          if oe_topic e = ''dashboard.read_model.updated''
          then st\<lparr>rs_redis := (rs_redis st)(org := monotonic_version (rs_redis st org) v)\<rparr> else st
      | _ \<Rightarrow> st)"

definition publish_invalidation :: "outbox_event \<Rightarrow> refresh_store \<Rightarrow> refresh_store" where
  "publish_invalidation e st = (let st' = store_version e st in st'\<lparr>rs_messages := e # rs_messages st'\<rparr>)"

text \<open>A delivery succeeds, fails before Redis was reached or fails after the version was stored.\<close>

datatype delivery = Delivered | FailedEarly string | FailedLate string

datatype flush_result = FlushIdle | FlushPublished nat | FlushRetrying string nat

definition retry_event :: "worker_settings \<Rightarrow> int \<Rightarrow> string \<Rightarrow> nat \<Rightarrow> refresh_store \<Rightarrow> refresh_store" where
  "retry_event s now message i st =
     update_event i (\<lambda>e. e\<lparr>oe_available_at := now + ws_retry_delay s, oe_locked_at := None, oe_locked_by := None,
       oe_last_error := Some message\<rparr>) st"

definition deliver_event ::
  "worker_settings \<Rightarrow> int \<Rightarrow> delivery \<Rightarrow> outbox_event \<Rightarrow> refresh_store \<Rightarrow> refresh_store \<times> flush_result" where
  "deliver_event s now outcome e st =
     (case outcome of
        Delivered \<Rightarrow>
          (update_event (oe_id e) (\<lambda>e. e\<lparr>oe_published_at := Some now, oe_locked_at := None, oe_locked_by := None,
             oe_last_error := None\<rparr>) (publish_invalidation e st), FlushPublished (oe_id e))
      | FailedEarly message \<Rightarrow> (retry_event s now message (oe_id e) st, FlushRetrying message (oe_id e))
      | FailedLate message \<Rightarrow> (retry_event s now message (oe_id e) (store_version e st), FlushRetrying message (oe_id e)))"

text \<open>The claim is made at \<open>now\<close>, the delivery ends at \<open>later\<close>.\<close>

definition flush_outbox_once ::
  "worker_settings \<Rightarrow> int \<Rightarrow> int \<Rightarrow> (outbox_event \<Rightarrow> delivery) \<Rightarrow> refresh_store \<Rightarrow> refresh_store \<times> flush_result" where
  "flush_outbox_once s now later deliver st =
     (case claim_event s now [] st of
        (st', None) \<Rightarrow> (st', FlushIdle)
      | (st', Some e) \<Rightarrow> deliver_event s later (deliver e) e st')"

text \<open>The loop of \<open>flushOutbox(limit)\<close>: the numbers published and to be tried again; \<open>clock\<close> is the time of each claim
  and each end of a delivery.\<close>

fun flush_loop ::
  "worker_settings \<Rightarrow> (nat \<Rightarrow> int) \<Rightarrow> (outbox_event \<Rightarrow> delivery) \<Rightarrow> nat \<Rightarrow> nat \<Rightarrow> refresh_store \<Rightarrow> nat \<Rightarrow> nat
    \<Rightarrow> refresh_store \<times> nat \<times> nat" where
  "flush_loop s clock deliver t 0 st published retrying = (st, published, retrying)"
| "flush_loop s clock deliver t (Suc n) st published retrying =
     (case flush_outbox_once s (clock t) (clock (t + 1)) deliver st of
        (st', FlushIdle) \<Rightarrow> (st', published, retrying)
      | (st', FlushPublished i) \<Rightarrow> flush_loop s clock deliver (t + 2) n st' (published + 1) retrying
      | (st', FlushRetrying m i) \<Rightarrow> flush_loop s clock deliver (t + 2) n st' published (retrying + 1))"

definition flush_outbox ::
  "worker_settings \<Rightarrow> (nat \<Rightarrow> int) \<Rightarrow> (outbox_event \<Rightarrow> delivery) \<Rightarrow> nat \<Rightarrow> refresh_store \<Rightarrow> refresh_store \<times> nat \<times> nat" where
  "flush_outbox s clock deliver limit st = flush_loop s clock deliver 0 limit st 0 0"

subsection \<open>Steps\<close>

text \<open>All workers have the same maximum of attempts \<open>limit\<close>. The state is the store and the events that workers have
  claimed and not yet settled; a worker may crash, and Redis may lose its data if \<open>lossy\<close>.\<close>

inductive runtime_step ::
  "bool \<Rightarrow> nat \<Rightarrow> refresh_store \<times> outbox_event list \<Rightarrow> refresh_store \<times> outbox_event list \<Rightarrow> bool"
  for lossy :: bool and limit :: nat where
  Queued: "queue_dashboard_refresh now held org st = (st', r) \<Longrightarrow> runtime_step lossy limit (st, flight) (st', flight)"
| Refreshed: "ws_max_attempts s = limit \<Longrightarrow> run_refresh_once s now duration held acquired outcome st = (st', res)
    \<Longrightarrow> runtime_step lossy limit (st, flight) (st', flight)"
| Claimed: "claim_event s now held st = (st', Some e) \<Longrightarrow> runtime_step lossy limit (st, flight) (st', e # flight)"
| Settled: "e \<in> set flight \<Longrightarrow> deliver_event s now outcome e st = (st', res)
    \<Longrightarrow> runtime_step lossy limit (st, flight) (st', remove1 e flight)"
| Crashed: "e \<in> set flight \<Longrightarrow> runtime_step lossy limit (st, flight) (st, remove1 e flight)"
| Lost: "lossy \<Longrightarrow> runtime_step lossy limit (st, flight) (st\<lparr>rs_redis := \<lambda>_. 0\<rparr>, flight)"

definition empty_runtime :: refresh_store where
  "empty_runtime = \<lparr>rs_jobs = [], rs_attempts = [], rs_models = [], rs_watermarks = [], rs_outbox = [], rs_next_id = 0,
     rs_redis = (\<lambda>_. 0), rs_messages = []\<rparr>"

inductive reachable_runtime :: "bool \<Rightarrow> nat \<Rightarrow> refresh_store \<times> outbox_event list \<Rightarrow> bool"
  for lossy :: bool and limit :: nat where
  runtime_start: "reachable_runtime lossy limit (empty_runtime, [])"
| runtime_next: "reachable_runtime lossy limit c \<Longrightarrow> runtime_step lossy limit c c' \<Longrightarrow> reachable_runtime lossy limit c'"

subsection \<open>Keys of events\<close>

lemma version_key_inj: "version_key org v = version_key org' v' \<longleftrightarrow> org = org' \<and> v = v'"
proof
  assume "version_key org v = version_key org' v'"
  then have eq: "show_nat org @ '':'' @ show_nat v = show_nat org' @ '':'' @ show_nat v'" by (simp add: version_key_def)
  have tw: "takeWhile is_digit (show_nat n @ '':'' @ s) = show_nat n" for n s
    using show_nat_digits by (subst takeWhile_append2) (auto simp: is_digit_def)
  have "show_nat org = show_nat org'" using tw eq by metis
  then show "org = org' \<and> v = v'" using eq by (simp add: show_nat_inj)
qed simp

lemma version_key_not_number: "version_key org v \<noteq> show_nat n"
proof
  assume "version_key org v = show_nat n"
  then have "is_digit (CHR ''d'')" using show_nat_digits [of "CHR ''d''" n] by (metis list.set_intros(1) version_key_def append_Cons)
  then show False by (simp add: is_digit_def)
qed

lemma first_row_SomeD: "first_row order P rows = Some r \<Longrightarrow> r \<in> set rows \<and> P r"
proof -
  assume r: "first_row order P rows = Some r"
  then have "r \<in> set (sort_by order (filter P rows))"
    by (cases "sort_by order (filter P rows)") (simp_all add: first_row_def del: set_sort_by)
  then show "r \<in> set rows \<and> P r" by simp
qed

lemma first_row_None: "first_row order P rows = None \<longleftrightarrow> (\<forall>r \<in> set rows. \<not> P r)"
proof -
  have "first_row order P rows = None \<longleftrightarrow> sort_by order (filter P rows) = []"
    by (auto simp: first_row_def split: list.splits)
  also have "\<dots> \<longleftrightarrow> set (filter P rows) = {}" by (metis set_sort_by set_empty)
  finally show ?thesis by auto
qed

subsection \<open>Versions and their events\<close>

definition updates_of :: "nat \<Rightarrow> refresh_store \<Rightarrow> outbox_event list" where
  "updates_of org st =
     filter (\<lambda>e. oe_topic e = ''dashboard.read_model.updated'' \<and> oe_organization e = Some org) (rs_outbox st)"

definition models_of :: "nat \<Rightarrow> refresh_store \<Rightarrow> read_model list" where
  "models_of org st = filter (\<lambda>m. rm_organization m = org) (rs_models st)"

text \<open>The versions that are kept when the latest one is \<open>v\<close>.\<close>

definition retained :: "nat \<Rightarrow> nat list" where
  "retained v = [max 1 (v - 1)..<Suc v]"

lemma prune_after_publication:
  assumes "map rm_version (models_of org st) = retained v @ [Suc v]"
  shows "map rm_version (models_of org (prune_dashboard_history org 5 st)) = retained (Suc v)"
proof -
  let ?vs = "map rm_version (models_of org st)"
  define deleted where "deleted = take 5 (sort (filter (\<lambda>v. v \<notin> set (take 2 (rev (sort ?vs)))) ?vs))"
  have "models_of org (prune_dashboard_history org 5 st)
      = filter (\<lambda>m. rm_organization m = org) (filter (\<lambda>m. \<not> (rm_organization m = org \<and> rm_version m \<in> set deleted)) (rs_models st))"
    by (simp add: prune_dashboard_history_def Let_def models_of_def deleted_def)
  also have "\<dots> = filter (\<lambda>m. rm_version m \<notin> set deleted) (models_of org st)"
    unfolding models_of_def filter_filter by (rule filter_cong) auto
  finally have "map rm_version (models_of org (prune_dashboard_history org 5 st)) = filter (\<lambda>v. v \<notin> set deleted) ?vs"
    by (simp add: filter_map comp_def)
  also have "\<dots> = retained (Suc v)"
  proof (cases "v < 2")
    case True
    then have "v = 0 \<or> v = 1" by auto
    moreover have "retained 0 = []" "retained 1 = [1]" "retained (Suc 0) = [1]" "retained 2 = [1, 2]" by (simp_all add: retained_def upt_rec numeral_2_eq_2)
    ultimately show ?thesis unfolding deleted_def assms by (auto simp: numeral_2_eq_2)
  next
    case False
    then obtain k where "v = Suc (Suc k)" by (intro that [of "v - 2"]) simp
    then have "retained v = [Suc k, Suc (Suc k)]" "retained (Suc v) = [Suc (Suc k), Suc (Suc (Suc k))]" "v = Suc (Suc k)"
      by (simp_all add: retained_def)
    then show ?thesis unfolding deleted_def assms by simp
  qed
  finally show ?thesis .
qed

lemma prune_other_organization:
  "q \<noteq> org \<Longrightarrow> models_of q (prune_dashboard_history org n st) = models_of q st"
  by (auto simp: prune_dashboard_history_def models_of_def Let_def intro: filter_cong)

lemma prune_simps [simp]:
  "rs_jobs (prune_dashboard_history org n st) = rs_jobs st" "rs_attempts (prune_dashboard_history org n st) = rs_attempts st"
  "rs_watermarks (prune_dashboard_history org n st) = rs_watermarks st" "rs_outbox (prune_dashboard_history org n st) = rs_outbox st"
  "rs_next_id (prune_dashboard_history org n st) = rs_next_id st" "rs_redis (prune_dashboard_history org n st) = rs_redis st"
  "rs_messages (prune_dashboard_history org n st) = rs_messages st"
  by (simp_all add: prune_dashboard_history_def Let_def)

definition same_event :: "outbox_event \<Rightarrow> outbox_event \<Rightarrow> bool" where
  "same_event e f \<longleftrightarrow> oe_id e = oe_id f \<and> oe_organization e = oe_organization f \<and> oe_topic e = oe_topic f \<and> oe_version e = oe_version f"

definition event_known :: "refresh_store \<Rightarrow> outbox_event \<Rightarrow> bool" where
  "event_known st e \<longleftrightarrow>
     oe_topic e = ''dashboard.refresh.requested'' \<and> oe_version e = None \<and> (\<exists>n. oe_key e = show_nat n)
     \<or> (\<exists>org v. oe_topic e = ''dashboard.read_model.updated'' \<and> oe_organization e = Some org \<and> oe_version e = Some v
          \<and> oe_key e = version_key org v \<and> v \<le> organization_version st org)"

definition version_invariant :: "bool \<Rightarrow> refresh_store \<times> outbox_event list \<Rightarrow> bool" where
  "version_invariant lossy c \<longleftrightarrow> (case c of (st, flight) \<Rightarrow>
     (\<forall>org. map rm_version (models_of org st) = retained (organization_version st org))
     \<and> (\<forall>org. map oe_version (updates_of org st) = map Some [1..<Suc (organization_version st org)])
     \<and> distinct (map oe_id (rs_outbox st))
     \<and> (\<forall>e \<in> set (rs_outbox st). oe_id e < rs_next_id st \<and> event_known st e)
     \<and> (\<forall>f \<in> set flight. \<exists>e \<in> set (rs_outbox st). same_event e f)
     \<and> (\<forall>org. rs_redis st org \<le> organization_version st org)
     \<and> (\<not> lossy \<longrightarrow> (\<forall>org. \<forall>e \<in> set (updates_of org st). oe_published_at e \<noteq> None \<longrightarrow> the (oe_version e) \<le> rs_redis st org)))"

lemma version_invariantD:
  assumes "version_invariant lossy (st, flight)"
  shows "map rm_version (models_of org st) = retained (organization_version st org)"
    and "map oe_version (updates_of org st) = map Some [1..<Suc (organization_version st org)]"
    and "distinct (map oe_id (rs_outbox st))"
    and "e \<in> set (rs_outbox st) \<Longrightarrow> oe_id e < rs_next_id st"
    and "e \<in> set (rs_outbox st) \<Longrightarrow> event_known st e"
    and "f \<in> set flight \<Longrightarrow> \<exists>e \<in> set (rs_outbox st). same_event e f"
    and "rs_redis st org \<le> organization_version st org"
    and "\<not> lossy \<Longrightarrow> e \<in> set (updates_of org st) \<Longrightarrow> oe_published_at e \<noteq> None \<Longrightarrow> the (oe_version e) \<le> rs_redis st org"
  using assms unfolding version_invariant_def by blast+

lemma version_invariantI:
  assumes "\<And>org. map rm_version (models_of org st) = retained (organization_version st org)"
    and "\<And>org. map oe_version (updates_of org st) = map Some [1..<Suc (organization_version st org)]"
    and "distinct (map oe_id (rs_outbox st))"
    and "\<And>e. e \<in> set (rs_outbox st) \<Longrightarrow> oe_id e < rs_next_id st \<and> event_known st e"
    and "\<And>f. f \<in> set flight \<Longrightarrow> \<exists>e \<in> set (rs_outbox st). same_event e f"
    and "\<And>org. rs_redis st org \<le> organization_version st org"
    and "\<And>org e. \<not> lossy \<Longrightarrow> e \<in> set (updates_of org st) \<Longrightarrow> oe_published_at e \<noteq> None \<Longrightarrow> the (oe_version e) \<le> rs_redis st org"
  shows "version_invariant lossy (st, flight)"
  using assms unfolding version_invariant_def by blast

text \<open>The parts of the store the invariant reads.\<close>

lemma version_invariant_cong:
  assumes "version_invariant lossy (st, flight)" "rs_models st' = rs_models st" "rs_watermarks st' = rs_watermarks st"
    "rs_outbox st' = rs_outbox st" "rs_redis st' = rs_redis st" "rs_next_id st' = rs_next_id st" "set flight' \<subseteq> set flight"
  shows "version_invariant lossy (st', flight')"
  using assms by (auto simp: version_invariant_def models_of_def updates_of_def event_known_def organization_version_def)

text \<open>An event is changed in its bookkeeping columns.\<close>

lemma update_event_version_invariant:
  assumes inv: "version_invariant lossy (st, flight)"
    and f: "\<And>e. same_event (f e) e \<and> oe_key (f e) = oe_key e"
    and published: "\<And>e. e \<in> set (rs_outbox st) \<Longrightarrow> oe_id e = i \<Longrightarrow> oe_published_at (f e) \<noteq> oe_published_at e
      \<Longrightarrow> oe_topic e = ''dashboard.read_model.updated'' \<Longrightarrow> \<not> lossy \<Longrightarrow> the (oe_version e) \<le> rs_redis st (the (oe_organization e))"
  shows "version_invariant lossy (update_event i f st, flight)"
proof -
  define g where "g e = (if oe_id e = i then f e else e)" for e
  have g: "oe_id (g e) = oe_id e" "oe_organization (g e) = oe_organization e" "oe_topic (g e) = oe_topic e"
      "oe_version (g e) = oe_version e" "oe_key (g e) = oe_key e" for e
    using f by (auto simp: g_def same_event_def)
  have outbox: "rs_outbox (update_event i f st) = map g (rs_outbox st)" by (simp add: update_event_def g_def)
  have rest: "rs_models (update_event i f st) = rs_models st" "rs_watermarks (update_event i f st) = rs_watermarks st"
      "rs_redis (update_event i f st) = rs_redis st" "rs_next_id (update_event i f st) = rs_next_id st"
    by (simp_all add: update_event_def)
  have updates: "updates_of org (update_event i f st) = map g (updates_of org st)" for org
    by (simp add: updates_of_def outbox filter_map comp_def g)
  have known: "event_known (update_event i f st) (g e) = event_known st e" for e
    by (simp add: event_known_def g organization_version_def rest)
  have pub: "the (oe_version e) \<le> rs_redis st org"
    if "\<not> lossy" "e \<in> set (updates_of org st)" "oe_published_at (g e) \<noteq> None" for org e
  proof (cases "oe_published_at (g e) = oe_published_at e")
    case True
    then show ?thesis using that version_invariantD(8) [OF inv] by simp
  next
    case False
    then show ?thesis using that published [of e] by (auto simp: g_def updates_of_def split: if_splits)
  qed
  show ?thesis
  proof (rule version_invariantI)
    show "map rm_version (models_of org (update_event i f st)) = retained (organization_version (update_event i f st) org)" for org
      using version_invariantD(1) [OF inv, of org] by (simp add: models_of_def organization_version_def rest)
    show "map oe_version (updates_of org (update_event i f st)) = map Some [1..<Suc (organization_version (update_event i f st) org)]" for org
      using version_invariantD(2) [OF inv, of org] by (simp add: updates organization_version_def rest g comp_def)
    show "distinct (map oe_id (rs_outbox (update_event i f st)))"
      using version_invariantD(3) [OF inv] by (simp add: outbox g comp_def)
    show "oe_id e < rs_next_id (update_event i f st) \<and> event_known (update_event i f st) e"
      if "e \<in> set (rs_outbox (update_event i f st))" for e
      using that version_invariantD(4,5) [OF inv] by (auto simp: outbox rest g known)
    show "\<exists>e \<in> set (rs_outbox (update_event i f st)). same_event e q" if "q \<in> set flight" for q
      using version_invariantD(6) [OF inv that] by (auto simp: outbox same_event_def g)
    show "rs_redis (update_event i f st) org \<le> organization_version (update_event i f st) org" for org
      using version_invariantD(7) [OF inv, of org] by (simp add: rest organization_version_def)
    show "the (oe_version e) \<le> rs_redis (update_event i f st) org"
      if "\<not> lossy" "e \<in> set (updates_of org (update_event i f st))" "oe_published_at e \<noteq> None" for org e
      using that pub by (auto simp: updates rest g)
  qed
qed

lemma claim_version_invariant:
  assumes inv: "version_invariant lossy (st, flight)" and ok: "claim_event s now held st = (st', Some e)"
  shows "version_invariant lossy (st', e # flight)"
proof -
  have e: "e \<in> set (rs_outbox st)" and st': "st' = update_event (oe_id e)
      (\<lambda>e. e\<lparr>oe_locked_at := Some now, oe_locked_by := Some (ws_worker s), oe_attempts := oe_attempts e + 1\<rparr>) st"
    using ok by (auto simp: claim_event_def split: option.splits dest: first_row_SomeD)
  have "version_invariant lossy (st', flight)"
    unfolding st' by (rule update_event_version_invariant [OF inv]) (auto simp: same_event_def)
  moreover have "e\<lparr>oe_locked_at := Some now, oe_locked_by := Some (ws_worker s), oe_attempts := oe_attempts e + 1\<rparr> \<in> set (rs_outbox st')"
    using e by (auto simp: st' update_event_def image_iff intro!: bexI [of _ e])
  then have "\<exists>q \<in> set (rs_outbox st'). same_event q e"
    by (rule rev_bexI) (simp add: same_event_def)
  ultimately show ?thesis unfolding version_invariant_def by simp
qed

lemma store_version_simps [simp]:
  "rs_jobs (store_version e st) = rs_jobs st" "rs_attempts (store_version e st) = rs_attempts st"
  "rs_models (store_version e st) = rs_models st" "rs_watermarks (store_version e st) = rs_watermarks st"
  "rs_outbox (store_version e st) = rs_outbox st" "rs_next_id (store_version e st) = rs_next_id st"
  "rs_messages (store_version e st) = rs_messages st"
  by (auto simp: store_version_def split: option.splits)

lemma store_version_redis:
  "rs_redis (store_version e st) org =
     (if oe_topic e = ''dashboard.read_model.updated'' \<and> oe_organization e = Some org \<and> oe_version e \<noteq> None
      then max (rs_redis st org) (the (oe_version e)) else rs_redis st org)"
  by (auto simp: store_version_def monotonic_version_def split: option.splits)

lemma store_version_invariant:
  assumes inv: "version_invariant lossy (st, flight)" and e: "e \<in> set flight"
  shows "version_invariant lossy (store_version e st, flight)"
proof -
  obtain q where q: "q \<in> set (rs_outbox st)" "same_event q e" "event_known st q"
    using version_invariantD(5,6) [OF inv] e by blast
  have "rs_redis (store_version e st) org \<le> organization_version st org" for org
    using version_invariantD(7) [OF inv, of org] q(2,3) by (auto simp: store_version_redis event_known_def same_event_def)
  moreover have "rs_redis st org \<le> rs_redis (store_version e st) org" for org
    by (simp add: store_version_redis)
  moreover have "updates_of org (store_version e st) = updates_of org st" "models_of org (store_version e st) = models_of org st"
      "organization_version (store_version e st) org = organization_version st org"
      "event_known (store_version e st) q = event_known st q" for org q
    by (simp_all add: models_of_def updates_of_def organization_version_def event_known_def)
  ultimately show ?thesis
    using version_invariantD [OF inv] by (intro version_invariantI) (simp_all del: upt_Suc, blast intro: le_trans)
qed

lemma settle_version_invariant:
  assumes inv: "version_invariant lossy (st, flight)" and e: "e \<in> set flight"
    and ok: "deliver_event s now outcome e st = (st', res)"
  shows "version_invariant lossy (st', remove1 e flight)"
proof -
  have stored: "version_invariant lossy (store_version e st, flight)" by (rule store_version_invariant [OF inv e])
  have retry: "version_invariant lossy (retry_event s now m (oe_id e) q, flight)" if "version_invariant lossy (q, flight)" for m q
    unfolding retry_event_def by (rule update_event_version_invariant [OF that]) (auto simp: same_event_def)
  have "version_invariant lossy (st', flight)"
  proof (cases outcome)
    case Delivered
    have sent: "version_invariant lossy (publish_invalidation e st, flight)"
      unfolding publish_invalidation_def Let_def by (rule version_invariant_cong [OF stored]) simp_all
    have same: "the (oe_version q) \<le> rs_redis (publish_invalidation e st) (the (oe_organization q))"
      if q: "q \<in> set (rs_outbox (publish_invalidation e st))" "oe_id q = oe_id e" "oe_topic q = ''dashboard.read_model.updated''" for q
    proof -
      have q': "q \<in> set (rs_outbox st)" using q(1) by (simp add: publish_invalidation_def Let_def)
      obtain p where p: "p \<in> set (rs_outbox st)" "same_event p e" using version_invariantD(6) [OF inv e] by blast
      then have "p = q" using q' q(2) version_invariantD(3) [OF inv] by (metis distinct_map inj_onD same_event_def)
      moreover have "event_known st q" by (rule version_invariantD(5) [OF inv q'])
      ultimately show ?thesis using p(2) q(3)
        by (auto simp: publish_invalidation_def Let_def store_version_redis event_known_def same_event_def)
    qed
    show ?thesis using ok Delivered same
      by (auto simp: deliver_event_def same_event_def intro!: update_event_version_invariant [OF sent])
  qed (use ok retry [OF inv] retry [OF stored] in \<open>auto simp: deliver_event_def\<close>)
  then show ?thesis by (rule version_invariant_cong) (auto dest: in_set_remove1 [THEN iffD1] set_remove1_subset [THEN subsetD])
qed

text \<open>A rebuild publishes the next version.\<close>

lemma update_job_simps [simp]:
  "rs_attempts (update_job i f st) = rs_attempts st" "rs_models (update_job i f st) = rs_models st"
  "rs_watermarks (update_job i f st) = rs_watermarks st" "rs_outbox (update_job i f st) = rs_outbox st"
  "rs_next_id (update_job i f st) = rs_next_id st" "rs_redis (update_job i f st) = rs_redis st"
  by (simp_all add: update_job_def)

lemma update_attempt_simps [simp]:
  "rs_jobs (update_attempt i n f st) = rs_jobs st" "rs_models (update_attempt i n f st) = rs_models st"
  "rs_watermarks (update_attempt i n f st) = rs_watermarks st" "rs_outbox (update_attempt i n f st) = rs_outbox st"
  "rs_next_id (update_attempt i n f st) = rs_next_id st" "rs_redis (update_attempt i n f st) = rs_redis st"
  by (simp_all add: update_attempt_def)

lemma start_attempt_simps [simp]:
  "rs_models (start_attempt s now job st) = rs_models st" "rs_watermarks (start_attempt s now job st) = rs_watermarks st"
  "rs_outbox (start_attempt s now job st) = rs_outbox st" "rs_next_id (start_attempt s now job st) = rs_next_id st"
  "rs_redis (start_attempt s now job st) = rs_redis st"
  by (simp_all add: start_attempt_def)

lemma settled_attempt_simps [simp]:
  "rs_models (complete_attempt now d job v st) = rs_models st" "rs_watermarks (complete_attempt now d job v st) = rs_watermarks st"
  "rs_outbox (complete_attempt now d job v st) = rs_outbox st" "rs_next_id (complete_attempt now d job v st) = rs_next_id st"
  "rs_redis (complete_attempt now d job v st) = rs_redis st"
  "rs_models (fail_attempt s now d job m st) = rs_models st" "rs_watermarks (fail_attempt s now d job m st) = rs_watermarks st"
  "rs_outbox (fail_attempt s now d job m st) = rs_outbox st" "rs_next_id (fail_attempt s now d job m st) = rs_next_id st"
  "rs_redis (fail_attempt s now d job m st) = rs_redis st"
  by (simp_all add: complete_attempt_def fail_attempt_def)

lemma publish_model_simps [simp]:
  "rs_jobs (publish_model now job built st) = rs_jobs st" "rs_attempts (publish_model now job built st) = rs_attempts st"
  by (simp_all add: publish_model_def Let_def add_event_def)

lemma version_key_free:
  assumes "version_invariant lossy (st, flight)" "organization_version st org < v"
  shows "version_key org v \<notin> oe_key ` set (rs_outbox st)"
proof
  assume "version_key org v \<in> oe_key ` set (rs_outbox st)"
  then obtain e where "e \<in> set (rs_outbox st)" "oe_key e = version_key org v" by auto
  then show False using version_invariantD(5) [OF assms(1)] assms(2)
    by (fastforce simp: event_known_def version_key_inj version_key_not_number)
qed

lemma publish_version_invariant:
  assumes inv: "version_invariant lossy (st, flight)"
  shows "version_invariant lossy (publish_model now job built st, flight)"
proof -
  define org v where "org = rj_organization job" and "v = organization_version st org + 1"
  define e where "e = new_event now (rs_next_id st) org ''dashboard.read_model.updated'' (rj_id job) (Some v) (version_key org v)"
  let ?st = "publish_model now job built st"
  have fresh: "oe_key e \<notin> oe_key ` set (rs_outbox st)"
    using version_key_free [OF inv, of org v] by (simp add: e_def v_def new_event_def)
  define m where "m = \<lparr>rm_organization = org, rm_version = v, rm_payload = fst built, rm_watermark = snd built\<rparr>"
  define grown where "grown = add_event e (st\<lparr>rs_models := rs_models st @ [m], rs_watermarks := put org v (rs_watermarks st)\<rparr>)"
  have published: "?st = prune_dashboard_history org 5 grown"
    unfolding publish_model_def Let_def org_def [symmetric] v_def [symmetric] e_def [symmetric] m_def [symmetric] grown_def ..
  have "rs_models grown = rs_models st @ [m]" by (simp add: grown_def add_event_def)
  then have added: "models_of q grown = models_of q st @ (if q = org then [m] else [])" for q by (simp add: models_of_def m_def)
  from fresh have parts: "rs_watermarks ?st = put org v (rs_watermarks st)" "rs_outbox ?st = rs_outbox st @ [e]" "rs_next_id ?st = rs_next_id st + 1"
    "rs_redis ?st = rs_redis st"
    unfolding published by (simp_all add: grown_def add_event_def)
  have version: "organization_version ?st q = (if q = org then v else organization_version st q)" for q
    by (simp add: organization_version_def parts map_of_put)
  have new: "oe_id e = rs_next_id st" "oe_organization e = Some org" "oe_topic e = ''dashboard.read_model.updated''"
      "oe_version e = Some v" "oe_key e = version_key org v" "oe_published_at e = None"
    by (simp_all add: e_def new_event_def)
  have updates: "updates_of q ?st = updates_of q st @ (if q = org then [e] else [])" for q
    by (simp add: updates_of_def parts new)
  have grow: "organization_version st q \<le> organization_version ?st q" for q
    by (simp add: version v_def)
  show ?thesis
  proof (rule version_invariantI)
    show "map rm_version (models_of q ?st) = retained (organization_version ?st q)" for q
    proof (cases "q = org")
      case True
      have "map rm_version (models_of org grown) = retained (organization_version st org) @ [Suc (organization_version st org)]"
        using version_invariantD(1) [OF inv, of org] by (simp add: added m_def v_def)
      from prune_after_publication [OF this] show ?thesis by (simp add: True published [symmetric] version v_def)
    next
      case False
      then show ?thesis using version_invariantD(1) [OF inv, of q] by (simp add: published [symmetric] version prune_other_organization [of q org 5 grown, unfolded published [symmetric]] added)
    qed
    show "map oe_version (updates_of q ?st) = map Some [1..<Suc (organization_version ?st q)]" for q
      using version_invariantD(2) [OF inv, of q] by (simp add: updates version v_def new)
    show "distinct (map oe_id (rs_outbox ?st))"
      using version_invariantD(3) [OF inv] by (simp add: parts new) (metis imageE less_irrefl version_invariantD(4) [OF inv])
    show "oe_id x < rs_next_id ?st \<and> event_known ?st x" if "x \<in> set (rs_outbox ?st)" for x
    proof (cases "x = e")
      case True
      then show ?thesis by (simp add: new event_known_def version parts)
    next
      case False
      then have "x \<in> set (rs_outbox st)" using that by (simp add: parts)
      then have x: "oe_id x < rs_next_id st" "event_known st x" by (rule version_invariantD(4,5) [OF inv])+
      have "event_known ?st x" using x(2) unfolding event_known_def by (meson grow le_trans)
      then show ?thesis using x(1) by (simp add: parts)
    qed
    show "\<exists>x \<in> set (rs_outbox ?st). same_event x f" if "f \<in> set flight" for f
      using version_invariantD(6) [OF inv that] by (auto simp: parts)
    show "rs_redis ?st q \<le> organization_version ?st q" for q
      using version_invariantD(7) [OF inv, of q] grow [of q] by (simp add: parts)
    show "the (oe_version x) \<le> rs_redis ?st q" if "\<not> lossy" "x \<in> set (updates_of q ?st)" "oe_published_at x \<noteq> None" for q x
      using that version_invariantD(8) [OF inv] by (auto simp: updates parts new split: if_splits)
  qed
qed

lemma refresh_version_invariant:
  assumes inv: "version_invariant lossy (st, flight)"
    and ok: "run_refresh_once s now duration held acquired outcome st = (st', res)"
  shows "version_invariant lossy (st', flight)"
proof -
  have started: "version_invariant lossy (start_attempt s now job st, flight)" for job
    by (rule version_invariant_cong [OF inv]) simp_all
  have complete: "version_invariant lossy (complete_attempt now duration job v (publish_model now job built (start_attempt s now job st)), flight)"
    for job v built
    by (rule version_invariant_cong [OF publish_version_invariant [OF started]]) simp_all
  have failed: "version_invariant lossy (fail_attempt s now duration job m (start_attempt s now job st), flight)" for job m
    by (rule version_invariant_cong [OF inv]) simp_all
  show ?thesis
    using ok inv complete failed
    by (auto simp: run_refresh_once_def Let_def split: option.splits sum.splits if_splits)
qed

lemma queue_version_invariant:
  assumes inv: "version_invariant lossy (st, flight)" and ok: "queue_dashboard_refresh now held org st = (st', r)"
  shows "version_invariant lossy (st', flight)"
proof (cases "first_row job_order (coalescable_job org held) (rs_jobs st)")
  case (Some job)
  then show ?thesis using ok inv by (simp add: queue_dashboard_refresh_def)
next
  case None
  define e where "e = new_event now (rs_next_id st + 1) org ''dashboard.refresh.requested'' (rs_next_id st) None (show_nat (rs_next_id st + 2))"
  have parts: "rs_models st' = rs_models st" "rs_watermarks st' = rs_watermarks st" "rs_outbox st' = rs_outbox st @ [e]"
      "rs_next_id st' = rs_next_id st + 3" "rs_redis st' = rs_redis st"
    using ok None by (auto simp: queue_dashboard_refresh_def Let_def e_def)
  have e: "oe_topic e = ''dashboard.refresh.requested''" "oe_version e = None" "oe_key e = show_nat (rs_next_id st + 2)"
      "oe_id e = rs_next_id st + 1"
    by (simp_all add: e_def new_event_def)
  have same: "organization_version st' q = organization_version st q" "updates_of q st' = updates_of q st"
      "models_of q st' = models_of q st" "event_known st' x = event_known st x" for q x
    by (simp_all add: organization_version_def updates_of_def models_of_def event_known_def parts e)
  show ?thesis
  proof (rule version_invariantI)
    show "oe_id x < rs_next_id st' \<and> event_known st' x" if "x \<in> set (rs_outbox st')" for x
    proof (cases "x = e")
      case True
      then show ?thesis by (auto simp: same parts e event_known_def)
    next
      case False
      then have "x \<in> set (rs_outbox st)" using that by (simp add: parts)
      then show ?thesis using version_invariantD(4,5) [OF inv, of x] by (simp add: same parts)
    qed
    show "distinct (map oe_id (rs_outbox st'))"
      using version_invariantD(3,4) [OF inv] by (force simp: parts e)
    show "\<exists>x \<in> set (rs_outbox st'). same_event x f" if "f \<in> set flight" for f
      using version_invariantD(6) [OF inv that] by (auto simp: parts)
  qed (use version_invariantD [OF inv] in \<open>simp_all add: same parts del: upt_Suc\<close>)
qed

lemma runtime_step_versions:
  assumes "runtime_step lossy limit c c'" "version_invariant lossy c"
  shows "version_invariant lossy c'"
  using assms
proof (cases rule: runtime_step.cases)
  case (Crashed e flight st)
  then show ?thesis using assms(2) by (auto intro: version_invariant_cong dest: set_remove1_subset [THEN subsetD])
next
  case (Lost st flight)
  have inv: "version_invariant lossy (st, flight)" using assms(2) Lost by simp
  show ?thesis unfolding Lost
    by (rule version_invariantI)
      (use version_invariantD [OF inv] Lost in \<open>simp_all add: updates_of_def models_of_def organization_version_def event_known_def del: upt_Suc\<close>)
qed (use assms(2) in \<open>auto intro: queue_version_invariant refresh_version_invariant claim_version_invariant settle_version_invariant\<close>)

lemma empty_runtime_versions: "version_invariant lossy (empty_runtime, [])"
  by (simp add: version_invariant_def empty_runtime_def models_of_def updates_of_def organization_version_def retained_def)

lemma reachable_versions: "reachable_runtime lossy limit c \<Longrightarrow> version_invariant lossy c"
  by (induction rule: reachable_runtime.induct) (auto intro: empty_runtime_versions runtime_step_versions)

subsection \<open>Jobs and their attempts\<close>

definition attempts_of :: "nat \<Rightarrow> refresh_store \<Rightarrow> job_attempt list" where
  "attempts_of i st = filter (\<lambda>a. ja_job a = i) (rs_attempts st)"

definition attempt_statuses :: "refresh_job \<Rightarrow> attempt_status list" where
  "attempt_statuses j =
     (if rj_status j = JobComplete then replicate (rj_attempts j - 1) AttemptFailed @ [AttemptComplete]
      else replicate (rj_attempts j) AttemptFailed)"

definition job_recorded :: "nat \<Rightarrow> refresh_store \<Rightarrow> refresh_job \<Rightarrow> bool" where
  "job_recorded limit st j \<longleftrightarrow>
     map ja_attempt (attempts_of (rj_id j) st) = [1..<Suc (rj_attempts j)]
     \<and> map ja_status (attempts_of (rj_id j) st) = attempt_statuses j
     \<and> rj_status j \<noteq> JobRunning \<and> rj_attempts j \<le> max 1 limit
     \<and> (rj_status j = JobPending \<longrightarrow> rj_attempts j < max 1 limit) \<and> (rj_status j = JobFailed \<longrightarrow> limit \<le> rj_attempts j)"

definition jobs_invariant :: "nat \<Rightarrow> refresh_store \<Rightarrow> bool" where
  "jobs_invariant limit st \<longleftrightarrow> distinct (map rj_id (rs_jobs st))
     \<and> (\<forall>j \<in> set (rs_jobs st). rj_id j < rs_next_id st \<and> job_recorded limit st j)
     \<and> (\<forall>a \<in> set (rs_attempts st). ja_job a < rs_next_id st)"

lemma jobs_invariant_cong:
  assumes "jobs_invariant limit st" "rs_jobs st' = rs_jobs st" "rs_attempts st' = rs_attempts st" "rs_next_id st \<le> rs_next_id st'"
  shows "jobs_invariant limit st'"
  using assms by (fastforce simp: jobs_invariant_def job_recorded_def attempts_of_def)

lemma settled_jobs_invariant:
  assumes inv: "jobs_invariant limit st" and job: "job \<in> set (rs_jobs st)"
    and jobs: "rs_jobs st' = map (\<lambda>j. if rj_id j = rj_id job then F j else j) (rs_jobs st)"
    and attempts: "rs_attempts st' = rs_attempts st @ [a]"
    and a: "ja_job a = rj_id job" and F: "rj_id (F job) = rj_id job" and next_id: "rs_next_id st \<le> rs_next_id st'"
    and new: "job_recorded limit st' (F job)"
  shows "jobs_invariant limit st'"
proof -
  have dist: "distinct (map rj_id (rs_jobs st))"
    and old: "\<And>j. j \<in> set (rs_jobs st) \<Longrightarrow> rj_id j < rs_next_id st \<and> job_recorded limit st j"
    using inv by (auto simp: jobs_invariant_def)
  have only: "j = job" if "j \<in> set (rs_jobs st)" "rj_id j = rj_id job" for j
    using dist that job by (auto simp: distinct_map dest: inj_onD)
  define G where "G j = (if rj_id j = rj_id job then F j else j)" for j
  have ids: "rj_id (G j) = rj_id j" if "j \<in> set (rs_jobs st)" for j
    using only [OF that] F by (auto simp: G_def)
  have other: "job_recorded limit st' j" if "j \<in> set (rs_jobs st)" "rj_id j \<noteq> rj_id job" for j
    using old [OF that(1)] that(2) a by (simp add: job_recorded_def attempts_of_def attempts)
  have "job_recorded limit st' (G j)" if "j \<in> set (rs_jobs st)" for j
    using only [OF that] other [OF that] new by (auto simp: G_def)
  moreover have "map rj_id (rs_jobs st') = map rj_id (rs_jobs st)"
    using ids by (simp add: jobs flip: G_def)
  moreover have "rj_id (G j) < rs_next_id st'" if "j \<in> set (rs_jobs st)" for j
    using old [OF that] ids [OF that] next_id by simp
  moreover have "ja_job b < rs_next_id st'" if "b \<in> set (rs_attempts st')" for b
    using that inv a old [OF job] next_id by (fastforce simp: attempts jobs_invariant_def)
  moreover have "set (rs_jobs st') = G ` set (rs_jobs st)"
    by (simp add: jobs G_def)
  ultimately show ?thesis
    using dist by (simp add: jobs_invariant_def)
qed

lemma only_new_attempt:
  assumes "jobs_invariant limit st" "job \<in> set (rs_jobs st)" "ja_job a = rj_id job" "ja_attempt a = Suc (rj_attempts job)"
  shows "map (\<lambda>a. if ja_job a = rj_id job \<and> ja_attempt a = Suc (rj_attempts job) then f a else a) (rs_attempts st @ [a])
    = rs_attempts st @ [f a]"
proof -
  have "ja_attempt b \<noteq> Suc (rj_attempts job)" if "b \<in> set (rs_attempts st)" "ja_job b = rj_id job" for b
  proof -
    have "ja_attempt b \<in> set (map ja_attempt (attempts_of (rj_id job) st))" using that by (simp add: attempts_of_def)
    also have "map ja_attempt (attempts_of (rj_id job) st) = [1..<Suc (rj_attempts job)]"
      using assms(1,2) by (simp add: jobs_invariant_def job_recorded_def)
    finally show ?thesis by auto
  qed
  then have "map (\<lambda>a. if ja_job a = rj_id job \<and> ja_attempt a = Suc (rj_attempts job) then f a else a) (rs_attempts st) = rs_attempts st"
    by (intro map_idI) auto
  then show ?thesis using assms(3,4) by simp
qed

lemma refresh_jobs_invariant:
  assumes inv: "jobs_invariant limit st" and s: "ws_max_attempts s = limit"
    and ok: "run_refresh_once s now duration held acquired outcome st = (st', res)"
  shows "jobs_invariant limit st'"
proof (cases "first_row job_order (claimable_job s now held) (rs_jobs st) = None \<or> \<not> acquired")
  case True
  then have "st' = st" using ok by (auto simp: run_refresh_once_def split: option.splits)
  then show ?thesis using inv by simp
next
  case False
  then obtain job where first: "first_row job_order (claimable_job s now held) (rs_jobs st) = Some job" and acquired: "acquired" by auto
  then have job: "job \<in> set (rs_jobs st)" and pending: "rj_status job = JobPending"
    by (auto simp: claimable_job_def dest: first_row_SomeD)
  have rec: "job_recorded limit st job" using inv job by (simp add: jobs_invariant_def)
  define F where "F j = (case outcome of
      Inl m \<Rightarrow> failed_job s now duration (rj_attempts job + 1) m (started_job s now (rj_attempts job + 1) j)
    | Inr _ \<Rightarrow> completed_job now duration (organization_version st (rj_organization job) + 1) (started_job s now (rj_attempts job + 1) j))" for j
  have F: "rj_id (F j) = rj_id j" "rj_attempts (F job) = rj_attempts job + 1"
      "rj_status (F job) = (case outcome of Inl _ \<Rightarrow> if limit \<le> rj_attempts job + 1 then JobFailed else JobPending | Inr _ \<Rightarrow> JobComplete)" for j
    by (cases outcome; simp add: F_def failed_job_def completed_job_def started_job_def s)+
  have jobs: "rs_jobs st' = map (\<lambda>j. if rj_id j = rj_id job then F j else j) (rs_jobs st)"
    using ok first acquired
    by (cases outcome) (auto simp: run_refresh_once_def Let_def F_def complete_attempt_def fail_attempt_def started_job_def
      start_attempt_def update_job_def)
  have new: "ja_job (new_attempt s now job) = rj_id job" "ja_attempt (new_attempt s now job) = Suc (rj_attempts job)"
    by (simp_all add: new_attempt_def)
  obtain b where attempts: "rs_attempts st' = rs_attempts st @ [b]"
    and b: "ja_job b = rj_id job" "ja_attempt b = rj_attempts job + 1"
      "ja_status b = (case outcome of Inl _ \<Rightarrow> AttemptFailed | Inr _ \<Rightarrow> AttemptComplete)"
    using ok first acquired
    by (cases outcome) (auto simp: run_refresh_once_def Let_def complete_attempt_def fail_attempt_def update_attempt_def
      start_attempt_def only_new_attempt [OF inv job new] new simp del: map_append)
  have next_id: "rs_next_id st \<le> rs_next_id st'"
    using ok first acquired
    by (cases outcome) (auto simp: run_refresh_once_def Let_def publish_model_def add_event_def)
  have "job_recorded limit st' (F job)"
    using rec pending F b
    by (cases outcome) (auto simp: job_recorded_def attempts_of_def attempts attempt_statuses_def replicate_append_same)
  then show ?thesis by (rule settled_jobs_invariant [OF inv job jobs attempts b(1) F(1) next_id])
qed

lemma queue_jobs_invariant:
  assumes inv: "jobs_invariant limit st" and ok: "queue_dashboard_refresh now held org st = (st', r)"
  shows "jobs_invariant limit st'"
proof (cases "first_row job_order (coalescable_job org held) (rs_jobs st)")
  case (Some job)
  then show ?thesis using ok inv by (simp add: queue_dashboard_refresh_def)
next
  case None
  let ?j = "new_job now org (rs_next_id st)"
  have parts: "rs_jobs st' = rs_jobs st @ [?j]" "rs_attempts st' = rs_attempts st" "rs_next_id st' = rs_next_id st + 3"
    using ok None by (auto simp: queue_dashboard_refresh_def Let_def)
  have fresh: "attempts_of (rs_next_id st) st = []"
    using inv by (auto simp: attempts_of_def jobs_invariant_def filter_empty_conv)
  have same: "attempts_of i st' = attempts_of i st" for i by (simp add: attempts_of_def parts)
  have "job_recorded limit st' ?j"
    using fresh by (simp add: job_recorded_def same new_job_def attempt_statuses_def)
  moreover have "job_recorded limit st' j = job_recorded limit st j" for j by (simp add: job_recorded_def same)
  moreover have "rj_id ?j = rs_next_id st" by (simp add: new_job_def)
  ultimately show ?thesis using inv by (fastforce simp: jobs_invariant_def parts)
qed

lemma deliver_event_simps:
  assumes "deliver_event s now outcome e st = (st', res)"
  shows "rs_jobs st' = rs_jobs st" "rs_attempts st' = rs_attempts st" "rs_next_id st' = rs_next_id st"
    "rs_watermarks st' = rs_watermarks st"
  using assms
  by (cases outcome; auto simp: deliver_event_def retry_event_def update_event_def publish_invalidation_def Let_def)+

lemma claim_event_simps:
  assumes "claim_event s now held st = (st', c)"
  shows "rs_jobs st' = rs_jobs st" "rs_attempts st' = rs_attempts st" "rs_next_id st' = rs_next_id st"
    "rs_watermarks st' = rs_watermarks st" "rs_redis st' = rs_redis st"
  using assms by (auto simp: claim_event_def update_event_def split: option.splits)

lemma runtime_step_jobs:
  assumes "runtime_step lossy limit c c'" "jobs_invariant limit (fst c)"
  shows "jobs_invariant limit (fst c')"
  using assms
proof (cases rule: runtime_step.cases)
  case (Claimed s now held st st' e flight)
  then show ?thesis using assms(2) claim_event_simps [OF Claimed(3)] by (auto intro: jobs_invariant_cong)
next
  case (Settled e flight s now outcome st st' res)
  then show ?thesis using assms(2) deliver_event_simps [OF Settled(4)] by (auto intro: jobs_invariant_cong)
qed (use assms(2) in \<open>auto intro: queue_jobs_invariant refresh_jobs_invariant jobs_invariant_cong\<close>)

lemma reachable_jobs: "reachable_runtime lossy limit c \<Longrightarrow> jobs_invariant limit (fst c)"
proof (induction rule: reachable_runtime.induct)
  case runtime_start
  then show ?case by (simp add: jobs_invariant_def empty_runtime_def)
qed (blast intro: runtime_step_jobs)

subsection \<open>Delivery of everything\<close>

lemma monotone_redis:
  assumes "runtime_step False limit c c'"
  shows "rs_redis (fst c) org \<le> rs_redis (fst c') org"
  using assms
proof (cases rule: runtime_step.cases)
  case (Settled e flight s now outcome st st' res)
  have "rs_redis st' = rs_redis st \<or> rs_redis st' = rs_redis (store_version e st)"
    using Settled(4) by (cases outcome) (auto simp: deliver_event_def retry_event_def update_event_def publish_invalidation_def Let_def)
  then show ?thesis using Settled by (auto simp: store_version_redis)
next
  case (Claimed s now held st st' e flight)
  then show ?thesis using claim_event_simps [OF Claimed(3)] by simp
next
  case (Refreshed s now duration held acquired outcome st st' res flight)
  then show ?thesis
    by (auto simp: run_refresh_once_def Let_def publish_model_def add_event_def split: option.splits sum.splits if_splits)
next
  case (Queued now held org st st' r flight)
  then show ?thesis by (auto simp: queue_dashboard_refresh_def Let_def split: option.splits)
qed simp_all

definition waiting :: "worker_settings \<Rightarrow> refresh_store \<Rightarrow> outbox_event list" where
  "waiting s st = filter (\<lambda>e. oe_published_at e = None \<and> in_organization s (oe_organization e)) (rs_outbox st)"

lemma publishable_later: "publishable_event s t e \<Longrightarrow> t \<le> t' \<Longrightarrow> publishable_event s t' e"
  by (auto simp: publishable_event_def split: option.splits)

lemma flush_once_delivers:
  assumes inv: "version_invariant False (st, flight)" and all: "\<forall>e \<in> set (waiting s st). publishable_event s now e"
    and ok: "flush_outbox_once s now later (\<lambda>_. Delivered) st = (st', res)"
  shows "version_invariant False (st', flight) \<and> (res = FlushIdle \<longrightarrow> waiting s st = [] \<and> st' = st)
      \<and> (res \<noteq> FlushIdle \<longrightarrow> (\<exists>i. res = FlushPublished i) \<and> length (waiting s st') < length (waiting s st))
      \<and> set (waiting s st') \<subseteq> set (waiting s st) \<and> rs_watermarks st' = rs_watermarks st"
proof (cases "snd (claim_event s now [] st)")
  case None
  then have none: "first_row event_order (\<lambda>e. publishable_event s now e \<and> oe_id e \<notin> set []) (rs_outbox st) = None"
    and claim: "claim_event s now [] st = (st, None)"
    by (auto simp: claim_event_def split: option.splits)
  have "waiting s st = []"
    using none all by (auto simp: first_row_None waiting_def filter_empty_conv)
  then show ?thesis
    using ok inv claim by (simp add: flush_outbox_once_def)
next
  case (Some e)
  then obtain st1 where claim: "claim_event s now [] st = (st1, Some e)" by (metis prod.collapse)
  then have e: "e \<in> set (rs_outbox st)" "publishable_event s now e"
    by (auto simp: claim_event_def split: option.splits dest: first_row_SomeD)
  have deliver: "deliver_event s later Delivered e st1 = (st', res)"
    using ok claim by (simp add: flush_outbox_once_def)
  have "version_invariant False (st', remove1 e (e # flight))"
    by (rule settle_version_invariant [OF claim_version_invariant [OF inv claim] _ deliver]) simp
  moreover define h where "h q = (if oe_id q = oe_id e then q\<lparr>oe_attempts := oe_attempts q + 1, oe_published_at := Some later,
      oe_locked_at := None, oe_locked_by := None, oe_last_error := None\<rparr> else q)" for q :: outbox_event
  have outbox: "rs_outbox st' = map h (rs_outbox st)"
    using claim deliver
    by (auto simp: claim_event_def deliver_event_def update_event_def publish_invalidation_def Let_def h_def
      split: option.splits)
  have waiting': "waiting s st' = filter (\<lambda>q. oe_id q \<noteq> oe_id e) (waiting s st)"
  proof -
    have "filter (\<lambda>e. oe_published_at e = None \<and> in_organization s (oe_organization e)) (map h es)
      = filter (\<lambda>q. oe_id q \<noteq> oe_id e) (filter (\<lambda>e. oe_published_at e = None \<and> in_organization s (oe_organization e)) es)" for es
      by (induction es) (auto simp: h_def)
    then show ?thesis by (simp only: waiting_def outbox)
  qed
  moreover have "e \<in> set (waiting s st)" using e by (auto simp: waiting_def publishable_event_def)
  then have "length (waiting s st') < length (waiting s st)"
    unfolding waiting' by (rule length_filter_less) simp
  moreover have "res = FlushPublished (oe_id e)" using deliver by (simp add: deliver_event_def)
  moreover have "rs_watermarks st' = rs_watermarks st"
    using deliver_event_simps [OF deliver] claim_event_simps [OF claim] by simp
  ultimately show ?thesis
    by (auto simp: waiting')
qed

lemma flush_loop_delivers:
  assumes "version_invariant False (st, flight)" "\<forall>e \<in> set (waiting s st). publishable_event s (clock t) e"
    "\<And>i j. i \<le> j \<Longrightarrow> clock i \<le> clock j" "length (waiting s st) \<le> n"
    "flush_loop s clock (\<lambda>_. Delivered) t n st published retrying = (st', p, r)"
  shows "version_invariant False (st', flight) \<and> waiting s st' = [] \<and> r = retrying \<and> rs_watermarks st' = rs_watermarks st"
  using assms
proof (induction n arbitrary: t st published)
  case 0
  then show ?case by simp
next
  case (Suc n)
  obtain st1 res where one: "flush_outbox_once s (clock t) (clock (t + 1)) (\<lambda>_. Delivered) st = (st1, res)" by fastforce
  note step1 = flush_once_delivers [OF Suc.prems(1,2) one]
  show ?case
  proof (cases res)
    case FlushIdle
    then show ?thesis using Suc.prems step1 one by auto
  next
    case (FlushPublished i)
    have "\<forall>e \<in> set (waiting s st1). publishable_event s (clock (t + 2)) e"
    proof
      fix e assume "e \<in> set (waiting s st1)"
      then have "publishable_event s (clock t) e" using step1 Suc.prems(2) by blast
      then show "publishable_event s (clock (t + 2)) e" by (rule publishable_later) (simp add: Suc.prems(3))
    qed
    moreover have "flush_loop s clock (\<lambda>_. Delivered) (t + 2) n st1 (published + 1) retrying = (st', p, r)"
      using Suc.prems(5) one FlushPublished by simp
    ultimately show ?thesis
      using Suc.IH [of st1 "t + 2" "published + 1"] Suc.prems(3,4) step1 FlushPublished by auto
  next
    case (FlushRetrying m i)
    then show ?thesis using step1 by simp
  qed
qed

text \<open>When all events of an organization are published, Redis has its version.\<close>

lemma redis_current:
  assumes inv: "version_invariant False (st, flight)" and "waiting s st = []" "in_organization s (Some org)"
  shows "rs_redis st org = organization_version st org"
proof (cases "organization_version st org")
  case 0
  then show ?thesis using version_invariantD(7) [OF inv, of org] by simp
next
  case (Suc v)
  then have "Some (organization_version st org) \<in> set (map oe_version (updates_of org st))"
    unfolding version_invariantD(2) [OF inv] by simp
  then obtain e where e: "e \<in> set (updates_of org st)" "oe_version e = Some (organization_version st org)" by auto
  then have "oe_published_at e \<noteq> None"
    using assms(2,3) by (auto simp: waiting_def updates_of_def filter_empty_conv)
  then show ?thesis using version_invariantD(7,8) [OF inv] e by (metis le_antisym option.sel)
qed

subsection \<open>Properties\<close>

text \<open>A queued and completed refresh: the input of the witnesses.\<close>

definition sample_settings :: worker_settings where
  "sample_settings = \<lparr>ws_worker = ''w1'', ws_organization = None, ws_max_attempts = 5, ws_retry_delay = 1000\<rparr>"

definition sample_queued :: refresh_store where
  "sample_queued = fst (queue_dashboard_refresh 10 [] 4 empty_runtime)"

definition sample_published :: refresh_store where
  "sample_published = fst (run_refresh_once sample_settings 20 7 [] True (Inr (''payload'', ''mark'')) sample_queued)"

lemma sample_reachable: "reachable_runtime False 5 (sample_published, [])"
proof -
  have "reachable_runtime False 5 (sample_queued, [])"
    unfolding sample_queued_def by (rule runtime_next [OF runtime_start]) (rule Queued [OF prod.collapse [symmetric]])
  moreover have "ws_max_attempts sample_settings = 5" by (simp add: sample_settings_def)
  ultimately show ?thesis
    unfolding sample_published_def by (blast intro: runtime_next Refreshed prod.collapse [symmetric])
qed

text \<open>C1: In every state the workers can reach, whatever they do at the same time, fail at or crash in, the versions
  1, 2, \<dots> up to an organization's watermark were published, each announced by exactly one event and in this order,
  and the read models kept are the latest one and the one before it, each once.\<close>

theorem published_versions_consecutive:
  assumes "reachable_runtime lossy limit (st, flight)"
  shows "map rm_version (models_of org st) = [max 1 (organization_version st org - 1)..<Suc (organization_version st org)]
    \<and> map oe_version (updates_of org st) = map Some [1..<Suc (organization_version st org)]"
  using version_invariantD(1,2) [OF reachable_versions [OF assms]] unfolding retained_def by blast

theorem published_versions_consecutive_witness:
  "map rm_version (models_of 4 sample_published) = [1] \<and> map oe_version (updates_of 4 sample_published) = [Some 1]"
proof -
  have "organization_version sample_published 4 = 1" by code_simp
  then show ?thesis using published_versions_consecutive [OF sample_reachable, of 4] by simp
qed

text \<open>C13: Redis never holds a version that was not committed, even when events are delivered twice, late or out of
  order, and no step but the loss of its data takes a version back.\<close>

theorem redis_version_safe:
  assumes "reachable_runtime lossy limit (st, flight)"
  shows "rs_redis st org \<le> organization_version st org
    \<and> (\<forall>c. runtime_step False limit (st, flight) c \<longrightarrow> rs_redis st org \<le> rs_redis (fst c) org)"
  using version_invariantD(7) [OF reachable_versions [OF assms]] monotone_redis by fastforce

theorem redis_version_safe_witness: "rs_redis sample_published 4 \<le> organization_version sample_published 4"
  using redis_version_safe [OF sample_reachable, of 4] by blast

text \<open>C7: The outbox drains: in a state in which Redis has not lost its data since the start, if every event waiting
  for the worker's organizations is due, Redis takes the deliveries and the limit is at least the number of waiting
  events, then \<open>flushOutbox\<close> publishes all of them, has to try none again, and afterwards Redis has the version of every
  organization of the worker.\<close>

theorem flush_outbox_delivers_all:
  assumes "reachable_runtime False limit (st, flight)"
    and "\<forall>e \<in> set (waiting s st). publishable_event s (clock 0) e"
    and "\<And>i j. i \<le> j \<Longrightarrow> clock i \<le> clock j" and "length (waiting s st) \<le> n"
  shows "case flush_outbox s clock (\<lambda>_. Delivered) n st of (st', published, retrying) \<Rightarrow>
    waiting s st' = [] \<and> retrying = 0
    \<and> (in_organization s (Some org) \<longrightarrow> rs_redis st' org = organization_version st org)"
proof -
  obtain st' p r where run: "flush_loop s clock (\<lambda>_. Delivered) 0 n st 0 0 = (st', p, r)" by (metis prod_cases3)
  note done' = flush_loop_delivers [OF reachable_versions [OF assms(1)] assms(2-4) run]
  then have "in_organization s (Some org) \<longrightarrow> rs_redis st' org = organization_version st org"
    using redis_current by (metis organization_version_def)
  then show ?thesis using done' run by (simp add: flush_outbox_def)
qed

theorem flush_outbox_delivers_all_witness:
  "rs_redis (fst (flush_outbox sample_settings (\<lambda>k. 30 + int k) (\<lambda>_. Delivered) 2 sample_published)) 4 = 1"
proof -
  have "\<forall>e \<in> set (waiting sample_settings sample_published). publishable_event sample_settings (30 + int 0) e"
    "length (waiting sample_settings sample_published) \<le> 2" "organization_version sample_published 4 = 1"
    by code_simp+
  moreover have "in_organization sample_settings (Some 4)" by (simp add: in_organization_def sample_settings_def)
  ultimately show ?thesis
    using flush_outbox_delivers_all [OF sample_reachable, of sample_settings "\<lambda>k. 30 + int k" 2 4]
    by (auto split: prod.splits)
qed

text \<open>C28: Every job is tried at most \<open>maxAttempts\<close> times (at least once): its attempts are numbered from one, all
  of them failed but the last one of a completed job, and it is given up only after the last attempt
  allowed; outside its transaction no job is ever seen running.\<close>

theorem refresh_attempts_bounded:
  assumes "reachable_runtime lossy limit (st, flight)" "j \<in> set (rs_jobs st)"
  shows "map ja_attempt (attempts_of (rj_id j) st) = [1..<Suc (rj_attempts j)]
    \<and> map ja_status (attempts_of (rj_id j) st) = attempt_statuses j
    \<and> rj_attempts j \<le> max 1 limit \<and> rj_status j \<noteq> JobRunning
    \<and> (rj_status j = JobPending \<longrightarrow> rj_attempts j < max 1 limit) \<and> (rj_status j = JobFailed \<longrightarrow> limit \<le> rj_attempts j)"
  using reachable_jobs [OF assms(1)] assms(2) by (simp add: jobs_invariant_def job_recorded_def)

theorem refresh_attempts_bounded_witness:
  "list_all (\<lambda>j. rj_attempts j \<le> 5 \<and> rj_status j \<noteq> JobRunning) (rs_jobs sample_published)"
  using refresh_attempts_bounded [OF sample_reachable] by (fastforce simp: list_all_iff)






end
