(* ===== verification/Pricing.thy ===== *)
theory Pricing
  imports JS_Number
begin

section \<open>Prices of products\<close>

text \<open>
  \<^verbatim>\<open>packages/db/src/pricing-calculation.ts\<close>: the cost of the processes of a product, the casting of a quote,
  the costing of a stored product and of a package, their revision to a target price and the
  weight of a bill of material. Every operation is a binary64 one, in the order of the code.
\<close>

subsection \<open>Data\<close>

record process_costs =
  pc_annealing :: jsnum
  pc_assembly :: jsnum
  pc_buffing :: jsnum
  pc_checking :: jsnum
  pc_deburring :: jsnum
  pc_machining :: jsnum
  pc_marking :: jsnum
  pc_overhead :: jsnum
  pc_plating :: jsnum
  pc_sealant :: jsnum
  pc_washing :: jsnum
  pc_weight100 :: jsnum

record product_costing_input = process_costs +
  pi_burning_loss :: jsnum
  pi_casting :: jsnum
  pi_rejection :: jsnum

record quote_costing_input =
  qi_alloy_premium :: jsnum
  qi_assembled_part :: jsnum
  qi_conversion :: jsnum
  qi_ext_cost :: jsnum
  qi_forging :: jsnum
  qi_packing :: jsnum
  qi_profit :: jsnum
  qi_purchase_times :: jsnum
  qi_scrap_rate :: jsnum
  qi_shipping :: jsnum

record product_base_input = process_costs +
  pb_component_cost :: jsnum
  pb_direct_price :: "jsnum option"
  pb_bom_parent :: bool
  pb_method :: string

record costing_result =
  cr_net_with_alloy :: jsnum
  cr_net_without_alloy :: jsnum
  cr_pieces_per_kg :: jsnum
  cr_process_cost :: jsnum
  cr_profit :: jsnum
  cr_rate_inr :: jsnum
  cr_rate_usd :: jsnum
  cr_raw_material :: jsnum
  cr_rejection :: jsnum
  cr_scrap_rate_gm :: jsnum
  cr_scrap_return :: jsnum
  cr_scrap_price :: jsnum
  cr_scrap_price_burning :: jsnum
  cr_total_a :: jsnum
  cr_total_ab :: jsnum
  cr_total_rate :: jsnum
  cr_total_rods :: jsnum

subsection \<open>Processes and bills of material\<close>

definition safe_number :: "jsnum \<Rightarrow> jsnum" where
  "safe_number v = (if is_finite v then v else Fin 0)"

definition positive :: "jsnum \<Rightarrow> bool" where
  "positive v \<longleftrightarrow> num_lt (Fin 0) v"

text \<open>\<open>a + b + c + \<dots>\<close>, from the left.\<close>

definition add_all :: "jsnum \<Rightarrow> jsnum list \<Rightarrow> jsnum" where
  "add_all v vs = foldl num_add v vs"

definition calculate_casting :: "jsnum \<Rightarrow> jsnum \<Rightarrow> jsnum" where
  "calculate_casting blank piece = (if positive piece then safe_number (num_div blank piece) else Fin 0)"

text \<open>A component has its own components, empty or absent, its weight and its quantity.\<close>

datatype bom_component = Component "bom_component list" jsnum jsnum

fun calculate_bom_piece_weight :: "bom_component list \<Rightarrow> jsnum" and component_weight :: "bom_component \<Rightarrow> jsnum" where
  "calculate_bom_piece_weight cs = safe_number (foldl num_add (Fin 0) (map component_weight cs))"
| "component_weight (Component cs weight quantity) =
     num_mul (safe_number quantity) (if cs \<noteq> [] then calculate_bom_piece_weight cs else safe_number weight)"

definition is_forging_cost_applicable :: "string option \<Rightarrow> bool" where
  "is_forging_cost_applicable product_type \<longleftrightarrow>
     map_option norm_key product_type \<in> {Some ''casting'', Some ''forging'', Some ''forged''}"

definition pieces_per_kg :: "('a process_costs_scheme) \<Rightarrow> jsnum" where
  "pieces_per_kg p = (if positive (pc_weight100 p) then num_div (Fin 1000) (pc_weight100 p) else Fin 0)"

definition process_cost_items :: "('a process_costs_scheme) \<Rightarrow> jsnum list" where
  "process_cost_items p = [pc_washing p, pc_checking p, pc_marking p, pc_plating p, pc_annealing p, pc_deburring p,
     pc_buffing p, pc_sealant p, pc_assembly p, pc_overhead p]"

record process_cost_result =
  pr_pieces :: jsnum
  pr_per_kg :: jsnum
  pr_per_piece :: jsnum

definition calculate_product_process_cost :: "('a process_costs_scheme) \<Rightarrow> process_cost_result" where
  "calculate_product_process_cost p =
     (let pieces = pieces_per_kg p; per_kg = add_all (pc_machining p) (process_cost_items p);
          per_piece = (if positive pieces then num_div per_kg pieces else Fin 0) in
      \<lparr>pr_pieces = safe_number pieces, pr_per_kg = safe_number per_kg, pr_per_piece = safe_number per_piece\<rparr>)"

definition calculate_product_base_cost :: "product_base_input \<Rightarrow> jsnum" where
  "calculate_product_base_cost p =
     (if norm_key (pb_method p) = ''direct purchase''
      then safe_number (case pb_direct_price p of None \<Rightarrow> Fin 0 | Some v \<Rightarrow> v)
      else safe_number (num_add (pr_per_piece (calculate_product_process_cost p))
        (if pb_bom_parent p then pb_component_cost p else Fin 0)))"

subsection \<open>Stored products\<close>

record stored_product_input =
  si_base_cost :: jsnum
  si_conversion :: jsnum
  si_packing :: jsnum
  si_pieces :: jsnum
  si_profit :: jsnum
  si_rejection :: jsnum
  si_shipping :: jsnum

record stored_costing =
  sc_base_cost :: jsnum
  sc_packing :: jsnum
  sc_pieces :: jsnum
  sc_profit :: jsnum
  sc_rate_inr :: jsnum
  sc_rate_usd :: jsnum
  sc_rejection :: jsnum
  sc_shipping :: jsnum
  sc_total_a :: jsnum
  sc_total_ab :: jsnum

definition per_piece :: "jsnum \<Rightarrow> jsnum \<Rightarrow> jsnum" where
  "per_piece pieces per_kg = (if positive pieces then num_div per_kg pieces else Fin 0)"

text \<open>Base cost, rejection, packing and shipping.\<close>

definition total_a :: "jsnum \<Rightarrow> jsnum \<Rightarrow> jsnum \<Rightarrow> jsnum \<Rightarrow> jsnum \<Rightarrow> jsnum" where
  "total_a base rejection pieces packing shipping =
     add_all base [num_mul base rejection, per_piece pieces packing, per_piece pieces shipping]"

definition in_usd :: "jsnum \<Rightarrow> jsnum \<Rightarrow> jsnum" where
  "in_usd conversion rate = (if positive conversion then num_div rate conversion else Fin 0)"

definition calculate_stored_product_costing :: "stored_product_input \<Rightarrow> stored_costing" where
  "calculate_stored_product_costing i =
     (let a = total_a (si_base_cost i) (si_rejection i) (si_pieces i) (si_packing i) (si_shipping i);
          profit = num_mul a (si_profit i); ab = num_add a profit in
      \<lparr>sc_base_cost = safe_number (si_base_cost i), sc_packing = safe_number (per_piece (si_pieces i) (si_packing i)),
       sc_pieces = safe_number (si_pieces i), sc_profit = safe_number profit, sc_rate_inr = safe_number ab,
       sc_rate_usd = safe_number (in_usd (si_conversion i) ab),
       sc_rejection = safe_number (num_mul (si_base_cost i) (si_rejection i)),
       sc_shipping = safe_number (per_piece (si_pieces i) (si_shipping i)), sc_total_a = safe_number a, sc_total_ab = safe_number ab\<rparr>)"

text \<open>The costing and the profit that was used.\<close>

definition calculate_stored_product_revision_costing ::
  "stored_product_input \<Rightarrow> jsnum option \<Rightarrow> stored_costing \<times> jsnum" where
  "calculate_stored_product_revision_costing i target =
     (let a = sc_total_a (calculate_stored_product_costing i);
          profit = (case target of
              Some price \<Rightarrow> if positive a then num_div (num_sub (num_mul price (si_conversion i)) a) a else si_profit i
            | None \<Rightarrow> si_profit i) in
      (calculate_stored_product_costing (i\<lparr>si_profit := profit\<rparr>), safe_number profit))"

subsection \<open>Packages\<close>

record package_input =
  ki_child_total :: jsnum
  ki_conversion :: jsnum
  ki_packing :: jsnum
  ki_pieces :: jsnum
  ki_process_cost :: jsnum
  ki_profit :: jsnum
  ki_rejection :: jsnum
  ki_shipping :: jsnum

record package_costing =
  kc_child_total :: jsnum
  kc_process_cost :: jsnum
  kc_packing :: jsnum
  kc_shipping :: jsnum
  kc_pieces :: jsnum
  kc_process_per_kg :: jsnum
  kc_profit :: jsnum
  kc_profit_percent :: jsnum
  kc_rate_inr :: jsnum
  kc_rate_usd :: jsnum
  kc_rejection :: jsnum
  kc_total_a :: jsnum
  kc_total_ab :: jsnum
  kc_total_rate :: jsnum

definition package_total_a :: "package_input \<Rightarrow> jsnum" where
  "package_total_a i = total_a (ki_process_cost i) (ki_rejection i) (ki_pieces i) (ki_packing i) (ki_shipping i)"

definition package_profit :: "package_input \<Rightarrow> jsnum option \<Rightarrow> jsnum" where
  "package_profit i target =
     (case target of
        Some price \<Rightarrow>
          if positive (package_total_a i)
          then num_div (num_sub (num_sub (num_mul price (ki_conversion i)) (ki_child_total i)) (package_total_a i)) (package_total_a i)
          else ki_profit i
      | None \<Rightarrow> ki_profit i)"

definition calculate_package_revision_costing_from_base :: "package_input \<Rightarrow> jsnum option \<Rightarrow> package_costing" where
  "calculate_package_revision_costing_from_base i target =
     (let a = package_total_a i; profit_percent = package_profit i target; profit = num_mul a profit_percent;
          ab = num_add a profit; rate = num_add (ki_child_total i) ab in
      \<lparr>kc_child_total = safe_number (ki_child_total i), kc_process_cost = safe_number (ki_process_cost i),
       kc_packing = safe_number (per_piece (ki_pieces i) (ki_packing i)),
       kc_shipping = safe_number (per_piece (ki_pieces i) (ki_shipping i)), kc_pieces = safe_number (ki_pieces i),
       kc_process_per_kg = safe_number (num_mul (ki_process_cost i) (ki_pieces i)), kc_profit = safe_number profit,
       kc_profit_percent = safe_number profit_percent, kc_rate_inr = safe_number ab,
       kc_rate_usd = safe_number (in_usd (ki_conversion i) rate),
       kc_rejection = safe_number (num_mul (ki_process_cost i) (ki_rejection i)), kc_total_a = safe_number a,
       kc_total_ab = safe_number ab, kc_total_rate = safe_number rate\<rparr>)"

record package_quote =
  pq_conversion :: jsnum
  pq_packing :: jsnum
  pq_profit :: jsnum
  pq_shipping :: jsnum

definition calculate_package_costing :: "product_costing_input \<Rightarrow> package_quote \<Rightarrow> jsnum \<Rightarrow> package_costing" where
  "calculate_package_costing p q child_total =
     (let process = calculate_product_process_cost p in
      (calculate_package_revision_costing_from_base
        \<lparr>ki_child_total = child_total, ki_conversion = pq_conversion q, ki_packing = pq_packing q, ki_pieces = pr_pieces process,
         ki_process_cost = pr_per_piece process, ki_profit = pq_profit q, ki_rejection = pi_rejection p, ki_shipping = pq_shipping q\<rparr>
        None)\<lparr>kc_process_per_kg := pr_per_kg process\<rparr>)"

subsection \<open>The costing of a quote\<close>

definition calculate_costing :: "product_costing_input \<Rightarrow> quote_costing_input \<Rightarrow> costing_result" where
  "calculate_costing p q =
     (let pieces = pieces_per_kg p;
          ratio = calculate_casting (pi_casting p) (pc_weight100 p);
          without_alloy = add_all (qi_scrap_rate q) [qi_ext_cost q, qi_forging q];
          with_alloy = add_all (qi_scrap_rate q) [qi_alloy_premium q, qi_ext_cost q, qi_forging q];
          per_gm = num_div without_alloy (Fin 1000);
          raw = num_add (num_mul (qi_purchase_times q) with_alloy)
            (num_mul (num_sub ratio (qi_purchase_times q)) without_alloy);
          scrap_return = num_sub ratio (Fin 1);
          burning = num_mul (qi_scrap_rate q) (num_sub (Fin 1) (pi_burning_loss p));
          scrap_price = num_mul scrap_return burning;
          rods = num_sub raw scrap_price;
          rejection = num_mul rods (pi_rejection p);
          process = add_all (pc_machining p) (process_cost_items p @ [qi_packing q, qi_shipping q]);
          a = num_add (num_add process rods) rejection;
          profit = num_mul a (qi_profit q);
          ab = num_add a profit;
          rate = (if positive pieces then num_div ab pieces else Fin 0);
          total_rate = num_add rate (qi_assembled_part q);
          usd = in_usd (qi_conversion q) total_rate in
      \<lparr>cr_net_with_alloy = safe_number with_alloy, cr_net_without_alloy = safe_number without_alloy,
       cr_pieces_per_kg = safe_number pieces, cr_process_cost = safe_number process, cr_profit = safe_number profit,
       cr_rate_inr = safe_number rate, cr_rate_usd = safe_number usd, cr_raw_material = safe_number raw,
       cr_rejection = safe_number rejection, cr_scrap_rate_gm = safe_number per_gm, cr_scrap_return = safe_number scrap_return,
       cr_scrap_price = safe_number scrap_price, cr_scrap_price_burning = safe_number burning, cr_total_a = safe_number a,
       cr_total_ab = safe_number ab, cr_total_rate = safe_number total_rate, cr_total_rods = safe_number rods\<rparr>)"

lemma safe_number_finite [simp]: "is_finite (safe_number v)"
  by (simp add: safe_number_def)

lemma safe_number_id: "is_finite v \<Longrightarrow> safe_number v = v"
  by (simp add: safe_number_def)

subsection \<open>A target price is reached\<close>

lemma step_error:
  assumes "\<bar>x\<bar> \<le> 5 / 4 * m" "tiny \<le> m / 2 ^ 53 / 100"
  shows "\<bar>fl_rat x - x\<bar> \<le> 63 / 50 * (m / 2 ^ 53)"
proof -
  have "\<bar>x\<bar> / 2 ^ 53 \<le> 5 / 4 * m / 2 ^ 53" by (rule divide_right_mono [OF assms(1)]) simp
  then show ?thesis using fl_rat_error [of x] assms(2) by simp
qed

text \<open>The chain of operations from the target \<open>t\<close> back to the rate, exactly and in binary64; \<open>m\<close> is the greater
  of the target and the cost in rupees.\<close>

lemma target_chain:
  fixes a c t :: rat
  assumes a: "1 / 2 ^ 40 \<le> a" "a \<le> 2 ^ 40" and c: "1 / 2 ^ 40 \<le> c" "c \<le> 2 ^ 40" and t: "1 / 2 ^ 40 \<le> t" "t \<le> 2 ^ 40"
  defines "m \<equiv> max (t * c) a"
  obtains s where
    "num_add (Fin a) (num_mul (Fin a) (num_div (num_sub (num_mul (Fin t) (Fin c)) (Fin a)) (Fin a))) = Fin s"
    "\<bar>s - t * c\<bar> \<le> 32 / 5 * (m / 2 ^ 53)" "\<bar>s\<bar> \<le> 5 / 4 * m"
proof -
  have pos: "0 < a" "0 < c" "0 < t"
    using a(1) c(1) t(1) by (auto intro: less_le_trans [of 0 "1 / 2 ^ 40"])
  define e where "e = m / 2 ^ 53"
  have m: "0 < m" "t * c \<le> m" "a \<le> m" using pos by (simp_all add: m_def)
  have big: "m \<le> 2 ^ 80"
    using mult_mono [OF t(2) c(2)] pos a(2) by (simp add: m_def)
  have small: "1 / 2 ^ 40 \<le> m" using a(1) by (simp add: m_def)
  have e: "0 < e" "e \<le> m / 1000" using m by (simp_all add: e_def)
  have "tiny \<le> 1 / 2 ^ 40 / 2 ^ 53 / 100 / 2 ^ 40" by (simp add: tiny_def)
  also have "\<dots> \<le> e / 100 / 2 ^ 40" unfolding e_def using small by (intro divide_right_mono) simp_all
  finally have eta: "tiny \<le> e / 100 / 2 ^ 40" .
  have eta1: "tiny \<le> m / 2 ^ 53 / 100" using eta e by (simp add: e_def)
  have eta_a: "a * tiny \<le> e / 100"
    using mult_mono [OF a(2) eta] e pos by simp
  have range: "\<bar>x\<bar> \<le> 2 ^ 1000" if "\<bar>x\<bar> \<le> 5 / 4 * m" for x :: rat
    using that big by simp
  note err = step_error [OF _ eta1, folded e_def]
  define t1 where "t1 = fl_rat (t * c)"
  have t1: "\<bar>t1 - t * c\<bar> \<le> 63 / 50 * e"
    unfolding t1_def by (rule err) (use m pos in \<open>simp add: abs_mult\<close>)
  have mul: "num_mul (Fin t) (Fin c) = Fin t1"
    using range [of "t * c"] m pos by (simp add: fl_in_range t1_def)
  have x1: "\<bar>t1 - a\<bar> \<le> 5 / 4 * m" using t1 m e pos mult_pos_pos [OF pos(3,2)] by linarith
  define d where "d = fl_rat (t1 - a)"
  have d: "\<bar>d - (t1 - a)\<bar> \<le> 63 / 50 * e" unfolding d_def by (rule err [OF x1])
  have sub: "num_sub (Fin t1) (Fin a) = Fin d" using range [OF x1] by (simp add: num_sub_def fl_in_range d_def)
  have "\<bar>t1 - a\<bar> \<le> 1002 / 1000 * m" using t1 m e pos mult_pos_pos [OF pos(3,2)] by linarith
  then have x2: "\<bar>d\<bar> \<le> 101 / 100 * m" using d e m by linarith
  define p where "p = fl_rat (d / a)"
  have "\<bar>d / a\<bar> \<le> 2 ^ 1000"
  proof -
    have "\<bar>d\<bar> \<le> 2 ^ 81" using x2 big by simp
    also have "\<dots> \<le> 2 ^ 1000 * (1 / 2 ^ 40)" by (simp add: power_int_def)
    also have "\<dots> \<le> 2 ^ 1000 * a" using a(1) by simp
    finally show ?thesis using pos by (simp add: abs_divide divide_le_eq)
  qed
  then have divide: "num_div (Fin d) (Fin a) = Fin p" using pos by (simp add: fl_in_range p_def)
  have "\<bar>a * (p - d / a)\<bar> = a * \<bar>p - d / a\<bar>" using pos by (simp add: abs_mult)
  also have "a * \<bar>p - d / a\<bar> \<le> a * (\<bar>d / a\<bar> / 2 ^ 53 + tiny)"
    unfolding p_def by (rule mult_left_mono [OF fl_rat_error]) (use pos in simp)
  also have "\<dots> = \<bar>d\<bar> / 2 ^ 53 + a * tiny" using pos by (simp add: abs_divide distrib_left)
  also have "a * (p - d / a) = a * p - d" using pos by (simp add: right_diff_distrib)
  finally have "\<bar>a * p - d\<bar> \<le> \<bar>d\<bar> / 2 ^ 53 + a * tiny" .
  moreover have "\<bar>d\<bar> / 2 ^ 53 \<le> 101 / 100 * e"
    using divide_right_mono [OF x2, of "2 ^ 53"] by (simp add: e_def)
  ultimately have p: "\<bar>a * p - d\<bar> \<le> 63 / 50 * e" using eta_a e by linarith
  have x3: "\<bar>a * p\<bar> \<le> 5 / 4 * m" using p x2 e m by linarith
  define b where "b = fl_rat (a * p)"
  have b: "\<bar>b - a * p\<bar> \<le> 63 / 50 * e" unfolding b_def by (rule err [OF x3])
  have mul2: "num_mul (Fin a) (Fin p) = Fin b" using range [OF x3] by (simp add: fl_in_range b_def)
  have near: "\<bar>a + b - t * c\<bar> \<le> 126 / 25 * e" using t1 d p b by linarith
  then have x4: "\<bar>a + b\<bar> \<le> 5 / 4 * m" using m e mult_pos_pos [OF pos(3,2)] by linarith
  define s where "s = fl_rat (a + b)"
  have s: "\<bar>s - (a + b)\<bar> \<le> 63 / 50 * e" unfolding s_def by (rule err [OF x4])
  have add: "num_add (Fin a) (Fin b) = Fin s" using range [OF x4] by (simp add: fl_in_range s_def)
  show ?thesis
  proof (rule that)
    show "num_add (Fin a) (num_mul (Fin a) (num_div (num_sub (num_mul (Fin t) (Fin c)) (Fin a)) (Fin a))) = Fin s"
      by (simp only: mul sub divide mul2 add)
    show "\<bar>s - t * c\<bar> \<le> 32 / 5 * (m / 2 ^ 53)" unfolding e_def [symmetric] using near s e by linarith
    show "\<bar>s\<bar> \<le> 5 / 4 * m" using near s e m mult_pos_pos [OF pos(3,2)] by linarith
  qed
qed

lemma rate_of_chain:
  fixes a c t s :: rat
  assumes c: "1 / 2 ^ 40 \<le> c" "c \<le> 2 ^ 40" and m: "m = max (t * c) a" "1 / 2 ^ 40 \<le> m" "m \<le> 2 ^ 80"
    and s: "\<bar>s - t * c\<bar> \<le> 32 / 5 * (m / 2 ^ 53)" "\<bar>s\<bar> \<le> 5 / 4 * m"
  obtains r where "num_div (Fin s) (Fin c) = Fin r" "\<bar>r - t\<bar> \<le> max t (a / c) / 2 ^ 50"
proof -
  have pos: "0 < c" using c(1) by (auto intro: less_le_trans [of 0 "1 / 2 ^ 40"])
  define e where "e = m / 2 ^ 53"
  define r where "r = fl_rat (s / c)"
  have "\<bar>s / c\<bar> \<le> 2 ^ 1000"
  proof -
    have "\<bar>s\<bar> \<le> 2 ^ 81" using s(2) m(3) by simp
    also have "\<dots> \<le> 2 ^ 1000 * (1 / 2 ^ 40)" by simp
    also have "\<dots> \<le> 2 ^ 1000 * c" using c(1) by simp
    finally show ?thesis using pos by (simp add: abs_divide divide_le_eq)
  qed
  then have quotient: "num_div (Fin s) (Fin c) = Fin r" using pos by (simp add: fl_in_range r_def)
  have "tiny \<le> 1 / 2 ^ 40 / 2 ^ 53 / 100 / 2 ^ 40" by (simp add: tiny_def)
  also have "\<dots> \<le> e / 100 / 2 ^ 40" unfolding e_def using m(2) by (intro divide_right_mono) simp_all
  finally have eta: "tiny \<le> e / 100 / 2 ^ 40" .
  have e: "0 \<le> e" using m(2) by (simp add: e_def order_trans [of 0 "1 / 2 ^ 40"])
  have eta_c: "c * tiny \<le> e / 100"
    using mult_mono [OF c(2) eta] e pos by simp
  have "\<bar>c * (r - s / c)\<bar> = c * \<bar>r - s / c\<bar>" using pos by (simp add: abs_mult)
  also have "c * \<bar>r - s / c\<bar> \<le> c * (\<bar>s / c\<bar> / 2 ^ 53 + tiny)"
    unfolding r_def by (rule mult_left_mono [OF fl_rat_error]) (use pos in simp)
  also have "\<dots> = \<bar>s\<bar> / 2 ^ 53 + c * tiny" using pos by (simp add: abs_divide distrib_left)
  also have "c * (r - s / c) = c * r - s" using pos by (simp add: right_diff_distrib)
  finally have "\<bar>c * r - s\<bar> \<le> \<bar>s\<bar> / 2 ^ 53 + c * tiny" .
  moreover have "\<bar>s\<bar> / 2 ^ 53 \<le> 5 / 4 * e"
    using divide_right_mono [OF s(2), of "2 ^ 53"] by (simp add: e_def)
  ultimately have "\<bar>c * r - t * c\<bar> \<le> 8 * e"
    using eta_c e s(1) [folded e_def] by linarith
  moreover have "c * r - t * c = c * (r - t)" by (simp add: algebra_simps)
  ultimately have "c * \<bar>r - t\<bar> \<le> 8 * e" using pos by (simp add: abs_mult)
  then have "\<bar>r - t\<bar> \<le> 8 * e / c" using pos by (simp add: le_divide_eq mult.commute)
  also have "8 * e / c = max t (a / c) / 2 ^ 50"
    using pos by (simp add: e_def m(1) max_def field_simps)
  finally show ?thesis using quotient that by blast
qed

text \<open>C9: A revision to a target price reaches it: when the cost of the product and the conversion rate are
  positive amounts of ordinary size (between 1/2^40 and 2^40, as is the target), the rate in dollars
  of the revised costing differs from the target by at most 2^-50 of the greater of the target and
  the cost in dollars, with every one of the seven operations rounded to binary64.\<close>

theorem target_price_reached:
  assumes "si_conversion i = Fin c" "1 / 2 ^ 40 \<le> c" "c \<le> 2 ^ 40" "1 / 2 ^ 40 \<le> t" "t \<le> 2 ^ 40"
    and "sc_total_a (calculate_stored_product_costing i) = Fin a" "1 / 2 ^ 40 \<le> a" "a \<le> 2 ^ 40"
  shows "\<exists>r. sc_rate_usd (fst (calculate_stored_product_revision_costing i (Some (Fin t)))) = Fin r
    \<and> \<bar>r - t\<bar> \<le> max t (a / c) / 2 ^ 50"
proof -
  let ?a = "total_a (si_base_cost i) (si_rejection i) (si_pieces i) (si_packing i) (si_shipping i)"
  have pos: "0 < a" "0 < c" using assms(2,7) by (auto intro: less_le_trans [of 0 "1 / 2 ^ 40"])
  have a: "?a = Fin a"
    using assms(6) pos(1) by (auto simp: calculate_stored_product_costing_def Let_def safe_number_def split: if_splits)
  obtain s where s: "num_add (Fin a) (num_mul (Fin a) (num_div (num_sub (num_mul (Fin t) (Fin c)) (Fin a)) (Fin a))) = Fin s"
      "\<bar>s - t * c\<bar> \<le> 32 / 5 * (max (t * c) a / 2 ^ 53)" "\<bar>s\<bar> \<le> 5 / 4 * max (t * c) a"
    using target_chain [OF assms(7,8,2,3,4,5)] by blast
  have "t * c \<le> 2 ^ 40 * 2 ^ 40" using assms(3,5) pos by (intro mult_mono) simp_all
  then have "max (t * c) a \<le> 2 ^ 80" "1 / 2 ^ 40 \<le> max (t * c) a" using assms(7,8) by simp_all
  then obtain r where r: "num_div (Fin s) (Fin c) = Fin r" "\<bar>r - t\<bar> \<le> max t (a / c) / 2 ^ 50"
    using rate_of_chain [OF assms(2,3) refl _ _ s(2,3)] by blast
  have "sc_rate_usd (fst (calculate_stored_product_revision_costing i (Some (Fin t)))) = Fin r"
    using a assms(1) pos s(1) r(1)
    by (simp add: calculate_stored_product_revision_costing_def calculate_stored_product_costing_def Let_def in_usd_def
      positive_def safe_number_def)
  then show ?thesis using r(2) by blast
qed

definition sample_stored :: stored_product_input where
  "sample_stored = \<lparr>si_base_cost = Fin 100, si_conversion = Fin 84, si_packing = Fin 20, si_pieces = Fin 10, si_profit = Fin 0,
     si_rejection = Fin 1, si_shipping = Fin 30\<rparr>"

theorem target_price_reached_witness:
  "\<exists>r. sc_rate_usd (fst (calculate_stored_product_revision_costing sample_stored (Some (Fin 3)))) = Fin r \<and> \<bar>r - 3\<bar> \<le> 3 / 2 ^ 50"
proof -
  have "sc_total_a (calculate_stored_product_costing sample_stored) = Fin 205" by code_simp
  moreover have "max 3 (205 / 84 :: rat) = 3" by (simp add: max_def)
  ultimately show ?thesis
    using target_price_reached [of sample_stored 84 3 205] by (simp add: sample_stored_def)
qed

subsection \<open>Every figure is a finite number\<close>

definition stored_figures :: "stored_costing \<Rightarrow> jsnum list" where
  "stored_figures r = [sc_base_cost r, sc_packing r, sc_pieces r, sc_profit r, sc_rate_inr r, sc_rate_usd r, sc_rejection r,
     sc_shipping r, sc_total_a r, sc_total_ab r]"

definition package_figures :: "package_costing \<Rightarrow> jsnum list" where
  "package_figures r = [kc_child_total r, kc_process_cost r, kc_packing r, kc_shipping r, kc_pieces r, kc_process_per_kg r,
     kc_profit r, kc_profit_percent r, kc_rate_inr r, kc_rate_usd r, kc_rejection r, kc_total_a r, kc_total_ab r, kc_total_rate r]"

definition quote_figures :: "costing_result \<Rightarrow> jsnum list" where
  "quote_figures r = [cr_net_with_alloy r, cr_net_without_alloy r, cr_pieces_per_kg r, cr_process_cost r, cr_profit r,
     cr_rate_inr r, cr_rate_usd r, cr_raw_material r, cr_rejection r, cr_scrap_rate_gm r, cr_scrap_return r,
     cr_scrap_price r, cr_scrap_price_burning r, cr_total_a r, cr_total_ab r, cr_total_rate r, cr_total_rods r]"

text \<open>C30: Whatever numbers are put in, infinities, NaN, zero weights and zero conversion rates included, every figure
  of the costing of a quote, of a stored product and its revision and of a package is a finite number,
  and so are the base cost and the weight of a bill of material.\<close>

theorem costing_figures_finite:
  "list_all is_finite (quote_figures (calculate_costing p q))
   \<and> list_all is_finite (stored_figures (calculate_stored_product_costing i))
   \<and> list_all is_finite (snd (calculate_stored_product_revision_costing i target)
       # stored_figures (fst (calculate_stored_product_revision_costing i target)))
   \<and> list_all is_finite (package_figures (calculate_package_revision_costing_from_base k target))
   \<and> list_all is_finite (package_figures (calculate_package_costing p pq child_total))
   \<and> is_finite (calculate_product_base_cost b) \<and> is_finite (calculate_bom_piece_weight cs)"
proof -
  have "list_all is_finite (package_figures (calculate_package_revision_costing_from_base k target))" for k target
    by (simp add: calculate_package_revision_costing_from_base_def Let_def package_figures_def)
  moreover have "is_finite (pr_per_kg (calculate_product_process_cost p))"
    by (simp add: calculate_product_process_cost_def Let_def)
  moreover have "list_all is_finite (stored_figures (calculate_stored_product_costing i))" for i
    by (simp add: calculate_stored_product_costing_def Let_def stored_figures_def)
  moreover have "list_all is_finite (quote_figures (calculate_costing p q))"
    by (simp add: calculate_costing_def Let_def quote_figures_def)
  ultimately show ?thesis
    by (simp add: calculate_package_costing_def calculate_stored_product_revision_costing_def Let_def package_figures_def
      calculate_product_base_cost_def)
qed

subsection \<open>A package without components\<close>

definition as_package :: "stored_product_input \<Rightarrow> package_input" where
  "as_package i = \<lparr>ki_child_total = Fin 0, ki_conversion = si_conversion i, ki_packing = si_packing i, ki_pieces = si_pieces i,
     ki_process_cost = si_base_cost i, ki_profit = si_profit i, ki_rejection = si_rejection i, ki_shipping = si_shipping i\<rparr>"

text \<open>C31: The two revisions agree: a package whose components cost nothing is priced like the stored product with
  its process cost as base, in every figure and bit, with or without a target price, as long as the
  cost is finite.\<close>


theorem package_without_children_is_stored_product:
  assumes "is_finite (package_total_a (as_package i))"
  shows "let k = calculate_package_revision_costing_from_base (as_package i) target;
      (r, profit_percent) = calculate_stored_product_revision_costing i target in
    kc_rate_usd k = sc_rate_usd r \<and> kc_total_rate k = sc_rate_inr r \<and> kc_total_ab k = sc_total_ab r \<and> kc_total_a k = sc_total_a r
    \<and> kc_profit k = sc_profit r \<and> kc_profit_percent k = profit_percent \<and> kc_rejection k = sc_rejection r
    \<and> kc_packing k = sc_packing r \<and> kc_shipping k = sc_shipping r"
proof -
  let ?a = "total_a (si_base_cost i) (si_rejection i) (si_pieces i) (si_packing i) (si_shipping i)"
  have a: "package_total_a (as_package i) = ?a" by (simp add: package_total_a_def as_package_def)
  have stored: "sc_total_a (calculate_stored_product_costing i) = ?a"
    using assms by (simp add: a calculate_stored_product_costing_def Let_def safe_number_id)
  have rounded: "rounded ?a"
    using assms by (cases "add_all (si_base_cost i) [num_mul (si_base_cost i) (si_rejection i), per_piece (si_pieces i) (si_packing i)]";
      cases "per_piece (si_pieces i) (si_shipping i)") (auto simp: a total_a_def add_all_def rounded_fl)
  have profit: "package_profit (as_package i) target =
      (case target of Some price \<Rightarrow> if positive ?a then num_div (num_sub (num_mul price (si_conversion i)) ?a) ?a else si_profit i
        | None \<Rightarrow> si_profit i)"
    unfolding package_profit_def a by (cases target) (simp_all add: as_package_def sub_zero)
  have zero: "num_add (Fin 0) (num_add ?a (num_mul ?a v)) = num_add ?a (num_mul ?a v)" for v
    by (rule add_zero) (simp add: rounded)
  have child: "ki_child_total (as_package i) = Fin 0" "ki_conversion (as_package i) = si_conversion i"
      "ki_packing (as_package i) = si_packing i" "ki_pieces (as_package i) = si_pieces i"
      "ki_process_cost (as_package i) = si_base_cost i" "ki_shipping (as_package i) = si_shipping i"
      "ki_rejection (as_package i) = si_rejection i"
    by (simp_all add: as_package_def)
  show ?thesis
    unfolding calculate_package_revision_costing_from_base_def calculate_stored_product_revision_costing_def a child profit stored
    by (simp add: Let_def calculate_stored_product_costing_def zero)
qed

theorem package_without_children_is_stored_product_witness:
  "kc_rate_usd (calculate_package_revision_costing_from_base (as_package sample_stored) (Some (Fin 3)))
    = sc_rate_usd (fst (calculate_stored_product_revision_costing sample_stored (Some (Fin 3))))"
proof -
  have "is_finite (package_total_a (as_package sample_stored))" by code_simp
  from package_without_children_is_stored_product [OF this, of "Some (Fin 3)"] show ?thesis
    by (simp add: Let_def split: prod.splits)
qed

end
