(* ===== verification/Dashboard_Delivery.thy ===== *)
theory Dashboard_Delivery
  imports JS_Prelude "HOL-Library.Option_ord"
begin

section \<open>Delivery of the dashboard to the browser\<close>

text \<open>
  \<^verbatim>\<open>apps/web/lib/dashboard-delivery-state.ts\<close>: the state of the client that fetches the canonical state of
  one floor, its reducer, the delay to the next poll and the request it may send. The data
  of the dashboard is the type variable \<open>'d\<close>; times are milliseconds, versions and request numbers
  integers.
\<close>

subsection \<open>Data\<close>

datatype payload_state = NoPayload | CurrentPayload | StalePayload

datatype canonical_request = InitialRequest | CanonicalState | Settled | RequestError

datatype durable_refresh = RefreshIdle | RefreshPending | RefreshRunning | RefreshFailed

datatype coverage_state = CompleteCoverage | PartialCoverage

datatype visibility_state = Visible | Hidden

record dashboard_request =
  dr_floor :: string
  dr_scope :: "string option"
  dr_id :: int

record 'd delivery_state =
  ds_access_denied :: bool
  ds_failures :: nat
  ds_scope :: string
  ds_coverage :: coverage_state
  ds_data :: "'d option"
  ds_floor :: string
  ds_in_flight :: "dashboard_request option"
  ds_last_error :: "string option"
  ds_last_success :: "int option"
  ds_payload :: payload_state
  ds_refresh :: durable_refresh
  ds_refetch :: bool
  ds_request :: canonical_request
  ds_deadline :: "int option"
  ds_suppress :: bool
  ds_version :: "int option"
  ds_visibility :: visibility_state

datatype 'd delivery_action =
    FloorChanged string "string option"
  | RefreshFailedAction string
  | PollDue
  | RefreshRequested
  | RefreshRunningAction
  | RetryRequested
  | SafetyDue int
  | VisibilityChanged visibility_state
  | RequestFailed int string bool dashboard_request
  | RequestAborted dashboard_request
  | RequestStarted dashboard_request
  | StateInvalid string dashboard_request
  | StateChanged int coverage_state 'd durable_refresh "string option" int dashboard_request
  | StateNotModified int 'd durable_refresh "string option" int dashboard_request

subsection \<open>Operations\<close>

definition safety_refresh_ms :: int where
  "safety_refresh_ms = 2500"

definition create_dashboard_delivery_state :: "string \<Rightarrow> visibility_state \<Rightarrow> string \<Rightarrow> 'd delivery_state" where
  "create_dashboard_delivery_state floor_code visibility scope =
     \<lparr>ds_access_denied = False, ds_failures = 0, ds_scope = scope, ds_coverage = CompleteCoverage, ds_data = None,
      ds_floor = floor_code, ds_in_flight = None, ds_last_error = None, ds_last_success = None, ds_payload = NoPayload,
      ds_refresh = RefreshIdle, ds_refetch = False, ds_request = InitialRequest, ds_deadline = None, ds_suppress = False,
      ds_version = None, ds_visibility = visibility\<rparr>"

definition in_scope_of :: "'d delivery_state \<Rightarrow> dashboard_request \<Rightarrow> bool" where
  "in_scope_of s r \<longleftrightarrow> (case dr_scope r of None \<Rightarrow> True | Some scope \<Rightarrow> ds_scope s = scope)"

definition owns_request :: "'d delivery_state \<Rightarrow> dashboard_request \<Rightarrow> bool" where
  "owns_request s r \<longleftrightarrow> (case ds_in_flight s of None \<Rightarrow> False
     | Some q \<Rightarrow> dr_id q = dr_id r \<and> dr_floor q = dr_floor r) \<and> ds_floor s = dr_floor r \<and> in_scope_of s r"

definition wants_request :: "'d delivery_state \<Rightarrow> bool" where
  "wants_request s \<longleftrightarrow> ds_request s = InitialRequest \<or> ds_request s = CanonicalState"

definition payload_without_answer :: "'d option \<Rightarrow> payload_state" where
  "payload_without_answer data = (if data = None then NoPayload else StalePayload)"

text \<open>A response that cannot be used: the data is kept as stale and asked for again in full.\<close>

definition rejected_response :: "string \<Rightarrow> 'd delivery_state \<Rightarrow> 'd delivery_state" where
  "rejected_response message s = s\<lparr>ds_in_flight := None, ds_last_error := Some message,
     ds_payload := payload_without_answer (ds_data s), ds_refetch := True, ds_request := CanonicalState, ds_suppress := True\<rparr>"

definition failure_delay :: "nat \<Rightarrow> int" where
  "failure_delay failures = min 30000 (safety_refresh_ms * 2 ^ min (failures + 1) 4)"

definition refresh_message :: "durable_refresh \<Rightarrow> string option \<Rightarrow> string option" where
  "refresh_message refresh message = (if refresh = RefreshFailed
     then Some (case message of None \<Rightarrow> ''Planning recalculation failed.'' | Some m \<Rightarrow> m) else None)"

definition accepted_response :: "int \<Rightarrow> 'd \<Rightarrow> durable_refresh \<Rightarrow> string option \<Rightarrow> 'd delivery_state \<Rightarrow> 'd delivery_state" where
  "accepted_response at_ms data refresh message s = s\<lparr>ds_access_denied := False, ds_failures := 0, ds_data := Some data,
     ds_in_flight := None, ds_last_error := refresh_message refresh message, ds_last_success := Some at_ms,
     ds_payload := (if refresh = RefreshFailed then StalePayload else CurrentPayload), ds_refresh := refresh,
     ds_request := (if ds_refetch s then CanonicalState else Settled), ds_deadline := Some (at_ms + safety_refresh_ms),
     ds_suppress := False\<rparr>"

fun dashboard_delivery_reducer :: "'d delivery_state \<Rightarrow> 'd delivery_action \<Rightarrow> 'd delivery_state" where
  "dashboard_delivery_reducer s (FloorChanged floor_code scope) =
     create_dashboard_delivery_state floor_code (ds_visibility s) (case scope of None \<Rightarrow> floor_code | Some k \<Rightarrow> k)"
| "dashboard_delivery_reducer s RefreshRequested =
     s\<lparr>ds_refresh := RefreshPending, ds_refetch := True, ds_request := CanonicalState\<rparr>"
| "dashboard_delivery_reducer s RefreshRunningAction = s\<lparr>ds_refresh := RefreshRunning\<rparr>"
| "dashboard_delivery_reducer s (RefreshFailedAction message) =
     s\<lparr>ds_last_error := Some message, ds_payload := payload_without_answer (ds_data s), ds_refresh := RefreshFailed,
       ds_request := (if ds_data s = None then RequestError else Settled)\<rparr>"
| "dashboard_delivery_reducer s PollDue =
     (if ds_visibility s = Hidden \<or> ds_refresh s \<noteq> RefreshPending \<and> ds_refresh s \<noteq> RefreshRunning then s
      else s\<lparr>ds_refetch := True, ds_request := CanonicalState\<rparr>)"
| "dashboard_delivery_reducer s RetryRequested =
     s\<lparr>ds_last_error := None, ds_refetch := True, ds_request := (if ds_data s = None then InitialRequest else CanonicalState)\<rparr>"
| "dashboard_delivery_reducer s (SafetyDue at_ms) =
     (if ds_visibility s = Hidden \<or> (case ds_deadline s of None \<Rightarrow> True | Some t \<Rightarrow> at_ms < t) then s
      else s\<lparr>ds_refetch := True, ds_request := CanonicalState\<rparr>)"
| "dashboard_delivery_reducer s (VisibilityChanged visibility) =
     (if visibility = Hidden then s\<lparr>ds_visibility := Hidden\<rparr>
      else s\<lparr>ds_refetch := True, ds_request := (if ds_data s = None then InitialRequest else CanonicalState),
        ds_visibility := Visible\<rparr>)"
| "dashboard_delivery_reducer s (RequestStarted r) =
     (if ds_floor s \<noteq> dr_floor r \<or> \<not> in_scope_of s r \<or> ds_in_flight s \<noteq> None \<or> \<not> wants_request s \<or> ds_visibility s = Hidden
      then s else s\<lparr>ds_in_flight := Some r, ds_refetch := False\<rparr>)"
| "dashboard_delivery_reducer s (RequestFailed at_ms message access_denied r) =
     (if \<not> owns_request s r then s
      else let data = (if access_denied then None else ds_data s) in
        s\<lparr>ds_in_flight := None, ds_last_error := Some message, ds_access_denied := ds_access_denied s \<or> access_denied,
          ds_data := data, ds_failures := ds_failures s + 1, ds_payload := payload_without_answer data,
          ds_request := (if data = None then RequestError else Settled),
          ds_deadline := Some (at_ms + failure_delay (ds_failures s))\<rparr>)"
| "dashboard_delivery_reducer s (RequestAborted r) =
     (if \<not> owns_request s r then s else s\<lparr>ds_in_flight := None, ds_refetch := True\<rparr>)"
| "dashboard_delivery_reducer s (StateInvalid message r) =
     (if \<not> owns_request s r then s else rejected_response message s)"
| "dashboard_delivery_reducer s (StateChanged at_ms coverage data refresh message version r) =
     (if \<not> owns_request s r then s
      else if (case ds_version s of None \<Rightarrow> False | Some v \<Rightarrow> version < v)
      then rejected_response ''A regressive dashboard version was rejected; canonical refetch required.'' s
      else (accepted_response at_ms data refresh message s)\<lparr>ds_coverage := coverage, ds_version := Some version\<rparr>)"
| "dashboard_delivery_reducer s (StateNotModified at_ms data refresh message version r) =
     (if \<not> owns_request s r then s
      else if ds_data s = None \<or> ds_version s \<noteq> Some version
      then rejected_response ''An unchanged response requires retained same-floor dashboard data.'' s
      else accepted_response at_ms data refresh message s)"

definition dashboard_delivery_poll_delay :: "'d delivery_state \<Rightarrow> int \<Rightarrow> int option" where
  "dashboard_delivery_poll_delay s now =
     (if ds_visibility s = Hidden \<or> ds_in_flight s \<noteq> None then None
      else if wants_request s then Some 0
      else case ds_deadline s of None \<Rightarrow> None | Some t \<Rightarrow> Some (max 0 (t - now)))"

record request_descriptor = dashboard_request +
  rd_known_version :: "int option"

definition dashboard_request_descriptor :: "'d delivery_state \<Rightarrow> int \<Rightarrow> request_descriptor option" where
  "dashboard_request_descriptor s request_id =
     (if ds_visibility s = Hidden \<or> ds_in_flight s \<noteq> None \<or> \<not> wants_request s then None
      else Some \<lparr>dr_floor = ds_floor s, dr_scope = Some (ds_scope s), dr_id = request_id,
        rd_known_version = (if ds_request s = InitialRequest \<or> ds_data s = None \<or> ds_suppress s then None else ds_version s)\<rparr>)"

subsection \<open>The state is consistent\<close>

definition delivery_consistent :: "'d delivery_state \<Rightarrow> bool" where
  "delivery_consistent s \<longleftrightarrow>
     (ds_data s = None \<longleftrightarrow> ds_payload s = NoPayload)
     \<and> (ds_data s \<noteq> None \<longrightarrow> ds_version s \<noteq> None)
     \<and> (case ds_in_flight s of None \<Rightarrow> True | Some r \<Rightarrow> dr_floor r = ds_floor s \<and> in_scope_of s r)
     \<and> (ds_request s = Settled \<longrightarrow> ds_data s \<noteq> None)
     \<and> (ds_request s \<in> {RequestError, InitialRequest} \<longrightarrow> ds_data s = None)"

lemmas delivery_response_defs =
  rejected_response_def accepted_response_def payload_without_answer_def in_scope_of_def Let_def

lemma created_consistent: "delivery_consistent (create_dashboard_delivery_state f v k)"
  by (simp add: delivery_consistent_def create_dashboard_delivery_state_def)

lemma rejected_consistent: "delivery_consistent s \<Longrightarrow> delivery_consistent (rejected_response m s)"
  by (auto simp: delivery_consistent_def rejected_response_def payload_without_answer_def)

lemma reducer_consistent:
  assumes "delivery_consistent s"
  shows "delivery_consistent (dashboard_delivery_reducer s a)"
proof (cases a)
  case (FloorChanged f k)
  then show ?thesis by (simp add: created_consistent)
next
  case (StateChanged t c d rf m v r)
  then show ?thesis using assms
    by (simp add: rejected_consistent) (simp add: delivery_consistent_def accepted_response_def)
next
  case (StateNotModified t d rf m v r)
  then show ?thesis using assms
    by (simp add: rejected_consistent) (auto simp: delivery_consistent_def accepted_response_def)
qed (use assms in \<open>auto simp: delivery_consistent_def delivery_response_defs wants_request_def split: option.splits\<close>)

interpretation delivery: invariant_machine dashboard_delivery_reducer delivery_consistent
  by unfold_locales (rule reducer_consistent)

subsection \<open>Versions\<close>

text \<open>The reducer on one floor: a change of the floor is left out.\<close>

definition same_floor_reducer :: "'d delivery_state \<Rightarrow> 'd delivery_action \<Rightarrow> 'd delivery_state" where
  "same_floor_reducer s a = (case a of FloorChanged _ _ \<Rightarrow> s | _ \<Rightarrow> dashboard_delivery_reducer s a)"

fun changes_floor :: "'d delivery_action \<Rightarrow> bool" where
  "changes_floor (FloorChanged _ _) = True"
| "changes_floor _ = False"

lemma same_floor_version: "ds_version s \<le> ds_version (same_floor_reducer s a)"
  by (cases a) (auto simp: same_floor_reducer_def delivery_response_defs split: option.splits)

interpretation floor_delivery: monotone_machine same_floor_reducer delivery_consistent ds_version
proof unfold_locales
  fix s :: "'a delivery_state" and a
  show "delivery_consistent s \<Longrightarrow> delivery_consistent (same_floor_reducer s a)"
    by (cases a) (simp_all add: same_floor_reducer_def reducer_consistent del: dashboard_delivery_reducer.simps)
qed (rule same_floor_version)

lemma run_same_floor:
  "list_all (\<lambda>a. \<not> changes_floor a) as \<Longrightarrow> run_steps dashboard_delivery_reducer s as = run_steps same_floor_reducer s as"
proof (induction as arbitrary: s)
  case (Cons a as)
  then show ?case by (cases a) (simp_all add: same_floor_reducer_def del: dashboard_delivery_reducer.simps)
qed simp

subsection \<open>Polling\<close>

definition has_next_poll :: "'d delivery_state \<Rightarrow> bool" where
  "has_next_poll s \<longleftrightarrow> wants_request s \<or> ds_deadline s \<noteq> None"

fun reports_refresh_failure :: "'d delivery_action \<Rightarrow> bool" where
  "reports_refresh_failure (RefreshFailedAction _) = True"
| "reports_refresh_failure _ = False"

lemma reducer_has_next_poll:
  assumes "has_next_poll s" "\<not> reports_refresh_failure a"
  shows "has_next_poll (dashboard_delivery_reducer s a)"
  using assms
  by (cases a) (auto simp: has_next_poll_def wants_request_def delivery_response_defs create_dashboard_delivery_state_def)

lemma run_has_next_poll:
  "has_next_poll s \<Longrightarrow> list_all (\<lambda>a. \<not> reports_refresh_failure a) as \<Longrightarrow> has_next_poll (run_steps dashboard_delivery_reducer s as)"
  by (induction as arbitrary: s) (simp_all add: reducer_has_next_poll del: dashboard_delivery_reducer.simps)

text \<open>Data has come with an answer, which has set a deadline.\<close>

definition dated_data :: "'d delivery_state \<Rightarrow> bool" where
  "dated_data s \<longleftrightarrow> (ds_data s \<noteq> None \<longrightarrow> ds_deadline s \<noteq> None)"

lemma reducer_dated_data:
  assumes "dated_data s"
  shows "dated_data (dashboard_delivery_reducer s a)"
  using assms by (cases a) (auto simp: dated_data_def delivery_response_defs create_dashboard_delivery_state_def)

interpretation dated_delivery: invariant_machine dashboard_delivery_reducer dated_data
  by unfold_locales (rule reducer_dated_data)

text \<open>What the hook does with the delay: at once it starts the request, or lets the safety refresh come due if none is
  wanted; after a delay the timer, which goes off at \<open>fired\<close>, polls a refresh under way or lets the safety refresh
  come due.\<close>

definition polled_state :: "'d delivery_state \<Rightarrow> int \<Rightarrow> int \<Rightarrow> 'd delivery_state" where
  "polled_state s now fired = (case dashboard_delivery_poll_delay s now of
      None \<Rightarrow> s
    | Some d \<Rightarrow>
        if d = 0 then (if wants_request s then s else dashboard_delivery_reducer s (SafetyDue now))
        else dashboard_delivery_reducer s (if ds_refresh s \<in> {RefreshPending, RefreshRunning} then PollDue else SafetyDue fired))"

lemma polled_wants_request:
  assumes "dashboard_delivery_poll_delay s now = Some d" "now + d \<le> fired"
  shows "dashboard_request_descriptor (polled_state s now fired) i \<noteq> None"
  using assms by (auto simp: dashboard_delivery_poll_delay_def polled_state_def dashboard_request_descriptor_def wants_request_def
    split: if_splits option.splits)

lemma failure_delay_bounds: "2 * safety_refresh_ms \<le> failure_delay n \<and> failure_delay n \<le> 30000"
proof -
  have "(2 :: int) ^ 1 \<le> 2 ^ min (n + 1) 4" by (rule power_increasing) simp_all
  then show ?thesis by (simp add: failure_delay_def safety_refresh_ms_def)
qed

subsection \<open>Properties\<close>

text \<open>C33: Whatever happens to the client, in any order: there is data exactly if the payload is not empty, data
  comes with its version, a request in flight is for the floor and scope shown, the request is settled
  only with data and is in the states initial or error only without.\<close>

theorem delivery_always_consistent:
  "delivery_consistent (run_steps dashboard_delivery_reducer (create_dashboard_delivery_state f v k) as)"
  by (rule delivery.run_inv [OF created_consistent])

text \<open>C11: On one floor the version shown never goes back, whatever answers come in whatever order, late, repeated
  or older ones: after any history, any further actions but a change of the floor lead to the same
  version or a later one.\<close>

theorem shown_version_never_regresses:
  assumes "list_all (\<lambda>a. \<not> changes_floor a) bs"
  shows "ds_version (run_steps dashboard_delivery_reducer (create_dashboard_delivery_state f v k) as)
    \<le> ds_version (run_steps dashboard_delivery_reducer (create_dashboard_delivery_state f v k) (as @ bs))"
proof -
  let ?s = "run_steps dashboard_delivery_reducer (create_dashboard_delivery_state f v k) as"
  have "ds_version ?s \<le> ds_version (run_steps same_floor_reducer ?s bs)"
    by (rule floor_delivery.run_mono) (rule delivery.run_inv [OF created_consistent])
  then show ?thesis by (simp only: run_steps_append run_same_floor [OF assms])
qed

definition sample_request :: dashboard_request where
  "sample_request = \<lparr>dr_floor = ''cnc'', dr_scope = None, dr_id = 1\<rparr>"

theorem shown_version_never_regresses_witness:
  "Some 7 \<le> ds_version (run_steps dashboard_delivery_reducer (create_dashboard_delivery_state ''cnc'' Visible ''cnc'')
     ([RequestStarted sample_request, StateChanged 10 CompleteCoverage () RefreshIdle None 7 sample_request]
      @ [RetryRequested, RequestStarted (sample_request\<lparr>dr_id := 2\<rparr>),
         StateChanged 20 CompleteCoverage () RefreshIdle None 6 (sample_request\<lparr>dr_id := 2\<rparr>)]))"
proof -
  have "ds_version (run_steps dashboard_delivery_reducer (create_dashboard_delivery_state ''cnc'' Visible ''cnc'')
     [RequestStarted sample_request, StateChanged 10 CompleteCoverage () RefreshIdle None 7 sample_request]) = Some 7"
    by code_simp
  moreover have "list_all (\<lambda>a. \<not> changes_floor a) [RetryRequested, RequestStarted (sample_request\<lparr>dr_id := 2\<rparr>),
         StateChanged 20 CompleteCoverage () RefreshIdle None 6 (sample_request\<lparr>dr_id := 2\<rparr>)]"
    by simp
  ultimately show ?thesis using shown_version_never_regresses by metis
qed

text \<open>C32: After any actions at all, a visible client that waits for no answer has a next poll, unless it is in the
  error state without a deadline, which only a failed refresh reported from outside leads to. The poll is due at once exactly when
  a request may be sent or the deadline has passed, and when the poll is due, which is never before the delay is over, the client
  is in a state in which it sends a request. A failed request puts the deadline 5 to 30 seconds after the failure.\<close>

theorem visible_client_keeps_polling:
  assumes "s = run_steps dashboard_delivery_reducer (create_dashboard_delivery_state f v k) as"
    and "ds_visibility s = Visible" "ds_in_flight s = None"
  shows "(dashboard_delivery_poll_delay s now = None \<longleftrightarrow> ds_request s = RequestError \<and> ds_deadline s = None)
    \<and> (list_all (\<lambda>a. \<not> reports_refresh_failure a) as \<longrightarrow> dashboard_delivery_poll_delay s now \<noteq> None)
    \<and> (dashboard_delivery_poll_delay s now = Some 0
        \<longleftrightarrow> dashboard_request_descriptor s i \<noteq> None \<or> (\<exists>t. ds_deadline s = Some t \<and> t \<le> now))
    \<and> (\<forall>d fired. dashboard_delivery_poll_delay s now = Some d \<and> now + d \<le> fired \<longrightarrow>
        0 \<le> d \<and> dashboard_request_descriptor (polled_state s now fired) i \<noteq> None)
    \<and> (owns_request q r \<longrightarrow> ds_deadline (dashboard_delivery_reducer q (RequestFailed t m denied r)) \<in> Some ` {t + 5000..t + 30000})"
proof -
  have "delivery_consistent s" unfolding assms(1) by (rule delivery.run_inv [OF created_consistent])
  moreover have "dated_data s" unfolding assms(1)
    by (rule dated_delivery.run_inv) (simp add: dated_data_def create_dashboard_delivery_state_def)
  ultimately have settled: "ds_request s = Settled \<Longrightarrow> ds_deadline s \<noteq> None" unfolding delivery_consistent_def dated_data_def by blast
  have "has_next_poll (create_dashboard_delivery_state f v k)"
    by (simp add: has_next_poll_def wants_request_def create_dashboard_delivery_state_def)
  then have polls: "list_all (\<lambda>a. \<not> reports_refresh_failure a) as \<Longrightarrow> has_next_poll s" using run_has_next_poll assms(1) by simp
  have "dashboard_delivery_poll_delay s now = None \<longleftrightarrow> ds_request s = RequestError \<and> ds_deadline s = None"
    using assms(2,3) settled by (cases "ds_request s") (auto simp: dashboard_delivery_poll_delay_def wants_request_def split: option.splits)
  moreover have "list_all (\<lambda>a. \<not> reports_refresh_failure a) as \<longrightarrow> dashboard_delivery_poll_delay s now \<noteq> None"
    using assms(2,3) polls by (auto simp: dashboard_delivery_poll_delay_def has_next_poll_def)
  moreover have "dashboard_delivery_poll_delay s now = Some 0
        \<longleftrightarrow> dashboard_request_descriptor s i \<noteq> None \<or> (\<exists>t. ds_deadline s = Some t \<and> t \<le> now)"
    using assms(2,3) by (auto simp: dashboard_delivery_poll_delay_def dashboard_request_descriptor_def split: option.splits)
  moreover have "0 \<le> d" if "dashboard_delivery_poll_delay s now = Some d" for d
    using that by (auto simp: dashboard_delivery_poll_delay_def split: if_splits option.splits)
  moreover have "owns_request q r \<longrightarrow> ds_deadline (dashboard_delivery_reducer q (RequestFailed t m denied r)) \<in> Some ` {t + 5000..t + 30000}"
    using failure_delay_bounds by (simp add: safety_refresh_ms_def Let_def)
  ultimately show ?thesis using polled_wants_request by blast
qed

theorem visible_client_keeps_polling_witness:
  "\<exists>d. dashboard_delivery_poll_delay (run_steps dashboard_delivery_reducer (create_dashboard_delivery_state ''cnc'' Visible ''cnc'' :: unit delivery_state)
     [RequestStarted sample_request, RequestFailed 10 ''x'' False sample_request]) 12 = Some d"
proof -
  let ?s = "run_steps dashboard_delivery_reducer (create_dashboard_delivery_state ''cnc'' Visible ''cnc'' :: unit delivery_state)
     [RequestStarted sample_request, RequestFailed 10 ''x'' False sample_request]"
  have "ds_visibility ?s = Visible" "ds_in_flight ?s = None" "ds_deadline ?s \<noteq> None" by code_simp+
  with conjunct1 [OF visible_client_keeps_polling [OF refl this(1,2), of 12]]
  have "dashboard_delivery_poll_delay ?s 12 \<noteq> None" by blast
  then show ?thesis by (simp only: not_None_eq)
qed

text \<open>A regressive answer is asked for again at once, as often as it comes.\<close>

lemma regressive_answer_repeats:
  assumes "owns_request s r" "ds_version s = Some v" "version < v" "ds_visibility s = Visible"
  shows "dashboard_delivery_poll_delay (dashboard_delivery_reducer s (StateChanged t c d rf m version r)) now = Some 0"
    "ds_version (dashboard_delivery_reducer s (StateChanged t c d rf m version r)) = Some v"
  using assms by (simp_all add: rejected_response_def dashboard_delivery_poll_delay_def wants_request_def)

end
