(* ===== verification/Access_Control.thy ===== *)
theory Access_Control
  imports JS_Value JS_Date
begin

text \<open>
  Accounts, roles, capabilities and their administration: \<open>packages/db/src/authorization.ts\<close>,
  \<open>packages/db/src/access-administration.ts\<close>, \<open>access-audit.ts\<close>, and the service of
  \<open>apps/web/lib/auth/access-administration.ts\<close> that guards them.

  The tables of the schema \<open>identity\<close>, the columns of \<open>recruitment.posts\<close> the queries read and the
  rows of \<open>audit.events\<close> are the record \<open>access_db\<close>; a table with a two-column primary key is an
  association list. An operation is a transaction: its result is the tables after \<open>COMMIT\<close>, or the
  message of the error after \<open>ROLLBACK\<close>. Primary keys, unique indexes and cascading foreign keys
  are those of the migrations. The instant \<open>now()\<close>, \<open>current_date\<close> (a day number), a generated
  uuid, the greatest text of a group in the collation of the database, and the user operations of the
  library better-auth are arguments.
\<close>

subsection \<open>Tables\<close>

datatype override_effect = Allow | Deny

record account =
  ac_id :: string
  ac_email :: string
  ac_verified :: bool
  ac_role :: "string option"

record app_role =
  ro_id :: string
  ro_key :: string
  ro_name :: string
  ro_description :: "string option"
  ro_system :: bool

record capability =
  ca_id :: string
  ca_key :: string

record employment_post =
  po_id :: string
  po_organization :: string
  po_code :: "string option"
  po_name :: "string option"
  po_status :: string
  po_joining :: "int option"
  po_last :: "int option"

record override =
  ov_effect :: override_effect
  ov_reason :: "string option"
  ov_by :: "string option"
  ov_expires :: "int option"

record employee_link =
  li_user :: string
  li_organization :: string
  li_code :: string
  li_by :: "string option"

record audit_change =
  au_actor :: string
  au_type :: string
  au_target :: string
  au_table :: string
  au_reason :: "string option"
  au_metadata :: "(string \<times> jsval) list"

record access_db =
  db_accounts :: "account list"
  db_roles :: "app_role list"
  db_capabilities :: "capability list"
  db_role_caps :: "(string \<times> string) list"
  db_user_roles :: "((string \<times> string) \<times> string option) list"
  db_post_roles :: "((string \<times> string) \<times> string option) list"
  db_overrides :: "((string \<times> string) \<times> override) list"
  db_links :: "employee_link list"
  db_posts :: "employment_post list"
  db_sessions :: "(string \<times> string) list"
  db_audit :: "audit_change list"

text \<open>\<open>btrim\<close> drops spaces, and only spaces, at both ends; \<open>lower(btrim(code))\<close> compares
  employee codes.\<close>

definition btrim :: "string \<Rightarrow> string" where
  "btrim s = rev (dropWhile (\<lambda>c. c = CHR '' '') (rev (dropWhile (\<lambda>c. c = CHR '' '') s)))"

definition employee_key :: "string \<Rightarrow> string" where
  "employee_key code = to_lower (btrim code)"

subsection \<open>Authorization\<close>

text \<open>The statuses of a post under which its employee works today.\<close>

definition post_is_active :: "int \<Rightarrow> employment_post \<Rightarrow> bool" where
  "post_is_active today p \<longleftrightarrow>
     po_status p = ''Occupied''
     \<or> po_status p = ''Appointed'' \<and> (case po_joining p of None \<Rightarrow> False | Some d \<Rightarrow> d \<le> today)
     \<or> po_status p = ''Resigned'' \<and> (case po_last p of None \<Rightarrow> False | Some d \<Rightarrow> d \<ge> today)"

definition post_of_link :: "employee_link \<Rightarrow> employment_post \<Rightarrow> bool" where
  "post_of_link l p \<longleftrightarrow> po_organization p = li_organization l
     \<and> (case po_code p of None \<Rightarrow> False | Some c \<Rightarrow> employee_key c = employee_key (li_code l))"

definition active_employee_posts :: "int \<Rightarrow> access_db \<Rightarrow> string \<Rightarrow> string list" where
  "active_employee_posts today db user =
     concat (map (\<lambda>l. map po_id (filter (\<lambda>p. post_of_link l p \<and> post_is_active today p) (db_posts db)))
       (filter (\<lambda>l. li_user l = user) (db_links db)))"

definition has_active_employment :: "int \<Rightarrow> access_db \<Rightarrow> string \<Rightarrow> bool" where
  "has_active_employment today db user \<longleftrightarrow>
     \<not> (\<exists>l \<in> set (db_links db). li_user l = user) \<or> active_employee_posts today db user \<noteq> []"

definition assigned_roles :: "int \<Rightarrow> access_db \<Rightarrow> string \<Rightarrow> string list" where
  "assigned_roles today db user =
     map (snd \<circ> fst) (filter (\<lambda>a. fst (fst a) = user) (db_user_roles db))
     @ map (snd \<circ> fst) (filter (\<lambda>a. fst (fst a) \<in> set (active_employee_posts today db user)) (db_post_roles db))"

definition has_administrative_access :: "int \<Rightarrow> access_db \<Rightarrow> string \<Rightarrow> bool" where
  "has_administrative_access today db user \<longleftrightarrow>
     has_active_employment today db user
     \<and> (\<exists>r \<in> set (db_roles db). ro_id r \<in> set (assigned_roles today db user) \<and> ro_key r = ''administrative'')"

definition override_is_active :: "int \<Rightarrow> override \<Rightarrow> bool" where
  "override_is_active now ov \<longleftrightarrow> (case ov_expires ov of None \<Rightarrow> True | Some t \<Rightarrow> now < t)"

text \<open>The query: requested permissions, active overrides grouped per permission, role grants.\<close>

definition requested_permissions :: "access_db \<Rightarrow> string list option \<Rightarrow> capability list" where
  "requested_permissions db requested = (case requested of
      None \<Rightarrow> db_capabilities db
    | Some keys \<Rightarrow> filter (\<lambda>c. ca_key c \<in> set keys) (db_capabilities db))"

definition active_overrides :: "int \<Rightarrow> access_db \<Rightarrow> string \<Rightarrow> capability list \<Rightarrow> (string \<times> bool \<times> bool) list" where
  "active_overrides now db user requested =
     (let rows = filter (\<lambda>((u, p), ov). u = user \<and> override_is_active now ov
                 \<and> p \<in> set (map ca_id requested)) (db_overrides db)
      in map (\<lambda>p. (p, (\<exists>((u, p'), ov) \<in> set rows. p' = p \<and> ov_effect ov = Deny),
                      (\<exists>((u, p'), ov) \<in> set rows. p' = p \<and> ov_effect ov = Allow)))
           (remdups (map (snd \<circ> fst) rows)))"

definition role_grants :: "int \<Rightarrow> access_db \<Rightarrow> string \<Rightarrow> capability list \<Rightarrow> string list" where
  "role_grants today db user requested =
     remdups (filter (\<lambda>p. p \<in> set (map ca_id requested))
       (map snd (filter (\<lambda>(r, p). r \<in> set (assigned_roles today db user)) (db_role_caps db))))"

definition query_granted_capabilities ::
    "int \<Rightarrow> int \<Rightarrow> access_db \<Rightarrow> string \<Rightarrow> string list option \<Rightarrow> string list" where
  "query_granted_capabilities now today db user keys =
     (let requested = requested_permissions db keys;
          overrides = active_overrides now db user requested;
          grants = role_grants today db user requested
      in map ca_key (filter (\<lambda>c.
           has_active_employment today db user
           \<and> \<not> (case map_of overrides (ca_id c) of None \<Rightarrow> False | Some (denied, allowed) \<Rightarrow> denied)
           \<and> ((case map_of overrides (ca_id c) of None \<Rightarrow> False | Some (denied, allowed) \<Rightarrow> allowed)
              \<or> ca_id c \<in> set grants
              \<or> has_administrative_access today db user)) requested))"

definition list_granted_capabilities ::
    "int \<Rightarrow> int \<Rightarrow> access_db \<Rightarrow> string \<Rightarrow> string list \<Rightarrow> string list" where
  "list_granted_capabilities now today db user keys =
     (if keys = [] then []
      else filter (\<lambda>k. k \<in> set (query_granted_capabilities now today db user (Some keys))) keys)"

definition has_capability :: "int \<Rightarrow> int \<Rightarrow> access_db \<Rightarrow> string \<Rightarrow> string \<Rightarrow> bool" where
  "has_capability now today db user key \<longleftrightarrow> length (list_granted_capabilities now today db user [key]) = 1"


definition linked_employee_code :: "access_db \<Rightarrow> string \<Rightarrow> string \<Rightarrow> string option" where
  "linked_employee_code db user organization =
     (case filter (\<lambda>l. li_user l = user \<and> li_organization l = organization) (db_links db) of
        [] \<Rightarrow> None
      | l # ls \<Rightarrow> Some (btrim (li_code l)))"

subsection \<open>Administration of the tables\<close>

definition account_exists :: "access_db \<Rightarrow> string \<Rightarrow> bool" where
  "account_exists db user \<longleftrightarrow> user \<in> ac_id ` set (db_accounts db)"

definition roles_with_key :: "access_db \<Rightarrow> string \<Rightarrow> app_role list" where
  "roles_with_key db key = filter (\<lambda>r. ro_key r = key) (db_roles db)"

text \<open>\<open>[...new Set(keys)].sort()\<close>\<close>

definition unique_sorted :: "string list \<Rightarrow> string list" where
  "unique_sorted keys = sort (remdups keys)"

definition append_access_audit_changes :: "audit_change list \<Rightarrow> access_db \<Rightarrow> access_db" where
  "append_access_audit_changes changes db = db\<lparr>db_audit := db_audit db @ changes\<rparr>"

definition audit_user :: "string \<Rightarrow> string \<Rightarrow> string \<Rightarrow> (string \<times> jsval) list \<Rightarrow> audit_change" where
  "audit_user actor event user metadata =
     \<lparr>au_actor = actor, au_type = event, au_target = user, au_table = ''users'', au_reason = None, au_metadata = metadata\<rparr>"

definition audit_role :: "string \<Rightarrow> string \<Rightarrow> string \<Rightarrow> (string \<times> jsval) list \<Rightarrow> audit_change" where
  "audit_role actor event role metadata =
     \<lparr>au_actor = actor, au_type = event, au_target = role, au_table = ''roles'', au_reason = None, au_metadata = metadata\<rparr>"

definition audit_post :: "string \<Rightarrow> string \<Rightarrow> string \<Rightarrow> (string \<times> jsval) list \<Rightarrow> audit_change" where
  "audit_post actor event post metadata =
     \<lparr>au_actor = actor, au_type = event, au_target = post, au_table = ''posts'', au_reason = None, au_metadata = metadata\<rparr>"

text \<open>The row of an account deleted, with the cascades and \<open>SET NULL\<close> rules of its foreign keys.\<close>

definition forget_actor :: "string \<Rightarrow> string option \<Rightarrow> string option" where
  "forget_actor user by = (if by = Some user then None else by)"

definition delete_account :: "string \<Rightarrow> access_db \<Rightarrow> access_db" where
  "delete_account user db = db\<lparr>
     db_accounts := filter (\<lambda>a. ac_id a \<noteq> user) (db_accounts db),
     db_user_roles := map (map_prod id (forget_actor user)) (filter (\<lambda>a. fst (fst a) \<noteq> user) (db_user_roles db)),
     db_post_roles := map (map_prod id (forget_actor user)) (db_post_roles db),
     db_overrides := map (map_prod id (\<lambda>ov. ov\<lparr>ov_by := forget_actor user (ov_by ov)\<rparr>))
       (filter (\<lambda>a. fst (fst a) \<noteq> user) (db_overrides db)),
     db_links := map (\<lambda>l. l\<lparr>li_by := forget_actor user (li_by l)\<rparr>) (filter (\<lambda>l. li_user l \<noteq> user) (db_links db)),
     db_sessions := filter (\<lambda>s. snd s \<noteq> user) (db_sessions db)\<rparr>"

definition update_staff_login_id :: "string \<Rightarrow> string \<Rightarrow> string \<Rightarrow> access_db \<Rightarrow> access_db js_result" where
  "update_staff_login_id actor email user db =
     (case filter (\<lambda>a. ac_id a = user \<and> ac_role a \<noteq> Some ''admin''
                       \<and> (\<exists>l \<in> set (db_links db). li_user l = ac_id a)) (db_accounts db) of
        [] \<Rightarrow> throw ''The selected staff account no longer exists''
      | a # as \<Rightarrow>
          if ac_email a = [] then throw ''The selected staff account no longer exists''
          else if ac_email a = email then return db
          else if \<exists>b \<in> set (db_accounts db). ac_id b \<noteq> user \<and> to_lower (ac_email b) = to_lower email
          then throw ''This email / login ID already belongs to another account''
          else return (append_access_audit_changes
            [audit_user actor ''access.user.login_id_changed'' user
               [(''previousEmail'', Str (ac_email a)), (''email'', Str email)]]
            (db\<lparr>db_accounts := map (\<lambda>b. if ac_id b = user then b\<lparr>ac_email := email, ac_verified := False\<rparr> else b) (db_accounts db),
                db_sessions := filter (\<lambda>s. snd s \<noteq> user) (db_sessions db)\<rparr>)))"

definition replace_direct_roles :: "string \<Rightarrow> string list \<Rightarrow> string \<Rightarrow> access_db \<Rightarrow> access_db js_result" where
  "replace_direct_roles actor keys user db =
     (let unique_keys = unique_sorted keys;
          selected = sort_key ro_key (filter (\<lambda>r. ro_key r \<in> set unique_keys \<and> \<not> ro_system r) (db_roles db));
          current = sort_key ro_key (filter (\<lambda>r. \<not> ro_system r
            \<and> (user, ro_id r) \<in> fst ` set (db_user_roles db)) (db_roles db));
          removed = filter (\<lambda>r. ro_key r \<notin> ro_key ` set selected) current;
          assigned = filter (\<lambda>r. ro_key r \<notin> ro_key ` set current) selected
      in if \<not> account_exists db user then throw ''The selected staff account no longer exists''
         else if length selected \<noteq> length unique_keys
         then throw ''Select existing non-system application roles''
         else return (append_access_audit_changes
           (map (\<lambda>r. audit_user actor ''access.role.removed'' user [(''roleKey'', Str (ro_key r))]) removed
            @ map (\<lambda>r. audit_user actor ''access.role.assigned'' user [(''roleKey'', Str (ro_key r))]) assigned)
           (db\<lparr>db_user_roles :=
              filter (\<lambda>((u, r), by). \<not> (u = user \<and> r \<in> ro_id ` set removed)) (db_user_roles db)
              @ map (\<lambda>r. ((user, ro_id r), Some actor)) assigned\<rparr>)))"

definition unknown_capabilities :: "access_db \<Rightarrow> string list \<Rightarrow> string list" where
  "unknown_capabilities db keys = filter (\<lambda>k. k \<notin> ca_key ` set (db_capabilities db)) keys"

definition capability_rows :: "access_db \<Rightarrow> string list \<Rightarrow> capability list" where
  "capability_rows db keys = filter (\<lambda>c. ca_key c \<in> set keys) (db_capabilities db)"

definition grants_of_keys :: "access_db \<Rightarrow> string \<Rightarrow> string list \<Rightarrow> (string \<times> string) list" where
  "grants_of_keys db role keys = map (\<lambda>c. (role, ca_id c)) (capability_rows db keys)"

definition create_role ::
    "string \<Rightarrow> string \<Rightarrow> string option \<Rightarrow> string \<Rightarrow> string \<Rightarrow> string list \<Rightarrow> access_db \<Rightarrow> access_db js_result" where
  "create_role uuid actor description key name keys db =
     (if length (capability_rows db keys) \<noteq> length keys
      then throw (''Unknown capabilities: '' @ join '', '' (unknown_capabilities db keys))
      else if roles_with_key db key \<noteq> []
      then throw ''duplicate key value violates unique constraint \"roles_key_key\"''
      else if uuid \<in> ro_id ` set (db_roles db)
      then throw ''duplicate key value violates unique constraint \"roles_pkey\"''
      else if uuid = [] then throw ''The access role could not be created''
      else return (append_access_audit_changes
        (audit_role actor ''access.role.created'' uuid [(''key'', Str key), (''name'', Str name)]
         # map (\<lambda>k. audit_role actor ''access.role.capability_granted'' uuid
                  [(''permissionKey'', Str k), (''roleKey'', Str key)]) keys)
        (db\<lparr>db_roles := db_roles db @ [\<lparr>ro_id = uuid, ro_key = key, ro_name = name,
                                      ro_description = description, ro_system = False\<rparr>],
            db_role_caps := db_role_caps db @ grants_of_keys db uuid keys\<rparr>)))"

definition role_capability_keys :: "access_db \<Rightarrow> string \<Rightarrow> string list" where
  "role_capability_keys db role =
     sort (map ca_key (filter (\<lambda>c. (role, ca_id c) \<in> set (db_role_caps db)) (db_capabilities db)))"

definition nullable :: "string option \<Rightarrow> jsval" where
  "nullable v = (case v of None \<Rightarrow> Null | Some s \<Rightarrow> Str s)"

definition delete_role :: "string \<Rightarrow> string \<Rightarrow> string \<Rightarrow> access_db \<Rightarrow> access_db js_result" where
  "delete_role actor confirmation role db =
     (case filter (\<lambda>r. ro_id r = role) (db_roles db) of
        [] \<Rightarrow> throw ''The selected role no longer exists''
      | r # rs \<Rightarrow>
          if ro_system r then throw ''System roles cannot be deleted''
          else if confirmation \<noteq> ro_key r then throw ''Role key confirmation does not match''
          else let audited = append_access_audit_changes
                [audit_role actor ''access.role.deleted'' role
                   [(''roleKey'', Str (ro_key r)), (''name'', Str (ro_name r)),
                    (''description'', nullable (ro_description r)),
                    (''permission_keys'', Arr (map Str (role_capability_keys db role))),
                    (''user_ids'', Arr (map Str (sort (map (fst \<circ> fst) (filter (\<lambda>a. snd (fst a) = role) (db_user_roles db)))))),
                    (''post_ids'', Arr (map Str (sort (map (fst \<circ> fst) (filter (\<lambda>a. snd (fst a) = role) (db_post_roles db))))))]] db
            in return (audited\<lparr>db_roles := filter (\<lambda>r. ro_id r \<noteq> role) (db_roles db),
                 db_role_caps := filter (\<lambda>(r, p). r \<noteq> role) (db_role_caps db),
                 db_user_roles := filter (\<lambda>a. snd (fst a) \<noteq> role) (db_user_roles db),
                 db_post_roles := filter (\<lambda>a. snd (fst a) \<noteq> role) (db_post_roles db)\<rparr>))"

definition assign_role :: "string \<Rightarrow> string \<Rightarrow> string \<Rightarrow> access_db \<Rightarrow> access_db js_result" where
  "assign_role actor key user db =
     (case roles_with_key db key of
        [] \<Rightarrow> throw ''The selected user or role does not exist''
      | r # rs \<Rightarrow>
          if \<not> account_exists db user then throw ''The selected user or role does not exist''
          else return (append_access_audit_changes
            [audit_user actor ''access.role.assigned'' user [(''roleKey'', Str key)]]
            (db\<lparr>db_user_roles := put (user, ro_id r) (Some actor) (db_user_roles db)\<rparr>)))"

definition update_role_permissions :: "string \<Rightarrow> string list \<Rightarrow> string \<Rightarrow> access_db \<Rightarrow> access_db js_result" where
  "update_role_permissions actor keys role_key db =
     (let unique_keys = unique_sorted keys in
      case filter (\<lambda>r. ro_key r = role_key \<and> \<not> ro_system r) (db_roles db) of
        [] \<Rightarrow> throw ''The selected editable role does not exist''
      | r # rs \<Rightarrow>
          if length (capability_rows db unique_keys) \<noteq> length unique_keys
          then throw (''Unknown capabilities: '' @ join '', '' (unknown_capabilities db unique_keys))
          else return (append_access_audit_changes
            [audit_role actor ''access.role.capabilities_replaced'' (ro_id r)
               [(''permissionKeys'', Arr (map Str unique_keys)), (''roleKey'', Str role_key)]]
            (db\<lparr>db_role_caps := filter (\<lambda>(r', p). r' \<noteq> ro_id r) (db_role_caps db)
                 @ grants_of_keys db (ro_id r) unique_keys\<rparr>)))"

text \<open>The posts whose employee may have an account: a future joining date does not matter here.\<close>

definition post_may_have_account :: "int \<Rightarrow> string \<Rightarrow> string \<Rightarrow> employment_post \<Rightarrow> bool" where
  "post_may_have_account today organization code p \<longleftrightarrow>
     po_organization p = organization
     \<and> (case po_code p of None \<Rightarrow> False | Some c \<Rightarrow> employee_key c = employee_key code)
     \<and> (po_status p = ''Occupied'' \<or> po_status p = ''Appointed''
        \<or> po_status p = ''Resigned'' \<and> (case po_last p of None \<Rightarrow> False | Some d \<Rightarrow> d \<ge> today))"

definition greatest_text :: "(string list \<Rightarrow> string) \<Rightarrow> string option list \<Rightarrow> string option" where
  "greatest_text greatest xs =
     (case List.map_filter (map_option btrim) xs of [] \<Rightarrow> None | ys \<Rightarrow> Some (greatest ys))"

definition employee_for_account ::
    "(string list \<Rightarrow> string) \<Rightarrow> int \<Rightarrow> string \<Rightarrow> string \<Rightarrow> access_db \<Rightarrow> (string option \<times> string option) js_result" where
  "employee_for_account greatest today organization code db =
     (let posts = filter (post_may_have_account today organization code) (db_posts db);
          linked = (\<exists>p \<in> set posts. \<exists>l \<in> set (db_links db). post_of_link l p)
      in if posts = [] then throw ''The selected active employee does not exist''
         else if linked then throw ''The selected employee already has a login account''
         else return (greatest_text greatest (map po_code posts), greatest_text greatest (map po_name posts)))"

definition link_employee_user ::
    "(string list \<Rightarrow> string) \<Rightarrow> int \<Rightarrow> bool \<Rightarrow> string \<Rightarrow> string \<Rightarrow> string \<Rightarrow> string \<Rightarrow> access_db \<Rightarrow> access_db js_result" where
  "link_employee_user greatest today new_account actor organization code user db =
     (let posts = filter (post_may_have_account today organization code) (db_posts db);
          metadata = [(''employeeCode'', Str code), (''organizationId'', Str organization)]
      in if \<not> (\<exists>a \<in> set (db_accounts db). ac_id a = user \<and> ac_role a \<noteq> Some ''admin'') \<or> posts = []
         then throw ''The selected user or active employee does not exist''
         else case greatest_text greatest (map po_code posts) of
           None \<Rightarrow> throw ''null value in column \"employee_code\" violates not-null constraint''
         | Some stored \<Rightarrow>
             if btrim stored = []
             then throw ''new row for relation \"employee_links\" violates check constraint''
             else if \<exists>l \<in> set (db_links db). li_user l = user
             then throw ''duplicate key value violates unique constraint \"employee_links_pkey\"''
             else if \<exists>l \<in> set (db_links db). li_organization l = organization \<and> to_lower (li_code l) = to_lower stored
             then throw ''duplicate key value violates unique constraint \"employee_links_employee_unique\"''
             else return (append_access_audit_changes
               (audit_user actor ''access.employee.linked'' user metadata
                # (if new_account then [audit_user actor ''access.user.provisioned'' user metadata] else []))
               (db\<lparr>db_links := db_links db @ [\<lparr>li_user = user, li_organization = organization,
                                              li_code = stored, li_by = Some actor\<rparr>]\<rparr>)))"

definition set_post_role :: "string \<Rightarrow> bool \<Rightarrow> string \<Rightarrow> string \<Rightarrow> access_db \<Rightarrow> access_db js_result" where
  "set_post_role actor enabled post key db =
     (if \<not> enabled
      then let ids = map ro_id (roles_with_key db key);
               gone = filter (\<lambda>a. fst (fst a) = post \<and> snd (fst a) \<in> set ids) (db_post_roles db);
               db' = db\<lparr>db_post_roles := filter (\<lambda>a. \<not> (fst (fst a) = post \<and> snd (fst a) \<in> set ids)) (db_post_roles db)\<rparr>
           in return (if length gone = 1
                then append_access_audit_changes
                  [audit_post actor ''access.post_role.removed'' post [(''roleKey'', Str key)]] db'
                else db')
      else case filter (\<lambda>r. \<not> ro_system r) (roles_with_key db key) of
          [] \<Rightarrow> throw ''The selected active post or role does not exist''
        | r # rs \<Rightarrow>
            if \<not> (\<exists>p \<in> set (db_posts db). po_id p = post \<and> po_status p \<noteq> ''Inactive'')
            then throw ''The selected active post or role does not exist''
            else return (append_access_audit_changes
              [audit_post actor ''access.post_role.assigned'' post [(''roleKey'', Str key)]]
              (db\<lparr>db_post_roles := put (post, ro_id r) (Some actor) (db_post_roles db)\<rparr>)))"

text \<open>\<open>JSON.stringify\<close> of a date is its UTC text to the millisecond, and of \<open>undefined\<close> no entry.\<close>

definition iso_instant :: "int \<Rightarrow> string" where
  "iso_instant t = iso_date (ymd_of_day (t div 86400000)) @ ''T'' @ iso_two (t div 3600000 mod 24) @ '':'' @ iso_two (t div 60000 mod 60)
     @ '':'' @ iso_two (t div 1000 mod 60) @ ''.'' @ pad_start 3 (CHR ''0'') (show_nat (nat (t mod 1000))) @ ''Z''"

fun effect_text :: "override_effect \<Rightarrow> string" where
  "effect_text Allow = ''allow''"
| "effect_text Deny = ''deny''"

definition set_permission_override ::
    "string \<Rightarrow> override_effect \<Rightarrow> int option \<Rightarrow> string \<Rightarrow> string option \<Rightarrow> string \<Rightarrow> access_db \<Rightarrow> access_db js_result" where
  "set_permission_override actor effect expires key reason user db =
     (case filter (\<lambda>c. ca_key c = key) (db_capabilities db) of
        [] \<Rightarrow> throw ''The selected user or capability does not exist''
      | c # cs \<Rightarrow>
          if \<not> account_exists db user then throw ''The selected user or capability does not exist''
          else return (append_access_audit_changes
            [(audit_user actor ''access.permission.override_set'' user
               ([(''effect'', Str (effect_text effect))]
                @ (case expires of None \<Rightarrow> [] | Some t \<Rightarrow> [(''expiresAt'', Str (iso_instant t))])
                @ [(''permissionKey'', Str key)]))\<lparr>au_reason := reason\<rparr>]
            (db\<lparr>db_overrides := put (user, ca_id c)
               \<lparr>ov_effect = effect, ov_reason = reason, ov_by = Some actor, ov_expires = expires\<rparr> (db_overrides db)\<rparr>)))"

subsection \<open>The service\<close>

text \<open>\<open>normalizeApplicationRoleKey\<close>: \<open>normalize("NFKD")\<close> followed by the removal of the combining
  marks is the argument \<open>strip_marks\<close>; both leave ASCII texts unchanged.\<close>

definition key_char :: "char \<Rightarrow> bool" where
  "key_char c \<longleftrightarrow> (CHR ''a'' \<le> c \<and> c \<le> CHR ''z'') \<or> is_digit c"

fun hyphenate :: "bool \<Rightarrow> string \<Rightarrow> string" where
  "hyphenate in_run [] = []"
| "hyphenate in_run (c # cs) =
     (if key_char c then c # hyphenate False cs
      else if in_run then hyphenate True cs
      else CHR ''-'' # hyphenate True cs)"

definition trim_hyphens :: "string \<Rightarrow> string" where
  "trim_hyphens s = rev (dropWhile (\<lambda>c. c = CHR ''-'') (rev (dropWhile (\<lambda>c. c = CHR ''-'') s)))"

definition matches_role_key :: "string \<Rightarrow> bool" where
  "matches_role_key s = (case s of [] \<Rightarrow> False
     | c # cs \<Rightarrow> CHR ''a'' \<le> c \<and> c \<le> CHR ''z'' \<and> (\<forall>d \<in> set cs. key_char d \<or> d = CHR ''-''))"

definition normalize_application_role_key :: "(string \<Rightarrow> string) \<Rightarrow> string \<Rightarrow> string js_result" where
  "normalize_application_role_key strip_marks value =
     (let key = trim_hyphens (hyphenate False (strip_marks (to_lower (trim value))))
      in if \<not> matches_role_key key
         then throw ''Role keys must start with a letter and contain only lowercase letters, numbers, and hyphens''
         else return key)"

text \<open>The pattern \<open>/^[^\s@]+@[^\s@]+\.[^\s@]+$/\<close>.\<close>

definition matches_email :: "string \<Rightarrow> bool" where
  "matches_email s =
     (let local_part = takeWhile (\<lambda>c. c \<noteq> CHR ''@'') s;
          domain = drop 1 (dropWhile (\<lambda>c. c \<noteq> CHR ''@'') s)
      in local_part \<noteq> [] \<and> (\<forall>c \<in> set s. \<not> is_space c) \<and> CHR ''@'' \<in> set s
         \<and> CHR ''@'' \<notin> set domain \<and> CHR ''.'' \<in> set (drop 1 (butlast domain)))"

datatype access_op =
    Provision_Staff string string string string string
  | Update_Staff_Login_Id string string string
  | Link_Employee string string string string
  | Create_Role string string "string option" string string "string list"
  | Delete_Role string string string
  | Assign_Role string string string
  | Replace_Direct_Roles string "string list" string
  | Update_Role_Permissions string "string list" string
  | Set_Post_Role string bool string string
  | Set_Permission_Override string override_effect "int option" string "string option" string

text \<open>The user operations of better-auth (\<open>createUser\<close>, \<open>removeUser\<close>), the collation of the database
  and Unicode normalization. A creation that fails may have changed the tables: the library runs no transaction.\<close>

record access_host =
  create_user :: "string \<Rightarrow> string option \<Rightarrow> string \<Rightarrow> access_db \<Rightarrow> access_db \<times> string js_result"
  remove_user :: "string \<Rightarrow> access_db \<Rightarrow> access_db js_result"
  greatest_of :: "string list \<Rightarrow> string"
  strip_marks_of :: "string \<Rightarrow> string"

text \<open>The actor of an operation and the capability the service asks of the actor.\<close>

fun op_actor :: "access_op \<Rightarrow> string" where
  "op_actor (Provision_Staff actor email code organization password) = actor"
| "op_actor (Update_Staff_Login_Id actor email user) = actor"
| "op_actor (Link_Employee actor code organization user) = actor"
| "op_actor (Create_Role uuid actor description key name keys) = actor"
| "op_actor (Delete_Role actor confirmation role) = actor"
| "op_actor (Assign_Role actor key user) = actor"
| "op_actor (Replace_Direct_Roles actor keys user) = actor"
| "op_actor (Update_Role_Permissions actor keys role_key) = actor"
| "op_actor (Set_Post_Role actor enabled post key) = actor"
| "op_actor (Set_Permission_Override actor effect expires key reason user) = actor"

fun op_capability :: "access_op \<Rightarrow> string" where
  "op_capability (Provision_Staff actor email code organization password) = ''administration.staff.provision''"
| "op_capability (Update_Staff_Login_Id actor email user) = ''administration.staff.provision''"
| "op_capability (Link_Employee actor code organization user) = ''administration.staff.link''"
| "op_capability (Create_Role uuid actor description key name keys) = ''administration.roles.create''"
| "op_capability (Delete_Role actor confirmation role) = ''administration.roles.delete''"
| "op_capability (Assign_Role actor key user) = ''administration.staff_roles.assign''"
| "op_capability (Replace_Direct_Roles actor keys user) = ''administration.staff_roles.assign''"
| "op_capability (Update_Role_Permissions actor keys role_key) = ''administration.role_permissions.update''"
| "op_capability (Set_Post_Role actor enabled post key) = ''administration.post_access.assign''"
| "op_capability (Set_Permission_Override actor effect expires key reason user) = ''administration.permission_overrides.manage''"

definition require_actor_capability :: "int \<Rightarrow> int \<Rightarrow> access_db \<Rightarrow> string \<Rightarrow> string \<Rightarrow> unit js_result" where
  "require_actor_capability now today db actor key =
     guard_that (has_capability now today db actor key) (''User does not have the '' @ key @ '' capability'')"

text \<open>A committed transaction replaces the tables, a failed one leaves them as they were.\<close>

definition commit :: "access_db \<Rightarrow> access_db js_result \<Rightarrow> access_db \<times> string option" where
  "commit db result = (case result of Inl message \<Rightarrow> (db, Some message) | Inr db' \<Rightarrow> (db', None))"

text \<open>An error of \<open>removeUser\<close> replaces that of the link, and the account stays.\<close>

definition provision_staff ::
    "access_host \<Rightarrow> int \<Rightarrow> string \<Rightarrow> string \<Rightarrow> string \<Rightarrow> string \<Rightarrow> string \<Rightarrow> access_db \<Rightarrow> access_db \<times> string option" where
  "provision_staff host today actor email code organization password db =
     (case employee_for_account (greatest_of host) today organization code db of
        Inl message \<Rightarrow> (db, Some message)
      | Inr (employee_code, name) \<Rightarrow>
          if length password < 6 then (db, Some ''Password must contain at least 6 characters'')
          else case create_user host (to_lower (trim email)) name password db of
            (created, Inl message) \<Rightarrow> (created, Some message)
          | (created, Inr user) \<Rightarrow>
              (case link_employee_user (greatest_of host) today True actor organization
                      (case employee_code of None \<Rightarrow> [] | Some c \<Rightarrow> c) user created of
                 Inl message \<Rightarrow>
                   (case remove_user host user created of
                      Inl failure \<Rightarrow> (created, Some failure)
                    | Inr removed \<Rightarrow> (removed, Some message))
               | Inr linked \<Rightarrow> (linked, None)))"

fun run_op :: "access_host \<Rightarrow> int \<Rightarrow> access_db \<Rightarrow> access_op \<Rightarrow> access_db \<times> string option" where
  "run_op host today db (Provision_Staff actor email code organization password) =
     provision_staff host today actor email code organization password db"
| "run_op host today db (Update_Staff_Login_Id actor email user) =
     (let normalized = to_lower (trim email)
      in if length normalized > 254 \<or> \<not> matches_email normalized
         then (db, Some ''Enter a valid email / login ID'')
         else commit db (update_staff_login_id actor normalized user db))"
| "run_op host today db (Link_Employee actor code organization user) =
     commit db (bind_result (employee_for_account (greatest_of host) today organization code db)
       (\<lambda>_. link_employee_user (greatest_of host) today False actor organization code user db))"
| "run_op host today db (Create_Role uuid actor description key name keys) =
     commit db (bind_result (normalize_application_role_key (strip_marks_of host) key)
       (\<lambda>normalized. create_role uuid actor (optional_text description) normalized (trim name) (unique_sorted keys) db))"
| "run_op host today db (Delete_Role actor confirmation role) = commit db (delete_role actor confirmation role db)"
| "run_op host today db (Assign_Role actor key user) = commit db (assign_role actor key user db)"
| "run_op host today db (Replace_Direct_Roles actor keys user) = commit db (replace_direct_roles actor keys user db)"
| "run_op host today db (Update_Role_Permissions actor keys role_key) =
     commit db (update_role_permissions actor (unique_sorted keys) role_key db)"
| "run_op host today db (Set_Post_Role actor enabled post key) = commit db (set_post_role actor enabled post key db)"
| "run_op host today db (Set_Permission_Override actor effect expires key reason user) =
     commit db (set_permission_override actor effect expires key reason user db)"

definition service_op :: "access_host \<Rightarrow> int \<Rightarrow> int \<Rightarrow> access_db \<Rightarrow> access_op \<Rightarrow> access_db \<times> string option" where
  "service_op host now today db op =
     (case require_actor_capability now today db (op_actor op) (op_capability op) of
        Inl message \<Rightarrow> (db, Some message)
      | Inr _ \<Rightarrow> run_op host today db op)"

text \<open>What happens to the tables over time: service operations at their instants, and the changes of
  recruitment to the posts, which set \<open>recruitment.posts\<close> as a whole and keep the identifiers in use.\<close>

datatype access_event =
    Service int int access_op
  | Posts_Changed "employment_post list"

fun access_step :: "access_host \<Rightarrow> access_db \<Rightarrow> access_event \<Rightarrow> access_db" where
  "access_step host db (Service now today op) = fst (service_op host now today db op)"
| "access_step host db (Posts_Changed posts) =
     db\<lparr>db_posts := posts,
        db_post_roles := filter (\<lambda>a. fst (fst a) \<in> po_id ` set posts) (db_post_roles db)\<rparr>"

subsection \<open>Well-formed tables\<close>

text \<open>A table with a two-column key: the keys are distinct, both columns refer to rows that exist, and
  so does the account that wrote the row.\<close>

definition keyed_table :: "string set \<Rightarrow> string set \<Rightarrow> string set \<Rightarrow> ('v \<Rightarrow> string option) \<Rightarrow> ((string \<times> string) \<times> 'v) list \<Rightarrow> bool" where
  "keyed_table A B C by rows \<longleftrightarrow> distinct (map fst rows)
     \<and> (\<forall>((a, b), v) \<in> set rows. a \<in> A \<and> b \<in> B \<and> by v \<in> insert None (Some ` C))"

lemma keyed_tableI:
  assumes "distinct (map fst rows)"
    and "\<And>a b v. ((a, b), v) \<in> set rows \<Longrightarrow> a \<in> A \<and> b \<in> B \<and> by v \<in> insert None (Some ` C)"
  shows "keyed_table A B C by rows"
  using assms unfolding keyed_table_def by blast

lemma keyed_tableD:
  assumes "keyed_table A B C by rows"
  shows "distinct (map fst rows)"
    and "((a, b), v) \<in> set rows \<Longrightarrow> a \<in> A \<and> b \<in> B \<and> by v \<in> insert None (Some ` C)"
  using assms unfolding keyed_table_def by blast+

lemma keyed_table_put:
  assumes "keyed_table A B C by rows" "a \<in> A" "b \<in> B" "by v \<in> insert None (Some ` C)"
  shows "keyed_table A B C by (put (a, b) v rows)"
proof (rule keyed_tableI)
  show "distinct (map fst (put (a, b) v rows))"
    using assms(1) by (simp add: keyed_tableD distinct_put)
  fix a' b' v' assume "((a', b'), v') \<in> set (put (a, b) v rows)"
  then consider "a' = a" "b' = b" "v' = v" | "((a', b'), v') \<in> set rows"
    using set_put_subset [of "(a, b)" v rows] by blast
  then show "a' \<in> A \<and> b' \<in> B \<and> by v' \<in> insert None (Some ` C)"
    by cases (use assms(2-4) in simp, rule keyed_tableD(2) [OF assms(1)])
qed

lemma keyed_table_filter:
  assumes "keyed_table A B C by rows"
    and "\<And>a b v. ((a, b), v) \<in> set rows \<Longrightarrow> P ((a, b), v) \<Longrightarrow> a \<in> A \<Longrightarrow> b \<in> B \<Longrightarrow> a \<in> A' \<and> b \<in> B'"
  shows "keyed_table A' B' C by (filter P rows)"
proof (rule keyed_tableI)
  show "distinct (map fst (filter P rows))"
    using keyed_tableD(1) [OF assms(1)] by (rule distinct_map_filter)
  fix a b v assume "((a, b), v) \<in> set (filter P rows)"
  then have "((a, b), v) \<in> set rows" "P ((a, b), v)" by auto
  then show "a \<in> A' \<and> b \<in> B' \<and> by v \<in> insert None (Some ` C)"
    using assms(2) keyed_tableD(2) [OF assms(1)] by blast
qed

lemma keyed_table_mono:
  assumes "keyed_table A B C by rows" "A \<subseteq> A'" "B \<subseteq> B'" "C \<subseteq> C'"
  shows "keyed_table A' B' C' by rows"
  using assms(2-4) keyed_tableD [OF assms(1)] by (intro keyed_tableI) blast+

lemma keyed_table_append:
  assumes "keyed_table A B C by xs" "keyed_table A B C by ys" "fst ` set xs \<inter> fst ` set ys = {}"
  shows "keyed_table A B C by (xs @ ys)"
proof (rule keyed_tableI)
  show "distinct (map fst (xs @ ys))"
    using assms by (simp add: keyed_tableD(1))
  fix a b v assume "((a, b), v) \<in> set (xs @ ys)"
  then consider "((a, b), v) \<in> set xs" | "((a, b), v) \<in> set ys" by auto
  then show "a \<in> A \<and> b \<in> B \<and> by v \<in> insert None (Some ` C)"
    using keyed_tableD(2) [OF assms(1)] keyed_tableD(2) [OF assms(2)] by cases blast+
qed

definition links_ok :: "string set \<Rightarrow> employee_link list \<Rightarrow> bool" where
  "links_ok A ls \<longleftrightarrow> distinct (map li_user ls) \<and> distinct (map (\<lambda>l. (li_organization l, to_lower (li_code l))) ls)
     \<and> (\<forall>l \<in> set ls. li_user l \<in> A \<and> li_by l \<in> insert None (Some ` A))"

definition role_caps_ok :: "string set \<Rightarrow> string set \<Rightarrow> (string \<times> string) list \<Rightarrow> bool" where
  "role_caps_ok R C rows \<longleftrightarrow> distinct rows \<and> set rows \<subseteq> R \<times> C"

definition accounts_ok :: "account list \<Rightarrow> bool" where
  "accounts_ok as \<longleftrightarrow> distinct (map ac_id as) \<and> distinct (map (to_lower \<circ> ac_email) as)"

definition roles_ok :: "app_role list \<Rightarrow> bool" where
  "roles_ok rs \<longleftrightarrow> distinct (map ro_id rs) \<and> distinct (map ro_key rs)"

definition capabilities_ok :: "capability list \<Rightarrow> bool" where
  "capabilities_ok cs \<longleftrightarrow> distinct (map ca_id cs) \<and> distinct (map ca_key cs)"

abbreviation account_ids :: "access_db \<Rightarrow> string set" where
  "account_ids db \<equiv> ac_id ` set (db_accounts db)"

abbreviation role_ids :: "access_db \<Rightarrow> string set" where
  "role_ids db \<equiv> ro_id ` set (db_roles db)"

abbreviation capability_ids :: "access_db \<Rightarrow> string set" where
  "capability_ids db \<equiv> ca_id ` set (db_capabilities db)"

abbreviation post_ids :: "access_db \<Rightarrow> string set" where
  "post_ids db \<equiv> po_id ` set (db_posts db)"

definition wf_access :: "access_db \<Rightarrow> bool" where
  "wf_access db \<longleftrightarrow> accounts_ok (db_accounts db) \<and> roles_ok (db_roles db) \<and> capabilities_ok (db_capabilities db)
     \<and> role_caps_ok (role_ids db) (capability_ids db) (db_role_caps db)
     \<and> keyed_table (account_ids db) (role_ids db) (account_ids db) (\<lambda>by. by) (db_user_roles db)
     \<and> keyed_table (post_ids db) (role_ids db) (account_ids db) (\<lambda>by. by) (db_post_roles db)
     \<and> keyed_table (account_ids db) (capability_ids db) (account_ids db) ov_by (db_overrides db)
     \<and> links_ok (account_ids db) (db_links db)
     \<and> snd ` set (db_sessions db) \<subseteq> account_ids db"

lemma wf_accessI:
  assumes "accounts_ok (db_accounts db)" "roles_ok (db_roles db)" "capabilities_ok (db_capabilities db)"
    and "role_caps_ok (role_ids db) (capability_ids db) (db_role_caps db)"
    and "keyed_table (account_ids db) (role_ids db) (account_ids db) (\<lambda>by. by) (db_user_roles db)"
    and "keyed_table (post_ids db) (role_ids db) (account_ids db) (\<lambda>by. by) (db_post_roles db)"
    and "keyed_table (account_ids db) (capability_ids db) (account_ids db) ov_by (db_overrides db)"
    and "links_ok (account_ids db) (db_links db)"
    and "snd ` set (db_sessions db) \<subseteq> account_ids db"
  shows "wf_access db"
  using assms unfolding wf_access_def by blast

lemma wf_accessD:
  assumes "wf_access db"
  shows "accounts_ok (db_accounts db)" "roles_ok (db_roles db)" "capabilities_ok (db_capabilities db)"
    and "role_caps_ok (role_ids db) (capability_ids db) (db_role_caps db)"
    and "keyed_table (account_ids db) (role_ids db) (account_ids db) (\<lambda>by. by) (db_user_roles db)"
    and "keyed_table (post_ids db) (role_ids db) (account_ids db) (\<lambda>by. by) (db_post_roles db)"
    and "keyed_table (account_ids db) (capability_ids db) (account_ids db) ov_by (db_overrides db)"
    and "links_ok (account_ids db) (db_links db)"
    and "snd ` set (db_sessions db) \<subseteq> account_ids db"
  using assms unfolding wf_access_def by blast+

lemma append_audit_simps [simp]:
  "db_accounts (append_access_audit_changes cs db) = db_accounts db"
  "db_roles (append_access_audit_changes cs db) = db_roles db"
  "db_capabilities (append_access_audit_changes cs db) = db_capabilities db"
  "db_role_caps (append_access_audit_changes cs db) = db_role_caps db"
  "db_user_roles (append_access_audit_changes cs db) = db_user_roles db"
  "db_post_roles (append_access_audit_changes cs db) = db_post_roles db"
  "db_overrides (append_access_audit_changes cs db) = db_overrides db"
  "db_links (append_access_audit_changes cs db) = db_links db"
  "db_posts (append_access_audit_changes cs db) = db_posts db"
  "db_sessions (append_access_audit_changes cs db) = db_sessions db"
  "db_audit (append_access_audit_changes cs db) = db_audit db @ cs"
  by (simp_all add: append_access_audit_changes_def)

lemma wf_append_audit [simp]: "wf_access (append_access_audit_changes cs db) \<longleftrightarrow> wf_access db"
  by (simp add: wf_access_def)

text \<open>Granted capabilities belong to accounts.\<close>

lemma granted_has_account:
  assumes "wf_access db" "has_capability now today db user key"
  shows "user \<in> account_ids db"
proof (rule ccontr)
  assume none: "user \<notin> account_ids db"
  have link: "\<not> (\<exists>l \<in> set (db_links db). li_user l = user)"
    using none wf_accessD(8) [OF assms(1)] unfolding links_ok_def by blast
  then have posts: "active_employee_posts today db user = []"
    by (auto simp: active_employee_posts_def filter_empty_conv)
  have "fst (fst a) \<noteq> user" if "a \<in> set (db_user_roles db)" for a
    using that none keyed_tableD(2) [OF wf_accessD(5) [OF assms(1)]] by (metis prod.collapse)
  then have roles: "assigned_roles today db user = []"
    by (auto simp: assigned_roles_def filter_empty_conv posts)
  have other: "u \<noteq> user" if "((u, p), ov) \<in> set (db_overrides db)" for u p ov
    using that none keyed_tableD(2) [OF wf_accessD(7) [OF assms(1)]] by blast
  have "filter (\<lambda>((u, p), ov). u = user \<and> override_is_active now ov \<and> p \<in> set (map ca_id cs)) (db_overrides db) = []" for cs
    unfolding filter_empty_conv using other by blast
  then have overrides: "active_overrides now db user cs = []" for cs
    unfolding active_overrides_def by (simp add: Let_def)
  have "has_capability now today db user key = False"
    by (simp add: has_capability_def list_granted_capabilities_def query_granted_capabilities_def Let_def
        overrides role_grants_def roles has_administrative_access_def)
  with assms(2) show False by simp
qed

subsection \<open>Every operation keeps the tables well formed\<close>

lemma accounts_ok_update:
  assumes "accounts_ok as" "\<And>b. b \<in> set as \<Longrightarrow> ac_id b \<noteq> user \<Longrightarrow> to_lower (ac_email b) \<noteq> to_lower email"
  shows "accounts_ok (map (\<lambda>b. if ac_id b = user then b\<lparr>ac_email := email, ac_verified := False\<rparr> else b) as)"
proof -
  define as' where "as' = map (\<lambda>b. if ac_id b = user then b\<lparr>ac_email := email, ac_verified := False\<rparr> else b) as"
  have "map ac_id as' = map ac_id as" by (simp add: as'_def)
  moreover have "distinct (map (to_lower \<circ> ac_email) as')"
    using assms unfolding accounts_ok_def as'_def by (induction as) (auto simp: image_iff, metis)
  ultimately have "accounts_ok as'" using assms(1) unfolding accounts_ok_def by metis
  then show ?thesis by (simp only: as'_def)
qed

lemma account_ids_update:
  "ac_id ` set (map (\<lambda>b. if ac_id b = user then b\<lparr>ac_email := email, ac_verified := False\<rparr> else b) as) = ac_id ` set as"
  by (induction as) auto

lemma wf_update_staff_login_id:
  assumes "wf_access db" "update_staff_login_id actor email user db = Inr db'"
  shows "wf_access db'"
proof (cases "db' = db")
  case False
  define as where "as = map (\<lambda>b. if ac_id b = user then b\<lparr>ac_email := email, ac_verified := False\<rparr> else b) (db_accounts db)"
  define core where "core = db\<lparr>db_accounts := as, db_sessions := filter (\<lambda>s. snd s \<noteq> user) (db_sessions db)\<rparr>"
  obtain cs where db': "db' = append_access_audit_changes cs core"
    and fresh: "\<And>b. b \<in> set (db_accounts db) \<Longrightarrow> ac_id b \<noteq> user \<Longrightarrow> to_lower (ac_email b) \<noteq> to_lower email"
    using assms(2) False unfolding update_staff_login_id_def core_def as_def
    by (auto split: list.splits if_splits)
  have ids: "ac_id ` set as = account_ids db" unfolding as_def by (rule account_ids_update)
  have "accounts_ok as" unfolding as_def by (rule accounts_ok_update [OF wf_accessD(1) [OF assms(1)] fresh])
  then have "wf_access core"
    using wf_accessD [OF assms(1)] by (intro wf_accessI) (auto simp: core_def ids)
  then show ?thesis by (simp add: db')
qed (use assms in simp)

lemma wf_user_roles:
  assumes "wf_access db" "keyed_table (account_ids db) (role_ids db) (account_ids db) (\<lambda>by. by) rows"
  shows "wf_access (db\<lparr>db_user_roles := rows\<rparr>)"
  using wf_accessD [OF assms(1)] assms(2) by (intro wf_accessI) simp_all

lemma wf_post_roles:
  assumes "wf_access db" "keyed_table (post_ids db) (role_ids db) (account_ids db) (\<lambda>by. by) rows"
  shows "wf_access (db\<lparr>db_post_roles := rows\<rparr>)"
  using wf_accessD [OF assms(1)] assms(2) by (intro wf_accessI) simp_all

lemma wf_role_caps:
  assumes "wf_access db" "role_caps_ok (role_ids db) (capability_ids db) rows"
  shows "wf_access (db\<lparr>db_role_caps := rows\<rparr>)"
  using wf_accessD [OF assms(1)] assms(2) by (intro wf_accessI) simp_all

lemma wf_replace_direct_roles:
  assumes "wf_access db" "actor \<in> account_ids db" "replace_direct_roles actor keys user db = Inr db'"
  shows "wf_access db'"
proof -
  define selected where "selected = sort_key ro_key (filter (\<lambda>r. ro_key r \<in> set (unique_sorted keys) \<and> \<not> ro_system r) (db_roles db))"
  define current where "current = sort_key ro_key (filter (\<lambda>r. \<not> ro_system r \<and> (user, ro_id r) \<in> fst ` set (db_user_roles db)) (db_roles db))"
  define removed where "removed = filter (\<lambda>r. ro_key r \<notin> ro_key ` set selected) current"
  define assigned where "assigned = filter (\<lambda>r. ro_key r \<notin> ro_key ` set current) selected"
  define kept where "kept = filter (\<lambda>((u, r), by). \<not> (u = user \<and> r \<in> ro_id ` set removed)) (db_user_roles db)"
  define added where "added = map (\<lambda>r. ((user, ro_id r), Some actor)) assigned"
  note D = wf_accessD [OF assms(1)]
  have user: "user \<in> account_ids db" and db': "\<exists>cs. db' = append_access_audit_changes cs (db\<lparr>db_user_roles := kept @ added\<rparr>)"
    using assms(3) unfolding replace_direct_roles_def kept_def added_def removed_def assigned_def selected_def current_def
    by (auto simp: Let_def account_exists_def split: if_splits)
  have sel: "set assigned \<subseteq> {r \<in> set (db_roles db). \<not> ro_system r}"
    unfolding assigned_def selected_def by auto
  have "distinct (map ro_id assigned)"
    using D(2) unfolding assigned_def selected_def roles_ok_def
    by (auto simp: distinct_map intro: inj_on_subset)
  then have d: "distinct (map fst added)"
    unfolding added_def by (simp add: comp_def distinct_map inj_on_def)
  have added_ok: "keyed_table (account_ids db) (role_ids db) (account_ids db) (\<lambda>by. by) added"
    using d sel user assms(2) by (intro keyed_tableI) (auto simp: added_def)
  have kept_ok: "keyed_table (account_ids db) (role_ids db) (account_ids db) (\<lambda>by. by) kept"
    unfolding kept_def by (rule keyed_table_filter [OF D(5)]) simp
  have new: "(user, ro_id r) \<notin> fst ` set (db_user_roles db)" if "r \<in> set assigned" for r
  proof
    assume "(user, ro_id r) \<in> fst ` set (db_user_roles db)"
    then have "r \<in> set current" using that sel unfolding current_def by auto
    then show False using that unfolding assigned_def by auto
  qed
  have old: "p \<in> fst ` set (db_user_roles db)" if "p \<in> fst ` set kept" for p
    using that unfolding kept_def by auto
  have "p \<notin> fst ` set kept" if "p \<in> fst ` set added" for p
  proof -
    obtain r where r: "r \<in> set assigned" "p = (user, ro_id r)" using \<open>p \<in> fst ` set added\<close> by (auto simp: added_def)
    from new [OF r(1)] have "p \<notin> fst ` set (db_user_roles db)" by (simp only: r(2) not_False_eq_True)
    then show ?thesis using old [of p] by (rule contrapos_nn)
  qed
  then have "fst ` set kept \<inter> fst ` set added = {}" by blast
  then have "keyed_table (account_ids db) (role_ids db) (account_ids db) (\<lambda>by. by) (kept @ added)"
    by (rule keyed_table_append [OF kept_ok added_ok])
  then show ?thesis using db' wf_user_roles [OF assms(1)] by auto
qed

lemma distinct_grants_of_keys:
  assumes "capabilities_ok (db_capabilities db)"
  shows "distinct (grants_of_keys db role keys)" "set (grants_of_keys db role keys) \<subseteq> {role} \<times> capability_ids db"
  using assms unfolding grants_of_keys_def capability_rows_def capabilities_ok_def
  by (auto simp: distinct_map inj_on_def)

lemma wf_create_role:
  assumes "wf_access db" "create_role uuid actor description key name keys db = Inr db'"
  shows "wf_access db'"
proof -
  note D = wf_accessD [OF assms(1)]
  define role where "role = \<lparr>ro_id = uuid, ro_key = key, ro_name = name, ro_description = description, ro_system = False\<rparr>"
  define core where "core = db\<lparr>db_roles := db_roles db @ [role], db_role_caps := db_role_caps db @ grants_of_keys db uuid keys\<rparr>"
  obtain cs where db': "db' = append_access_audit_changes cs core"
    and key: "roles_with_key db key = []" and id: "uuid \<notin> role_ids db"
    using assms(2) unfolding create_role_def core_def role_def by (auto split: if_splits)
  have "roles_ok (db_roles db @ [role])"
    using D(2) key id unfolding roles_ok_def roles_with_key_def role_def by (auto simp: filter_empty_conv)
  moreover have "role_caps_ok (insert uuid (role_ids db)) (capability_ids db) (db_role_caps db @ grants_of_keys db uuid keys)"
    using D(4) id distinct_grants_of_keys [OF D(3), of uuid keys] unfolding role_caps_ok_def by auto
  ultimately have "wf_access core"
    using D by (intro wf_accessI) (auto simp: core_def role_def intro: keyed_table_mono)
  then show ?thesis by (simp add: db')
qed

lemma wf_delete_role:
  assumes "wf_access db" "delete_role actor confirmation role db = Inr db'"
  shows "wf_access db'"
proof -
  note D = wf_accessD [OF assms(1)]
  define core where "core = db\<lparr>db_roles := filter (\<lambda>r. ro_id r \<noteq> role) (db_roles db),
     db_role_caps := filter (\<lambda>(r, p). r \<noteq> role) (db_role_caps db),
     db_user_roles := filter (\<lambda>a. snd (fst a) \<noteq> role) (db_user_roles db),
     db_post_roles := filter (\<lambda>a. snd (fst a) \<noteq> role) (db_post_roles db)\<rparr>"
  obtain cs where "db' = (append_access_audit_changes cs db)\<lparr>db_roles := filter (\<lambda>r. ro_id r \<noteq> role) (db_roles db),
     db_role_caps := filter (\<lambda>(r, p). r \<noteq> role) (db_role_caps db),
     db_user_roles := filter (\<lambda>a. snd (fst a) \<noteq> role) (db_user_roles db),
     db_post_roles := filter (\<lambda>a. snd (fst a) \<noteq> role) (db_post_roles db)\<rparr>"
    using assms(2) unfolding delete_role_def by (auto simp: Let_def split: list.splits if_splits)
  then have db': "db' = append_access_audit_changes cs core"
    by (simp add: append_access_audit_changes_def core_def)
  have ids: "ro_id ` set (filter (\<lambda>r. ro_id r \<noteq> role) (db_roles db)) = role_ids db - {role}" by auto
  have "wf_access core"
  proof (rule wf_accessI)
    show "roles_ok (db_roles core)"
      using D(2) unfolding roles_ok_def core_def by (auto intro: distinct_map_filter)
    show "role_caps_ok (role_ids core) (capability_ids core) (db_role_caps core)"
      using D(4) unfolding role_caps_ok_def core_def by (auto simp: ids)
    show "keyed_table (account_ids core) (role_ids core) (account_ids core) (\<lambda>by. by) (db_user_roles core)"
      using D(5) by (auto simp: core_def ids intro: keyed_table_filter)
    show "keyed_table (post_ids core) (role_ids core) (account_ids core) (\<lambda>by. by) (db_post_roles core)"
      using D(6) by (auto simp: core_def ids intro: keyed_table_filter)
  qed (use D in \<open>simp_all add: core_def\<close>)
  then show ?thesis by (simp add: db')
qed

lemma wf_assign_role:
  assumes "wf_access db" "actor \<in> account_ids db" "assign_role actor key user db = Inr db'"
  shows "wf_access db'"
proof -
  obtain r rs cs where r: "roles_with_key db key = r # rs" and user: "user \<in> account_ids db"
    and db': "db' = append_access_audit_changes cs (db\<lparr>db_user_roles := put (user, ro_id r) (Some actor) (db_user_roles db)\<rparr>)"
    using assms(3) unfolding assign_role_def account_exists_def by (auto split: list.splits if_splits)
  have "r \<in> set (roles_with_key db key)" by (simp add: r)
  then have "r \<in> set (db_roles db)" by (simp add: roles_with_key_def)
  then have "keyed_table (account_ids db) (role_ids db) (account_ids db) (\<lambda>by. by)
      (put (user, ro_id r) (Some actor) (db_user_roles db))"
    using user assms(2) by (intro keyed_table_put wf_accessD [OF assms(1)]) auto
  then show ?thesis using wf_user_roles [OF assms(1)] by (simp add: db')
qed

lemma wf_update_role_permissions:
  assumes "wf_access db" "update_role_permissions actor keys role_key db = Inr db'"
  shows "wf_access db'"
proof -
  note D = wf_accessD [OF assms(1)]
  obtain r rs cs where r: "filter (\<lambda>r. ro_key r = role_key \<and> \<not> ro_system r) (db_roles db) = r # rs"
    and db': "db' = append_access_audit_changes cs (db\<lparr>db_role_caps :=
        filter (\<lambda>(r', p). r' \<noteq> ro_id r) (db_role_caps db) @ grants_of_keys db (ro_id r) (unique_sorted keys)\<rparr>)"
    using assms(2) unfolding update_role_permissions_def by (auto simp: Let_def split: list.splits if_splits)
  have "r \<in> set (filter (\<lambda>r. ro_key r = role_key \<and> \<not> ro_system r) (db_roles db))" by (simp add: r)
  then have "ro_id r \<in> role_ids db" by auto
  then have "role_caps_ok (role_ids db) (capability_ids db)
      (filter (\<lambda>(r', p). r' \<noteq> ro_id r) (db_role_caps db) @ grants_of_keys db (ro_id r) (unique_sorted keys))"
    using D(4) distinct_grants_of_keys [OF D(3), of "ro_id r" "unique_sorted keys"]
    unfolding role_caps_ok_def by auto
  then show ?thesis using wf_role_caps [OF assms(1)] by (simp add: db')
qed

lemma wf_link_employee_user:
  assumes "wf_access db" "actor \<in> account_ids db"
    and "link_employee_user greatest today new_account actor organization code user db = Inr db'"
  shows "wf_access db'"
proof -
  note D = wf_accessD [OF assms(1)]
  obtain stored cs where user: "user \<in> account_ids db"
    and pk: "\<not> (\<exists>l \<in> set (db_links db). li_user l = user)"
    and un: "\<not> (\<exists>l \<in> set (db_links db). li_organization l = organization \<and> to_lower (li_code l) = to_lower stored)"
    and db': "db' = append_access_audit_changes cs (db\<lparr>db_links := db_links db
      @ [\<lparr>li_user = user, li_organization = organization, li_code = stored, li_by = Some actor\<rparr>]\<rparr>)"
    using assms(3) unfolding link_employee_user_def
    by (auto simp: Let_def split: option.splits if_splits)
  have "links_ok (account_ids db) (db_links db @ [\<lparr>li_user = user, li_organization = organization, li_code = stored, li_by = Some actor\<rparr>])"
    using D(8) user assms(2) pk un unfolding links_ok_def by auto
  then have "wf_access (db\<lparr>db_links := db_links db
      @ [\<lparr>li_user = user, li_organization = organization, li_code = stored, li_by = Some actor\<rparr>]\<rparr>)"
    using D by (intro wf_accessI) simp_all
  then show ?thesis by (simp add: db')
qed

lemma wf_set_post_role:
  assumes "wf_access db" "actor \<in> account_ids db" "set_post_role actor enabled post key db = Inr db'"
  shows "wf_access db'"
proof -
  note D = wf_accessD [OF assms(1)]
  obtain rows cs where db': "db' = append_access_audit_changes cs (db\<lparr>db_post_roles := rows\<rparr>)
      \<or> db' = db\<lparr>db_post_roles := rows\<rparr>"
    and rows: "keyed_table (post_ids db) (role_ids db) (account_ids db) (\<lambda>by. by) rows"
  proof (cases enabled)
    case False
    let ?rows = "filter (\<lambda>a. \<not> (fst (fst a) = post \<and> snd (fst a) \<in> set (map ro_id (roles_with_key db key)))) (db_post_roles db)"
    have "keyed_table (post_ids db) (role_ids db) (account_ids db) (\<lambda>by. by) ?rows"
      by (rule keyed_table_filter [OF D(6)]) simp
    then show ?thesis using that assms(3) False unfolding set_post_role_def
      by (auto simp: Let_def split: if_splits)
  next
    case True
    obtain r rs cs where r: "filter (\<lambda>r. \<not> ro_system r) (roles_with_key db key) = r # rs"
      and post: "post \<in> post_ids db"
      and db': "db' = append_access_audit_changes cs (db\<lparr>db_post_roles := put (post, ro_id r) (Some actor) (db_post_roles db)\<rparr>)"
      using assms(3) True unfolding set_post_role_def by (auto split: list.splits if_splits)
    have "r \<in> set (filter (\<lambda>r. \<not> ro_system r) (roles_with_key db key))" by (simp add: r)
    then have "ro_id r \<in> role_ids db" by (simp add: roles_with_key_def)
    then have "keyed_table (post_ids db) (role_ids db) (account_ids db) (\<lambda>by. by)
        (put (post, ro_id r) (Some actor) (db_post_roles db))"
      using post assms(2) by (intro keyed_table_put D) auto
    then show ?thesis using that db' by blast
  qed
  show ?thesis using db' wf_post_roles [OF assms(1) rows] by auto
qed

lemma wf_set_permission_override:
  assumes "wf_access db" "actor \<in> account_ids db"
    and "set_permission_override actor effect expires key reason user db = Inr db'"
  shows "wf_access db'"
proof -
  note D = wf_accessD [OF assms(1)]
  obtain c cs' cs where c: "filter (\<lambda>c. ca_key c = key) (db_capabilities db) = c # cs'" and user: "user \<in> account_ids db"
    and db': "db' = append_access_audit_changes cs (db\<lparr>db_overrides := put (user, ca_id c)
       \<lparr>ov_effect = effect, ov_reason = reason, ov_by = Some actor, ov_expires = expires\<rparr> (db_overrides db)\<rparr>)"
    using assms(3) unfolding set_permission_override_def account_exists_def by (auto split: list.splits if_splits)
  have "c \<in> set (filter (\<lambda>c. ca_key c = key) (db_capabilities db))" by (simp add: c)
  then have "ca_id c \<in> capability_ids db" by auto
  then have "keyed_table (account_ids db) (capability_ids db) (account_ids db) ov_by (put (user, ca_id c)
       \<lparr>ov_effect = effect, ov_reason = reason, ov_by = Some actor, ov_expires = expires\<rparr> (db_overrides db))"
    using user assms(2) by (intro keyed_table_put D) auto
  then have "wf_access (db\<lparr>db_overrides := put (user, ca_id c)
       \<lparr>ov_effect = effect, ov_reason = reason, ov_by = Some actor, ov_expires = expires\<rparr> (db_overrides db)\<rparr>)"
    using D by (intro wf_accessI) simp_all
  then show ?thesis by (simp add: db')
qed

subsection \<open>Every change leaves a trace\<close>

text \<open>The trail grows by changes of the actor, and where it does not grow nothing has changed.\<close>

definition audited :: "string \<Rightarrow> access_db \<Rightarrow> access_db \<Rightarrow> bool" where
  "audited actor db db' \<longleftrightarrow> (\<exists>changes. db_audit db' = db_audit db @ changes
     \<and> (\<forall>c \<in> set changes. au_actor c = actor) \<and> (changes = [] \<longrightarrow> db' = db))"

lemma audited_refl [simp]: "audited actor db db"
  by (simp add: audited_def)

lemma auditedI:
  assumes "db_audit db' = db_audit db @ c # cs" "\<And>x. x \<in> set (c # cs) \<Longrightarrow> au_actor x = actor"
  shows "audited actor db db'"
  unfolding audited_def using assms by (intro exI [of _ "c # cs"]) auto

lemma au_actor_simps [simp]:
  "au_actor (audit_user actor event user metadata) = actor"
  "au_actor (audit_role actor event user metadata) = actor"
  "au_actor (audit_post actor event user metadata) = actor"
  by (simp_all add: audit_user_def audit_role_def audit_post_def)

lemma audited_update_staff_login_id:
  "update_staff_login_id actor email user db = Inr db' \<Longrightarrow> audited actor db db'"
  unfolding update_staff_login_id_def by (auto split: list.splits if_splits intro!: auditedI)

lemma audited_create_role:
  "create_role uuid actor description key name keys db = Inr db' \<Longrightarrow> audited actor db db'"
  unfolding create_role_def by (auto split: if_splits intro!: auditedI)

lemma audited_delete_role:
  "delete_role actor confirmation role db = Inr db' \<Longrightarrow> audited actor db db'"
  unfolding delete_role_def by (auto simp: Let_def split: list.splits if_splits intro!: auditedI)

lemma audited_assign_role:
  "assign_role actor key user db = Inr db' \<Longrightarrow> audited actor db db'"
  unfolding assign_role_def by (auto split: list.splits if_splits intro!: auditedI)

lemma audited_update_role_permissions:
  "update_role_permissions actor keys role_key db = Inr db' \<Longrightarrow> audited actor db db'"
  unfolding update_role_permissions_def by (auto simp: Let_def split: list.splits if_splits intro!: auditedI)

lemma audited_link_employee_user:
  "link_employee_user greatest today new_account actor organization code user db = Inr db' \<Longrightarrow> audited actor db db'"
  unfolding link_employee_user_def by (auto simp: Let_def split: option.splits if_splits intro!: auditedI)

lemma audited_set_permission_override:
  "set_permission_override actor effect expires key reason user db = Inr db' \<Longrightarrow> audited actor db db'"
  unfolding set_permission_override_def by (auto split: list.splits if_splits intro!: auditedI)

lemma distinct_constant_short:
  assumes "distinct (map f ys)" "\<And>x y. x \<in> set ys \<Longrightarrow> y \<in> set ys \<Longrightarrow> f x = f y"
  shows "length ys \<le> 1"
proof (cases ys)
  case (Cons a zs)
  then show ?thesis
  proof (cases zs)
    case (Cons b ws)
    have "f a = f b" by (rule assms(2)) (simp_all add: \<open>ys = a # zs\<close> Cons)
    then show ?thesis using assms(1) \<open>ys = a # zs\<close> Cons by simp
  qed simp
qed simp

lemma distinct_map_unique_filter:
  assumes "distinct (map f xs)" "\<And>x y. x \<in> set xs \<Longrightarrow> y \<in> set xs \<Longrightarrow> P x \<Longrightarrow> P y \<Longrightarrow> f x = f y"
  shows "length (filter P xs) \<le> 1"
  by (rule distinct_constant_short [OF distinct_map_filter [OF assms(1)]]) (simp add: assms(2))

lemma roles_with_key_single:
  assumes "wf_access db"
  shows "length (roles_with_key db key) \<le> 1"
  unfolding roles_with_key_def
  by (rule distinct_map_unique_filter [of ro_key]) (use wf_accessD(2) [OF assms] in \<open>auto simp: roles_ok_def\<close>)

lemma audited_set_post_role:
  assumes "wf_access db" "set_post_role actor enabled post key db = Inr db'"
  shows "audited actor db db'"
proof (cases enabled)
  case True
  then show ?thesis using assms(2) unfolding set_post_role_def
    by (auto split: list.splits if_splits intro!: auditedI)
next
  case False
  let ?P = "\<lambda>a :: (string \<times> string) \<times> string option. fst (fst a) = post \<and> snd (fst a) \<in> set (map ro_id (roles_with_key db key))"
  have "length (filter ?P (db_post_roles db)) \<le> 1"
  proof (rule distinct_map_unique_filter)
    show "distinct (map fst (db_post_roles db))" by (rule keyed_tableD(1) [OF wf_accessD(6) [OF assms(1)]])
    fix x y assume "?P x" "?P y"
    then show "fst x = fst y" using roles_with_key_single [OF assms(1), of key]
      by (cases "roles_with_key db key") (auto simp: prod_eq_iff)
  qed
  then consider "filter ?P (db_post_roles db) = []" | "length (filter ?P (db_post_roles db)) = 1"
    by (cases "filter ?P (db_post_roles db)") auto
  then show ?thesis
  proof cases
    case 1
    then have "filter (\<lambda>a. \<not> ?P a) (db_post_roles db) = db_post_roles db"
      by (auto simp: filter_empty_conv filter_id_conv)
    then have "db' = db" using assms(2) False 1 unfolding set_post_role_def by (simp add: Let_def)
    then show ?thesis by simp
  next
    case 2
    then show ?thesis using assms(2) False unfolding set_post_role_def
      by (auto simp: Let_def intro!: auditedI)
  qed
qed

lemma audited_replace_direct_roles:
  assumes "replace_direct_roles actor keys user db = Inr db'"
  shows "audited actor db db'"
proof -
  define selected where "selected = sort_key ro_key (filter (\<lambda>r. ro_key r \<in> set (unique_sorted keys) \<and> \<not> ro_system r) (db_roles db))"
  define current where "current = sort_key ro_key (filter (\<lambda>r. \<not> ro_system r \<and> (user, ro_id r) \<in> fst ` set (db_user_roles db)) (db_roles db))"
  define removed where "removed = filter (\<lambda>r. ro_key r \<notin> ro_key ` set selected) current"
  define assigned where "assigned = filter (\<lambda>r. ro_key r \<notin> ro_key ` set current) selected"
  define changes where "changes =
      map (\<lambda>r. audit_user actor ''access.role.removed'' user [(''roleKey'', Str (ro_key r))]) removed
      @ map (\<lambda>r. audit_user actor ''access.role.assigned'' user [(''roleKey'', Str (ro_key r))]) assigned"
  have db': "db' = append_access_audit_changes changes (db\<lparr>db_user_roles :=
      filter (\<lambda>((u, r), by). \<not> (u = user \<and> r \<in> ro_id ` set removed)) (db_user_roles db)
      @ map (\<lambda>r. ((user, ro_id r), Some actor)) assigned\<rparr>)"
    using assms unfolding replace_direct_roles_def changes_def removed_def assigned_def selected_def current_def
    by (auto simp: Let_def split: if_splits)
  have "db' = db" if "changes = []"
  proof -
    have "removed = []" "assigned = []" using that by (simp_all add: changes_def)
    then show ?thesis using that by (simp add: db' append_access_audit_changes_def case_prod_beta)
  qed
  moreover have "\<forall>c \<in> set changes. au_actor c = actor" unfolding changes_def by auto
  ultimately show ?thesis unfolding audited_def by (intro exI [of _ changes]) (simp add: db')
qed

subsection \<open>System roles\<close>

text \<open>The system roles and their capabilities.\<close>

definition system_view :: "access_db \<Rightarrow> app_role list \<times> (string \<times> string) list" where
  "system_view db = (filter ro_system (db_roles db),
     filter (\<lambda>(r, p). \<exists>x \<in> set (db_roles db). ro_system x \<and> ro_id x = r) (db_role_caps db))"

lemma system_view_cong:
  "db_roles db' = db_roles db \<Longrightarrow> db_role_caps db' = db_role_caps db \<Longrightarrow> system_view db' = system_view db"
  by (simp add: system_view_def)

lemma system_update_staff_login_id:
  "update_staff_login_id actor email user db = Inr db' \<Longrightarrow> system_view db' = system_view db"
  unfolding update_staff_login_id_def by (rule system_view_cong) (auto split: list.splits if_splits)

lemma system_assign_role:
  "assign_role actor key user db = Inr db' \<Longrightarrow> system_view db' = system_view db"
  unfolding assign_role_def by (rule system_view_cong) (auto split: list.splits if_splits)

lemma system_link_employee_user:
  "link_employee_user greatest today new_account actor organization code user db = Inr db' \<Longrightarrow> system_view db' = system_view db"
  unfolding link_employee_user_def by (rule system_view_cong) (auto simp: Let_def split: option.splits if_splits)

lemma system_set_permission_override:
  "set_permission_override actor effect expires key reason user db = Inr db' \<Longrightarrow> system_view db' = system_view db"
  unfolding set_permission_override_def by (rule system_view_cong) (auto split: list.splits if_splits)

lemma system_set_post_role:
  "set_post_role actor enabled post key db = Inr db' \<Longrightarrow> system_view db' = system_view db"
  unfolding set_post_role_def by (rule system_view_cong) (auto simp: Let_def split: list.splits if_splits)

lemma system_replace_direct_roles:
  "replace_direct_roles actor keys user db = Inr db' \<Longrightarrow> system_view db' = system_view db"
  unfolding replace_direct_roles_def by (rule system_view_cong) (auto simp: Let_def split: if_splits)

lemma system_create_role:
  assumes "wf_access db" "create_role uuid actor description key name keys db = Inr db'"
  shows "system_view db' = system_view db"
proof -
  have id: "uuid \<notin> role_ids db"
    and roles: "db_roles db' = db_roles db @ [\<lparr>ro_id = uuid, ro_key = key, ro_name = name, ro_description = description, ro_system = False\<rparr>]"
    and caps: "db_role_caps db' = db_role_caps db @ grants_of_keys db uuid keys"
    using assms(2) unfolding create_role_def by (auto split: if_splits)
  have "filter (\<lambda>(r, p). \<exists>x \<in> set (db_roles db). ro_system x \<and> ro_id x = r) (grants_of_keys db uuid keys) = []"
    using id unfolding grants_of_keys_def by (auto simp: filter_empty_conv)
  then show ?thesis unfolding system_view_def by (simp add: roles caps)
qed

lemma same_id_same_role:
  "wf_access db \<Longrightarrow> r \<in> set (db_roles db) \<Longrightarrow> x \<in> set (db_roles db) \<Longrightarrow> ro_id x = ro_id r \<Longrightarrow> x = r"
  using wf_accessD(2) [of db] unfolding roles_ok_def distinct_map by (auto dest: inj_onD)

lemma system_delete_role:
  assumes "wf_access db" "delete_role actor confirmation role db = Inr db'"
  shows "system_view db' = system_view db"
proof -
  obtain r rs where r: "filter (\<lambda>r. ro_id r = role) (db_roles db) = r # rs" "\<not> ro_system r"
    and roles: "db_roles db' = filter (\<lambda>r. ro_id r \<noteq> role) (db_roles db)"
    and caps: "db_role_caps db' = filter (\<lambda>(r, p). r \<noteq> role) (db_role_caps db)"
    using assms(2) unfolding delete_role_def by (auto simp: Let_def split: list.splits if_splits)
  have "r \<in> set (filter (\<lambda>r. ro_id r = role) (db_roles db))" by (simp add: r(1))
  then have role: "r \<in> set (db_roles db)" "ro_id r = role" by auto
  have other: "ro_id x \<noteq> role" if "x \<in> set (db_roles db)" "ro_system x" for x
    using same_id_same_role [OF assms(1) role(1) that(1)] role(2) r(2) that(2) by auto
  then show ?thesis unfolding system_view_def roles caps by (auto intro!: filter_cong)
qed

lemma system_update_role_permissions:
  assumes "wf_access db" "update_role_permissions actor keys role_key db = Inr db'"
  shows "system_view db' = system_view db"
proof -
  obtain r rs where r: "filter (\<lambda>r. ro_key r = role_key \<and> \<not> ro_system r) (db_roles db) = r # rs"
    and roles: "db_roles db' = db_roles db"
    and caps: "db_role_caps db' = filter (\<lambda>(r', p). r' \<noteq> ro_id r) (db_role_caps db) @ grants_of_keys db (ro_id r) (unique_sorted keys)"
    using assms(2) unfolding update_role_permissions_def by (auto simp: Let_def split: list.splits if_splits)
  have "r \<in> set (filter (\<lambda>r. ro_key r = role_key \<and> \<not> ro_system r) (db_roles db))" by (simp add: r)
  then have role: "r \<in> set (db_roles db)" "\<not> ro_system r" by auto
  have other: "ro_id x \<noteq> ro_id r" if "x \<in> set (db_roles db)" "ro_system x" for x
    using same_id_same_role [OF assms(1) role(1) that(1)] role(2) that(2) by auto
  have "filter (\<lambda>(r', p). \<exists>x \<in> set (db_roles db). ro_system x \<and> ro_id x = r') (grants_of_keys db (ro_id r) (unique_sorted keys)) = []"
    using other unfolding grants_of_keys_def by (auto simp: filter_empty_conv)
  moreover have "filter (\<lambda>(r', p). \<exists>x \<in> set (db_roles db). ro_system x \<and> ro_id x = r') (filter (\<lambda>(r', p). r' \<noteq> ro_id r) (db_role_caps db))
      = filter (\<lambda>(r', p). \<exists>x \<in> set (db_roles db). ro_system x \<and> ro_id x = r') (db_role_caps db)"
    using other by (auto intro!: filter_cong)
  ultimately show ?thesis unfolding system_view_def by (simp add: roles caps)
qed

subsection \<open>The library's user operations\<close>

text \<open>What better-auth documents of \<open>createUser\<close> and \<open>removeUser\<close>: a created user is one new row with the role asked
  for and an email no other row has; a removed user is the row deleted. Both may fail: \<open>removeUser\<close> needs the session of
  an administrator, and the service calls it without one; a creation that fails may have stored the row.\<close>

definition created_account :: "access_db \<Rightarrow> account \<Rightarrow> access_db \<Rightarrow> bool" where
  "created_account db a db' \<longleftrightarrow> ac_role a = Some ''user'' \<and> ac_id a \<notin> account_ids db
     \<and> to_lower (ac_email a) \<notin> (to_lower \<circ> ac_email) ` set (db_accounts db)
     \<and> db' = db\<lparr>db_accounts := db_accounts db @ [a]\<rparr>"

text \<open>An account of the library with nothing attached, left behind when it could neither be linked nor removed.\<close>

definition account_left :: "access_db \<Rightarrow> access_db \<Rightarrow> bool" where
  "account_left db db' \<longleftrightarrow> (\<exists>a. created_account db a db')"

definition access_host_ok :: "access_host \<Rightarrow> bool" where
  "access_host_ok host \<longleftrightarrow>
     (\<forall>email name password db db' user. create_user host email name password db = (db', Inr user) \<longrightarrow>
        (\<exists>a. ac_id a = user \<and> created_account db a db'))
     \<and> (\<forall>email name password db db' m. create_user host email name password db = (db', Inl m) \<longrightarrow>
        db' = db \<or> account_left db db')
     \<and> (\<forall>user db db'. remove_user host user db = Inr db' \<longrightarrow> db' = delete_account user db)"

text \<open>A library whose creation of a user is all or nothing and whose removal does not fail.\<close>

definition compensates :: "access_host \<Rightarrow> bool" where
  "compensates host \<longleftrightarrow>
     (\<forall>email name password db db' m. create_user host email name password db = (db', Inl m) \<longrightarrow> db' = db)
     \<and> (\<forall>user db m. remove_user host user db \<noteq> Inl m)"

lemma wf_created_account:
  assumes "wf_access db" "ac_id a \<notin> account_ids db"
    and "to_lower (ac_email a) \<notin> (to_lower \<circ> ac_email) ` set (db_accounts db)"
  shows "wf_access (db\<lparr>db_accounts := db_accounts db @ [a]\<rparr>)"
proof (rule wf_accessI)
  note D = wf_accessD [OF assms(1)]
  let ?db = "db\<lparr>db_accounts := db_accounts db @ [a]\<rparr>"
  have sub: "account_ids db \<subseteq> account_ids ?db" by auto
  show "accounts_ok (db_accounts ?db)" using D(1) assms(2,3) unfolding accounts_ok_def by auto
  show "keyed_table (account_ids ?db) (role_ids ?db) (account_ids ?db) (\<lambda>by. by) (db_user_roles ?db)"
    using keyed_table_mono [OF D(5) sub _ sub] by simp
  show "keyed_table (post_ids ?db) (role_ids ?db) (account_ids ?db) (\<lambda>by. by) (db_post_roles ?db)"
    using keyed_table_mono [OF D(6) _ _ sub] by simp
  show "keyed_table (account_ids ?db) (capability_ids ?db) (account_ids ?db) ov_by (db_overrides ?db)"
    using keyed_table_mono [OF D(7) sub _ sub] by simp
  show "links_ok (account_ids ?db) (db_links ?db)" using D(8) unfolding links_ok_def by auto
  show "snd ` set (db_sessions ?db) \<subseteq> account_ids ?db" using D(9) by auto
qed (use wf_accessD [OF assms(1)] in simp_all)

lemma forget_other: "v \<in> insert None (Some ` C) \<Longrightarrow> user \<notin> C \<Longrightarrow> forget_actor user v = v"
  by (auto simp: forget_actor_def)

lemma forget_table:
  assumes "keyed_table A B C (\<lambda>by. by) rows" "user \<notin> C"
  shows "map (map_prod id (forget_actor user)) rows = rows"
proof (rule map_idI)
  fix x assume x: "x \<in> set rows"
  obtain a b v where p: "x = ((a, b), v)" by (metis prod.collapse)
  then have "v \<in> insert None (Some ` C)" using keyed_tableD(2) [OF assms(1)] x by blast
  then show "map_prod id (forget_actor user) x = x" using assms(2) by (simp add: p forget_other)
qed

lemma forget_overrides:
  assumes "keyed_table A B C ov_by rows" "user \<notin> C"
  shows "map (map_prod id (\<lambda>ov. ov\<lparr>ov_by := forget_actor user (ov_by ov)\<rparr>)) rows = rows"
proof (rule map_idI)
  fix x assume x: "x \<in> set rows"
  obtain a b v where p: "x = ((a, b), v)" by (metis prod.collapse)
  then have "ov_by v \<in> insert None (Some ` C)" using keyed_tableD(2) [OF assms(1)] x by blast
  then show "map_prod id (\<lambda>ov. ov\<lparr>ov_by := forget_actor user (ov_by ov)\<rparr>) x = x"
    using assms(2) by (simp add: p forget_other)
qed

lemma keyed_filter_other:
  assumes "keyed_table A B C by rows" "user \<notin> A"
  shows "filter (\<lambda>a. fst (fst a) \<noteq> user) rows = rows"
proof (rule filter_True, rule ballI)
  fix x assume x: "x \<in> set rows"
  obtain a b v where p: "x = ((a, b), v)" by (metis prod.collapse)
  then show "fst (fst x) \<noteq> user" using keyed_tableD(2) [OF assms(1)] x assms(2) by auto
qed

text \<open>An account that was just created is removed without a trace.\<close>

lemma delete_created_account:
  assumes "wf_access db" "ac_id a \<notin> account_ids db"
  shows "delete_account (ac_id a) (db\<lparr>db_accounts := db_accounts db @ [a]\<rparr>) = db"
proof -
  note D = wf_accessD [OF assms(1)]
  have "ac_id b \<noteq> ac_id a" if "b \<in> set (db_accounts db)" for b
    using assms(2) imageI [OF that, of ac_id] by metis
  then have "filter (\<lambda>b. ac_id b \<noteq> ac_id a) (db_accounts db @ [a]) = db_accounts db"
    by (simp add: filter_True)
  moreover have "filter (\<lambda>s. snd s \<noteq> ac_id a) (db_sessions db) = db_sessions db"
    using D(9) assms(2) by (intro filter_True) auto
  moreover have "filter (\<lambda>l. li_user l \<noteq> ac_id a) (db_links db) = db_links db"
    using D(8) assms(2) unfolding links_ok_def by (intro filter_True ballI) metis
  moreover have "map (\<lambda>l. l\<lparr>li_by := forget_actor (ac_id a) (li_by l)\<rparr>) (db_links db) = db_links db"
  proof (rule map_idI)
    fix l assume "l \<in> set (db_links db)"
    then have "li_by l \<in> insert None (Some ` account_ids db)" using D(8) unfolding links_ok_def by blast
    then show "l\<lparr>li_by := forget_actor (ac_id a) (li_by l)\<rparr> = l" using assms(2) by (simp add: forget_other)
  qed
  ultimately show ?thesis unfolding delete_account_def
    by (simp add: keyed_filter_other [OF D(5) assms(2)] keyed_filter_other [OF D(7) assms(2)]
        forget_table [OF D(5) assms(2)] forget_table [OF D(6) assms(2)] forget_overrides [OF D(7) assms(2)])
qed

subsection \<open>Operations of the service\<close>

text \<open>What an operation owes the tables.\<close>

definition op_sound :: "string \<Rightarrow> access_db \<Rightarrow> access_db \<Rightarrow> bool" where
  "op_sound actor db db' \<longleftrightarrow> wf_access db' \<and> audited actor db db' \<and> system_view db' = system_view db"

lemma op_sound_refl: "wf_access db \<Longrightarrow> op_sound actor db db"
  by (simp add: op_sound_def)

lemma commit_sound:
  assumes "wf_access db" "\<And>db'. result = Inr db' \<Longrightarrow> op_sound actor db db'"
  shows "op_sound actor db (fst (commit db result)) \<and> (snd (commit db result) \<noteq> None \<longrightarrow> fst (commit db result) = db)"
  using assms by (cases result) (simp_all add: commit_def op_sound_refl)

lemma link_leaves_trace:
  "link_employee_user greatest today new_account actor organization code user db = Inr db' \<Longrightarrow> db_audit db' \<noteq> db_audit db"
  unfolding link_employee_user_def by (auto simp: Let_def split: option.splits if_splits)

fun provisions :: "access_op \<Rightarrow> bool" where
  "provisions (Provision_Staff actor email code organization password) = True"
| "provisions op = False"

definition op_outcome :: "access_host \<Rightarrow> access_op \<Rightarrow> access_db \<Rightarrow> access_db \<times> string option \<Rightarrow> bool" where
  "op_outcome host op db result \<longleftrightarrow> (case result of (db', outcome) \<Rightarrow>
     wf_access db' \<and> system_view db' = system_view db
     \<and> (case outcome of None \<Rightarrow> audited (op_actor op) db db'
         | Some _ \<Rightarrow> db' = db \<or> provisions op \<and> account_left db db' \<and> \<not> compensates host))"

lemma sound_outcome:
  "op_sound (op_actor op) db (fst result) \<and> (snd result \<noteq> None \<longrightarrow> fst result = db) \<Longrightarrow> op_outcome host op db result"
  by (cases result) (auto simp: op_outcome_def op_sound_def split: option.splits)

lemma wf_account_left: "wf_access db \<Longrightarrow> account_left db db' \<Longrightarrow> wf_access db' \<and> system_view db' = system_view db"
  unfolding account_left_def created_account_def by (auto simp: system_view_def intro: wf_created_account)

lemma provision_outcome:
  assumes "wf_access db" "actor \<in> account_ids db" "access_host_ok host"
  shows "op_outcome host (Provision_Staff actor email code organization password) db
    (provision_staff host today actor email code organization password db)"
proof -
  let ?op = "Provision_Staff actor email code organization password"
  have unchanged: "op_outcome host ?op db (db, Some m)" for m using assms(1) by (simp add: op_outcome_def)
  have stays: "op_outcome host ?op db (created, Some m)" if "account_left db created" "\<not> compensates host" for created m
    using wf_account_left [OF assms(1) that(1)] that by (simp add: op_outcome_def)
  have failed: "op_outcome host ?op db (created, Some m)"
    if "create_user host address name password db = (created, Inl m)" for address name created m
  proof (cases "created = db")
    case False
    then have "\<not> compensates host" "account_left db created"
      using that assms(3) unfolding compensates_def access_host_ok_def by metis+
    then show ?thesis by (intro stays)
  qed (simp add: unchanged)
  have "op_outcome host ?op db (case link_employee_user (greatest_of host) today True actor organization given user created of
      Inl message \<Rightarrow> (case remove_user host user created of
          Inl failure \<Rightarrow> (created, Some failure) | Inr removed \<Rightarrow> (removed, Some message))
    | Inr linked \<Rightarrow> (linked, None))"
    if made: "create_user host address name password db = (created, Inr user)" for address name user created given
  proof -
    obtain a where a: "ac_id a = user" and new: "created_account db a created"
      using assms(3) made unfolding access_host_ok_def by metis
    have eq: "created = db\<lparr>db_accounts := db_accounts db @ [a]\<rparr>" and fresh: "user \<notin> account_ids db"
      using new a by (simp_all add: created_account_def)
    have left: "account_left db created" using new unfolding account_left_def by blast
    note wf = wf_account_left [OF assms(1) left]
    have actor: "actor \<in> account_ids created" using assms(2) by (simp add: eq)
    show ?thesis
    proof (cases "link_employee_user (greatest_of host) today True actor organization given user created")
      case (Inr linked)
      have "audited actor created linked" by (rule audited_link_employee_user [OF Inr])
      then have "audited actor db linked" using link_leaves_trace [OF Inr] unfolding audited_def eq by auto
      then show ?thesis using wf_link_employee_user [OF _ actor Inr] system_link_employee_user [OF Inr] wf Inr
        by (simp add: op_outcome_def)
    next
      case (Inl message)
      have "removed = db" if "remove_user host user created = Inr removed" for removed
        using assms(3) that delete_created_account [OF assms(1), of a] a fresh unfolding access_host_ok_def eq by metis
      moreover have "\<not> compensates host" if "remove_user host user created = Inl m" for m
        using that unfolding compensates_def by blast
      ultimately show ?thesis using Inl left unchanged stays
        by (cases "remove_user host user created") auto
    qed
  qed
  then show ?thesis unfolding provision_staff_def by (auto simp: unchanged failed split: sum.split prod.split)
qed

lemma op_soundI:
  "wf_access db' \<Longrightarrow> audited actor db db' \<Longrightarrow> system_view db' = system_view db \<Longrightarrow> op_sound actor db db'"
  by (simp add: op_sound_def)

lemma bind_result_InrE:
  assumes "bind_result r f = Inr y"
  obtains x where "f x = Inr y"
  using assms by (cases r) simp_all

lemma run_op_sound:
  assumes "wf_access db" "op_actor op \<in> account_ids db" "\<not> provisions op"
  shows "op_sound (op_actor op) db (fst (run_op host today db op))
     \<and> (snd (run_op host today db op) \<noteq> None \<longrightarrow> fst (run_op host today db op) = db)"
proof (cases op)
  case (Provision_Staff actor email code organization password)
  then show ?thesis using assms(3) by simp
next
  case (Update_Staff_Login_Id actor email user)
  have "op_sound actor db (fst (commit db (update_staff_login_id actor (to_lower (trim email)) user db)))
     \<and> (snd (commit db (update_staff_login_id actor (to_lower (trim email)) user db)) \<noteq> None
        \<longrightarrow> fst (commit db (update_staff_login_id actor (to_lower (trim email)) user db)) = db)"
    by (rule commit_sound [OF assms(1)], rule op_soundI)
      (erule wf_update_staff_login_id [OF assms(1)] audited_update_staff_login_id system_update_staff_login_id)+
  then show ?thesis by (simp add: Update_Staff_Login_Id Let_def op_sound_refl [OF assms(1)])
next
  case (Link_Employee actor code organization user)
  then have actor: "actor \<in> account_ids db" using assms(2) by simp
  show ?thesis unfolding Link_Employee run_op.simps op_actor.simps
    by (rule commit_sound [OF assms(1)], erule bind_result_InrE, rule op_soundI)
      (erule wf_link_employee_user [OF assms(1) actor] audited_link_employee_user system_link_employee_user)+
next
  case (Create_Role uuid actor description key name keys)
  show ?thesis unfolding Create_Role run_op.simps op_actor.simps
    by (rule commit_sound [OF assms(1)], erule bind_result_InrE, rule op_soundI)
      (erule wf_create_role [OF assms(1)] audited_create_role system_create_role [OF assms(1)])+
next
  case (Delete_Role actor confirmation role)
  show ?thesis unfolding Delete_Role run_op.simps op_actor.simps
    by (rule commit_sound [OF assms(1)], rule op_soundI)
      (erule wf_delete_role [OF assms(1)] audited_delete_role system_delete_role [OF assms(1)])+
next
  case (Assign_Role actor key user)
  then have actor: "actor \<in> account_ids db" using assms(2) by simp
  show ?thesis unfolding Assign_Role run_op.simps op_actor.simps
    by (rule commit_sound [OF assms(1)], rule op_soundI)
      (erule wf_assign_role [OF assms(1) actor] audited_assign_role system_assign_role)+
next
  case (Replace_Direct_Roles actor keys user)
  then have actor: "actor \<in> account_ids db" using assms(2) by simp
  show ?thesis unfolding Replace_Direct_Roles run_op.simps op_actor.simps
    by (rule commit_sound [OF assms(1)], rule op_soundI)
      (erule wf_replace_direct_roles [OF assms(1) actor] audited_replace_direct_roles system_replace_direct_roles)+
next
  case (Update_Role_Permissions actor keys role_key)
  show ?thesis unfolding Update_Role_Permissions run_op.simps op_actor.simps
    by (rule commit_sound [OF assms(1)], rule op_soundI)
      (erule wf_update_role_permissions [OF assms(1)] audited_update_role_permissions
        system_update_role_permissions [OF assms(1)])+
next
  case (Set_Post_Role actor enabled post key)
  then have actor: "actor \<in> account_ids db" using assms(2) by simp
  show ?thesis unfolding Set_Post_Role run_op.simps op_actor.simps
    by (rule commit_sound [OF assms(1)], rule op_soundI)
      (erule wf_set_post_role [OF assms(1) actor] audited_set_post_role [OF assms(1)] system_set_post_role)+
next
  case (Set_Permission_Override actor effect expires key reason user)
  then have actor: "actor \<in> account_ids db" using assms(2) by simp
  show ?thesis unfolding Set_Permission_Override run_op.simps op_actor.simps
    by (rule commit_sound [OF assms(1)], rule op_soundI)
      (erule wf_set_permission_override [OF assms(1) actor] audited_set_permission_override system_set_permission_override)+
qed

lemma service_op_cases:
  "service_op host now today db op =
     (if has_capability now today db (op_actor op) (op_capability op) then run_op host today db op
      else (db, Some (''User does not have the '' @ op_capability op @ '' capability'')))"
  by (simp add: service_op_def require_actor_capability_def guard_that_def)

lemma service_op_outcome:
  assumes "wf_access db" "access_host_ok host"
  shows "op_outcome host op db (service_op host now today db op)"
proof (cases "has_capability now today db (op_actor op) (op_capability op)")
  case True
  then have actor: "op_actor op \<in> account_ids db" by (rule granted_has_account [OF assms(1)])
  show ?thesis
  proof (cases "provisions op")
    case True
    then obtain actor email code organization password where "op = Provision_Staff actor email code organization password"
      by (cases op) simp_all
    then show ?thesis using provision_outcome [OF assms(1) _ assms(2)] actor \<open>has_capability now today db (op_actor op) (op_capability op)\<close>
      by (simp add: service_op_cases)
  next
    case False
    then show ?thesis using sound_outcome [OF run_op_sound [OF assms(1) actor False]] True
        \<open>has_capability now today db (op_actor op) (op_capability op)\<close> by (simp add: service_op_cases)
  qed
next
  case False
  then show ?thesis using assms(1) by (simp add: service_op_cases op_outcome_def)
qed



text \<open>Recruitment changes the posts only.\<close>

lemma posts_changed_sound:
  assumes "wf_access db"
  shows "wf_access (access_step host db (Posts_Changed posts))"
    and "system_view (access_step host db (Posts_Changed posts)) = system_view db"
proof -
  note D = wf_accessD [OF assms]
  show "wf_access (access_step host db (Posts_Changed posts))"
  proof (rule wf_accessI)
    let ?db = "access_step host db (Posts_Changed posts)"
    show "keyed_table (post_ids ?db) (role_ids ?db) (account_ids ?db) (\<lambda>by. by) (db_post_roles ?db)"
      by (simp, rule keyed_table_filter [OF D(6)]) simp
  qed (use D in simp_all)
qed (simp add: system_view_def)

interpretation access: invariant_machine "access_step host"
    "\<lambda>db. access_host_ok host \<and> wf_access db \<and> system_view db = view" for host view
proof
  fix db event
  assume inv: "access_host_ok host \<and> wf_access db \<and> system_view db = view"
  show "access_host_ok host \<and> wf_access (access_step host db event) \<and> system_view (access_step host db event) = view"
  proof (cases event)
    case (Service now today op)
    then show ?thesis using inv service_op_outcome [of db host op now today] by (auto simp: op_outcome_def split: prod.splits)
  next
    case (Posts_Changed posts)
    then show ?thesis using inv posts_changed_sound [of db host posts] by simp
  qed
qed

subsection \<open>Who may do what\<close>

text \<open>The decision for one capability: nobody without an active employment; then an active override
  decides; then the roles, where the administrative role grants everything.\<close>

definition active_effect :: "int \<Rightarrow> access_db \<Rightarrow> string \<Rightarrow> capability \<Rightarrow> override_effect option" where
  "active_effect now db user c = (case map_of (db_overrides db) (user, ca_id c) of
      None \<Rightarrow> None | Some ov \<Rightarrow> if override_is_active now ov then Some (ov_effect ov) else None)"

definition role_allows :: "int \<Rightarrow> access_db \<Rightarrow> string \<Rightarrow> capability \<Rightarrow> bool" where
  "role_allows today db user c \<longleftrightarrow>
     (\<exists>r \<in> set (assigned_roles today db user). (r, ca_id c) \<in> set (db_role_caps db))"

definition capability_allowed :: "int \<Rightarrow> int \<Rightarrow> access_db \<Rightarrow> string \<Rightarrow> capability \<Rightarrow> bool" where
  "capability_allowed now today db user c \<longleftrightarrow> has_active_employment today db user
     \<and> (case active_effect now db user c of
          Some Deny \<Rightarrow> False
        | Some Allow \<Rightarrow> True
        | None \<Rightarrow> role_allows today db user c \<or> has_administrative_access today db user)"

lemma map_of_map_pair: "map_of (map (\<lambda>p. (p, f p)) xs) p = (if p \<in> set xs then Some (f p) else None)"
  by (induction xs) auto

lemma map_of_active_overrides:
  assumes "wf_access db" "c \<in> set requested"
  shows "map_of (active_overrides now db user requested) (ca_id c) =
    (case active_effect now db user c of None \<Rightarrow> None | Some e \<Rightarrow> Some (e = Deny, e = Allow))"
proof -
  define rows where "rows = filter (\<lambda>((u, p), ov). u = user \<and> override_is_active now ov
      \<and> p \<in> set (map ca_id requested)) (db_overrides db)"
  have d: "distinct (map fst (db_overrides db))" by (rule keyed_tableD(1) [OF wf_accessD(7) [OF assms(1)]])
  have row: "((u, ca_id c), ov) \<in> set rows
      \<longleftrightarrow> u = user \<and> map_of (db_overrides db) (user, ca_id c) = Some ov \<and> override_is_active now ov" for u ov
    using assms(2) d by (auto simp: rows_def)
  have eff: "((\<exists>((u, p'), ov) \<in> set rows. p' = ca_id c \<and> ov_effect ov = e) \<longleftrightarrow> active_effect now db user c = Some e)" for e
  proof -
    have "(\<exists>((u, p'), ov) \<in> set rows. p' = ca_id c \<and> ov_effect ov = e)
        \<longleftrightarrow> (\<exists>u ov. ((u, ca_id c), ov) \<in> set rows \<and> ov_effect ov = e)" by (simp add: Bex_def split_paired_Ex)
    also have "\<dots> \<longleftrightarrow> active_effect now db user c = Some e"
      by (auto simp: row active_effect_def split: option.splits)
    finally show ?thesis .
  qed
  have mem: "ca_id c \<in> set (remdups (map (snd \<circ> fst) rows)) \<longleftrightarrow> active_effect now db user c \<noteq> None"
  proof -
    have "ca_id c \<in> set (remdups (map (snd \<circ> fst) rows)) \<longleftrightarrow> (\<exists>u ov. ((u, ca_id c), ov) \<in> set rows)"
      by (force simp: image_iff)
    then show ?thesis by (auto simp: row active_effect_def split: option.splits)
  qed
  have "map_of (active_overrides now db user requested) (ca_id c) =
      (if ca_id c \<in> set (remdups (map (snd \<circ> fst) rows))
       then Some (active_effect now db user c = Some Deny, active_effect now db user c = Some Allow) else None)"
    unfolding active_overrides_def Let_def rows_def [symmetric] eff [symmetric] by (rule map_of_map_pair)
  then show ?thesis unfolding mem by (cases "active_effect now db user c") auto
qed

lemma mem_role_grants:
  assumes "c \<in> set requested"
  shows "ca_id c \<in> set (role_grants today db user requested) \<longleftrightarrow> role_allows today db user c"
  using assms by (auto simp: role_grants_def role_allows_def image_iff)

lemma requested_mem:
  "c \<in> set (requested_permissions db keys)
     \<longleftrightarrow> c \<in> set (db_capabilities db) \<and> (case keys of None \<Rightarrow> True | Some ks \<Rightarrow> ca_key c \<in> set ks)"
  by (auto simp: requested_permissions_def split: option.splits)

lemma query_granted_iff:
  assumes "wf_access db"
  shows "key \<in> set (query_granted_capabilities now today db user keys)
    \<longleftrightarrow> (\<exists>c \<in> set (requested_permissions db keys). ca_key c = key \<and> capability_allowed now today db user c)"
proof -
  have "(has_active_employment today db user
      \<and> \<not> (case map_of (active_overrides now db user req) (ca_id c) of None \<Rightarrow> False | Some (denied, allowed) \<Rightarrow> denied)
      \<and> ((case map_of (active_overrides now db user req) (ca_id c) of None \<Rightarrow> False | Some (denied, allowed) \<Rightarrow> allowed)
         \<or> ca_id c \<in> set (role_grants today db user req) \<or> has_administrative_access today db user))
    \<longleftrightarrow> capability_allowed now today db user c" if "c \<in> set req" for c req
    unfolding map_of_active_overrides [OF assms that] mem_role_grants [OF that] capability_allowed_def
    by (cases "active_effect now db user c"; cases "the (active_effect now db user c)") auto
  then show ?thesis unfolding query_granted_capabilities_def Let_def by (auto simp: image_iff)
qed

lemma has_capability_iff:
  assumes "wf_access db"
  shows "has_capability now today db user key
    \<longleftrightarrow> (\<exists>c \<in> set (db_capabilities db). ca_key c = key \<and> capability_allowed now today db user c)"
  by (auto simp: has_capability_def list_granted_capabilities_def query_granted_iff [OF assms] requested_mem)


lemma active_employment_cong:
  "db_links db' = db_links db \<Longrightarrow> db_posts db' = db_posts db \<Longrightarrow>
    active_employee_posts today db' user = active_employee_posts today db user
    \<and> has_active_employment today db' user = has_active_employment today db user"
  by (simp add: active_employee_posts_def has_active_employment_def)





subsection \<open>Example tables\<close>

definition example_access :: access_db where
  "example_access = \<lparr>
     db_accounts = [\<lparr>ac_id = ''u1'', ac_email = ''a@b.c'', ac_verified = True, ac_role = Some ''admin''\<rparr>,
                    \<lparr>ac_id = ''u2'', ac_email = ''d@b.c'', ac_verified = True, ac_role = Some ''user''\<rparr>],
     db_roles = [\<lparr>ro_id = ''r1'', ro_key = ''administrator'', ro_name = ''A'', ro_description = None, ro_system = True\<rparr>,
                 \<lparr>ro_id = ''r2'', ro_key = ''clerk'', ro_name = ''C'', ro_description = None, ro_system = False\<rparr>],
     db_capabilities = [\<lparr>ca_id = ''c1'', ca_key = ''administration.roles.delete''\<rparr>,
                        \<lparr>ca_id = ''c2'', ca_key = ''store.stock.read''\<rparr>],
     db_role_caps = [(''r1'', ''c1''), (''r2'', ''c2'')],
     db_user_roles = [((''u1'', ''r1''), None), ((''u2'', ''r2''), Some ''u1'')],
     db_post_roles = [], db_overrides = [], db_links = [], db_posts = [], db_sessions = [], db_audit = []\<rparr>"


lemma example_wf: "wf_access example_access"
  by (intro wf_accessI keyed_tableI)
    (auto simp: example_access_def accounts_ok_def roles_ok_def capabilities_ok_def role_caps_ok_def links_ok_def
      to_lower_def lower_char_def)


subsection \<open>Properties\<close>









text \<open>Deleting a role takes capabilities away and gives none, and it changes nothing for users who did not
  hold the role, directly or through an active post.\<close>

theorem deleting_role_only_revokes:
  assumes "wf_access db" "delete_role actor confirmation role db = Inr db'"
  shows "(has_capability now today db' user key \<longrightarrow> has_capability now today db user key)
    \<and> (role \<notin> set (assigned_roles today db user)
        \<longrightarrow> has_capability now today db' user key = has_capability now today db user key)"
proof -
  have wf: "wf_access db'" by (rule wf_delete_role [OF assms])
  obtain trail where db': "db' = db\<lparr>db_audit := trail, db_roles := filter (\<lambda>r. ro_id r \<noteq> role) (db_roles db),
     db_role_caps := filter (\<lambda>(r, p). r \<noteq> role) (db_role_caps db),
     db_user_roles := filter (\<lambda>a. snd (fst a) \<noteq> role) (db_user_roles db),
     db_post_roles := filter (\<lambda>a. snd (fst a) \<noteq> role) (db_post_roles db)\<rparr>"
    using assms(2) unfolding delete_role_def append_access_audit_changes_def
    by (auto simp: Let_def split: list.splits if_splits)
  have posts: "active_employee_posts today db' user = active_employee_posts today db user"
    and job: "has_active_employment today db' user = has_active_employment today db user"
    by (simp_all add: active_employee_posts_def has_active_employment_def db')
  have roles: "set (assigned_roles today db' user) = set (assigned_roles today db user) - {role}"
    unfolding assigned_roles_def posts by (auto simp: db' image_iff)
  have effect: "active_effect now db' user c = active_effect now db user c" for c
    by (simp add: active_effect_def db')
  have allows: "role_allows today db' user c
      \<longleftrightarrow> (\<exists>r \<in> set (assigned_roles today db user) - {role}. (r, ca_id c) \<in> set (db_role_caps db))" for c
    unfolding role_allows_def roles by (auto simp: db')
  have admin: "has_administrative_access today db' user \<longleftrightarrow> has_active_employment today db user
      \<and> (\<exists>r \<in> set (db_roles db). ro_id r \<in> set (assigned_roles today db user) - {role} \<and> ro_key r = ''administrative'')"
    unfolding has_administrative_access_def job roles by (auto simp: db')
  have down: "capability_allowed now today db' user c \<longrightarrow> capability_allowed now today db user c" for c
    unfolding capability_allowed_def job effect allows admin
    by (auto simp: role_allows_def has_administrative_access_def split: option.splits override_effect.splits)
  have same: "capability_allowed now today db' user c = capability_allowed now today db user c"
    if "role \<notin> set (assigned_roles today db user)" for c
    unfolding capability_allowed_def job effect allows admin using that
    by (auto simp: role_allows_def has_administrative_access_def split: option.splits override_effect.splits)
  have caps: "db_capabilities db' = db_capabilities db" by (simp add: db')
  show ?thesis
    unfolding has_capability_iff [OF wf] has_capability_iff [OF assms(1)] caps using down same by auto
qed

lemma deleting_role_only_revokes_witness:
  "\<exists>db'. delete_role ''u1'' ''clerk'' ''r2'' example_access = Inr db'
    \<and> has_capability 0 0 db' ''u1'' ''administration.roles.delete''
    \<and> \<not> has_capability 0 0 db' ''u2'' ''store.stock.read''"
proof -
  obtain db' where run: "delete_role ''u1'' ''clerk'' ''r2'' example_access = Inr db'"
    by (auto simp: delete_role_def example_access_def Let_def)
  have "''r2'' \<notin> set (assigned_roles 0 example_access ''u1'')" by code_simp
  moreover have "has_capability 0 0 example_access ''u1'' ''administration.roles.delete''" by code_simp
  ultimately have "has_capability 0 0 db' ''u1'' ''administration.roles.delete''"
    using deleting_role_only_revokes [OF example_wf run] by blast
  moreover have "\<not> has_capability 0 0 (case delete_role ''u1'' ''clerk'' ''r2'' example_access of Inr db \<Rightarrow> db | Inl e \<Rightarrow> example_access) ''u2'' ''store.stock.read''"
    by code_simp
  ultimately show ?thesis using run by auto
qed

end
