(* ===== verification/Design.thy ===== *)
theory Design
  imports JS_Value
begin

text \<open>
  Commercial design: \<open>packages/db/src/commercial-design-domain.ts\<close> and
  \<open>packages/db/src/design-control-domain.ts\<close>. The options of the design workspace, the type and the
  piece weight of a bill of material, the links between the design pages, the states of a design task
  with the fields that are missing for its completion and the drawings it needs, and the control of
  released designs: selected processes, revisions and the classification of a change as cost impacting.

  A field that may be absent, null or text is \<open>string option option\<close> where the code tells absent from
  null and \<open>string option\<close> where it does not. Line numbers are integers.
\<close>

subsection \<open>Options of the workspace\<close>

definition design_statuses :: "string list" where
  "design_statuses = [''Pending Design'', ''In Progress'', ''Drawings Pending'', ''Need Clarification'',
     ''Changes Required'', ''Design Complete'', ''Not Required'']"

definition design_portfolio_decisions :: "string list" where
  "design_portfolio_decisions = [''Pending'', ''New Quoted Part'', ''Matches Existing Portfolio'']"

definition design_workspace_sections :: "string list" where
  "design_workspace_sections = [''product'', ''bom'', ''files'', ''customer-drawings'', ''controls'']"

definition design_product_types :: "string list" where
  "design_product_types = [''Barstock'', ''Forged'', ''Moulded'', ''Punching'']"

definition design_production_types :: "string list" where
  "design_production_types = [''CNC'', ''Conventional'', ''DP'', ''M/C Assembly'', ''Assembly'']"

definition canonical_master_options :: "string list \<Rightarrow> string list \<Rightarrow> string list" where
  "canonical_master_options canonical_values master_values =
     (let by_name = fold (\<lambda>v. put (to_lower (trim v)) (trim v)) master_values []
      in concat (map (\<lambda>c. case map_of by_name (to_lower c) of
           None \<Rightarrow> [] | Some v \<Rightarrow> if v = [] then [] else [v]) canonical_values))"

definition design_product_type_options :: "string list \<Rightarrow> string list" where
  "design_product_type_options master_values = canonical_master_options design_product_types master_values"

definition design_production_type_options :: "string list \<Rightarrow> string list" where
  "design_production_type_options master_values = canonical_master_options design_production_types master_values"

definition design_production_machine_type :: "string \<Rightarrow> string option \<Rightarrow> string option" where
  "design_production_machine_type item_type process =
     (if item_type \<in> {''List'', ''Assembly'', ''Package''} then process else None)"

definition design_workspace_section :: "string option \<Rightarrow> string option" where
  "design_workspace_section value = List.find (\<lambda>s. Some s = value) design_workspace_sections"

definition design_product_name :: "string option \<Rightarrow> string option \<Rightarrow> string option \<Rightarrow> string" where
  "design_product_name size_text category subcategory =
     join '' '' (filter (\<lambda>v. v \<noteq> []) (List.map_filter (map_option trim) [size_text, category, subcategory]))"

subsection \<open>Weight and type of a bill of material\<close>

record weight_line =
  wl_item_type :: "string option"
  wl_number :: int
  wl_parent :: "int option"
  wl_weight :: "jsnum option"
  wl_quantity :: jsnum

definition line_quantity :: "weight_line \<Rightarrow> jsnum" where
  "line_quantity l = (if is_finite (wl_quantity l) then wl_quantity l else Fin 0)"

definition line_unit_weight :: "weight_line \<Rightarrow> jsnum" where
  "line_unit_weight l = (case wl_weight l of None \<Rightarrow> Fin 0 | Some w \<Rightarrow> if is_finite w then w else Fin 0)"

text \<open>An assembly that is its own ancestor adds nothing, so the recursion ends on every input.\<close>

function design_container_piece_weight :: "weight_line list \<Rightarrow> int option \<Rightarrow> int list \<Rightarrow> jsnum" where
  "design_container_piece_weight lines parent ancestors =
     foldl (\<lambda>total l.
         if wl_item_type l = Some ''Assembly''
         then if wl_number l \<in> set ancestors then total
              else num_add total (num_mul (line_quantity l)
                (design_container_piece_weight lines (Some (wl_number l)) (wl_number l # ancestors)))
         else num_add total (num_mul (line_quantity l) (line_unit_weight l)))
       (Fin 0) (filter (\<lambda>l. wl_parent l = parent) lines)"
  by pat_completeness auto
termination
proof (relation "measure (\<lambda>(lines, parent, ancestors). card (wl_number ` set lines - set ancestors))")
  fix lines :: "weight_line list" and parent ancestors l
  assume l: "l \<in> set (filter (\<lambda>l. wl_parent l = parent) lines)" "wl_number l \<notin> set ancestors"
  have "wl_number ` set lines - set (wl_number l # ancestors) \<subset> wl_number ` set lines - set ancestors"
    using l by auto
  then show "((lines, Some (wl_number l), wl_number l # ancestors), lines, parent, ancestors)
      \<in> measure (\<lambda>(lines, parent, ancestors). card (wl_number ` set lines - set ancestors))"
    by (simp add: psubset_card_mono)
qed simp

declare design_container_piece_weight.simps [simp del]

definition design_assembly_piece_weight :: "weight_line list \<Rightarrow> int \<Rightarrow> jsnum" where
  "design_assembly_piece_weight lines n = design_container_piece_weight lines (Some n) [n]"

definition design_package_piece_weight :: "weight_line list \<Rightarrow> jsnum" where
  "design_package_piece_weight lines = design_container_piece_weight lines None []"

definition present :: "string option \<Rightarrow> bool" where
  "present v \<longleftrightarrow> (case v of None \<Rightarrow> False | Some s \<Rightarrow> s \<noteq> [])"

record type_line =
  tl_item_type :: "string option"
  tl_package_part :: "string option"
  tl_package_part_uid :: "string option"
  tl_parent :: "int option"

definition design_item_type :: "type_line list \<Rightarrow> string option \<Rightarrow> string" where
  "design_item_type lines requested =
     (if requested = Some ''List'' then ''List''
      else if requested = Some ''Package'' then ''Package''
      else if length lines > 1 \<or> (\<exists>l \<in> set lines. tl_item_type l = Some ''Assembly'' \<or> tl_parent l \<noteq> None
                \<or> present (tl_package_part l) \<or> present (tl_package_part_uid l))
      then ''Package'' else ''List'')"

subsection \<open>Links between the pages\<close>

text \<open>\<open>URLSearchParams\<close> writes entries in the form encoding of their UTF-8 bytes.\<close>

definition form_byte :: "nat \<Rightarrow> string" where
  "form_byte n = ''%'' @ map upper_char [hex_digit (n div 16), hex_digit (n mod 16)]"

definition form_char :: "char \<Rightarrow> string" where
  "form_char c = (let n = (of_char c :: nat) in
     if is_digit c \<or> (65 \<le> n \<and> n \<le> 90) \<or> (97 \<le> n \<and> n \<le> 122) \<or> c \<in> set ''*-._'' then [c]
     else if n = 32 then ''+''
     else if n < 128 then form_byte n
     else form_byte (192 + n div 64) @ form_byte (128 + n mod 64))"

definition search_params :: "(string \<times> string) list \<Rightarrow> string" where
  "search_params entries = join ''&'' (map (\<lambda>(k, v). concat (map form_char k) @ ''='' @ concat (map form_char v)) entries)"

definition design_task_href :: "string \<Rightarrow> string \<Rightarrow> string" where
  "design_task_href item match_status =
     (let review = ''/commercial/design/'' @ item
      in if match_status = ''New Quoted Part'' then review @ ''/new'' else review)"

definition design_task_saved_href :: "string \<Rightarrow> string option \<Rightarrow> string" where
  "design_task_saved_href item section_text =
     ''/commercial/design/'' @ item @ ''/new?'' @ search_params ((''saved'', ''1'')
       # (case design_workspace_section section_text of None \<Rightarrow> [] | Some s \<Rightarrow> [(''section'', s)]))"

definition design_product_portfolio_href :: "string \<Rightarrow> string \<Rightarrow> int option \<Rightarrow> string" where
  "design_product_portfolio_href customer item index =
     ''/commercial/products?'' @ search_params
       [(''customer'', trim customer), (''returnTo'', ''/commercial/design/'' @ item @ ''/new''),
        (case index of None \<Rightarrow> (''selectTask'', ''1'') | Some i \<Rightarrow> (''selectLine'', show_int i))]"

text \<open>The pattern \<open>^\/commercial\/design\/[^/?#]+\/new$\<close>.\<close>

definition matches_return_path :: "string \<Rightarrow> bool" where
  "matches_return_path s =
     (let prefix = ''/commercial/design/''; rest = drop (length prefix) s; middle = take (length rest - 4) rest
      in starts_with prefix s \<and> 4 < length rest \<and> drop (length rest - 4) rest = ''/new''
         \<and> (\<forall>c \<in> set middle. c \<notin> set ''/?#''))"

definition design_product_selection_return_href :: "int option \<Rightarrow> string \<Rightarrow> string \<Rightarrow> string js_result" where
  "design_product_selection_return_href index product return_to =
     (if \<not> matches_return_path return_to then throw ''Invalid Design Product Portfolio return path.''
      else return (return_to @ ''?'' @ search_params ((''product'', trim product)
        # (case index of None \<Rightarrow> [(''portfolio'', ''1'')]
           | Some i \<Rightarrow> [(''selectedLine'', show_int i), (''section'', ''bom'')]))))"

definition design_task_save_result_href :: "string list \<Rightarrow> bool \<Rightarrow> string \<Rightarrow> string option \<Rightarrow> string" where
  "design_task_save_result_href missing_fields requested item section_text =
     (if \<not> requested then design_task_saved_href item section_text
      else if missing_fields = [] then ''/commercial/design''
      else ''/commercial/design/'' @ item @ ''/new?''
        @ search_params [(''incomplete'', join ''|'' missing_fields), (''saved'', ''1'')]
        @ ''#design-completion-remark'')"

definition normalize_design_allocated_uid :: "string option \<Rightarrow> string option" where
  "normalize_design_allocated_uid value =
     (case map_option trim value of None \<Rightarrow> None
      | Some n \<Rightarrow> if n = [] \<or> to_lower n = ''allocated on save'' then None else Some n)"

subsection \<open>States of a design task\<close>

definition design_task_status_after_start :: "string \<Rightarrow> string js_result" where
  "design_task_status_after_start status =
     (if status = ''Pending Design'' then return ''In Progress''
      else if status \<in> {''In Progress'', ''Drawings Pending'', ''Changes Required''} then return status
      else throw (''Design work cannot start from the current status: '' @ status @ ''.''))"

definition design_task_is_open :: "string \<Rightarrow> bool" where
  "design_task_is_open status \<longleftrightarrow> status \<notin> {''Design Complete'', ''Not Required''}"

definition design_task_is_editable :: "string \<Rightarrow> string \<Rightarrow> bool" where
  "design_task_is_editable status next_stage \<longleftrightarrow>
     design_task_is_open status \<or> next_stage \<in> {''Not Started'', ''Changes Required''}"

definition design_task_should_prepare_costing :: "bool option \<Rightarrow> string \<Rightarrow> string \<Rightarrow> bool" where
  "design_task_should_prepare_costing requested bom_completed next_stage \<longleftrightarrow>
     (case requested of None \<Rightarrow> True | Some r \<Rightarrow> r) \<and> bom_completed = ''Yes''
     \<and> next_stage \<in> {''Not Started'', ''Changes Required''}"

record design_task_state =
  dt_approval_status :: string
  dt_assembly_required :: string
  dt_bom_completed :: string
  dt_bom_required :: string
  dt_design_status :: string
  dt_portfolio_match :: bool
  dt_next_stage :: string

definition derive_design_task_state :: "bool option \<Rightarrow> string \<Rightarrow> string \<Rightarrow> string \<Rightarrow> string \<Rightarrow> design_task_state" where
  "derive_design_task_state requested bom_completed existing_next_stage item_type match_status =
     (let matched = (match_status = ''Matches Existing Portfolio'');
          completed = (if matched then ''Yes'' else if bom_completed = ''Yes'' then ''Yes'' else ''No'');
          wanted = (case requested of None \<Rightarrow> True | Some r \<Rightarrow> r)
      in \<lparr>dt_approval_status = ''Pending'',
          dt_assembly_required = (if \<not> matched \<and> item_type = ''Package'' then ''Yes'' else ''No''),
          dt_bom_completed = completed,
          dt_bom_required = (if matched then ''No'' else ''Yes''),
          dt_design_status =
            (if matched then ''Not Required''
             else if completed = ''Yes'' \<and> wanted then ''Design Complete''
             else if match_status = ''New Quoted Part''
             then if completed = ''Yes'' then ''Drawings Pending'' else ''In Progress''
             else ''Pending Design''),
          dt_portfolio_match = matched,
          dt_next_stage = (if matched then ''Product Costing Complete'' else existing_next_stage)\<rparr>)"

subsection \<open>Drawings and completion\<close>

datatype drawing_state = Missing | NotRequired | Uploaded

record drawing_status =
  dr_key :: string
  dr_label :: string
  dr_status :: drawing_state

record completion_line =
  cl_category :: "string option"
  cl_item_type :: "string option"
  cl_size :: "string option"
  cl_source :: string
  cl_subcategory :: "string option"
  cl_drawing :: "string option option"
  cl_existing_product :: "string option"
  cl_grade :: "string option"
  cl_number :: int
  cl_process :: "string option"
  cl_package_part :: "string option"
  cl_parent :: "int option"
  cl_weight :: "jsnum option"
  cl_production_type :: "string option"
  cl_process_required :: "string option"
  cl_quantity :: jsnum

record completion_input =
  ci_purposes :: "string list"
  ci_lines :: "completion_line list"
  ci_checked_by :: "string option"
  ci_bom_completed :: string
  ci_designer :: "string option"
  ci_fixture_cost :: jsnum
  ci_fixture_required :: string
  ci_gauges_required :: string
  ci_inspection_cost :: jsnum
  ci_part_category :: "string option"
  ci_part_size :: "string option"
  ci_part_subcategory :: "string option"
  ci_item_type :: string
  ci_root_drawing :: "string option option"
  ci_target_date :: "string option"
  ci_tooling_cost :: jsnum
  ci_tooling_required :: string

definition has_text :: "string option \<Rightarrow> bool" where
  "has_text v \<longleftrightarrow> (case v of None \<Rightarrow> False | Some s \<Rightarrow> trim s \<noteq> [])"

definition not_required :: "string option option \<Rightarrow> bool" where
  "not_required requirement \<longleftrightarrow> requirement = Some (Some ''Not Required'')"

definition drawing_row :: "string list \<Rightarrow> string \<Rightarrow> string \<Rightarrow> string option option \<Rightarrow> string \<Rightarrow> drawing_status" where
  "drawing_row purposes key label requirement purpose =
     \<lparr>dr_key = key, dr_label = label,
      dr_status = (if not_required requirement then NotRequired
                   else if purpose \<in> set purposes then Uploaded else Missing)\<rparr>"

definition line_drawing :: "string list \<Rightarrow> completion_line \<Rightarrow> drawing_status" where
  "line_drawing purposes l =
     drawing_row purposes (''bom-line-'' @ show_int (cl_number l)) (''BOM Line '' @ show_int (cl_number l))
       (if cl_source l = ''Existing'' then Some (Some ''Not Required'') else cl_drawing l)
       (''bom_line_'' @ show_int (cl_number l) @ ''_internal_drawing'')"

definition design_drawing_statuses :: "string list \<Rightarrow> completion_line list \<Rightarrow> string option option \<Rightarrow> drawing_status list" where
  "design_drawing_statuses purposes lines root_drawing =
     drawing_row purposes ''root'' ''Root Product'' root_drawing ''internal_drawing'' # map (line_drawing purposes) lines"

definition initial_design_workflow_step :: "drawing_status list \<Rightarrow> bool \<Rightarrow> string" where
  "initial_design_workflow_step drawings structured_complete =
     (if \<not> structured_complete then ''structured''
      else if \<exists>d \<in> set drawings. dr_status d = Missing then ''drawings'' else ''complete'')"

definition missing_if :: "bool \<Rightarrow> string \<Rightarrow> string list" where
  "missing_if b label = (if b then [label] else [])"

definition not_positive :: "jsnum \<Rightarrow> bool" where
  "not_positive x \<longleftrightarrow> num_le x (Fin 0)"

text \<open>What one line lacks, in the order of the checks.\<close>

definition line_missing_fields :: "string \<Rightarrow> completion_line list \<Rightarrow> completion_line \<Rightarrow> string list" where
  "line_missing_fields item_type lines l =
     (let lacks = (\<lambda>b label. missing_if b (''BOM Line '' @ show_int (cl_number l) @ label)) in
      lacks (not_positive (cl_quantity l)) '' Quantity''
      @ lacks (cl_parent l \<noteq> None \<and> cl_item_type l = Some ''Assembly'') '' Child must be a List''
      @ lacks (cl_source l \<noteq> ''Existing'' \<and> cl_item_type l = Some ''Assembly''
               \<and> \<not> (\<exists>c \<in> set lines. cl_parent c = Some (cl_number l))) '' Assembly requires at least 1 child BOM Line''
      @ (if cl_source l = ''Existing'' then lacks (\<not> has_text (cl_existing_product l)) '' Existing Product''
         else
           lacks (item_type = ''Package'' \<and> cl_item_type l \<noteq> Some ''List'' \<and> \<not> has_text (cl_package_part l)) '' New Component Name''
           @ (if item_type = ''Package''
              then lacks (\<not> has_text (cl_size l)) '' Product Size''
                @ lacks (\<not> has_text (cl_category l)) '' Component Category''
                @ lacks (\<not> has_text (cl_subcategory l)) '' Component Subcategory''
              else [])
           @ (if cl_item_type l = Some ''List'' \<or> item_type = ''List''
              then lacks (\<not> has_text (cl_grade l)) '' Grade''
                @ lacks (\<not> has_text (cl_production_type l)) '' Product Type''
                @ lacks (\<not> has_text (cl_process l)) '' Production Type''
                @ lacks (case cl_weight l of None \<Rightarrow> True | Some w \<Rightarrow> \<not> truthy w \<or> not_positive w) '' 1 Piece Weight ( gm )''
                @ lacks (\<not> has_text (cl_process_required l)) '' Pricing Process Columns Required''
              else [])))"

definition drawings_missing_fields :: "completion_input \<Rightarrow> string list" where
  "drawings_missing_fields input =
     (if ci_root_drawing input \<noteq> None \<or> (\<exists>l \<in> set (ci_lines input). cl_drawing l \<noteq> None)
      then concat (map (\<lambda>d. missing_if (dr_key d \<noteq> ''root'' \<and> dr_status d = Missing) (dr_label d @ '' Internal Drawing''))
        (design_drawing_statuses (ci_purposes input) (ci_lines input) (ci_root_drawing input)))
      else [])"

definition design_task_completion_missing_fields :: "completion_input \<Rightarrow> string list" where
  "design_task_completion_missing_fields input =
     concat (map (\<lambda>(label, v). missing_if (\<not> has_text v) label)
       [(''Designer'', ci_designer input), (''Target Completion'', ci_target_date input),
        (''Internal Part Size'', ci_part_size input), (''Internal Category'', ci_part_category input),
        (''Internal Subcategory'', ci_part_subcategory input), (''Checked By'', ci_checked_by input)])
     @ missing_if (ci_bom_completed input \<noteq> ''Yes'') ''BOM Complete''
     @ missing_if (ci_tooling_required input = ''Yes'' \<and> not_positive (ci_tooling_cost input)) ''Tooling Approximate Cost''
     @ missing_if (ci_fixture_required input = ''Yes'' \<and> not_positive (ci_fixture_cost input)) ''Fixture Approximate Cost''
     @ missing_if (ci_gauges_required input = ''Yes'' \<and> not_positive (ci_inspection_cost input)) ''Inspection Approximate Cost''
     @ missing_if (ci_lines input = []) ''BOM Line''
     @ missing_if (ci_item_type input = ''Package'' \<and> length (ci_lines input) < 2) ''Package requires at least 2 BOM Lines''
     @ concat (map (line_missing_fields (ci_item_type input) (ci_lines input)) (ci_lines input))
     @ missing_if (\<not> not_required (ci_root_drawing input) \<and> ''internal_drawing'' \<notin> set (ci_purposes input)) ''Internal Drawing''
     @ missing_if (\<not> not_required (ci_root_drawing input) \<and> ''cad'' \<notin> set (ci_purposes input)) ''CAD File''
     @ drawings_missing_fields input"

subsection \<open>Control of released designs\<close>

record process_definition =
  pd_aliases :: "string list"
  pd_field :: string
  pd_label :: string
  pd_storage :: string

definition process_definitions :: "process_definition list" where
  "process_definitions = [
     \<lparr>pd_aliases = [''machining'', ''m/c'', ''machine''], pd_field = ''machiningCost'', pd_label = ''Machining'', pd_storage = ''machining_cost''\<rparr>,
     \<lparr>pd_aliases = [''washing'', ''wash''], pd_field = ''washing'', pd_label = ''Washing'', pd_storage = ''washing''\<rparr>,
     \<lparr>pd_aliases = [''checking'', ''inspection'', ''quality checking''], pd_field = ''checking'', pd_label = ''Checking'', pd_storage = ''checking''\<rparr>,
     \<lparr>pd_aliases = [''marking'', ''mark''], pd_field = ''marking'', pd_label = ''Marking'', pd_storage = ''marking''\<rparr>,
     \<lparr>pd_aliases = [''plating'', ''plate''], pd_field = ''plating'', pd_label = ''Plating'', pd_storage = ''plating''\<rparr>,
     \<lparr>pd_aliases = [''annealing'', ''anneling''], pd_field = ''annealing'', pd_label = ''Annealing'', pd_storage = ''annealing''\<rparr>,
     \<lparr>pd_aliases = [''deburring'', ''debbring''], pd_field = ''deburring'', pd_label = ''Deburring'', pd_storage = ''deburring''\<rparr>,
     \<lparr>pd_aliases = [''buffing'', ''buff''], pd_field = ''buffing'', pd_label = ''Buffing'', pd_storage = ''buffing''\<rparr>,
     \<lparr>pd_aliases = [''sealant'', ''sealing''], pd_field = ''sealant'', pd_label = ''Sealant'', pd_storage = ''sealant''\<rparr>,
     \<lparr>pd_aliases = [''assembly'', ''package process'', ''package assembly''], pd_field = ''assemblyOperationCost'',
      pd_label = ''Package Assembly'', pd_storage = ''assembly_operation_cost''\<rparr>]"

definition design_process_price_fields :: "string list" where
  "design_process_price_fields = map pd_field process_definitions"

text \<open>\<open>replace(/\s+/g, " ")\<close>\<close>

fun collapse_spaces :: "bool \<Rightarrow> string \<Rightarrow> string" where
  "collapse_spaces in_run [] = []"
| "collapse_spaces in_run (c # cs) =
     (if \<not> is_space c then c # collapse_spaces False cs
      else if in_run then collapse_spaces True cs else CHR '' '' # collapse_spaces True cs)"

definition normalized_process :: "string \<Rightarrow> string" where
  "normalized_process value = collapse_spaces False (to_lower (trim value))"

definition process_names :: "process_definition \<Rightarrow> string list" where
  "process_names d = map normalized_process (pd_label d # pd_aliases d)"

definition canonical_process :: "string \<Rightarrow> string" where
  "canonical_process value =
     (case List.find (\<lambda>d. normalized_process value \<in> set (process_names d)) process_definitions of
        None \<Rightarrow> normalized_process value | Some d \<Rightarrow> normalized_process (pd_label d))"

definition design_process_selection :: "string list option \<Rightarrow> string list" where
  "design_process_selection required =
     remdups (sort (filter (\<lambda>p. p \<noteq> []) (map canonical_process (case required of None \<Rightarrow> [] | Some ps \<Rightarrow> ps))))"

definition processes_required_from_payload :: "jsrow option \<Rightarrow> string list" where
  "processes_required_from_payload payload =
     (case payload of None \<Rightarrow> [] | Some row \<Rightarrow>
        case get row ''processesRequired'' of
          Arr vs \<Rightarrow> List.map_filter (\<lambda>v. case v of Str s \<Rightarrow> Some s | _ \<Rightarrow> None) vs
        | _ \<Rightarrow> [])"

definition selected_process_allows_field :: "string list \<Rightarrow> process_definition \<Rightarrow> bool" where
  "selected_process_allows_field selected d \<longleftrightarrow> (\<exists>name \<in> set (process_names d). name \<in> set selected)"

type_synonym process_prices = "(string \<times> jsnum option) list"

definition price_of :: "process_prices \<Rightarrow> string \<Rightarrow> jsnum \<Rightarrow> jsnum" where
  "price_of prices field fallback = (case map_of prices field of Some (Some x) \<Rightarrow> x | _ \<Rightarrow> fallback)"

fun check_process_prices :: "process_prices \<Rightarrow> process_prices \<Rightarrow> string list \<Rightarrow> process_definition list \<Rightarrow> unit js_result" where
  "check_process_prices current after selected [] = return ()"
| "check_process_prices current after selected (d # ds) =
     (let now_price = price_of current (pd_field d) (Fin 0); next_price = price_of after (pd_field d) now_price
      in if \<not> num_eq next_price now_price \<and> \<not> selected_process_allows_field selected d
         then throw (pd_label d @ '' is not selected in the released Design BOM.'')
         else check_process_prices current after selected ds)"

definition assert_applicable_process_prices :: "process_prices \<Rightarrow> process_prices \<Rightarrow> string list \<Rightarrow> unit js_result" where
  "assert_applicable_process_prices current after selected =
     check_process_prices current after selected process_definitions"

definition process_field_is_applicable :: "string \<Rightarrow> string list \<Rightarrow> bool" where
  "process_field_is_applicable field selected =
     (case List.find (\<lambda>d. pd_field d = field \<or> pd_storage d = field) process_definitions of
        None \<Rightarrow> True | Some d \<Rightarrow> selected_process_allows_field selected d)"

definition drawing_revision_label :: "jsnum \<Rightarrow> string js_result" where
  "drawing_revision_label revision =
     (if \<not> is_integer revision \<or> num_lt revision (Fin 0)
      then throw ''Drawing revision must be a non-negative integer.''
      else return (pad_start 2 (CHR ''0'') (num_text revision)))"

definition drawing_revision_for_released_design :: "jsnum \<Rightarrow> (string \<times> jsnum) js_result" where
  "drawing_revision_for_released_design revision =
     bind_result (drawing_revision_label revision) (\<lambda>label. return (label, revision))"

definition cost_driver_keys :: "string list" where
  "cost_driver_keys = [''bom'', ''processesRequired'', ''weight100Pcs'', ''casting'', ''materialGradeId'', ''category'',
     ''subcategory'', ''productionType'', ''productType'', ''rodTypeId'', ''rodSize'']"

text \<open>\<open>Array.prototype.sort\<close> without a comparator: by the text of the elements, \<open>undefined\<close> last.\<close>

definition text_sorted :: "jsval list \<Rightarrow> jsval list" where
  "text_sorted vs = sort_key to_text (filter (\<lambda>v. v \<noteq> Undefined) vs) @ filter (\<lambda>v. v = Undefined) vs"

definition comparable :: "jsval \<Rightarrow> string" where
  "comparable value = (case value of
      Arr vs \<Rightarrow> to_json (Arr (text_sorted vs))
    | _ \<Rightarrow> to_json (or_default value Null))"

definition classify_design_cost_impact :: "jsrow \<Rightarrow> jsrow \<Rightarrow> bool \<times> string list" where
  "classify_design_cost_impact before after =
     (let drivers = filter (\<lambda>key. comparable (get before key) \<noteq> comparable (get after key)) cost_driver_keys
      in (drivers \<noteq> [], drivers))"

definition engineering_change_status_after_approval :: "bool \<Rightarrow> string" where
  "engineering_change_status_after_approval impacting = (if impacting then ''Pending Product Costing'' else ''Completed'')"

subsection \<open>Weights\<close>

text \<open>A bill of material is acyclic if the lines can be ranked with every assembly below the line it is
  part of. Then the list of ancestors never cuts a branch off and can be forgotten.\<close>

definition ranked_lines :: "(int \<Rightarrow> nat) \<Rightarrow> weight_line list \<Rightarrow> bool" where
  "ranked_lines rank lines \<longleftrightarrow> (\<forall>l \<in> set lines. wl_item_type l = Some ''Assembly'' \<longrightarrow>
     (case wl_parent l of None \<Rightarrow> True | Some p \<Rightarrow> rank (wl_number l) < rank p))"

lemma ranked_lineD:
  "ranked_lines rank lines \<Longrightarrow> l \<in> set lines \<Longrightarrow> wl_item_type l = Some ''Assembly'' \<Longrightarrow> wl_parent l = Some p
    \<Longrightarrow> rank (wl_number l) < rank p"
  unfolding ranked_lines_def by fastforce

definition line_weight :: "(int \<Rightarrow> jsnum) \<Rightarrow> weight_line \<Rightarrow> jsnum" where
  "line_weight assembly_weight l = num_mul (line_quantity l)
     (if wl_item_type l = Some ''Assembly'' then assembly_weight (wl_number l) else line_unit_weight l)"

lemma container_weight_cong:
  assumes "\<And>l. l \<in> set lines \<Longrightarrow> wl_parent l = parent \<Longrightarrow> wl_item_type l = Some ''Assembly'' \<Longrightarrow>
      wl_number l \<notin> set ancestors \<and>
      design_container_piece_weight lines (Some (wl_number l)) (wl_number l # ancestors) = w (wl_number l)"
  shows "design_container_piece_weight lines parent ancestors
    = foldl (\<lambda>total l. num_add total (line_weight w l)) (Fin 0) (filter (\<lambda>l. wl_parent l = parent) lines)"
  unfolding design_container_piece_weight.simps [of lines parent ancestors] line_weight_def
  by (rule foldl_cong [OF refl refl]) (use assms in auto)

lemma ancestors_irrelevant:
  assumes "ranked_lines rank lines" "\<And>a. a \<in> set ancestors \<Longrightarrow> rank n \<le> rank a"
  shows "design_container_piece_weight lines (Some n) ancestors = design_assembly_piece_weight lines n"
  using assms(2)
proof (induction "rank n" arbitrary: n ancestors rule: less_induct)
  case less
  have step: "wl_number l \<notin> set anc \<and>
      design_container_piece_weight lines (Some (wl_number l)) (wl_number l # anc)
        = design_assembly_piece_weight lines (wl_number l)"
    if l: "l \<in> set lines" "wl_parent l = Some n" "wl_item_type l = Some ''Assembly''"
      and anc: "\<And>a. a \<in> set anc \<Longrightarrow> rank n \<le> rank a" for l anc
  proof -
    have below: "rank (wl_number l) < rank n" by (rule ranked_lineD [OF assms(1) l(1,3,2)])
    then have "wl_number l \<notin> set anc" using anc by fastforce
    moreover have "design_container_piece_weight lines (Some (wl_number l)) (wl_number l # anc)
        = design_assembly_piece_weight lines (wl_number l)"
      by (rule less.hyps [OF below]) (use anc below in fastforce)
    ultimately show ?thesis by blast
  qed
  have "design_container_piece_weight lines (Some n) ancestors = foldl (\<lambda>total l. num_add total
      (line_weight (design_assembly_piece_weight lines) l)) (Fin 0) (filter (\<lambda>l. wl_parent l = Some n) lines)"
    by (rule container_weight_cong, rule step) (simp_all add: less.prems)
  moreover have "design_container_piece_weight lines (Some n) [n] = foldl (\<lambda>total l. num_add total
      (line_weight (design_assembly_piece_weight lines) l)) (Fin 0) (filter (\<lambda>l. wl_parent l = Some n) lines)"
    by (rule container_weight_cong, rule step) simp_all
  ultimately show ?case by (simp add: design_assembly_piece_weight_def)
qed

text \<open>A line of a cycle is cut off: an assembly that contains only itself weighs nothing.\<close>

lemma self_containing_assembly:
  "design_assembly_piece_weight [\<lparr>wl_item_type = Some ''Assembly'', wl_number = 1, wl_parent = Some 1,
     wl_weight = Some (Fin 5), wl_quantity = Fin 2\<rparr>] 1 = Fin 0"
  by (simp add: design_assembly_piece_weight_def design_container_piece_weight.simps)

text \<open>C35: In an acyclic bill of material the weight of an assembly is the sum over its lines of quantity times
  the unit weight, where the unit weight of a line that is an assembly is again its piece weight; the
  package is the same sum over the lines without a parent. Every sum is rounded to binary64 in the order
  of the lines.\<close>

theorem assembly_weight_unfolds:
  assumes "ranked_lines rank lines"
  shows "design_assembly_piece_weight lines n = foldl (\<lambda>total l. num_add total
      (line_weight (design_assembly_piece_weight lines) l)) (Fin 0) (filter (\<lambda>l. wl_parent l = Some n) lines)
    \<and> design_package_piece_weight lines = foldl (\<lambda>total l. num_add total
      (line_weight (design_assembly_piece_weight lines) l)) (Fin 0) (filter (\<lambda>l. wl_parent l = None) lines)"
proof (intro conjI)
  show "design_assembly_piece_weight lines n = foldl (\<lambda>total l. num_add total
      (line_weight (design_assembly_piece_weight lines) l)) (Fin 0) (filter (\<lambda>l. wl_parent l = Some n) lines)"
    unfolding design_assembly_piece_weight_def [of lines n]
  proof (rule container_weight_cong)
    fix l assume l: "l \<in> set lines" "wl_parent l = Some n" "wl_item_type l = Some ''Assembly''"
    have below: "rank (wl_number l) < rank n" by (rule ranked_lineD [OF assms l(1,3,2)])
    then show "wl_number l \<notin> set [n] \<and> design_container_piece_weight lines (Some (wl_number l)) [wl_number l, n]
        = design_assembly_piece_weight lines (wl_number l)"
    proof -
      have "rank (wl_number l) \<le> rank a" if "a \<in> set [wl_number l, n]" for a using below that by auto
      then show ?thesis using below ancestors_irrelevant [OF assms, of "[wl_number l, n]" "wl_number l"] by auto
    qed
  qed
  show "design_package_piece_weight lines = foldl (\<lambda>total l. num_add total
      (line_weight (design_assembly_piece_weight lines) l)) (Fin 0) (filter (\<lambda>l. wl_parent l = None) lines)"
    unfolding design_package_piece_weight_def
    by (rule container_weight_cong) (simp add: design_assembly_piece_weight_def)
qed

definition sample_lines :: "weight_line list" where
  "sample_lines = [
     \<lparr>wl_item_type = Some ''Assembly'', wl_number = 1, wl_parent = None, wl_weight = None, wl_quantity = Fin 2\<rparr>,
     \<lparr>wl_item_type = Some ''List'', wl_number = 2, wl_parent = Some 1, wl_weight = Some (Fin 10), wl_quantity = Fin 3\<rparr>,
     \<lparr>wl_item_type = Some ''List'', wl_number = 3, wl_parent = None, wl_weight = Some (Fin 5), wl_quantity = Fin 1\<rparr>]"

theorem assembly_weight_unfolds_witness:
  "ranked_lines (\<lambda>n. 1) sample_lines
   \<and> design_assembly_piece_weight sample_lines 1 = foldl (\<lambda>total l. num_add total
      (line_weight (design_assembly_piece_weight sample_lines) l)) (Fin 0) (filter (\<lambda>l. wl_parent l = Some 1) sample_lines)"
proof -
  have "ranked_lines (\<lambda>n. 1) sample_lines" by (simp add: ranked_lines_def sample_lines_def)
  then show ?thesis using assembly_weight_unfolds [of "\<lambda>n. 1" sample_lines 1] by blast
qed

subsection \<open>Completion\<close>

lemma missing_if_Nil [simp]: "missing_if b label = [] \<longleftrightarrow> \<not> b"
  by (simp add: missing_if_def)

lemma line_key_not_root: "dr_key (line_drawing purposes l) \<noteq> ''root''"
  by (simp add: line_drawing_def drawing_row_def)

text \<open>A task with nothing missing for its completion shows no missing drawing if its drawing requirements
  are recorded, so its workflow is complete once its structure is.\<close>

theorem completed_task_has_its_drawings:
  assumes "design_task_completion_missing_fields input = []"
    and "ci_root_drawing input \<noteq> None \<or> (\<exists>l \<in> set (ci_lines input). cl_drawing l \<noteq> None)"
  shows "initial_design_workflow_step (design_drawing_statuses (ci_purposes input) (ci_lines input) (ci_root_drawing input)) True
    = ''complete''"
proof -
  have drawings: "drawings_missing_fields input = []"
    and root: "not_required (ci_root_drawing input) \<or> ''internal_drawing'' \<in> set (ci_purposes input)"
    using assms(1) unfolding design_task_completion_missing_fields_def by auto
  have "dr_status (line_drawing (ci_purposes input) l) \<noteq> Missing" if "l \<in> set (ci_lines input)" for l
    using drawings that assms(2) line_key_not_root unfolding drawings_missing_fields_def design_drawing_statuses_def by auto
  then show ?thesis using root
    unfolding initial_design_workflow_step_def design_drawing_statuses_def by (auto simp: drawing_row_def)
qed

definition sample_completion :: completion_input where
  "sample_completion = \<lparr>ci_purposes = [''internal_drawing'', ''cad'', ''bom_line_1_internal_drawing''],
     ci_lines = [\<lparr>cl_category = None, cl_item_type = Some ''List'', cl_size = None, cl_source = ''New'', cl_subcategory = None,
       cl_drawing = Some (Some ''Required''), cl_existing_product = None, cl_grade = Some ''EN8'', cl_number = 1,
       cl_process = Some ''CNC'', cl_package_part = None, cl_parent = None, cl_weight = Some (Fin 12),
       cl_production_type = Some ''Forged'', cl_process_required = Some ''Washing'', cl_quantity = Fin 1\<rparr>],
     ci_checked_by = Some ''C'', ci_bom_completed = ''Yes'', ci_designer = Some ''D'', ci_fixture_cost = Fin 0,
     ci_fixture_required = ''No'', ci_gauges_required = ''No'', ci_inspection_cost = Fin 0, ci_part_category = Some ''K'',
     ci_part_size = Some ''1'', ci_part_subcategory = Some ''S'', ci_item_type = ''List'', ci_root_drawing = Some (Some ''Required''),
     ci_target_date = Some ''2025-01-01'', ci_tooling_cost = Fin 0, ci_tooling_required = ''No''\<rparr>"

theorem completed_task_has_its_drawings_witness:
  "initial_design_workflow_step (design_drawing_statuses (ci_purposes sample_completion) (ci_lines sample_completion)
     (ci_root_drawing sample_completion)) True = ''complete''"
proof -
  have "design_task_completion_missing_fields sample_completion = []" by code_simp
  moreover have "ci_root_drawing sample_completion \<noteq> None" by (simp add: sample_completion_def)
  ultimately show ?thesis using completed_task_has_its_drawings by blast
qed

subsection \<open>States\<close>

text \<open>Starting a task twice is starting it once, and only an open task can be started.\<close>

lemma start_idempotent: "design_task_status_after_start s = Inr t \<Longrightarrow> design_task_status_after_start t = Inr t"
  unfolding design_task_status_after_start_def by (auto split: if_splits)

lemma start_keeps_open:
  "design_task_status_after_start s = Inr t \<Longrightarrow> design_task_is_open s \<and> design_task_is_open t"
  unfolding design_task_status_after_start_def design_task_is_open_def by (auto split: if_splits)

lemma derived_status_known:
  "dt_design_status (derive_design_task_state requested bom next_stage item match) \<in> set design_statuses"
  by (simp add: derive_design_task_state_def Let_def design_statuses_def)

text \<open>A derived task that is closed has its bill of material completed, or needs none.\<close>

lemma derived_closed:
  "\<not> design_task_is_open (dt_design_status (derive_design_task_state requested bom next_stage item match))
     \<Longrightarrow> dt_bom_completed (derive_design_task_state requested bom next_stage item match) = ''Yes''"
  by (auto simp: derive_design_task_state_def Let_def design_task_is_open_def split: if_splits)

subsection \<open>Processes\<close>

text \<open>The normalized names of different processes are different, so a name selects at most one process.\<close>

lemma process_names_disjoint: "distinct (concat (map (remdups \<circ> process_names) process_definitions))"
  by code_simp

lemma selection_ignores_order:
  "set ps = set qs \<Longrightarrow> design_process_selection (Some ps) = design_process_selection (Some qs)"
proof -
  assume "set ps = set qs"
  then have "set (filter (\<lambda>p. p \<noteq> []) (map canonical_process ps)) = set (filter (\<lambda>p. p \<noteq> []) (map canonical_process qs))"
    by simp
  then show ?thesis unfolding design_process_selection_def option.case
    by (intro sorted_distinct_set_unique) (simp_all add: sorted_remdups)
qed

text \<open>Prices are accepted exactly if every changed one belongs to a selected process.\<close>

lemma process_prices_accepted_iff:
  "assert_applicable_process_prices current after selected = Inr () \<longleftrightarrow>
    (\<forall>d \<in> set process_definitions.
       \<not> num_eq (price_of after (pd_field d) (price_of current (pd_field d) (Fin 0))) (price_of current (pd_field d) (Fin 0))
       \<longrightarrow> selected_process_allows_field selected d)"
proof -
  have "check_process_prices current after selected ds = Inr () \<longleftrightarrow>
    (\<forall>d \<in> set ds.
       \<not> num_eq (price_of after (pd_field d) (price_of current (pd_field d) (Fin 0))) (price_of current (pd_field d) (Fin 0))
       \<longrightarrow> selected_process_allows_field selected d)" for ds
    by (induction ds) (auto simp: Let_def)
  then show ?thesis by (simp add: assert_applicable_process_prices_def)
qed

text \<open>An unchanged design is not cost impacting.\<close>

lemma unchanged_design_not_impacting: "classify_design_cost_impact row row = (False, [])"
  by (simp add: classify_design_cost_impact_def)

end
