(* ===== verification/Quality_Report.thy ===== *)
theory Quality_Report
  imports JS_Number JS_Date
begin

text \<open>
  The quality report: \<open>packages/db/src/quality-report-domain.ts\<close>. An hourly check is owed for each
  complete hour a machine actually ran on a day of the plant; the report gathers pieces, setting
  approvals with their waiting times, requests that are pending and checks owed and done per day, shift,
  machine and inspector, and the defects.

  A timestamp is the instant its ISO text denotes, in milliseconds; a date is the number of its day, so
  that the comparisons of ISO dates are comparisons of days, and a time of the day its minute.
\<close>

subsection \<open>Source rows\<close>

record quality_production =
  qp_date :: int
  qp_shift :: string
  qp_machine :: string
  qp_good :: jsnum
  qp_rejected :: jsnum

record quality_request =
  qr_requested :: instant
  qr_approved :: "instant option"
  qr_closed :: "instant option"
  qr_inspector :: "string option"
  qr_shift :: string

record quality_run =
  qn_machine :: string
  qn_work_order :: string
  qn_setup :: string
  qn_shift :: string
  qn_start :: instant
  qn_end :: instant
  qn_downtime :: "(instant \<times> instant) list"
  qn_breaks :: "(int \<times> int) list"

record quality_check =
  qc_machine :: string
  qc_work_order :: string
  qc_setup :: string
  qc_date :: int
  qc_minute :: int

record quality_defect =
  qd_date :: int
  qd_shift :: string
  qd_defect :: string
  qd_pieces :: jsnum

record quality_source =
  qs_production :: "quality_production list"
  qs_requests :: "quality_request list"
  qs_runs :: "quality_run list"
  qs_checks :: "quality_check list"
  qs_defects :: "quality_defect list"
  qs_inspectors :: "string list"

subsection \<open>Running time\<close>

text \<open>\<open>qualityDate\<close> is \<open>ist_day\<close>: the UTC date of the instant moved by the offset of the plant.\<close>

fun break_days :: "(int \<times> int) list \<Rightarrow> int \<Rightarrow> nat \<Rightarrow> (instant \<times> instant) list" where
  "break_days breaks day 0 = []"
| "break_days breaks day (Suc n) =
     map (\<lambda>(a, b). (ist_instant day a, ist_instant day b)) breaks @ break_days breaks (day + 1) n"

text \<open>The days from the day of the start whose midnight is before the end.\<close>

definition run_days :: "quality_run \<Rightarrow> nat" where
  "run_days run = nat (ist_day (qn_end run - 1) - ist_day (qn_start run) + 1)"

definition run_pauses :: "quality_run \<Rightarrow> (instant \<times> instant) list" where
  "run_pauses run = sort_key fst (qn_downtime run @ break_days (qn_breaks run) (ist_day (qn_start run)) (run_days run))"

text \<open>The stretches between the pauses from \<open>cursor\<close> to \<open>stop\<close>; \<open>add\<close> cuts them at the midnights.\<close>

fun cut_pauses :: "instant \<Rightarrow> instant \<Rightarrow> (instant \<times> instant) list \<Rightarrow> (instant \<times> instant) list" where
  "cut_pauses cursor stop [] = [(cursor, stop)]"
| "cut_pauses cursor stop ((a, b) # pauses) =
     (if b \<le> cursor \<or> stop \<le> a then cut_pauses cursor stop pauses
      else (cursor, min a stop) # cut_pauses (max cursor b) stop pauses)"

record segment =
  sg_start :: instant
  sg_end :: instant
  sg_run :: quality_run

type_synonym segment_map = "((string \<times> int) \<times> segment list) list"

definition push_segment :: "segment \<Rightarrow> segment_map \<Rightarrow> segment_map" where
  "push_segment s m = (let key = (qn_machine (sg_run s), ist_day (sg_start s)) in
     put key ((case map_of m key of None \<Rightarrow> [] | Some list \<Rightarrow> list) @ [s]) m)"

function add_segment :: "quality_run \<Rightarrow> instant \<Rightarrow> instant \<Rightarrow> segment_map \<Rightarrow> segment_map" where
  "add_segment run a b m =
     (if a < b then
        let limit = min b (ist_instant (ist_day a + 1) 0)
        in add_segment run limit b (push_segment \<lparr>sg_start = a, sg_end = limit, sg_run = run\<rparr> m)
      else m)"
  by pat_completeness auto
termination
proof (relation "measure (\<lambda>(run, a, b, m). nat (b - a))")
  fix run :: quality_run and a b limit :: instant and m :: segment_map
  assume a: "a < b" "limit = min b (ist_instant (ist_day a + 1) 0)"
  have "a < ist_instant (ist_day a + 1) 0"
    using ist_instant_le [of 0 "ist_day a + 1" a] by simp
  then show "((run, limit, b, push_segment \<lparr>sg_start = a, sg_end = limit, sg_run = run\<rparr> m), run, a, b, m)
      \<in> measure (\<lambda>(run, a, b, m). nat (b - a))"
    using a by auto
qed simp

declare add_segment.simps [simp del]

definition run_segments :: "instant \<Rightarrow> instant \<Rightarrow> quality_run \<Rightarrow> segment_map \<Rightarrow> segment_map" where
  "run_segments from until run m =
     fold (\<lambda>(a, b). add_segment run a b)
       (cut_pauses (max from (qn_start run)) (min until (qn_end run)) (run_pauses run)) m"

definition quality_segments :: "quality_run list \<Rightarrow> int \<Rightarrow> int \<Rightarrow> segment_map" where
  "quality_segments runs from until =
     fold (run_segments (ist_instant from 0) (ist_instant until 0 + day_ms)) runs []"

subsection \<open>Hours and checks\<close>

type_synonym check_key = "string \<times> int \<times> int"

definition check_key :: "quality_check \<Rightarrow> check_key" where
  "check_key c = (qc_machine c, qc_date c, qc_minute c)"

definition check_at :: "quality_check \<Rightarrow> instant" where
  "check_at c = ist_instant (qc_date c) (qc_minute c)"

definition check_serves :: "quality_check \<Rightarrow> segment \<Rightarrow> bool" where
  "check_serves c part \<longleftrightarrow> qc_machine c = qn_machine (sg_run part) \<and> qc_work_order c = qn_work_order (sg_run part)
     \<and> qc_setup c = qn_setup (sg_run part) \<and> check_at c < sg_end part \<and> sg_start part < check_at c + hour_ms"

definition find_check :: "quality_check list \<Rightarrow> check_key list \<Rightarrow> segment list \<Rightarrow> quality_check option" where
  "find_check available used window =
     List.find (\<lambda>c. check_key c \<notin> set used \<and> (\<exists>part \<in> set window. check_serves c part)) available"

record coverage_slot =
  cs_date :: int
  cs_shift :: string
  cs_completed :: bool

record coverage_state =
  cv_remaining :: int
  cv_window :: "segment list"
  cv_used :: "check_key list"
  cv_result :: "coverage_slot list"

definition or_unspecified :: "string \<Rightarrow> string" where
  "or_unspecified s = (if s = [] then ''Unspecified'' else s)"

definition finish_hour :: "quality_check list \<Rightarrow> quality_run \<Rightarrow> instant \<Rightarrow> coverage_state \<Rightarrow> coverage_state" where
  "finish_hour available run stop st =
     (let found = find_check available (cv_used st) (cv_window st)
      in \<lparr>cv_remaining = hour_ms, cv_window = [],
          cv_used = (case found of None \<Rightarrow> cv_used st | Some c \<Rightarrow> check_key c # cv_used st),
          cv_result = cv_result st @ [\<lparr>cs_date = ist_day (stop - 1), cs_shift = or_unspecified (qn_shift run),
                                       cs_completed = (found \<noteq> None)\<rparr>]\<rparr>)"

text \<open>The loop over a segment. What remains of the hour is positive whenever the loop is entered
  (\<open>walked\<close> below), so that the second conjunct of the condition only serves termination.\<close>

function walk_segment :: "quality_check list \<Rightarrow> segment \<Rightarrow> instant \<Rightarrow> coverage_state \<Rightarrow> coverage_state" where
  "walk_segment available s cursor st =
     (if cursor < sg_end s \<and> 0 < cv_remaining st then
        let stop = min (sg_end s) (cursor + cv_remaining st);
            part = s\<lparr>sg_start := cursor, sg_end := stop\<rparr>;
            st' = st\<lparr>cv_window := cv_window st @ [part], cv_remaining := cv_remaining st - (stop - cursor)\<rparr>
        in walk_segment available s stop
             (if 0 < cv_remaining st' then st' else finish_hour available (sg_run s) stop st')
      else st)"
  by pat_completeness auto
termination
  by (relation "measure (\<lambda>(available, s, cursor, st). nat (sg_end s - cursor))") auto

declare walk_segment.simps [simp del]

fun walk_segments :: "quality_check list \<Rightarrow> segment list \<Rightarrow> instant \<Rightarrow> coverage_state \<Rightarrow> coverage_state" where
  "walk_segments available [] prior st = st"
| "walk_segments available (s # ss) prior st =
     (let cursor = max (sg_start s) prior in
      walk_segments available ss (max prior (sg_end s))
        (walk_segment available s cursor st))"

definition cover_machine_day :: "quality_check list \<Rightarrow> segment list \<Rightarrow> coverage_state \<Rightarrow> coverage_state" where
  "cover_machine_day available segments st =
     walk_segments available (sort_key sg_start segments) 0 (st\<lparr>cv_remaining := hour_ms, cv_window := []\<rparr>)"

definition quality_hourly_coverage ::
    "quality_run list \<Rightarrow> quality_check list \<Rightarrow> int \<Rightarrow> int \<Rightarrow> coverage_slot list" where
  "quality_hourly_coverage runs checks from until =
     (let available = sort_key check_at checks
      in cv_result (fold (\<lambda>(key, segments). cover_machine_day available segments) (quality_segments runs from until)
           \<lparr>cv_remaining = hour_ms, cv_window = [], cv_used = [], cv_result = []\<rparr>))"

subsection \<open>The report\<close>

record quality_bucket =
  bu_good :: jsnum
  bu_rejected :: jsnum
  bu_approved :: nat
  bu_pending :: nat
  bu_minutes :: jsnum
  bu_timed :: nat
  bu_expected :: nat
  bu_completed :: nat

definition empty_bucket :: quality_bucket where
  "empty_bucket = \<lparr>bu_good = Fin 0, bu_rejected = Fin 0, bu_approved = 0, bu_pending = 0, bu_minutes = Fin 0,
     bu_timed = 0, bu_expected = 0, bu_completed = 0\<rparr>"

text \<open>\<open>get(map, key)\<close> followed by an update of the bucket.\<close>

definition in_bucket :: "'k \<Rightarrow> (quality_bucket \<Rightarrow> quality_bucket) \<Rightarrow> ('k \<times> quality_bucket) list \<Rightarrow> ('k \<times> quality_bucket) list" where
  "in_bucket key f m = put key (f (case map_of m key of None \<Rightarrow> empty_bucket | Some b \<Rightarrow> b)) m"

record quality_report =
  qt_daily :: "(int \<times> quality_bucket) list"
  qt_shifts :: "(string \<times> quality_bucket) list"
  qt_machines :: "(string \<times> quality_bucket) list"
  qt_inspectors :: "(string \<times> quality_bucket) list"
  qt_pending_before :: nat
  qt_pending_now :: nat

definition count_pieces :: "quality_production \<Rightarrow> quality_bucket \<Rightarrow> quality_bucket" where
  "count_pieces row b = b\<lparr>bu_good := num_add (bu_good b) (qp_good row), bu_rejected := num_add (bu_rejected b) (qp_rejected row)\<rparr>"

definition add_production :: "int \<Rightarrow> int \<Rightarrow> quality_production \<Rightarrow> quality_report \<Rightarrow> quality_report" where
  "add_production from until row r =
     (if \<not> (from \<le> qp_date row \<and> qp_date row \<le> until) then r
      else r\<lparr>qt_daily := in_bucket (qp_date row) (count_pieces row) (qt_daily r),
             qt_shifts := in_bucket (or_unspecified (qp_shift row)) (count_pieces row) (qt_shifts r),
             qt_machines := in_bucket (or_unspecified (qp_machine row)) (count_pieces row) (qt_machines r)\<rparr>)"

text \<open>The last millisecond of a day in the plant.\<close>

definition end_of_day :: "int \<Rightarrow> instant" where
  "end_of_day d = ist_instant (d + 1) 0 - 1"

text \<open>\<open>None\<close> is \<open>Infinity\<close>: the request was neither approved nor closed.\<close>

definition resolved_at :: "quality_request \<Rightarrow> instant option" where
  "resolved_at q = (case (qr_approved q, qr_closed q) of
      (None, c) \<Rightarrow> c | (Some a, None) \<Rightarrow> Some a | (Some a, Some c) \<Rightarrow> Some (min a c))"

definition unresolved_at :: "instant \<Rightarrow> quality_request \<Rightarrow> bool" where
  "unresolved_at t q \<longleftrightarrow> (case resolved_at q of None \<Rightarrow> True | Some r \<Rightarrow> t < r)"

definition pending_at :: "instant \<Rightarrow> quality_request \<Rightarrow> bool" where
  "pending_at t q \<longleftrightarrow> qr_requested q \<le> t \<and> unresolved_at t q"

definition count_pending :: "quality_bucket \<Rightarrow> quality_bucket" where
  "count_pending b = b\<lparr>bu_pending := bu_pending b + 1\<rparr>"

definition count_approval :: "jsnum \<Rightarrow> quality_bucket \<Rightarrow> quality_bucket" where
  "count_approval elapsed b = b\<lparr>bu_approved := bu_approved b + 1, bu_minutes := num_add (bu_minutes b) elapsed,
     bu_timed := bu_timed b + 1\<rparr>"

definition add_request :: "int \<Rightarrow> int \<Rightarrow> instant \<Rightarrow> int list \<Rightarrow> quality_request \<Rightarrow> quality_report \<Rightarrow> quality_report" where
  "add_request from until now cutoff_days q r =
     (let cutoff = min now (end_of_day until);
          pending = pending_at cutoff q;
          r1 = r\<lparr>qt_pending_before := qt_pending_before r +
                   (if ist_day (qr_requested q) < from \<and> (case resolved_at q of None \<Rightarrow> True | Some t \<Rightarrow> ist_instant from 0 \<le> t)
                    then 1 else 0),
                 qt_pending_now := qt_pending_now r + (if pending then 1 else 0),
                 qt_shifts := (if pending then in_bucket (or_unspecified (qr_shift q)) count_pending (qt_shifts r) else qt_shifts r),
                 qt_daily := map (\<lambda>(d, b). (d, if d \<in> set cutoff_days \<and> pending_at (min now (end_of_day d)) q
                                              then count_pending b else b)) (qt_daily r)\<rparr>
      in case qr_approved q of
           None \<Rightarrow> r1
         | Some approved \<Rightarrow>
             if \<not> approved \<le> cutoff \<or> \<not> (from \<le> ist_day approved \<and> ist_day approved \<le> until) \<or> approved < qr_requested q then r1
             else let count = count_approval (num_div (num_int (approved - qr_requested q)) (Fin 60000)) in
               r1\<lparr>qt_inspectors := in_bucket (or_unspecified (case qr_inspector q of None \<Rightarrow> [] | Some i \<Rightarrow> i)) count (qt_inspectors r1),
                  qt_daily := in_bucket (ist_day approved) count (qt_daily r1),
                  qt_shifts := in_bucket (or_unspecified (qr_shift q)) count (qt_shifts r1)\<rparr>)"

definition count_slot :: "coverage_slot \<Rightarrow> quality_bucket \<Rightarrow> quality_bucket" where
  "count_slot s b = b\<lparr>bu_expected := bu_expected b + 1, bu_completed := bu_completed b + (if cs_completed s then 1 else 0)\<rparr>"

definition add_slot :: "coverage_slot \<Rightarrow> quality_report \<Rightarrow> quality_report" where
  "add_slot s r = r\<lparr>qt_daily := in_bucket (cs_date s) (count_slot s) (qt_daily r),
     qt_shifts := in_bucket (cs_shift s) (count_slot s) (qt_shifts r)\<rparr>"

text \<open>The inspectors named in the source come first, each with an empty bucket.\<close>

definition initial_report :: "quality_source \<Rightarrow> int \<Rightarrow> int \<Rightarrow> quality_report" where
  "initial_report source from until =
     \<lparr>qt_daily = map (\<lambda>d. (d, empty_bucket)) [from..until], qt_shifts = [], qt_machines = [],
      qt_inspectors = fold (\<lambda>name. put name empty_bucket) (qs_inspectors source) [],
      qt_pending_before = 0, qt_pending_now = 0\<rparr>"

definition build_quality_counts :: "quality_source \<Rightarrow> int \<Rightarrow> int \<Rightarrow> instant \<Rightarrow> quality_report" where
  "build_quality_counts source from until now =
     (let produced = fold (add_production from until) (qs_production source) (initial_report source from until);
          cutoff_days = filter (\<lambda>d. d \<le> ist_day now) (map fst (qt_daily produced));
          requested = fold (add_request from until now cutoff_days) (qs_requests source) produced
      in fold add_slot (quality_hourly_coverage (qs_runs source) (qs_checks source) from until) requested)"

definition defect_totals :: "quality_defect list \<Rightarrow> (string \<times> jsnum) list" where
  "defect_totals rows = fold (\<lambda>row m. let name = (if qd_defect row = [] then ''Unclassified'' else qd_defect row)
      in put name (num_add (case map_of m name of None \<Rightarrow> Fin 0 | Some x \<Rightarrow> x) (qd_pieces row)) m) rows []"

definition shift_defect_totals :: "quality_defect list \<Rightarrow> (string \<times> (string \<times> jsnum) list) list" where
  "shift_defect_totals rows = fold (\<lambda>row m.
      let name = (if qd_defect row = [] then ''Unclassified'' else qd_defect row);
          values = (case map_of m name of None \<Rightarrow> [] | Some vs \<Rightarrow> vs); shift = or_unspecified (qd_shift row)
      in put name (put shift (num_add (case map_of values shift of None \<Rightarrow> Fin 0 | Some x \<Rightarrow> x) (qd_pieces row)) values) m) rows []"

record quality_report_data =
  rd_daily :: "(int \<times> quality_bucket) list"
  rd_shifts :: "(string \<times> quality_bucket) list"
  rd_machines :: "(string \<times> quality_bucket) list"
  rd_inspectors :: "(string \<times> quality_bucket) list"
  rd_pending_before :: nat
  rd_pending_now :: nat
  rd_defects :: "(string \<times> jsnum) list"
  rd_shift_defects :: "(string \<times> (string \<times> jsnum) list) list"
  rd_approvals :: nat

text \<open>\<open>compare\<close> is \<open>localeCompare\<close> of the host.\<close>

definition build_quality_report ::
    "(string \<Rightarrow> string \<Rightarrow> int) \<Rightarrow> quality_source \<Rightarrow> int \<Rightarrow> int \<Rightarrow> instant \<Rightarrow> quality_report_data" where
  "build_quality_report compare source from until now =
     (let counts = build_quality_counts source from until now;
          defects = filter (\<lambda>row. from \<le> qd_date row \<and> qd_date row \<le> until) (qs_defects source)
      in \<lparr>rd_daily = qt_daily counts,
          rd_shifts = sort_by (\<lambda>a b. compare (fst a) (fst b)) (qt_shifts counts),
          rd_machines = qt_machines counts, rd_inspectors = qt_inspectors counts,
          rd_pending_before = qt_pending_before counts, rd_pending_now = qt_pending_now counts,
          rd_defects = sort_by (\<lambda>a b. if num_lt (snd a) (snd b) then 1 else if num_lt (snd b) (snd a) then - 1 else 0) (defect_totals defects),
          rd_shift_defects = shift_defect_totals defects,
          rd_approvals = sum_list (map (\<lambda>(name, b). bu_approved b) (qt_inspectors counts))\<rparr>)"

subsection \<open>Running time as sets of instants\<close>

definition span :: "instant \<times> instant \<Rightarrow> instant set" where
  "span p = {fst p..<snd p}"

lemma span_mem [simp]: "t \<in> span (a, b) \<longleftrightarrow> a \<le> t \<and> t < b"
  by (simp add: span_def)

lemma cut_pauses_span:
  assumes "sorted_wrt (\<lambda>p q. fst p \<le> fst q) pauses"
  shows "(\<exists>p \<in> set (cut_pauses cursor stop pauses). t \<in> span p)
    \<longleftrightarrow> cursor \<le> t \<and> t < stop \<and> \<not> (\<exists>p \<in> set pauses. t \<in> span p)"
  using assms
proof (induction pauses arbitrary: cursor)
  case (Cons p pauses)
  obtain a b where p: "p = (a, b)" by force
  have later: "a \<le> fst q" if "q \<in> set pauses" for q using Cons.prems that p by simp
  have IH: "(\<exists>q \<in> set (cut_pauses c stop pauses). t \<in> span q)
      \<longleftrightarrow> c \<le> t \<and> t < stop \<and> \<not> (\<exists>q \<in> set pauses. t \<in> span q)" for c
    using Cons.IH Cons.prems by simp
  have early: "\<not> (\<exists>q \<in> set pauses. t \<in> span q)" if "t < a" using later that by (fastforce simp: span_def)
  show ?case
  proof (cases "b \<le> cursor \<or> stop \<le> a")
    case True
    then have "(\<exists>q \<in> set (cut_pauses cursor stop (p # pauses)). t \<in> span q)
        \<longleftrightarrow> cursor \<le> t \<and> t < stop \<and> \<not> (\<exists>q \<in> set pauses. t \<in> span q)" by (simp add: p IH)
    also have "\<dots> \<longleftrightarrow> cursor \<le> t \<and> t < stop \<and> \<not> (\<exists>q \<in> set (p # pauses). t \<in> span q)"
      using True by (auto simp: p)
    finally show ?thesis .
  next
    case False
    then have "(\<exists>q \<in> set (cut_pauses cursor stop (p # pauses)). t \<in> span q)
        \<longleftrightarrow> (cursor \<le> t \<and> t < min a stop) \<or> (max cursor b \<le> t \<and> t < stop \<and> \<not> (\<exists>q \<in> set pauses. t \<in> span q))"
      by (simp add: p IH)
    also have "\<dots> \<longleftrightarrow> cursor \<le> t \<and> t < stop \<and> \<not> (\<exists>q \<in> set (p # pauses). t \<in> span q)"
      using early by (cases "t < a") (auto simp: p)
    finally show ?thesis .
  qed
qed simp

lemma sorted_pauses: "sorted_wrt (\<lambda>p q. fst p \<le> fst q) (run_pauses run)"
  unfolding run_pauses_def by (metis sorted_map sorted_sort_key)

subsection \<open>Segments per machine and day\<close>

definition segments_at :: "segment_map \<Rightarrow> string \<times> int \<Rightarrow> segment list" where
  "segments_at m key = (case map_of m key of None \<Rightarrow> [] | Some ss \<Rightarrow> ss)"

definition covered :: "segment list \<Rightarrow> instant set" where
  "covered ss = (\<Union>s \<in> set ss. {sg_start s..<sg_end s})"

definition segment_ok :: "string \<times> int \<Rightarrow> segment \<Rightarrow> bool" where
  "segment_ok key s \<longleftrightarrow> qn_machine (sg_run s) = fst key \<and> (\<forall>t \<in> {sg_start s..<sg_end s}. ist_day t = snd key)"

definition segments_ok :: "segment_map \<Rightarrow> bool" where
  "segments_ok m \<longleftrightarrow> distinct (map fst m) \<and> (\<forall>(key, ss) \<in> set m. \<forall>s \<in> set ss. segment_ok key s)"

lemma covered_simps [simp]: "covered [] = {}" "covered (ss @ [s]) = covered ss \<union> {sg_start s..<sg_end s}"
  by (auto simp: covered_def)

lemma segments_at_push:
  "segments_at (push_segment s m) key =
    (if key = (qn_machine (sg_run s), ist_day (sg_start s)) then segments_at m key @ [s] else segments_at m key)"
  by (simp add: segments_at_def push_segment_def Let_def map_of_put)

lemma segments_ok_push:
  assumes "segments_ok m" "segment_ok (qn_machine (sg_run s), ist_day (sg_start s)) s"
  shows "segments_ok (push_segment s m)"
proof -
  let ?key = "(qn_machine (sg_run s), ist_day (sg_start s))"
  let ?new = "(case map_of m ?key of None \<Rightarrow> [] | Some list \<Rightarrow> list) @ [s]"
  have old: "segment_ok ?key x" if x: "x \<in> set (case map_of m ?key of None \<Rightarrow> [] | Some list \<Rightarrow> list)" for x
  proof -
    obtain list where list: "map_of m ?key = Some list" "x \<in> set list"
      using x by (cases "map_of m ?key") simp_all
    then have "(?key, list) \<in> set m" using map_of_SomeD by metis
    then show ?thesis using assms(1) list(2) unfolding segments_ok_def by fast
  qed
  have "distinct (map fst (put ?key ?new m))" using assms(1) by (simp add: segments_ok_def distinct_put)
  moreover have "segment_ok key x" if "(key, ss) \<in> set (put ?key ?new m)" "x \<in> set ss" for key ss x
  proof -
    have "(key, ss) = (?key, ?new) \<or> (key, ss) \<in> set m" using that(1) set_put_subset [of ?key ?new m] by blast
    then show ?thesis
    proof
      assume "(key, ss) = (?key, ?new)"
      then show ?thesis using that(2) old assms(2) by auto
    next
      assume "(key, ss) \<in> set m"
      then show ?thesis using assms(1) that(2) unfolding segments_ok_def by fast
    qed
  qed
  ultimately show ?thesis unfolding segments_ok_def push_segment_def Let_def by blast
qed

lemma before_midnight: "t < ist_instant (ist_day t + 1) 0" "ist_instant (ist_day t) 0 \<le> t"
  using ist_instant_le [of 0 "ist_day t + 1" t] ist_instant_le [of 0 "ist_day t" t] ist_minute_range [of t] by simp_all

lemma same_day: "a \<le> t \<Longrightarrow> t < ist_instant (ist_day a + 1) 0 \<Longrightarrow> ist_day t = ist_day a"
  using ist_instant_le [of 0 "ist_day a + 1" t] ist_instant_le [of 0 "ist_day a" t] before_midnight(2) [of a]
    ist_minute_range [of t] by fastforce

lemma add_segment_covers:
  "covered (segments_at (add_segment run a b m) key)
     = covered (segments_at m key) \<union> {t. a \<le> t \<and> t < b \<and> key = (qn_machine run, ist_day t)}"
  "segments_ok m \<Longrightarrow> segments_ok (add_segment run a b m)"
proof (induction run a b m rule: add_segment.induct)
  case (1 run a b m)
  define limit where "limit = min b (ist_instant (ist_day a + 1) 0)"
  define s where "s = \<lparr>sg_start = a, sg_end = limit, sg_run = run\<rparr>"
  have step: "add_segment run a b m = add_segment run limit b (push_segment s m)" if "a < b"
    using that by (subst add_segment.simps) (simp add: Let_def limit_def s_def)
  have day: "ist_day t = ist_day a" if "a \<le> t" "t < limit" for t
    using that same_day unfolding limit_def by simp
  {
    case 1
    show ?case
    proof (cases "a < b")
      case True
      have "a < limit" "limit \<le> b" using True before_midnight(1) [of a] by (simp_all add: limit_def)
      have "covered (segments_at (add_segment run a b m) key) = covered (segments_at (push_segment s m) key)
          \<union> {t. limit \<le> t \<and> t < b \<and> key = (qn_machine run, ist_day t)}"
        unfolding step [OF True] using "1.IH"(1) [OF True limit_def] by (simp add: s_def)
      also have "covered (segments_at (push_segment s m) key)
          = covered (segments_at m key) \<union> {t. a \<le> t \<and> t < limit \<and> key = (qn_machine run, ist_day a)}"
        by (auto simp: segments_at_push s_def)
      also have "{t. a \<le> t \<and> t < limit \<and> key = (qn_machine run, ist_day a)}
          = {t. a \<le> t \<and> t < limit \<and> key = (qn_machine run, ist_day t)}"
        by (rule Collect_cong) (metis day)
      also have "covered (segments_at m key) \<union> {t. a \<le> t \<and> t < limit \<and> key = (qn_machine run, ist_day t)}
          \<union> {t. limit \<le> t \<and> t < b \<and> key = (qn_machine run, ist_day t)}
          = covered (segments_at m key) \<union> {t. a \<le> t \<and> t < b \<and> key = (qn_machine run, ist_day t)}"
        using \<open>a < limit\<close> \<open>limit \<le> b\<close> by auto
      finally show ?thesis .
    qed (subst add_segment.simps, auto)
  next
    case 2
    show ?case
    proof (cases "a < b")
      case True
      have "segment_ok (qn_machine (sg_run s), ist_day (sg_start s)) s"
        unfolding segment_ok_def s_def segment.simps fst_conv snd_conv
        by (intro conjI refl ballI day) simp_all
      then have "segments_ok (push_segment s m)" by (rule segments_ok_push [OF 2])
      then show ?thesis unfolding step [OF True] using "1.IH"(2) [OF True limit_def] by (simp only: s_def)
    next
      case False
      then have "add_segment run a b m = m" by (subst add_segment.simps) (simp only: if_False)
      then show ?thesis using 2 by (simp only:)
    qed
  }
qed

lemma fold_add_segment:
  "covered (segments_at (fold (\<lambda>(a, b). add_segment run a b) ps m) key)
     = covered (segments_at m key) \<union> {t. (\<exists>p \<in> set ps. t \<in> span p) \<and> key = (qn_machine run, ist_day t)}"
  "segments_ok m \<Longrightarrow> segments_ok (fold (\<lambda>(a, b). add_segment run a b) ps m)"
proof (induction ps arbitrary: m)
  case (Cons p ps)
  obtain a b where p: "p = (a, b)" by force
  {
    case 1
    show ?case using Cons.IH(1) [of "add_segment run a b m"]
      by (auto simp: p add_segment_covers(1))
  next
    case 2
    then show ?case using Cons.IH(2) [of "add_segment run a b m"] by (simp add: p add_segment_covers(2))
  }
qed simp_all

text \<open>The instants a machine ran: in a run of the machine and in none of its pauses.\<close>

definition run_active :: "quality_run \<Rightarrow> instant \<Rightarrow> bool" where
  "run_active run t \<longleftrightarrow> qn_start run \<le> t \<and> t < qn_end run \<and> \<not> (\<exists>p \<in> set (run_pauses run). t \<in> span p)"

definition running_instants :: "quality_run list \<Rightarrow> int \<Rightarrow> int \<Rightarrow> string \<Rightarrow> int \<Rightarrow> instant set" where
  "running_instants runs from until machine d = {t. ist_day t = d \<and> from \<le> d \<and> d \<le> until
     \<and> (\<exists>run \<in> set runs. qn_machine run = machine \<and> run_active run t)}"

lemma run_segments_covers:
  "covered (segments_at (run_segments lo hi run m) key)
     = covered (segments_at m key) \<union> {t. lo \<le> t \<and> t < hi \<and> run_active run t \<and> key = (qn_machine run, ist_day t)}"
  "segments_ok m \<Longrightarrow> segments_ok (run_segments lo hi run m)"
  unfolding run_segments_def
  by (auto simp: fold_add_segment cut_pauses_span [OF sorted_pauses] run_active_def)

lemma fold_run_segments:
  "covered (segments_at (fold (run_segments lo hi) runs m) key)
     = covered (segments_at m key) \<union> {t. lo \<le> t \<and> t < hi \<and> (\<exists>run \<in> set runs. run_active run t \<and> key = (qn_machine run, ist_day t))}"
  "segments_ok m \<Longrightarrow> segments_ok (fold (run_segments lo hi) runs m)"
proof (induction runs arbitrary: m)
  case (Cons run runs)
  {
    case 1
    show ?case using Cons.IH(1) [of "run_segments lo hi run m"] by (auto simp: run_segments_covers(1))
  next
    case 2
    then show ?case using Cons.IH(2) [of "run_segments lo hi run m"] by (simp add: run_segments_covers(2))
  }
qed simp_all

lemma in_days: "ist_instant from 0 \<le> t \<and> t < ist_instant until 0 + day_ms \<longleftrightarrow> from \<le> ist_day t \<and> ist_day t \<le> until"
proof -
  have "ist_instant until 0 + day_ms = ist_instant (until + 1) 0" by (simp add: ist_instant_def)
  then show ?thesis
    using ist_instant_le [of 0 "from" t] ist_instant_le [of 0 "until + 1" t] ist_minute_range [of t] by fastforce
qed

lemma quality_segments_cover:
  "covered (segments_at (quality_segments runs from until) (machine, d)) = running_instants runs from until machine d"
  "segments_ok (quality_segments runs from until)"
proof -
  have "covered (segments_at (quality_segments runs from until) (machine, d)) = {t. ist_instant from 0 \<le> t
      \<and> t < ist_instant until 0 + day_ms \<and> (\<exists>run \<in> set runs. run_active run t \<and> (machine, d) = (qn_machine run, ist_day t))}"
    unfolding quality_segments_def fold_run_segments(1) by (simp add: segments_at_def)
  also have "\<dots> = running_instants runs from until machine d"
  proof -
    have "(ist_instant from 0 \<le> t \<and> t < ist_instant until 0 + day_ms \<and> (\<exists>run \<in> set runs. run_active run t \<and> (machine, d) = (qn_machine run, ist_day t)))
        \<longleftrightarrow> (ist_day t = d \<and> from \<le> d \<and> d \<le> until \<and> (\<exists>run \<in> set runs. qn_machine run = machine \<and> run_active run t))" for t
      using in_days [of "from" t until] by auto
    then show ?thesis unfolding running_instants_def by (intro Collect_cong)
  qed
  finally show "covered (segments_at (quality_segments runs from until) (machine, d)) = running_instants runs from until machine d" .
  show "segments_ok (quality_segments runs from until)"
    unfolding quality_segments_def by (rule fold_run_segments(2)) (simp add: segments_ok_def)
qed

subsection \<open>Hours of running time\<close>

text \<open>What a walk does to the state: time counted in whole hours and a rest, one slot per hour with the day of
  the segments, and one fresh key of a check per completed slot.\<close>

definition counted :: "coverage_state \<Rightarrow> int" where
  "counted st = hour_ms * int (length (cv_result st)) - cv_remaining st"

definition checks_used :: "quality_check list \<Rightarrow> coverage_state \<Rightarrow> bool" where
  "checks_used available st \<longleftrightarrow> distinct (cv_used st) \<and> set (cv_used st) \<subseteq> check_key ` set available
     \<and> length (filter cs_completed (cv_result st)) = length (cv_used st)"

definition walked :: "quality_check list \<Rightarrow> int \<Rightarrow> int \<Rightarrow> coverage_state \<Rightarrow> coverage_state \<Rightarrow> bool" where
  "walked available d time st st' \<longleftrightarrow> 0 < cv_remaining st' \<and> cv_remaining st' \<le> hour_ms
     \<and> counted st' = counted st + time
     \<and> (\<exists>slots. cv_result st' = cv_result st @ slots \<and> (\<forall>s \<in> set slots. cs_date s = d))
     \<and> (checks_used available st \<longrightarrow> checks_used available st')"

lemma walked_refl: "0 < cv_remaining st \<Longrightarrow> cv_remaining st \<le> hour_ms \<Longrightarrow> walked available d 0 st st"
  by (simp add: walked_def)

lemma walked_trans:
  assumes "walked available d t1 a b" "walked available d t2 b c"
  shows "walked available d (t1 + t2) a c"
proof -
  obtain s1 s2 where "cv_result b = cv_result a @ s1" "\<forall>s \<in> set s1. cs_date s = d"
      "cv_result c = cv_result b @ s2" "\<forall>s \<in> set s2. cs_date s = d"
    using assms unfolding walked_def by blast
  then have "cv_result c = cv_result a @ (s1 @ s2) \<and> (\<forall>s \<in> set (s1 @ s2). cs_date s = d)" by auto
  then have "\<exists>slots. cv_result c = cv_result a @ slots \<and> (\<forall>s \<in> set slots. cs_date s = d)" by blast
  then show ?thesis using assms unfolding walked_def by auto
qed

lemma finish_hour_checks:
  assumes "checks_used available st"
  shows "checks_used available (finish_hour available run stop st)"
proof (cases "find_check available (cv_used st) (cv_window st)")
  case None
  then show ?thesis using assms by (simp add: checks_used_def finish_hour_def Let_def)
next
  case (Some c)
  then have "check_key c \<notin> set (cv_used st)" "c \<in> set available"
    unfolding find_check_def by (auto simp: find_Some_iff in_set_conv_nth)
  then show ?thesis using assms Some by (simp add: checks_used_def finish_hour_def Let_def)
qed

lemma walk_segment_walked:
  assumes "0 < cv_remaining st" "cv_remaining st \<le> hour_ms"
    and "\<And>t. cursor \<le> t \<Longrightarrow> t < sg_end s \<Longrightarrow> ist_day t = d"
  shows "walked available d (max 0 (sg_end s - cursor)) st (walk_segment available s cursor st)"
  using assms
proof (induction available s cursor st rule: walk_segment.induct)
  case (1 available s cursor st)
  show ?case
  proof (cases "cursor < sg_end s")
    case True
    define stop where "stop = min (sg_end s) (cursor + cv_remaining st)"
    define part where "part = s\<lparr>sg_start := cursor, sg_end := stop\<rparr>"
    define st' where "st' = st\<lparr>cv_window := cv_window st @ [part], cv_remaining := cv_remaining st - (stop - cursor)\<rparr>"
    define st'' where "st'' = (if 0 < cv_remaining st' then st' else finish_hour available (sg_run s) stop st')"
    have stop: "cursor < stop" "stop \<le> sg_end s" "stop - cursor \<le> cv_remaining st"
      using True "1.prems"(1) by (auto simp: stop_def)
    have day: "ist_day (stop - 1) = d" using stop "1.prems"(3) by simp
    have used': "checks_used available st \<Longrightarrow> checks_used available st'" by (simp add: st'_def checks_used_def)
    have now: "walked available d (stop - cursor) st st''"
    proof (cases "0 < cv_remaining st'")
      case True
      then show ?thesis using "1.prems"(2) stop used' unfolding st''_def
        by (simp add: walked_def counted_def st'_def)
    next
      case False
      then have zero: "cv_remaining st' = 0" using stop by (simp add: st'_def)
      have "counted st'' = counted st + (stop - cursor)"
        using zero unfolding st''_def by (simp add: counted_def finish_hour_def Let_def st'_def algebra_simps)
      moreover have "cv_result st'' = cv_result st @ [\<lparr>cs_date = d, cs_shift = or_unspecified (qn_shift (sg_run s)),
          cs_completed = (find_check available (cv_used st') (cv_window st') \<noteq> None)\<rparr>]"
        using zero day unfolding st''_def by (simp add: finish_hour_def Let_def st'_def)
      moreover have "cv_remaining st'' = hour_ms" using zero unfolding st''_def by (simp add: finish_hour_def Let_def)
      moreover have "checks_used available st \<Longrightarrow> checks_used available st''"
        using zero finish_hour_checks used' unfolding st''_def by simp
      ultimately show ?thesis unfolding walked_def by (auto simp: exI)
    qed
    have enter: "cursor < sg_end s \<and> 0 < cv_remaining st" using True "1.prems"(1) by simp
    have "walked available d (max 0 (sg_end s - stop)) st'' (walk_segment available s stop st'')"
    proof (rule "1.IH" [OF enter stop_def part_def st'_def, folded st''_def])
      show "0 < cv_remaining st''" "cv_remaining st'' \<le> hour_ms" using now unfolding walked_def by simp_all
      show "\<And>t. stop \<le> t \<Longrightarrow> t < sg_end s \<Longrightarrow> ist_day t = d" using stop "1.prems"(3) by simp
    qed
    then have "walked available d ((stop - cursor) + max 0 (sg_end s - stop)) st (walk_segment available s stop st'')"
      by (rule walked_trans [OF now])
    moreover have "(stop - cursor) + max 0 (sg_end s - stop) = max 0 (sg_end s - cursor)" using stop by simp
    moreover have "walk_segment available s cursor st = walk_segment available s stop st''"
      using enter by (subst walk_segment.simps) (simp add: Let_def stop_def st'_def st''_def part_def)
    ultimately show ?thesis by simp
  next
    case False
    then have "walk_segment available s cursor st = st" by (subst walk_segment.simps) simp
    then show ?thesis using False "1.prems" by (simp add: walked_refl)
  qed
qed

lemma finite_covered [simp]: "finite (covered ss)"
  by (simp add: covered_def)

text \<open>The time walked is the number of milliseconds covered, each counted once.\<close>

lemma walk_segments_walked:
  assumes "0 < cv_remaining st" "cv_remaining st \<le> hour_ms" "sorted (map sg_start ss)"
    and "\<And>s t. s \<in> set ss \<Longrightarrow> sg_start s \<le> t \<Longrightarrow> t < sg_end s \<Longrightarrow> ist_day t = d"
  shows "walked available d (int (card (covered ss \<inter> {prior..}))) st (walk_segments available ss prior st)"
  using assms
proof (induction ss arbitrary: prior st)
  case Nil
  then show ?case by (simp add: walked_refl)
next
  case (Cons s ss)
  define cursor where "cursor = max (sg_start s) prior"
  define st' where "st' = walk_segment available s cursor st"
  have first: "walked available d (max 0 (sg_end s - cursor)) st st'"
    unfolding st'_def by (rule walk_segment_walked) (use Cons.prems in \<open>auto simp: cursor_def\<close>)
  have rest: "walked available d (int (card (covered ss \<inter> {max prior (sg_end s)..}))) st' (walk_segments available ss (max prior (sg_end s)) st')"
    by (rule Cons.IH) (use first Cons.prems in \<open>auto simp: walked_def\<close>)
  have split: "covered (s # ss) \<inter> {prior..} = {cursor..<sg_end s} \<union> (covered ss \<inter> {max prior (sg_end s)..})"
  proof (rule set_eqI)
    fix t
    have "sg_start s \<le> t" if "t \<in> covered ss"
      using that Cons.prems(3) by (fastforce simp: covered_def)
    then show "t \<in> covered (s # ss) \<inter> {prior..} \<longleftrightarrow> t \<in> {cursor..<sg_end s} \<union> (covered ss \<inter> {max prior (sg_end s)..})"
      by (cases "t < sg_end s") (auto simp: covered_def cursor_def)
  qed
  have "card (covered (s # ss) \<inter> {prior..}) = card {cursor..<sg_end s} + card (covered ss \<inter> {max prior (sg_end s)..})"
    unfolding split by (rule card_Un_disjoint) auto
  then have "int (card (covered (s # ss) \<inter> {prior..}))
      = max 0 (sg_end s - cursor) + int (card (covered ss \<inter> {max prior (sg_end s)..}))" by simp
  then show ?case using walked_trans [OF first rest]
    by (simp add: Let_def st'_def cursor_def)
qed

lemma covered_sort_key [simp]: "covered (sort_key f ss) = covered ss"
  by (simp add: covered_def)

definition hours_of :: "segment list \<Rightarrow> nat" where
  "hours_of ss = nat (int (card (covered ss)) div hour_ms)"

lemma cover_machine_day_slots:
  assumes "\<And>s t. s \<in> set ss \<Longrightarrow> sg_start s \<le> t \<Longrightarrow> t < sg_end s \<Longrightarrow> ist_day t = d" "covered ss \<subseteq> {0..}"
  shows "\<exists>slots. cv_result (cover_machine_day available ss st) = cv_result st @ slots
      \<and> length slots = hours_of ss \<and> (\<forall>s \<in> set slots. cs_date s = d)"
    and "checks_used available st \<Longrightarrow> checks_used available (cover_machine_day available ss st)"
proof -
  define st0 where "st0 = st\<lparr>cv_remaining := hour_ms, cv_window := []\<rparr>"
  define st1 where "st1 = cover_machine_day available ss st"
  have "walked available d (int (card (covered (sort_key sg_start ss) \<inter> {0..}))) st0 (walk_segments available (sort_key sg_start ss) 0 st0)"
    by (rule walk_segments_walked) (use assms(1) in \<open>auto simp: st0_def\<close>)
  moreover have "covered ss \<inter> {0..} = covered ss" using assms(2) by blast
  ultimately have w: "walked available d (int (card (covered ss))) st0 st1"
    by (simp add: st0_def st1_def cover_machine_day_def)
  then obtain slots where slots: "cv_result st1 = cv_result st @ slots" "\<forall>s \<in> set slots. cs_date s = d"
    unfolding walked_def st0_def by auto
  have "hour_ms * int (length slots) + (hour_ms - cv_remaining st1) = int (card (covered ss))"
    using w slots(1) unfolding walked_def counted_def st0_def by (simp add: algebra_simps)
  moreover have "0 \<le> hour_ms - cv_remaining st1" "hour_ms - cv_remaining st1 < hour_ms" using w unfolding walked_def by simp_all
  ultimately have "int (card (covered ss)) div hour_ms = int (length slots)"
    by (intro int_div_pos_eq [of _ _ _ "hour_ms - cv_remaining st1"]) simp_all
  then have "length slots = hours_of ss" by (simp add: hours_of_def)
  then show "\<exists>slots. cv_result (cover_machine_day available ss st) = cv_result st @ slots
      \<and> length slots = hours_of ss \<and> (\<forall>s \<in> set slots. cs_date s = d)"
    using slots unfolding st1_def by blast
  show "checks_used available st \<Longrightarrow> checks_used available (cover_machine_day available ss st)"
    using w unfolding walked_def st0_def st1_def by (auto simp: checks_used_def)
qed

definition day_map :: "segment_map \<Rightarrow> bool" where
  "day_map m \<longleftrightarrow> (\<forall>(key, ss) \<in> set m. covered ss \<subseteq> {0..}
     \<and> (\<forall>s \<in> set ss. \<forall>t. sg_start s \<le> t \<longrightarrow> t < sg_end s \<longrightarrow> ist_day t = snd key))"

lemma day_map_Cons: "day_map ((key, ss) # m) \<longleftrightarrow> covered ss \<subseteq> {0..}
    \<and> (\<forall>s \<in> set ss. \<forall>t. sg_start s \<le> t \<longrightarrow> t < sg_end s \<longrightarrow> ist_day t = snd key) \<and> day_map m"
  unfolding day_map_def by auto

lemma fold_cover_slots:
  assumes "day_map m"
  shows "length (filter (\<lambda>s. cs_date s = d) (cv_result (fold (\<lambda>(key, ss). cover_machine_day available ss) m st)))
      = length (filter (\<lambda>s. cs_date s = d) (cv_result st)) + sum_list (map (\<lambda>(key, ss). if snd key = d then hours_of ss else 0) m)"
    and "checks_used available st \<Longrightarrow> checks_used available (fold (\<lambda>(key, ss). cover_machine_day available ss) m st)"
  using assms
proof (induction m arbitrary: st)
  case (Cons p m)
  obtain key ss where p: "p = (key, ss)" by (cases p)
  note D = day_map_Cons [THEN iffD1]
  {
    case 1
    then have d: "covered ss \<subseteq> {0..}" "\<And>s t. s \<in> set ss \<Longrightarrow> sg_start s \<le> t \<Longrightarrow> t < sg_end s \<Longrightarrow> ist_day t = snd key" "day_map m"
      unfolding p day_map_Cons by blast+
    have "\<exists>slots. cv_result (cover_machine_day available ss st) = cv_result st @ slots
        \<and> length slots = hours_of ss \<and> (\<forall>s \<in> set slots. cs_date s = snd key)"
      by (rule cover_machine_day_slots(1)) (fact d)+
    then obtain slots where slots: "cv_result (cover_machine_day available ss st) = cv_result st @ slots"
        "length slots = hours_of ss" "\<forall>s \<in> set slots. cs_date s = snd key" by blast
    have "filter (\<lambda>s. cs_date s = d) slots = (if snd key = d then slots else [])"
      using slots(3) by (auto simp: filter_empty_conv filter_id_conv)
    then show ?case using slots(1,2) Cons.IH(1) [OF d(3), of "cover_machine_day available ss st"] by (simp add: p)
  next
    case 2
    then have d: "covered ss \<subseteq> {0..}" "\<And>s t. s \<in> set ss \<Longrightarrow> sg_start s \<le> t \<Longrightarrow> t < sg_end s \<Longrightarrow> ist_day t = snd key" "day_map m"
      unfolding p day_map_Cons by blast+
    have "checks_used available (cover_machine_day available ss st)"
      by (rule cover_machine_day_slots(2)) (fact d 2(1))+
    then show ?case using Cons.IH(2) [OF _ d(3), of "cover_machine_day available ss st"] by (simp add: p)
  }
qed simp_all

lemma covered_segments_mem:
  assumes "(key, ss) \<in> set (quality_segments runs from until)"
  shows "covered ss = running_instants runs from until (fst key) (snd key)"
proof -
  have "distinct (map fst (quality_segments runs from until))"
    using quality_segments_cover(2) by (simp add: segments_ok_def)
  then have "segments_at (quality_segments runs from until) key = ss"
    using assms by (simp add: segments_at_def)
  then show ?thesis using quality_segments_cover(1) [of runs "from" until "fst key" "snd key"] by simp
qed

definition running_hours :: "quality_run list \<Rightarrow> int \<Rightarrow> int \<Rightarrow> string \<Rightarrow> int \<Rightarrow> nat" where
  "running_hours runs from until machine d = nat (int (card (running_instants runs from until machine d)) div hour_ms)"

lemma hours_sum:
  "sum_list (map (\<lambda>(key, ss). if snd key = d then hours_of ss else 0) (quality_segments runs from until))
     = (\<Sum>machine \<in> qn_machine ` set runs. running_hours runs from until machine d)"
proof -
  let ?m = "quality_segments runs from until"
  let ?f = "\<lambda>key :: string \<times> int. if snd key = d then running_hours runs from until (fst key) d else 0"
  have dist: "distinct (map fst ?m)" using quality_segments_cover(2) by (simp add: segments_ok_def)
  have "map (\<lambda>(key, ss). if snd key = d then hours_of ss else 0) ?m = map ?f (map fst ?m)"
    by (auto simp: hours_of_def running_hours_def covered_segments_mem)
  then have "sum_list (map (\<lambda>(key, ss). if snd key = d then hours_of ss else 0) ?m) = sum ?f (set (map fst ?m))"
    using dist by (simp only: sum_list_distinct_conv_sum_set)
  also have "\<dots> = sum ?f ((\<lambda>machine. (machine, d)) ` (qn_machine ` set runs))"
  proof (rule sum.mono_neutral_cong)
    fix key assume "key \<in> set (map fst ?m) - (\<lambda>machine. (machine, d)) ` qn_machine ` set runs"
    then have no_run: "snd key = d \<longrightarrow> fst key \<notin> qn_machine ` set runs" by (auto simp: image_iff)
    have "snd key = d \<longrightarrow> running_instants runs from until (fst key) d = {}"
    proof (intro impI)
      assume "snd key = d"
      with no_run have "fst key \<notin> qn_machine ` set runs" by blast
      then have "qn_machine run \<noteq> fst key" if "run \<in> set runs" for run using imageI [OF that, of qn_machine] by metis
      then show "running_instants runs from until (fst key) d = {}" unfolding running_instants_def by blast
    qed
    then show "?f key = 0" by (simp add: running_hours_def)
  next
    fix key assume key: "key \<in> (\<lambda>machine. (machine, d)) ` qn_machine ` set runs - set (map fst ?m)"
    then have "snd key = d" by auto
    have "key \<notin> fst ` set ?m" using key by simp
    then have "map_of ?m key = None" by (simp only: map_of_eq_None_iff not_False_eq_True)
    then have "segments_at ?m key = []" by (simp add: segments_at_def)
    then have "running_instants runs from until (fst key) (snd key) = {}"
      using quality_segments_cover(1) [of runs "from" until "fst key" "snd key"] by simp
    then show "?f key = 0" using \<open>snd key = d\<close> by (simp add: running_hours_def)
  qed simp_all
  also have "\<dots> = (\<Sum>machine \<in> qn_machine ` set runs. running_hours runs from until machine d)"
    by (subst sum.reindex) (auto simp: inj_on_def)
  finally show ?thesis .
qed

lemma quality_day_map:
  assumes "1 \<le> from"
  shows "day_map (quality_segments runs from until)"
proof -
  have "covered ss \<subseteq> {0..}" if "(key, ss) \<in> set (quality_segments runs from until)" for key ss
  proof
    fix t assume "t \<in> covered ss"
    then have "from \<le> ist_day t" using covered_segments_mem [OF that] by (auto simp: running_instants_def)
    then have "ist_instant from 0 \<le> t" using ist_instant_le [of 0 "from" t] ist_minute_range [of t] by fastforce
    moreover have "0 \<le> ist_instant from 0" using assms by (simp add: ist_instant_def)
    ultimately show "t \<in> {0..}" by simp
  qed
  moreover have "ist_day t = snd key"
    if "(key, ss) \<in> set (quality_segments runs from until)" "s \<in> set ss" "sg_start s \<le> t" "t < sg_end s" for key ss s t
    using quality_segments_cover(2) [of runs "from" until] that unfolding segments_ok_def segment_ok_def by fastforce
  ultimately show ?thesis unfolding day_map_def by blast
qed

subsection \<open>Properties\<close>

text \<open>For each day of the report the hourly checks owed are, over the machines, the complete hours among the
  milliseconds the machine ran on that day: in one of its runs, outside the downtime and the breaks of that
  run. Overlapping runs and pauses count once, whatever their order.\<close>

lemma hourly_checks_owed:
  assumes "1 \<le> from"
  shows "length (filter (\<lambda>s. cs_date s = d) (quality_hourly_coverage runs checks from until))
    = (\<Sum>machine \<in> qn_machine ` set runs. running_hours runs from until machine d)"
proof -
  let ?st = "\<lparr>cv_remaining = hour_ms, cv_window = [], cv_used = [], cv_result = []\<rparr>"
  have "length (filter (\<lambda>s. cs_date s = d) (quality_hourly_coverage runs checks from until))
      = length (filter (\<lambda>s. cs_date s = d) (cv_result ?st))
        + sum_list (map (\<lambda>(key, ss). if snd key = d then hours_of ss else 0) (quality_segments runs from until))"
    unfolding quality_hourly_coverage_def Let_def by (rule fold_cover_slots(1) [OF quality_day_map [OF assms]])
  then show ?thesis unfolding hours_sum by simp
qed

definition sample_run :: quality_run where
  "sample_run = \<lparr>qn_machine = ''M1'', qn_work_order = ''W'', qn_setup = ''1'', qn_shift = ''Day'',
     qn_start = ist_instant 20454 480, qn_end = ist_instant 20454 720, qn_downtime = [(ist_instant 20454 500, ist_instant 20454 530)],
     qn_breaks = [(540, 600)]\<rparr>"

definition sample_check :: quality_check where
  "sample_check = \<lparr>qc_machine = ''M1'', qc_work_order = ''W'', qc_setup = ''1'', qc_date = 20454, qc_minute = 480\<rparr>"

lemma hourly_checks_owed_example:
  "length (filter (\<lambda>s. cs_date s = 20454) (quality_hourly_coverage [sample_run] [sample_check] 20454 20455))
     = running_hours [sample_run] 20454 20455 ''M1'' 20454
   \<and> length (quality_hourly_coverage [sample_run] [sample_check] 20454 20455) = 2"
proof -
  have "length (quality_hourly_coverage [sample_run] [sample_check] 20454 20455) = 2" by code_simp
  then show ?thesis using hourly_checks_owed [of 20454 20454 "[sample_run]" "[sample_check]" 20455]
    by (simp add: sample_run_def)
qed

text \<open>C37: Every check done counts once: the hours reported as checked are as many as the checks used for them,
  which are different checks of the source.\<close>

theorem checks_count_once:
  assumes "1 \<le> from"
  shows "\<exists>used. distinct used \<and> set used \<subseteq> check_key ` set checks
    \<and> length (filter cs_completed (quality_hourly_coverage runs checks from until)) = length used"
proof -
  let ?st = "\<lparr>cv_remaining = hour_ms, cv_window = [], cv_used = [], cv_result = []\<rparr>"
  have "checks_used (sort_key check_at checks) ?st" by (simp add: checks_used_def)
  then have "checks_used (sort_key check_at checks) (fold (\<lambda>(key, ss). cover_machine_day (sort_key check_at checks) ss)
      (quality_segments runs from until) ?st)"
    by (rule fold_cover_slots(2) [OF quality_day_map [OF assms]])
  then show ?thesis unfolding checks_used_def quality_hourly_coverage_def Let_def by auto
qed

theorem checks_count_once_witness:
  "\<exists>used. distinct used \<and> set used \<subseteq> check_key ` set [sample_check, sample_check]
    \<and> length (filter cs_completed (quality_hourly_coverage [sample_run] [sample_check, sample_check] 20454 20455)) = length used"
  by (rule checks_count_once) simp

subsection \<open>The counts of the report\<close>

definition bucket_of :: "('k \<times> quality_bucket) list \<Rightarrow> 'k \<Rightarrow> quality_bucket" where
  "bucket_of m key = (case map_of m key of None \<Rightarrow> empty_bucket | Some b \<Rightarrow> b)"

lemma bucket_of_in_bucket:
  "bucket_of (in_bucket key f m) k = (if k = key then f (bucket_of m k) else bucket_of m k)"
  by (simp add: bucket_of_def in_bucket_def map_of_put)

lemma bucket_of_map:
  assumes "\<And>k b. g (h k b) = g b" "g empty_bucket = g empty_bucket"
  shows "g (bucket_of (map (\<lambda>(k, b). (k, h k b)) m) key) = g (bucket_of m key)"
  by (induction m) (auto simp: bucket_of_def assms(1))

text \<open>Checks owed and done of a day: production and requests leave them alone.\<close>

definition checks_of :: "quality_report \<Rightarrow> int \<Rightarrow> nat \<times> nat" where
  "checks_of r d = (let b = bucket_of (qt_daily r) d in (bu_expected b, bu_completed b))"

lemma checks_add_production: "checks_of (add_production from until row r) d = checks_of r d"
  by (simp add: checks_of_def Let_def add_production_def bucket_of_in_bucket count_pieces_def)

lemma checks_add_request: "checks_of (add_request from until now days q r) d = checks_of r d"
proof -
  let ?P = "\<lambda>d. d \<in> set days \<and> pending_at (min now (end_of_day d)) q"
  have e: "bu_expected (bucket_of (map (\<lambda>(d, b). (d, if ?P d then count_pending b else b)) (qt_daily r)) k)
      = bu_expected (bucket_of (qt_daily r) k)" for k
    by (rule bucket_of_map [where h = "\<lambda>d b. if ?P d then count_pending b else b"]) (simp_all add: count_pending_def)
  have c: "bu_completed (bucket_of (map (\<lambda>(d, b). (d, if ?P d then count_pending b else b)) (qt_daily r)) k)
      = bu_completed (bucket_of (qt_daily r) k)" for k
    by (rule bucket_of_map [where h = "\<lambda>d b. if ?P d then count_pending b else b"]) (simp_all add: count_pending_def)
  show ?thesis
    by (cases "qr_approved q") (simp_all add: checks_of_def Let_def add_request_def bucket_of_in_bucket count_approval_def e c)
qed

lemma checks_folds:
  "checks_of (fold (add_production from until) rows r) d = checks_of r d"
  "checks_of (fold (add_request from until now days) qs r) d = checks_of r d"
proof -
  show "checks_of (fold (add_production from until) rows r) d = checks_of r d"
    by (induction rows arbitrary: r) (simp_all add: checks_add_production)
  show "checks_of (fold (add_request from until now days) qs r) d = checks_of r d"
    by (induction qs arbitrary: r) (simp_all add: checks_add_request)
qed

lemma checks_add_slots:
  "checks_of (fold add_slot slots r) d =
    (fst (checks_of r d) + length (filter (\<lambda>s. cs_date s = d) slots),
     snd (checks_of r d) + length (filter (\<lambda>s. cs_date s = d \<and> cs_completed s) slots))"
proof (induction slots arbitrary: r)
  case (Cons s slots)
  have "checks_of (add_slot s r) d = (fst (checks_of r d) + (if cs_date s = d then 1 else 0),
      snd (checks_of r d) + (if cs_date s = d \<and> cs_completed s then 1 else 0))"
    by (simp add: checks_of_def Let_def add_slot_def bucket_of_in_bucket count_slot_def)
  then show ?case using Cons.IH [of "add_slot s r"] by simp
qed simp

lemma initial_checks: "checks_of (initial_report source from until) d = (0, 0)"
proof -
  have "bucket_of (map (\<lambda>d. (d, empty_bucket)) ds) d = empty_bucket" for ds :: "int list"
    by (induction ds) (simp_all add: bucket_of_def)
  then show ?thesis by (simp add: checks_of_def Let_def initial_report_def empty_bucket_def)
qed

text \<open>C36: In the report a day owes, over the machines, the complete hours among the milliseconds the machine ran
  on that day: in one of its runs, outside the downtime and the breaks of that run. Overlapping runs and
  pauses count once, whatever their order, and no more checks are reported done than owed.\<close>

theorem report_daily_checks:
  assumes "1 \<le> from"
  shows "bu_expected (bucket_of (rd_daily (build_quality_report compare source from until now)) d)
      = (\<Sum>machine \<in> qn_machine ` set (qs_runs source). running_hours (qs_runs source) from until machine d)
    \<and> bu_completed (bucket_of (rd_daily (build_quality_report compare source from until now)) d)
      \<le> bu_expected (bucket_of (rd_daily (build_quality_report compare source from until now)) d)"
proof -
  let ?slots = "quality_hourly_coverage (qs_runs source) (qs_checks source) from until"
  have c: "checks_of (build_quality_counts source from until now) d =
      (length (filter (\<lambda>s. cs_date s = d) ?slots), length (filter (\<lambda>s. cs_date s = d \<and> cs_completed s) ?slots))"
    by (simp add: build_quality_counts_def Let_def checks_add_slots checks_folds initial_checks)
  have "length (filter cs_completed (filter (\<lambda>s. cs_date s = d) ?slots)) \<le> length (filter (\<lambda>s. cs_date s = d) ?slots)"
    by (rule length_filter_le)
  then have "length (filter (\<lambda>s. cs_date s = d \<and> cs_completed s) ?slots) \<le> length (filter (\<lambda>s. cs_date s = d) ?slots)"
    by (simp add: conj_commute)
  then show ?thesis using c hourly_checks_owed [OF assms, of d "qs_runs source" "qs_checks source" until]
    by (simp add: build_quality_report_def checks_of_def Let_def)
qed

theorem report_daily_checks_witness:
  "bu_expected (bucket_of (rd_daily (build_quality_report (\<lambda>a b. 0) \<lparr>qs_production = [], qs_requests = [], qs_runs = [sample_run],
      qs_checks = [sample_check], qs_defects = [], qs_inspectors = []\<rparr> 20454 20455 (ist_instant 20455 0))) 20454)
    = running_hours [sample_run] 20454 20455 ''M1'' 20454"
  using report_daily_checks [of 20454 "\<lambda>a b. 0" "\<lparr>qs_production = [], qs_requests = [], qs_runs = [sample_run],
      qs_checks = [sample_check], qs_defects = [], qs_inspectors = []\<rparr>" 20455 "ist_instant 20455 0" 20454]
  by (simp add: sample_run_def)

end
