(* ===== verification/PG_Numeric.thy ===== *)
theory PG_Numeric
  imports JS_Value
begin

section \<open>Quantities: numbers of the program, \<open>numeric(18,3)\<close> columns of the database\<close>

text \<open>
  A quantity is stored in a column \<open>numeric(18,3)\<close>: a whole number of thousandths, an \<open>int\<close> here. The
  program reads it as text and converts it with \<open>Number(text)\<close>, so it computes with the binary64 number
  nearest to it; it sends a number back as text, with the fewest digits that read back as the number, and
  the database rounds that decimal to thousandths, halves away from zero.

  The lemmas: the digits printed read back as the number, so a number that is close to a whole number
  of thousandths is stored as that number, and \<open>Math.round(q * 1000)\<close> recovers it too.
\<close>

definition numeric_number :: "int \<Rightarrow> jsnum" where
  "numeric_number i = fl (of_int i / 1000)"

definition decimal_of :: "rat \<Rightarrow> rat" where
  "decimal_of x = (case shortest_digits x of (n, k, s) \<Rightarrow> of_int n * 10 powi (s - k))"

definition half_away :: "rat \<Rightarrow> int" where
  "half_away r = (if 0 \<le> r then \<lfloor>r + 1/2\<rfloor> else - \<lfloor>- r + 1/2\<rfloor>)"

text \<open>The number a parameter is: its text, read as a decimal.\<close>

definition sql_decimal :: "rat \<Rightarrow> rat" where
  "sql_decimal x = (if of_int \<lfloor>x\<rfloor> = x \<and> \<bar>x\<bar> \<le> 2 ^ 53 then x
     else if x < 0 then - decimal_of (- x) else decimal_of x)"

text \<open>\<open>None\<close> is the error ``numeric field overflow''; the callers have checked that the number is finite.\<close>

fun numeric_column :: "jsnum \<Rightarrow> int option" where
  "numeric_column (Fin x) =
     (let n = half_away (sql_decimal x * 1000) in if \<bar>n\<bar> < 10 ^ 18 then Some n else None)"
| "numeric_column _ = None"

subsection \<open>Neighbours of a binary64 value round to it\<close>

lemma floor_log2_unique:
  assumes "2 powi k \<le> x" "x < 2 powi (k + 1)"
  shows "floor_log2 x = k"
proof -
  have "0 < x" using assms(1) by (rule less_le_trans [rotated]) simp
  note b = floor_log2_bounds [OF this]
  have "\<not> k + 1 \<le> floor_log2 x"
  proof
    assume "k + 1 \<le> floor_log2 x"
    then have "(2 powi (k + 1) :: rat) \<le> 2 powi floor_log2 x" by (intro power_int_increasing) auto
    then show False using b(1) assms(2) by linarith
  qed
  moreover have "\<not> floor_log2 x + 1 \<le> k"
  proof
    assume "floor_log2 x + 1 \<le> k"
    then have "(2 powi (floor_log2 x + 1) :: rat) \<le> 2 powi k" by (intro power_int_increasing) auto
    then show False using b(2) assms(1) by linarith
  qed
  ultimately show ?thesis by linarith
qed

lemma round_even_near:
  assumes "\<bar>r - of_int m\<bar> < 1 / 2"
  shows "round_even r = m"
proof (cases "of_int m \<le> r")
  case True
  then have "\<lfloor>r\<rfloor> = m" using assms by (intro floor_unique) linarith+
  moreover have "r - of_int m < 1 / 2" using assms by linarith
  ultimately show ?thesis by (simp add: round_even_def)
next
  case False
  have "- (1 / 2) < r - of_int m" using assms by linarith
  with False have "\<lfloor>r\<rfloor> = m - 1" by (intro floor_unique) simp_all
  moreover have "\<not> r - of_int (m - 1) \<le> 1 / 2"
    using \<open>- (1 / 2) < r - of_int m\<close> by (simp del: divide_less_eq_numeral1 less_divide_eq_numeral1)
  ultimately show ?thesis by (auto simp: round_even_def Let_def)
qed

lemma fl_rat_near:
  assumes x: "0 < x" "fl_rat x = x" and normal: "- 1000 \<le> floor_log2 x" and d: "\<bar>d - x\<bar> < x / 2 ^ 54"
  shows "fl_rat d = x"
proof -
  define L where "L = floor_log2 x"
  define u where "u = (2 :: rat) powi (L - 52)"
  define m where "m = round_even (x / u)"
  have L: "- 1000 \<le> L" using normal by (simp add: L_def)
  have u: "0 < u" by (simp add: u_def)
  have pow: "2 powi L = 2 ^ 52 * u" "2 powi (L + 1) = 2 ^ 53 * u" "2 powi (L - 1) = 2 ^ 51 * u" "2 powi (L - 53) = u / 2"
    by (simp_all add: u_def power_int_diff power_int_add)
  have "ulp_exp x = L - 52" using L by (simp add: ulp_exp_def L_def)
  then have xm: "x = of_int m * u" using x by (simp add: fl_rat_def round_pos_def m_def u_def)
  have "2 ^ 52 * u \<le> of_int m * u" "of_int m * u < 2 ^ 53 * u"
    using floor_log2_bounds [OF x(1)] by (simp_all only: xm [symmetric] pow [symmetric] L_def)
  then have m: "(2 ^ 52 :: rat) \<le> of_int m" "of_int m < (2 ^ 53 :: rat)" using u by simp_all
  have "(of_int m :: rat) < of_int (2 ^ 53)" using m(2) by simp
  then have m53: "m \<le> 2 ^ 53 - 1" by (simp only: of_int_less_iff)
  define q where "q = d / u"
  have dq: "d = q * u" using u by (simp add: q_def)
  have "\<bar>q - of_int m\<bar> * u < of_int m / 2 ^ 54 * u"
    using d u by (simp add: dq xm abs_mult flip: left_diff_distrib)
  then have q: "\<bar>q - of_int m\<bar> < of_int m / 2 ^ 54" using u by simp
  have half: "of_int m / 2 ^ 54 < (1 / 2 :: rat)" using m(2) by simp
  have d0: "0 < d"
  proof -
    have "(1 :: rat) \<le> 2 ^ 52" by simp
    then have "0 < q" using q m(1) half by linarith
    then show ?thesis using u by (simp add: dq)
  qed
  show ?thesis
  proof (cases "2 ^ 52 \<le> q")
    case True
    have "(of_int m :: rat) \<le> of_int (2 ^ 53 - 1)" using m53 by (simp only: of_int_le_iff)
    then have "of_int m + 1 \<le> (2 ^ 53 :: rat)" by simp
    then have "q < 2 ^ 53" using q half by linarith
    then have "floor_log2 d = L" using True u by (intro floor_log2_unique) (simp_all add: pow dq)
    then have e: "ulp_exp d = L - 52" using L by (simp add: ulp_exp_def)
    have "round_even q = m" using q half by (intro round_even_near) linarith
    then have "round_pos d = x" by (simp add: round_pos_def e xm q_def flip: u_def)
    then show ?thesis using d0 by (simp add: fl_rat_def)
  next
    case False
    have "(of_int m :: rat) < 2 ^ 52 + 1" using q half False by linarith
    then have "(of_int m :: rat) < of_int (2 ^ 52 + 1)" by simp
    then have m52: "m = 2 ^ 52" using m(1)
      by (simp only: of_int_less_iff) (metis antisym_conv2 of_int_numeral of_int_power of_int_le_iff zless_add1_eq le_less not_less)
    then have "\<bar>q - 2 ^ 52\<bar> < 1 / 4" using q by simp
    then have q52: "2 ^ 52 - 1 / 4 < q" by linarith
    then have "floor_log2 d = L - 1" using False u
      by (intro floor_log2_unique) (simp_all add: pow dq)
    then have e: "ulp_exp d = L - 53" using L by (simp add: ulp_exp_def)
    have "round_even (2 * q) = 2 ^ 53" using q52 False by (intro round_even_near) simp
    moreover have "d / (u / 2) = 2 * q" using u by (simp add: q_def)
    ultimately have "round_pos d = x" by (simp add: round_pos_def e pow(4) xm m52)
    then show ?thesis using d0 by (simp add: fl_rat_def)
  qed
qed

lemma decimal_estimate:
  assumes "- 30 \<le> L" "L \<le> 60"
  shows "10 powi ((L * 30103) div 100000 - 1) \<le> (2 powi L :: rat)"
    "(2 powi (L + 1) :: rat) \<le> 10 powi ((L * 30103) div 100000 + 2)"
proof -
  have "list_all (\<lambda>L. 10 powi ((L * 30103) div 100000 - 1) \<le> (2 powi L :: rat)
      \<and> (2 powi (L + 1) :: rat) \<le> 10 powi ((L * 30103) div 100000 + 2)) [-30..60]"
    by code_simp
  moreover have "L \<in> set [-30..60]" using assms by (simp only: set_upto atLeastAtMost_iff)
  ultimately have "10 powi ((L * 30103) div 100000 - 1) \<le> (2 powi L :: rat)
      \<and> (2 powi (L + 1) :: rat) \<le> 10 powi ((L * 30103) div 100000 + 2)"
    unfolding list_all_iff by (rule bspec)
  then show "10 powi ((L * 30103) div 100000 - 1) \<le> (2 powi L :: rat)"
    "(2 powi (L + 1) :: rat) \<le> 10 powi ((L * 30103) div 100000 + 2)" by blast+
qed

lemma decimal_exponent_bounds:
  assumes "- 30 \<le> floor_log2 x" "floor_log2 x \<le> 60" "0 < x"
  shows "10 powi (decimal_exponent x - 1) \<le> x" "x < 10 powi decimal_exponent x"
proof -
  note b = floor_log2_bounds [OF assms(3)]
  note est = decimal_estimate [OF assms(1,2)]
  show "10 powi (decimal_exponent x - 1) \<le> x" "x < 10 powi decimal_exponent x"
    using b est by (auto simp: decimal_exponent_def Let_def add.commute)
qed


lemma digit_candidate_17:
  assumes x: "0 < x" "fl_rat x = x" and range: "- 30 \<le> floor_log2 x" "floor_log2 x \<le> 60"
  shows "\<exists>(n, k, s) \<in> set (digit_candidates x (decimal_exponent x) 17). fl_rat (of_int n * 10 powi (s - k)) = x"
proof -
  define e where "e = decimal_exponent x"
  define g where "g = (10 :: rat) powi (e - 17)"
  define y where "y = x * 10 powi (17 - e)"
  have g: "0 < g" "10 powi (17 - e) * g = 1" by (simp_all add: g_def power_int_diff field_simps)
  have x_y: "x = y * g" using g(2) by (simp add: y_def mult.assoc)
  have lo: "10 powi (e - 1) \<le> x" using decimal_exponent_bounds(1) [OF range x(1)] by (simp add: e_def)
  moreover have "10 powi (e - 1) = 10 ^ 16 * g" by (simp add: g_def power_int_diff)
  ultimately have y16: "10 ^ 16 \<le> y" using g(1) by (simp add: x_y)
  define m where "m = (if y - of_int \<lfloor>y\<rfloor> \<le> 1/2 then \<lfloor>y\<rfloor> else \<lfloor>y\<rfloor> + 1)"
  have m: "\<bar>of_int m - y\<bar> \<le> 1 / 2" 
  proof (cases "y - of_int \<lfloor>y\<rfloor> \<le> 1/2")
    case True
    then show ?thesis using of_int_floor_le [of y] unfolding m_def by (simp only: if_True)
  next
    case False
    then have "(of_int m :: rat) = of_int \<lfloor>y\<rfloor> + 1" by (simp add: m_def)
    then show ?thesis using floor_correct [of y] False by linarith
  qed
  define c where "c = (if m = 10 ^ 17 then (1, 1, e + 1) else (m, 17 :: int, e))"
  have c: "c \<in> set (digit_candidates x e 17)"
    by (auto simp: digit_candidates_def Let_def c_def m_def y_def)
  have "\<bar>of_int m * g - x\<bar> = \<bar>of_int m - y\<bar> * g" using g(1) by (simp add: x_y abs_mult flip: left_diff_distrib)
  also have "\<dots> \<le> 1 / 2 * g" using m g(1) by (intro mult_right_mono) simp_all
  also have "\<dots> < 10 ^ 16 / 2 ^ 54 * g" using g(1) by simp
  also have "\<dots> = 10 ^ 16 * g / 2 ^ 54" by (rule times_divide_eq_left)
  also have "\<dots> \<le> y * g / 2 ^ 54" by (intro divide_right_mono mult_right_mono y16) (use g(1) in simp_all)
  also have "\<dots> = x / 2 ^ 54" by (simp only: x_y)
  finally have "\<bar>of_int m * g - x\<bar> < x / 2 ^ 54" .
  moreover have "- 1000 \<le> floor_log2 x" using range(1) by linarith
  ultimately have near: "fl_rat (of_int m * g) = x" by (rule fl_rat_near [OF x, rotated])
  have ten: "(10 ^ 17 :: rat) * g = 10 powi e" by (simp add: g_def power_int_diff)
  show ?thesis
  proof (rule bexI [OF _ c [unfolded e_def]])
    show "case c of (n, k, s) \<Rightarrow> fl_rat (of_int n * 10 powi (s - k)) = x"
    proof (cases "m = 10 ^ 17")
      case True
      then have "fl_rat (10 powi e) = x" using near ten by simp
      then show ?thesis by (simp add: c_def True)
    next
      case False
      then show ?thesis using near by (simp add: c_def g_def)
    qed
  qed
qed

text \<open>The decimal printed reads back as the number.\<close>

lemma decimal_of_reads_back:
  assumes x: "0 < x" "fl x = Fin x" and range: "x < 2 ^ 40" "1 / 2 ^ 20 \<le> x"
  shows "fl (decimal_of x) = Fin x"
proof -
  have flx: "fl_rat x = x" using x(2) by (auto simp: fl_def Let_def split: if_splits)
  note b = floor_log2_bounds [OF x(1)]
  have hi: "floor_log2 x \<le> 60"
  proof (rule ccontr)
    assume "\<not> ?thesis"
    then have "(2 powi 60 :: rat) \<le> 2 powi floor_log2 x" by (intro power_int_increasing) auto
    with b(1) range(1) show False by simp
  qed
  have lo: "- 30 \<le> floor_log2 x"
  proof (rule ccontr)
    assume "\<not> ?thesis"
    then have "(2 powi (floor_log2 x + 1) :: rat) \<le> 2 powi (- 30)" by (intro power_int_increasing) auto
    with b(2) have "x < 2 powi (- 30)" by linarith
    with range(2) show False by (simp add: power_int_minus)
  qed
  let ?cs = "concat (map (digit_candidates x (decimal_exponent x)) [1..17])"
  let ?P = "\<lambda>(n, k, s). fl (of_int n * 10 powi (s - k)) = Fin x"
  obtain n k s where c: "(n, k, s) \<in> set (digit_candidates x (decimal_exponent x) 17)"
    "fl_rat (of_int n * 10 powi (s - k)) = x" using digit_candidate_17 [OF x(1) flx lo hi] by auto
  have "fl (of_int n * 10 powi (s - k)) = Fin x" using c(2) x(2) flx by (simp add: fl_def Let_def split: if_splits)
  moreover have "(n, k, s) \<in> set ?cs" using c(1) by auto
  ultimately obtain d where d: "List.find ?P ?cs = Some d" by (cases "List.find ?P ?cs") (auto simp: find_None_iff)
  then have "?P d" by (auto simp: find_Some_iff)
  then show ?thesis by (simp add: decimal_of_def shortest_digits_def Let_def d split: prod.splits)
qed


subsection \<open>Numbers close to a whole number of thousandths\<close>

text \<open>The numbers the program computes with for a quantity: a rounded value at most \<open>d\<close> thousandths away.\<close>

definition close_to :: "rat \<Rightarrow> jsnum \<Rightarrow> int \<Rightarrow> bool" where
  "close_to d q i \<longleftrightarrow> (case q of Fin x \<Rightarrow> fl x = Fin x \<and> \<bar>x * 1000 - of_int i\<bar> \<le> d | _ \<Rightarrow> False)"

lemma close_toE:
  assumes "close_to d q i"
  obtains x where "q = Fin x" "fl x = Fin x" "\<bar>x * 1000 - of_int i\<bar> \<le> d"
  using assms by (cases q) (auto simp: close_to_def)

lemma close_to_mono: "close_to d q i \<Longrightarrow> d \<le> d' \<Longrightarrow> close_to d' q i"
  by (auto simp: close_to_def split: jsnum.splits)

lemma fl_Fin_fixed: "fl x = Fin y \<Longrightarrow> fl y = Fin y"
  using rounded_fl [of x] by simp

lemma fl_Fin_rat: "fl x = Fin y \<Longrightarrow> fl_rat x = y"
  by (auto simp: fl_def Let_def split: if_splits)

lemma tiny_small: "tiny \<le> 1 / 10 ^ 9"
proof -
  have "(2 :: rat) powi (- 1075) \<le> 2 powi (- 40)" by (rule power_int_increasing) simp_all
  also have "\<dots> \<le> 1 / 10 ^ 9" by (simp add: power_int_def field_simps)
  finally show ?thesis by (simp add: tiny_def)
qed

text \<open>An exact value in range, rounded.\<close>

lemma fl_rat_thousandths:
  assumes "\<bar>r\<bar> * 1000 \<le> 10 ^ 14 + 1"
  shows "fl r = Fin (fl_rat r)" "\<bar>fl_rat r * 1000 - r * 1000\<bar> \<le> 1 / 50"
proof -
  show "fl r = Fin (fl_rat r)"
  proof (rule fl_in_range)
    have "\<bar>r\<bar> \<le> 10 ^ 14 + 1" using assms abs_ge_zero [of r] by linarith
    also have "(10 ^ 14 + 1 :: rat) \<le> 2 ^ 47" by simp
    also have "(2 :: rat) ^ 47 \<le> 2 ^ 1000" by (rule power_increasing) simp_all
    finally show "\<bar>r\<bar> \<le> 2 ^ 1000" .
  qed
  have "\<bar>fl_rat r - r\<bar> * 1000 \<le> (\<bar>r\<bar> / 2 ^ 53 + tiny) * 1000"
    by (rule mult_right_mono [OF fl_rat_error]) simp
  also have "\<dots> = \<bar>r\<bar> * 1000 / 2 ^ 53 + tiny * 1000" by (simp add: distrib_right)
  also have "\<dots> \<le> (10 ^ 14 + 1) / 2 ^ 53 + 1 / 10 ^ 9 * 1000"
    by (intro add_mono divide_right_mono mult_right_mono assms tiny_small) simp_all
  also have "\<dots> \<le> 1 / 50" by simp
  finally show "\<bar>fl_rat r * 1000 - r * 1000\<bar> \<le> 1 / 50"
    by (simp only: left_diff_distrib [symmetric] abs_mult abs_numeral)
qed

lemma close_to_fl:
  assumes "\<bar>r * 1000 - of_int i\<bar> \<le> d" "\<bar>i\<bar> \<le> 10 ^ 14" "d \<le> 1"
  shows "close_to (d + 1 / 50) (fl r) i"
proof -
  have "(of_int \<bar>i\<bar> :: rat) \<le> of_int (10 ^ 14)" using assms(2) by (simp only: of_int_le_iff)
  then have "\<bar>of_int i :: rat\<bar> \<le> 10 ^ 14" by simp
  then have "\<bar>r * 1000\<bar> \<le> 10 ^ 14 + 1" using assms(1,3) by linarith
  then have r: "\<bar>r\<bar> * 1000 \<le> 10 ^ 14 + 1" by (simp add: abs_mult)
  note f = fl_rat_thousandths [OF r]
  have "\<bar>fl_rat r * 1000 - of_int i\<bar> \<le> d + 1 / 50" using f(2) assms(1) by linarith
  then show ?thesis using f(1) fl_Fin_fixed [OF f(1)] by (simp add: close_to_def)
qed

lemma close_numeric_number: "\<bar>i\<bar> \<le> 10 ^ 14 \<Longrightarrow> close_to (1 / 50) (numeric_number i) i"
  using close_to_fl [of "of_int i / 1000" i 0] by (simp add: numeric_number_def)

lemma close_to_add:
  assumes "close_to d p i" "close_to e q j" "\<bar>i + j\<bar> \<le> 10 ^ 14" "d + e \<le> 1"
  shows "close_to (d + e + 1 / 50) (num_add p q) (i + j)"
proof -
  obtain x y where x: "p = Fin x" "\<bar>x * 1000 - of_int i\<bar> \<le> d" and y: "q = Fin y" "\<bar>y * 1000 - of_int j\<bar> \<le> e"
    using assms(1,2) by (auto elim!: close_toE)
  have "\<bar>(x + y) * 1000 - of_int (i + j)\<bar> \<le> d + e"
    using x(2) y(2) by (simp only: distrib_right of_int_add)
  then show ?thesis using close_to_fl [OF _ assms(3,4), of "x + y"] by (simp add: x y)
qed

lemma close_to_neg: "close_to d q i \<Longrightarrow> close_to d (num_neg q) (- i)"
proof -
  assume "close_to d q i"
  then obtain x where x: "q = Fin x" "fl x = Fin x" "\<bar>x * 1000 - of_int i\<bar> \<le> d" by (rule close_toE)
  have "fl (- x) = Fin (- x)" using x(2) by (auto simp: fl_def Let_def split: if_splits)
  moreover have "\<bar>- x * 1000 - of_int (- i)\<bar> \<le> d" using x(3) by linarith
  ultimately show ?thesis by (simp add: x(1) close_to_def)
qed

lemma close_to_sub:
  "close_to d p i \<Longrightarrow> close_to e q j \<Longrightarrow> \<bar>i - j\<bar> \<le> 10 ^ 14 \<Longrightarrow> d + e \<le> 1 \<Longrightarrow>
     close_to (d + e + 1 / 50) (num_sub p q) (i - j)"
  using close_to_add [of d p i e "num_neg q" "- j"] close_to_neg [of e q j] by (simp add: num_sub_def)

lemma num_round_near:
  assumes "\<bar>y - of_int i\<bar> < 1 / 2"
  shows "num_round (Fin y) = num_int i"
proof -
  have "of_int i \<le> y + 1 / 2" "y + 1 / 2 < of_int i + 1" using assms by linarith+
  then have "\<lfloor>y + 1 / 2\<rfloor> = i" by (rule floor_unique)
  then show ?thesis by simp
qed

text \<open>\<open>Math.round(q * 1000)\<close>\<close>

lemma fl_rat_moderate:
  assumes "\<bar>r\<bar> \<le> 10 ^ 14 + 1"
  shows "fl r = Fin (fl_rat r)" "\<bar>fl_rat r - r\<bar> \<le> 1 / 50"
proof -
  show "fl r = Fin (fl_rat r)"
  proof (rule fl_in_range)
    have "(10 ^ 14 + 1 :: rat) \<le> 2 ^ 47" by simp
    also have "(2 :: rat) ^ 47 \<le> 2 ^ 1000" by (rule power_increasing) simp_all
    finally show "\<bar>r\<bar> \<le> 2 ^ 1000" using assms by linarith
  qed
  have "\<bar>r\<bar> / 2 ^ 53 \<le> (10 ^ 14 + 1) / 2 ^ 53" by (rule divide_right_mono [OF assms]) simp
  moreover have "(10 ^ 14 + 1) / 2 ^ 53 + 1 / 10 ^ 9 \<le> (1 / 50 :: rat)" by simp
  ultimately show "\<bar>fl_rat r - r\<bar> \<le> 1 / 50" using fl_rat_error [of r] tiny_small by linarith
qed

lemma round_thousandths:
  assumes "close_to d q i" "\<bar>i\<bar> \<le> 10 ^ 14" "d \<le> 1 / 4"
  shows "num_round (num_mul q (Fin 1000)) = num_int i"
proof -
  obtain x where x: "q = Fin x" "\<bar>x * 1000 - of_int i\<bar> \<le> d" using assms(1) by (rule close_toE)
  have "(of_int \<bar>i\<bar> :: rat) \<le> of_int (10 ^ 14)" using assms(2) by (simp only: of_int_le_iff)
  then have "\<bar>of_int i :: rat\<bar> \<le> 10 ^ 14" by simp
  then have "\<bar>x * 1000\<bar> \<le> 10 ^ 14 + 1" using x(2) assms(3) by linarith
  note f = fl_rat_moderate [OF this]
  have "\<bar>fl_rat (x * 1000) - of_int i\<bar> < 1 / 2" using f(2) x(2) assms(3) by linarith
  then have "num_round (Fin (fl_rat (x * 1000))) = num_int i" by (rule num_round_near)
  then show ?thesis by (simp only: x(1) num_mul.simps f(1))
qed

text \<open>A number close to a positive number of thousandths is stored as it.\<close>

lemma half_away_near:
  assumes "\<bar>r - of_int n\<bar> < 1 / 2" "0 \<le> r"
  shows "half_away r = n"
proof -
  have "of_int n \<le> r + 1 / 2" "r + 1 / 2 < of_int n + 1" using assms(1) by linarith+
  then have "\<lfloor>r + 1 / 2\<rfloor> = n" by (rule floor_unique)
  then show ?thesis using assms(2) by (simp add: half_away_def)
qed

lemma sql_decimal_close:
  assumes "close_to d q i" "0 < i" "i \<le> 10 ^ 14" "d \<le> 1 / 4"
  obtains x where "q = Fin x" "0 \<le> sql_decimal x" "\<bar>sql_decimal x * 1000 - of_int i\<bar> < 1 / 2"
proof -
  obtain x where x: "q = Fin x" "fl x = Fin x" "\<bar>x * 1000 - of_int i\<bar> \<le> d" using assms(1) by (rule close_toE)
  have "(of_int i :: rat) \<le> of_int (10 ^ 14)" "(of_int 1 :: rat) \<le> of_int i"
    using assms(2,3) by (simp_all only: of_int_le_iff)
  then have i: "(of_int i :: rat) \<le> 10 ^ 14" "(1 :: rat) \<le> of_int i" by simp_all
  have x_lo: "3 / 4 \<le> x * 1000" and x_hi: "x * 1000 \<le> 10 ^ 14 + 1" using x(3) i assms(4) by linarith+
  have x0: "0 < x" using x_lo by linarith
  define c where "c = (if of_int \<lfloor>x\<rfloor> = x \<and> \<bar>x\<bar> \<le> 2 ^ 53 then x else decimal_of x)"
  have "fl c = Fin x"
  proof (cases "of_int \<lfloor>x\<rfloor> = x \<and> \<bar>x\<bar> \<le> 2 ^ 53")
    case True
    then show ?thesis using x(2) unfolding c_def by (simp only: if_P)
  next
    case False
    have "(10 ^ 14 + 1 :: rat) < 2 ^ 40 * 1000" "(1000 :: rat) / 2 ^ 20 \<le> 3 / 4" by simp_all
    then have "x < 2 ^ 40" "1 / 2 ^ 20 \<le> x" using x_lo x_hi by linarith+
    from decimal_of_reads_back [OF x0 x(2) this] show ?thesis unfolding c_def using False by (simp only: if_not_P if_False)
  qed
  then have cx: "fl_rat c = x" by (rule fl_Fin_rat)
  have c0: "0 \<le> c"
  proof (rule ccontr)
    assume "\<not> 0 \<le> c"
    then have "fl_rat c \<le> 0" by (intro fl_rat_nonpos) simp
    then show False using cx x0 by simp
  qed
  have "\<bar>x - c\<bar> \<le> c / 2 ^ 53 + tiny" using fl_rat_error [of c] c0 by (simp only: cx abs_of_nonneg)
  moreover have "c / 2 ^ 53 \<le> c / 10 ^ 15" using c0 by (intro divide_left_mono) simp_all
  ultimately have xc: "\<bar>x - c\<bar> \<le> c / 10 ^ 15 + 1 / 10 ^ 9" using tiny_small by linarith
  have c_hi: "c * 1000 \<le> 2 * 10 ^ 14"
  proof (rule ccontr)
    assume *: "\<not> ?thesis"
    have "c / 10 ^ 15 \<le> c / 10" using c0 by (intro divide_left_mono) simp_all
    then have "c - c / 10 - 1 / 10 ^ 9 \<le> x" using xc by linarith
    then have "(c * 1000) * 9 / 10 - 1 \<le> 10 ^ 14 + 1" using x_hi by simp
    with * show False by simp
  qed
  then have "c / 10 ^ 15 * 1000 \<le> 2 / 10" by simp
  moreover have "\<bar>x * 1000 - c * 1000\<bar> = \<bar>x - c\<bar> * 1000"
    by (simp only: left_diff_distrib [symmetric] abs_mult abs_numeral)
  moreover have "\<bar>x - c\<bar> * 1000 \<le> (c / 10 ^ 15 + 1 / 10 ^ 9) * 1000" by (rule mult_right_mono [OF xc]) simp
  ultimately have "\<bar>x * 1000 - c * 1000\<bar> \<le> 2 / 10 + 1 / 10 ^ 6" by (simp add: distrib_right)
  moreover have "(2 / 10 + 1 / 10 ^ 6 + 1 / 4 :: rat) < 1 / 2" by simp
  ultimately have "\<bar>c * 1000 - of_int i\<bar> < 1 / 2" using x(3) assms(4) by linarith
  moreover have "sql_decimal x = c"
    using x0 unfolding c_def sql_decimal_def by (simp only: if_not_P not_less less_imp_le)
  ultimately show thesis using c0 by (intro that [OF x(1)]) simp_all
qed

lemma numeric_column_close:
  assumes "close_to d q i" "0 < i" "i \<le> 10 ^ 14" "d \<le> 1 / 4"
  shows "numeric_column q = Some i"
proof -
  obtain x where x: "q = Fin x" "0 \<le> sql_decimal x" "\<bar>sql_decimal x * 1000 - of_int i\<bar> < 1 / 2"
    using assms by (rule sql_decimal_close)
  have "half_away (sql_decimal x * 1000) = i" using x by (intro half_away_near) simp_all
  moreover have "\<bar>i\<bar> < 10 ^ 18" using assms(2,3) by simp
  ultimately show ?thesis unfolding x(1) numeric_column.simps Let_def by (simp only: if_P)
qed

lemma numeric_column_int:
  assumes "0 < k" "k \<le> 10 ^ 12"
  shows "numeric_column (num_int k) = Some (1000 * k)"
proof -
  have h: "half_away (of_int k * 1000) = 1000 * k" using assms(1) by (intro half_away_near) simp_all
  have "k \<le> 2 ^ 53" using assms(2) by simp
  then have "(of_int k :: rat) \<le> of_int (2 ^ 53)" by (simp only: of_int_le_iff)
  then have c: "of_int \<lfloor>of_int k :: rat\<rfloor> = (of_int k :: rat) \<and> \<bar>of_int k :: rat\<bar> \<le> 2 ^ 53" using assms(1) by simp
  have "\<bar>1000 * k\<bar> < 10 ^ 18" using assms by simp
  then show ?thesis unfolding numeric_column.simps sql_decimal_def Let_def if_P [OF c] h by (rule if_P)
qed

lemma close_to_unique: "close_to d q i \<Longrightarrow> close_to e q j \<Longrightarrow> d + e < 1 \<Longrightarrow> i = j"
proof -
  assume a: "close_to d q i" "close_to e q j" "d + e < 1"
  then obtain x where "\<bar>x * 1000 - of_int i\<bar> \<le> d" "\<bar>x * 1000 - of_int j\<bar> \<le> e"
    by (auto elim!: close_toE)
  then have "\<bar>of_int i - of_int j :: rat\<bar> < 1" using a(3) by linarith
  then have "\<bar>of_int (i - j) :: rat\<bar> < of_int 1" by simp
  then have "\<bar>i - j\<bar> < 1" by (simp only: of_int_abs [symmetric] of_int_less_iff)
  then show ?thesis by simp
qed

lemma close_to_le: "close_to d p i \<Longrightarrow> close_to e q j \<Longrightarrow> d + e < 1 \<Longrightarrow> num_le p q \<Longrightarrow> i \<le> j"
proof -
  assume a: "close_to d p i" "close_to e q j" "d + e < 1" "num_le p q"
  then obtain x y where "x \<le> y" "\<bar>x * 1000 - of_int i\<bar> \<le> d" "\<bar>y * 1000 - of_int j\<bar> \<le> e"
    by (auto elim!: close_toE)
  then have "(of_int i :: rat) < of_int j + 1" using a(3) by linarith
  then have "(of_int i :: rat) < of_int (j + 1)" by simp
  then show ?thesis by (simp only: of_int_less_iff zle_add1_eq_le [symmetric])
qed

lemma close_to_positive: "close_to d q i \<Longrightarrow> d \<le> 1 / 4 \<Longrightarrow> num_lt (Fin 0) q \<Longrightarrow> 0 \<le> i"
proof -
  assume a: "close_to d q i" "d \<le> 1 / 4" "num_lt (Fin 0) q"
  then obtain x where "0 < x" "\<bar>x * 1000 - of_int i\<bar> \<le> d" by (auto elim!: close_toE)
  then have "(of_int (- 1) :: rat) < of_int i" using a(2) by simp
  then have "- 1 < i" by (simp only: of_int_less_iff)
  then show ?thesis by simp
qed

end
