(* ===== verification/Store_Stock.thy ===== *)
theory Store_Stock
  imports PG_Numeric JS_Date
begin

section \<open>The store: receipts, requests and issues of stock\<close>

text \<open>
  \<^verbatim>\<open>packages/db/src/store.ts\<close>: \<open>receiveStockWithClient\<close>, \<open>issueRequisitionWithClient\<close> and the operations built
  on them, the creation and cancellation of requests; \<^verbatim>\<open>store-storage-locations.ts\<close>, \<^verbatim>\<open>store-warranty.ts\<close> and
  \<^verbatim>\<open>store-item-codes.ts\<close>. The tables of the schema \<open>store\<close>, for one organization, are the record \<open>store_db\<close>; an
  operation is a transaction, its result is the tables after \<open>COMMIT\<close> or the error after \<open>ROLLBACK\<close>. Check
  constraints, unique indexes and the trigger against negative balances are those of the migrations.
  Quantities are stored as thousandths; the program computes with them in binary64, as \<open>PG_Numeric\<close> says.
  Columns that only record who changed a row and when are left out.

  What the database supplies is the record \<open>store_env\<close>: the instant \<open>now()\<close>, the current year and date,
  the reading of a date text, and the identifiers it generates (the \<open>n\<close>-th one is \<open>ev_uuid env n\<close>).
\<close>

subsection \<open>Tables\<close>

datatype tracking_mode = Serialized | Consumable
datatype location_type = Store_Location | Department_Location | Unit_Location
datatype order_type = Goods | Repair
datatype order_status = Order_Open | Partially_Received | Received | Order_Cancelled
datatype request_status = Request_Pending | Partially_Issued | Fulfilled | Request_Cancelled
datatype fulfillment_kind = Department_Use | Person_Use | Store_Transfer
datatype holder_type = Held_Department | Held_Machine | Held_Person | Held_Store | Held_Supplier | Held_Unit | Held_Vendor
datatype unit_status = Unit_Available | Unit_Assigned | Unit_Maintenance | Unit_Broken | Unit_Scrapped | Unit_Lost
datatype movement_type = Move_Receipt | Move_Issue | Move_Return | Move_In | Move_Out | Move_Adjustment | Move_Scrap | Move_Loss
datatype visit_status = Visit_Open | Visit_Dispatched | Visit_Returned | Visit_Passed | Visit_Failed | Visit_Cancelled
datatype operation_type = Stock_Transfer | Stock_Consumption

record store_item =
  si_id :: string
  si_type_code :: string
  si_name :: string
  si_tracking :: tracking_mode
  si_next_number :: int
  si_active :: bool

record store_location =
  sl_id :: string
  sl_code :: string
  sl_name :: string
  sl_type :: location_type
  sl_active :: bool
  sl_store :: "string option"

record accountable_store =
  sa_id :: string
  sa_code :: string
  sa_name :: string
  sa_kind :: string
  sa_active :: bool
  sa_default :: "string option"
  sa_floor :: "string option"

record store_order =
  so_id :: string
  so_number :: string
  so_supplier :: string
  so_type :: order_type
  so_issued :: bool
  so_status :: order_status

record order_line =
  ol_id :: string
  ol_order :: string
  ol_item :: string
  ol_ordered :: int
  ol_received :: int
  ol_price :: int

record store_receipt =
  sr_id :: string
  sr_number :: string
  sr_line :: string
  sr_order :: string
  sr_location :: string
  sr_supplier :: string
  sr_bill :: "string option"
  sr_bill_date :: "int option"
  sr_received_by :: "string option"

record receipt_line =
  rl_id :: string
  rl_receipt :: string
  rl_order_line :: string
  rl_item :: string
  rl_quantity :: int
  rl_price :: int
  rl_warranty_until :: "int option"
  rl_warranty_period :: "string option"

record store_unit =
  su_id :: string
  su_item :: string
  su_receipt_line :: "string option"
  su_code :: string
  su_name :: string
  su_serial :: "string option"
  su_status :: unit_status
  su_location :: "string option"
  su_store :: string
  su_holder_type :: holder_type
  su_holder_reference :: "string option"
  su_holder_name :: "string option"
  su_machine :: "string option"
  su_vendor :: "string option"
  su_warranty_until :: "int option"
  su_warranty_period :: "string option"
  su_acquired :: "int option"
  su_installed :: "int option"
  su_stabilizer :: "string option"
  su_mcb :: "string option"
  su_make :: "string option"
  su_created :: int

type_synonym holder = "holder_type \<times> string option \<times> string option"

record stock_movement =
  sm_item :: string
  sm_unit :: "string option"
  sm_location :: string
  sm_receipt_line :: "string option"
  sm_request :: "string option"
  sm_type :: movement_type
  sm_quantity :: int
  sm_from :: "holder option"
  sm_to :: "holder option"
  sm_at :: int
  sm_by :: "string option"
  sm_remark :: "string option"
  sm_operation :: "string option"

record request_header =
  rh_id :: string
  rh_number :: string
  rh_location :: string
  rh_department :: string
  rh_requested_by :: string
  rh_required_on :: "int option"
  rh_purpose :: "string option"
  rh_kind :: fulfillment_kind
  rh_receiving_store :: "string option"
  rh_recipient_reference :: "string option"
  rh_recipient_name :: "string option"

record store_request =
  sq_id :: string
  sq_header :: string
  sq_number :: string
  sq_item :: string
  sq_unit :: "string option"
  sq_location :: string
  sq_requested :: int
  sq_issued :: int
  sq_status :: request_status

record repair_item =
  rp_unit :: string
  rp_order :: string
  rp_open :: bool
  rp_department :: "string option"
  rp_request :: "string option"

record store_department =
  sd_id :: string
  sd_code :: string
  sd_name :: string
  sd_active :: bool

record storage_place =
  st_unit :: string
  st_store :: string
  st_location :: string
  st_updated :: int

record store_machine =
  mc_id :: string
  mc_number :: string
  mc_name :: "string option"
  mc_active :: bool
  mc_floor :: "string option"

record store_vendor =
  vd_id :: string
  vd_code :: string
  vd_name :: string
  vd_active :: bool

record gauge_member =
  gm_unit :: string
  gm_removed :: bool
  gm_active :: bool

record calibration_visit =
  cv_unit :: string
  cv_schedule :: string
  cv_status :: visit_status
  cv_created :: int
  cv_id :: string

record stock_operation =
  op_id :: string
  op_type :: operation_type
  op_item :: string
  op_source :: string
  op_destination :: "string option"
  op_quantity :: int
  op_on :: int
  op_remark :: "string option"
  op_request :: "string option"

record handover =
  ho_unit :: string
  ho_source :: string
  ho_destination :: string
  ho_by :: "string option"
  ho_remark :: "string option"
  ho_request :: "string option"

text \<open>\<open>db_broken\<close>: the units with a breakdown in progress. \<open>db_occupied\<close>: the tooling the active setups
  occupy, by asset code and production floor. \<open>db_refreshes\<close> counts the refreshes queued with
  \<open>queueDashboardRefresh\<close>.\<close>

record store_db =
  db_items :: "store_item list"
  db_locations :: "store_location list"
  db_stores :: "accountable_store list"
  db_orders :: "store_order list"
  db_order_lines :: "order_line list"
  db_receipts :: "store_receipt list"
  db_receipt_lines :: "receipt_line list"
  db_bills :: "(string \<times> string) list"
  db_units :: "store_unit list"
  db_movements :: "stock_movement list"
  db_headers :: "request_header list"
  db_requests :: "store_request list"
  db_repairs :: "repair_item list"
  db_departments :: "store_department list"
  db_machines :: "store_machine list"
  db_vendors :: "store_vendor list"
  db_places :: "storage_place list"
  db_members :: "gauge_member list"
  db_visits :: "calibration_visit list"
  db_broken :: "string list"
  db_occupied :: "(string \<times> string \<times> int) list"
  db_operations :: "stock_operation list"
  db_handovers :: "handover list"
  db_counters :: "((string \<times> int) \<times> nat) list"
  db_generated :: nat
  db_refreshes :: nat

record store_env =
  ev_now :: int
  ev_year :: int
  ev_today :: int
  ev_date :: "string \<Rightarrow> int option"
  ev_uuid :: "nat \<Rightarrow> string"

subsection \<open>Helpers\<close>

definition required_store_text :: "string option \<Rightarrow> string \<Rightarrow> string js_result" where
  "required_store_text value label = (case optional_text value of
      None \<Rightarrow> throw (label @ '' is required.'')
    | Some t \<Rightarrow> return t)"

definition positive_quantity :: "jsnum \<Rightarrow> jsnum js_result" where
  "positive_quantity value =
     (if \<not> is_finite value \<or> num_le value (Fin 0) then throw ''Quantity must be greater than zero.''
      else return value)"

definition generate_id :: "store_env \<Rightarrow> store_db \<Rightarrow> string \<times> store_db" where
  "generate_id env db = (ev_uuid env (db_generated db), db\<lparr>db_generated := Suc (db_generated db)\<rparr>)"

definition next_document_number :: "store_env \<Rightarrow> string \<Rightarrow> string \<Rightarrow> store_db \<Rightarrow> string \<times> store_db" where
  "next_document_number env counter_key prefix db =
     (let n = (case map_of (db_counters db) (counter_key, ev_year env) of None \<Rightarrow> 1 | Some v \<Rightarrow> v + 1)
      in (prefix @ ''-'' @ show_int (ev_year env) @ ''-'' @ pad_start 6 (CHR ''0'') (show_nat n),
          db\<lparr>db_counters := put (counter_key, ev_year env) n (db_counters db)\<rparr>))"

definition store_unit_id :: "string \<Rightarrow> nat \<Rightarrow> string" where
  "store_unit_id type_code number = type_code @ ''-'' @ pad_start 4 (CHR ''0'') (show_nat number)"

text \<open>\<open>NULLIF($n, '')::date\<close>\<close>

definition date_param :: "store_env \<Rightarrow> string option \<Rightarrow> int option js_result" where
  "date_param env value = (case value of
      None \<Rightarrow> return None
    | Some s \<Rightarrow> if s = [] then return None
        else (case ev_date env s of None \<Rightarrow> throw ''invalid input syntax for type date'' | Some d \<Rightarrow> return (Some d)))"

text \<open>A number sent to a \<open>numeric(18,3)\<close> column.\<close>

definition numeric_param :: "jsnum \<Rightarrow> int js_result" where
  "numeric_param value = (case numeric_column value of None \<Rightarrow> throw ''numeric field overflow'' | Some n \<Rightarrow> return n)"

definition is_warranty_day_count :: "string option \<Rightarrow> bool" where
  "is_warranty_day_count value = (case optional_text value of
      None \<Rightarrow> False
    | Some period \<Rightarrow> list_all is_digit period \<and> is_safe_integer (num_of_text period)
        \<and> num_lt (Fin 0) (num_of_text period))"

definition warranty_period_days :: "string option \<Rightarrow> int option js_result" where
  "warranty_period_days value = (case optional_text value of
      None \<Rightarrow> return None
    | Some period \<Rightarrow>
        if \<not> is_warranty_day_count value then throw ''Warranty Period must be a positive whole number of days.''
        else return (Some (read_nat period)))"

text \<open>A JavaScript date holds at most \<open>8.64e15\<close> milliseconds, and \<open>toISOString\<close> writes a year above 9999 with a
  sign and six digits, which the pattern of a calendar date refuses.\<close>

definition warranty_end_date :: "string option \<Rightarrow> int option \<Rightarrow> string option js_result" where
  "warranty_end_date installed_on days = (case (installed_on, days) of
      (Some text, Some n) \<Rightarrow>
        if text = [] then return None
        else (case parse_day text of
            None \<Rightarrow> throw ''Installation Date must be a valid calendar date.''
          | Some d \<Rightarrow> if plain_day (d + n) then return (Some (iso_day (d + n)))
              else throw ''Warranty Period is too large.'')
    | _ \<Rightarrow> return None)"

subsection \<open>Where stock is put\<close>

definition location_of :: "store_db \<Rightarrow> string \<Rightarrow> store_location option" where
  "location_of db l = List.find (\<lambda>loc. sl_id loc = l) (db_locations db)"

definition store_of :: "store_db \<Rightarrow> string option \<Rightarrow> accountable_store option" where
  "store_of db s = (case s of None \<Rightarrow> None | Some i \<Rightarrow> List.find (\<lambda>a. sa_id a = i) (db_stores db))"

definition latest :: "int list \<Rightarrow> int option" where
  "latest ts = (case ts of [] \<Rightarrow> None | t # ts' \<Rightarrow> Some (fold max ts' t))"

definition stored_units :: "store_db \<Rightarrow> string \<Rightarrow> (string \<times> int) list" where
  "stored_units db item = concat (map (\<lambda>u. case su_location u of
        None \<Rightarrow> []
      | Some l \<Rightarrow>
          if su_item u = item \<and> su_holder_type u = Held_Store \<and> su_status u \<notin> {Unit_Scrapped, Unit_Lost}
             \<and> (case location_of db l of None \<Rightarrow> False | Some held \<Rightarrow> sl_store held = Some (su_store u))
          then (let place = List.find (\<lambda>p. st_unit p = su_id u \<and> st_store p = su_store u) (db_places db);
                    there = (case place of None \<Rightarrow> l | Some p \<Rightarrow> st_location p);
                    base = (case place of None \<Rightarrow> su_created u | Some p \<Rightarrow> st_updated p);
                    moves = map sm_at (filter (\<lambda>m. sm_unit m = Some (su_id u) \<and> sm_location m = there
                      \<and> (case sm_to m of Some (Held_Store, _) \<Rightarrow> True | _ \<Rightarrow> False) \<and> 0 \<le> sm_quantity m) (db_movements db))
                in [(there, fold max (if moves = [] then [su_created u] else moves) base)])
          else []) (db_units db))"

definition consumable_moves :: "store_db \<Rightarrow> string \<Rightarrow> string \<Rightarrow> stock_movement list" where
  "consumable_moves db item l = filter (\<lambda>m. sm_item m = item \<and> sm_unit m = None \<and> sm_location m = l) (db_movements db)"

definition consumable_balance :: "store_db \<Rightarrow> string \<Rightarrow> string \<Rightarrow> int" where
  "consumable_balance db item l = sum_list (map sm_quantity (consumable_moves db item l))"

definition item_of :: "store_db \<Rightarrow> string \<Rightarrow> store_item option" where
  "item_of db i = List.find (\<lambda>it. si_id it = i) (db_items db)"

definition last_stored :: "store_db \<Rightarrow> string \<Rightarrow> string \<Rightarrow> int option" where
  "last_stored db item l = latest (map snd (filter (\<lambda>(there, t). there = l) (stored_units db item))
     @ (case item_of db item of
          None \<Rightarrow> []
        | Some it \<Rightarrow> if si_tracking it = Consumable \<and> 0 < consumable_balance db item l
            then map sm_at (filter (\<lambda>m. 0 < sm_quantity m) (consumable_moves db item l)) else []))"

definition storage_candidate :: "store_db \<Rightarrow> string \<Rightarrow> store_location \<Rightarrow> bool" where
  "storage_candidate db store loc \<longleftrightarrow> sl_active loc \<and> sl_type loc = Store_Location \<and> sl_store loc = Some store
     \<and> (case store_of db (Some store) of None \<Rightarrow> False | Some a \<Rightarrow> sa_active a)"

text \<open>The order of the query, least significant key first, by stable sorting.\<close>

definition storage_order :: "store_db \<Rightarrow> string \<Rightarrow> string \<Rightarrow> store_location list \<Rightarrow> store_location list" where
  "storage_order db item store =
     sort_key (\<lambda>l. if last_stored db item (sl_id l) = None then 1 else 0 :: nat)
     \<circ> sort_key (\<lambda>l. case last_stored db item (sl_id l) of None \<Rightarrow> 0 | Some t \<Rightarrow> - t)
     \<circ> sort_key (\<lambda>l. if (case store_of db (Some store) of None \<Rightarrow> False | Some a \<Rightarrow> sa_default a = Some (sl_id l)) then 0 else 1 :: nat)
     \<circ> sort_key sl_id"

definition resolve_storage_location ::
    "store_db \<Rightarrow> string \<Rightarrow> string \<Rightarrow> string option \<Rightarrow> store_location js_result" where
  "resolve_storage_location db item store location =
     (let candidates = filter (storage_candidate db store) (db_locations db);
          rows = (case location of
              None \<Rightarrow> storage_order db item store candidates
            | Some l \<Rightarrow> if l = [] then storage_order db item store candidates
                else filter (\<lambda>loc. sl_id loc = l) candidates)
      in case rows of
           [] \<Rightarrow> throw ''Select an active storage location belonging to the receiving Store.''
         | loc # _ \<Rightarrow> return loc)"


subsection \<open>Rows that are inserted\<close>

text \<open>The check of the column and the trigger \<open>prevent_negative_consumable_balance\<close>.\<close>

definition insert_movement :: "stock_movement \<Rightarrow> store_db \<Rightarrow> store_db js_result" where
  "insert_movement m db =
     (if sm_unit m = None \<and> sm_quantity m < 0
         \<and> consumable_balance db (sm_item m) (sm_location m) + sm_quantity m < 0
      then throw ''Insufficient consumable quantity at Store location.''
      else if sm_quantity m = 0 then throw ''new row violates check constraint of store.stock_movements''
      else return (db\<lparr>db_movements := db_movements db @ [m]\<rparr>))"

text \<open>The trigger \<open>remember_asset_storage_location\<close>: a unit put into a rack is remembered there, and one put into the
  default location of its store is forgotten. \<open>before\<close> is the row before an update.\<close>

definition default_of_store :: "store_db \<Rightarrow> string \<Rightarrow> string option" where
  "default_of_store db s = Option.bind (store_of db (Some s)) sa_default"

definition put_place :: "storage_place \<Rightarrow> storage_place list \<Rightarrow> storage_place list" where
  "put_place p ps = filter (\<lambda>q. \<not> (st_unit q = st_unit p \<and> st_store q = st_store p)) ps @ [p]"

definition remember_place :: "store_unit option \<Rightarrow> store_unit \<Rightarrow> int \<Rightarrow> store_db \<Rightarrow> store_db" where
  "remember_place before u now db = (case su_location u of
      None \<Rightarrow> db
    | Some l \<Rightarrow>
        if su_holder_type u \<noteq> Held_Store then db
        else let places = filter (\<lambda>p. \<not> (st_unit p = su_id u \<and> default_of_store db (st_store p) = Some l)) (db_places db)
             in if (case before of None \<Rightarrow> False | Some b \<Rightarrow> su_location b = su_location u \<and> su_holder_type b = su_holder_type u)
                then db\<lparr>db_places := places\<rparr>
                else (case location_of db l of
                    None \<Rightarrow> db\<lparr>db_places := places\<rparr>
                  | Some loc \<Rightarrow> (case sl_store loc of
                        None \<Rightarrow> db\<lparr>db_places := places\<rparr>
                      | Some s \<Rightarrow>
                          if sl_type loc = Store_Location \<and> default_of_store db s \<notin> {None, Some l}
                          then db\<lparr>db_places := put_place \<lparr>st_unit = su_id u, st_store = s, st_location = l, st_updated = now\<rparr> places\<rparr>
                          else db\<lparr>db_places := places\<rparr>)))"

definition insert_unit :: "store_unit \<Rightarrow> store_db \<Rightarrow> store_db js_result" where
  "insert_unit u db =
     (if to_lower (su_code u) \<in> to_lower ` su_code ` set (db_units db)
      then throw ''duplicate key value violates unique constraint store_assets_code_unique''
      else return (remember_place None u (su_created u) (db\<lparr>db_units := db_units db @ [u]\<rparr>)))"

definition unit_with_code :: "store_db \<Rightarrow> string \<Rightarrow> store_unit option" where
  "unit_with_code db code = List.find (\<lambda>u. to_lower (su_code u) = to_lower code) (db_units db)"

definition stabilizer_asset_id :: "store_db \<Rightarrow> string option \<Rightarrow> string option js_result" where
  "stabilizer_asset_id db unit_id = (case optional_text unit_id of
      None \<Rightarrow> return None
    | Some code \<Rightarrow> (case unit_with_code db code of
          None \<Rightarrow> throw (''Stabiliser Unit ID '' @ code @ '' was not found.'')
        | Some u \<Rightarrow> return (Some (su_id u))))"

definition mcb_unit_code :: "store_db \<Rightarrow> string option \<Rightarrow> string option js_result" where
  "mcb_unit_code db unit_id = (case optional_text unit_id of
      None \<Rightarrow> return None
    | Some code \<Rightarrow> (case unit_with_code db code of
          None \<Rightarrow> throw (''MCB Unit ID '' @ code @ '' was not found.'')
        | Some u \<Rightarrow> return (Some (su_code u))))"

subsection \<open>Receiving a purchase order\<close>

datatype quantity_input = Quantity jsnum | Remaining

record unit_details =
  ud_installed_on :: "string option"
  ud_make :: "string option"
  ud_serial :: "string option"
  ud_mcb :: "string option"
  ud_stabilizer :: "string option"

record receipt_line_input =
  li_location :: "string option"
  li_serials :: "string option list"
  li_line :: string
  li_quantity :: quantity_input
  li_details :: "unit_details option"

record receipt_input =
  in_bill_date :: "string option"
  in_bill_number :: "string option"
  in_expected_order :: "string option"
  in_lines :: "receipt_line_input list"
  in_location :: "string option"
  in_received_by :: "string option"
  in_warranty_period :: "string option"
  in_warranty_until :: "string option"

text \<open>The order line locked by the query, with its order and its item.\<close>

type_synonym order_row = "order_line \<times> store_order \<times> store_item"

definition order_of :: "store_db \<Rightarrow> string \<Rightarrow> store_order option" where
  "order_of db i = List.find (\<lambda>o'. so_id o' = i) (db_orders db)"

definition order_rows :: "store_db \<Rightarrow> string list \<Rightarrow> order_row list" where
  "order_rows db ids = concat (map (\<lambda>l. case (order_of db (ol_order l), item_of db (ol_item l)) of
        (Some o', Some it) \<Rightarrow> [(l, o', it)]
      | _ \<Rightarrow> []) (sort_key ol_id (filter (\<lambda>l. ol_id l \<in> set ids) (db_order_lines db))))"

definition remaining_quantity :: "int \<Rightarrow> int \<Rightarrow> jsnum" where
  "remaining_quantity whole taken = num_sub (numeric_number whole) (numeric_number taken)"

type_synonym prepared_line = "order_row \<times> receipt_line_input \<times> jsnum"

definition prepare_line :: "receipt_line_input list \<Rightarrow> order_row \<Rightarrow> prepared_line js_result" where
  "prepare_line lines row = (case row of (l, o', it) \<Rightarrow>
     (case List.find (\<lambda>i. li_line i = ol_id l) lines of
        None \<Rightarrow> throw ''line without input''
      | Some input \<Rightarrow>
          let remaining = remaining_quantity (ol_ordered l) (ol_received l)
          in if num_le remaining (Fin 0)
             then throw (''Purchase Order '' @ so_number o' @ '' has no remaining quantity for this line.'')
             else bind_result (positive_quantity (case li_quantity input of Remaining \<Rightarrow> remaining | Quantity q \<Rightarrow> q)) (\<lambda>quantity.
               if num_lt remaining quantity
               then throw (''Receipt quantity exceeds the remaining Purchase Order quantity of '' @ num_text remaining @ ''.'')
               else if si_tracking it = Serialized \<and> \<not> is_integer quantity
               then throw ''Non Consumable quantity must be a whole number.''
               else if li_details input \<noteq> None \<and> (si_tracking it \<noteq> Serialized \<or> quantity \<noteq> Fin 1)
               then throw ''Individual Unit ID details require a single Non Consumable unit.''
               else return (row, input, quantity))))"

definition whole_units :: "jsnum \<Rightarrow> nat" where
  "whole_units q = (case q of Fin x \<Rightarrow> nat \<lfloor>x\<rfloor> | _ \<Rightarrow> 0)"

definition receipt_movement ::
    "store_env \<Rightarrow> receipt_input \<Rightarrow> store_location \<Rightarrow> string \<Rightarrow> string \<Rightarrow> string option \<Rightarrow> int \<Rightarrow> stock_movement" where
  "receipt_movement env input loc item receipt_line unit_id quantity =
     \<lparr>sm_item = item, sm_unit = unit_id, sm_location = sl_id loc, sm_receipt_line = Some receipt_line,
      sm_request = None, sm_type = Move_Receipt, sm_quantity = quantity, sm_from = None,
      sm_to = Some (Held_Store, Some (sl_code loc), Some (sl_name loc)), sm_at = ev_now env,
      sm_by = optional_text (in_received_by input), sm_remark = None, sm_operation = None\<rparr>"

definition unit_serial :: "receipt_line_input \<Rightarrow> nat \<Rightarrow> string option" where
  "unit_serial li index = (case optional_text (Option.bind (li_details li) ud_serial) of
      Some s \<Rightarrow> Some s
    | None \<Rightarrow> if index < length (li_serials li) then optional_text (li_serials li ! index) else None)"

text \<open>\<open>for (let index = 0; index < orderLine.quantity; index += 1)\<close>: one unit and one movement per index.\<close>

definition receive_unit ::
    "store_env \<Rightarrow> receipt_input \<Rightarrow> store_location \<Rightarrow> string \<Rightarrow> int option \<Rightarrow> prepared_line \<Rightarrow> string
       \<Rightarrow> string option \<Rightarrow> string option \<Rightarrow> int \<Rightarrow> nat \<Rightarrow> store_db \<Rightarrow> (string \<times> store_db) js_result" where
  "receive_unit env input loc store warranty_days line receipt_line stabilizer mcb first index db =
     (case line of ((l, o', it), li, quantity) \<Rightarrow>
        let code = store_unit_id (si_type_code it) (nat (first + int index));
            installed = Option.bind (li_details li) ud_installed_on
        in bind_result (warranty_end_date installed warranty_days) (\<lambda>until_text.
           bind_result (date_param env until_text) (\<lambda>until.
           bind_result (date_param env (in_bill_date input)) (\<lambda>acquired.
           bind_result (date_param env installed) (\<lambda>installed_day.
           (case generate_id env db of (unit_id, db1) \<Rightarrow>
             bind_result (insert_unit \<lparr>su_id = unit_id, su_item = ol_item l, su_receipt_line = Some receipt_line,
                 su_code = code, su_name = si_name it, su_serial = unit_serial li index, su_status = Unit_Available,
                 su_location = Some (sl_id loc), su_store = store, su_holder_type = Held_Store,
                 su_holder_reference = None, su_holder_name = None, su_machine = None, su_vendor = None,
                 su_warranty_until = until, su_warranty_period = map_option show_int warranty_days,
                 su_acquired = Some (case acquired of None \<Rightarrow> ev_today env | Some d \<Rightarrow> d),
                 su_installed = installed_day, su_stabilizer = stabilizer, su_mcb = mcb,
                 su_make = optional_text (Option.bind (li_details li) ud_make), su_created = ev_now env\<rparr> db1) (\<lambda>db2.
             bind_result (insert_movement (receipt_movement env input loc (ol_item l) receipt_line (Some unit_id) 1000) db2) (\<lambda>db3.
             return (code, db3)))))))))"

fun receive_units ::
    "(nat \<Rightarrow> store_db \<Rightarrow> (string \<times> store_db) js_result) \<Rightarrow> nat list \<Rightarrow> store_db \<Rightarrow> (string list \<times> store_db) js_result" where
  "receive_units one [] db = return ([], db)"
| "receive_units one (i # is) db =
     bind_result (one i db) (\<lambda>(code, db1).
     bind_result (receive_units one is db1) (\<lambda>(codes, db2). return (code # codes, db2)))"

text \<open>\<open>integer\<close> columns hold values below \<open>2 ^ 31\<close>.\<close>

definition take_numbers :: "string \<Rightarrow> int \<Rightarrow> store_db \<Rightarrow> store_db js_result" where
  "take_numbers item n db =
     (if \<exists>it \<in> set (db_items db). si_id it = item \<and> 2 ^ 31 \<le> si_next_number it + n then throw ''integer out of range''
      else return (db\<lparr>db_items := map (\<lambda>it. if si_id it = item then it\<lparr>si_next_number := si_next_number it + n\<rparr> else it) (db_items db)\<rparr>))"

definition add_received :: "string \<Rightarrow> int \<Rightarrow> store_db \<Rightarrow> store_db js_result" where
  "add_received line n db =
     (if \<exists>l \<in> set (db_order_lines db). ol_id l = line \<and> \<not> (0 \<le> ol_received l + n \<and> ol_received l + n \<le> ol_ordered l)
      then throw ''new row violates check constraint of store.purchase_order_lines''
      else return (db\<lparr>db_order_lines :=
        map (\<lambda>l. if ol_id l = line then l\<lparr>ol_received := ol_received l + n\<rparr> else l) (db_order_lines db)\<rparr>))"

type_synonym received_line = "string list \<times> string"

definition stock_line ::
    "store_env \<Rightarrow> receipt_input \<Rightarrow> string \<Rightarrow> int option \<Rightarrow> prepared_line \<Rightarrow> store_location \<Rightarrow> string
       \<Rightarrow> string option \<Rightarrow> string option \<Rightarrow> int \<Rightarrow> (string \<times> int) list \<Rightarrow> store_db
       \<Rightarrow> (string list \<times> (string \<times> int) list \<times> store_db) js_result" where
  "stock_line env input store warranty_days line loc receipt_line stabilizer mcb n numbers db =
     (case line of ((l, o', it), li, quantity) \<Rightarrow>
        if si_tracking it = Serialized
        then let first = (case map_of numbers (ol_item l) of Some f \<Rightarrow> f | None \<Rightarrow> si_next_number it);
                 count = whole_units quantity
             in bind_result (receive_units
                  (receive_unit env input loc store warranty_days line receipt_line stabilizer mcb first) [0..<count] db)
                  (\<lambda>(codes, db1).
                bind_result (take_numbers (ol_item l) (int count) db1) (\<lambda>db2.
                return (codes, put (ol_item l) (first + int count) numbers, db2)))
        else bind_result (insert_movement (receipt_movement env input loc (ol_item l) receipt_line None n) db)
               (\<lambda>db1. return ([], numbers, db1)))"

definition receive_line ::
    "store_env \<Rightarrow> receipt_input \<Rightarrow> string \<Rightarrow> int option \<Rightarrow> string \<Rightarrow> prepared_line \<Rightarrow> store_location
       \<Rightarrow> (string \<times> int) list \<Rightarrow> store_db \<Rightarrow> (received_line \<times> (string \<times> int) list \<times> store_db) js_result" where
  "receive_line env input store warranty_days receipt line loc numbers db =
     (case line of ((l, o', it), li, quantity) \<Rightarrow>
        bind_result (stabilizer_asset_id db (Option.bind (li_details li) ud_stabilizer)) (\<lambda>stabilizer.
        bind_result (mcb_unit_code db (Option.bind (li_details li) ud_mcb)) (\<lambda>mcb.
        bind_result (date_param env (in_warranty_until input)) (\<lambda>until.
        bind_result (numeric_param quantity) (\<lambda>n.
        if n \<le> 0 then throw ''new row violates check constraint of store.receipt_lines''
        else (case generate_id env db of (receipt_line, db1) \<Rightarrow>
          bind_result (stock_line env input store warranty_days line loc receipt_line stabilizer mcb n numbers
            (db1\<lparr>db_receipt_lines := db_receipt_lines db1 @ [\<lparr>rl_id = receipt_line, rl_receipt = receipt,
                rl_order_line = ol_id l, rl_item = ol_item l, rl_quantity = n, rl_price = ol_price l,
                rl_warranty_until = until, rl_warranty_period = map_option show_int warranty_days\<rparr>]\<rparr>)) (\<lambda>(codes, numbers', db2).
          bind_result (add_received (ol_id l) n db2) (\<lambda>db3.
          return ((codes, ol_id l), numbers', db3)))))))))"

fun receive_lines ::
    "store_env \<Rightarrow> receipt_input \<Rightarrow> string \<Rightarrow> int option \<Rightarrow> string \<Rightarrow> (prepared_line \<times> store_location) list
       \<Rightarrow> (string \<times> int) list \<Rightarrow> store_db \<Rightarrow> (received_line list \<times> store_db) js_result" where
  "receive_lines env input store warranty_days receipt [] numbers db = return ([], db)"
| "receive_lines env input store warranty_days receipt ((line, loc) # lines) numbers db =
     bind_result (receive_line env input store warranty_days receipt line loc numbers db) (\<lambda>(received, numbers', db1).
     bind_result (receive_lines env input store warranty_days receipt lines numbers' db1) (\<lambda>(rest, db2).
     return (received # rest, db2)))"


text \<open>An order is received when every line is, partially received when some line has received something.\<close>

definition order_status_now :: "store_db \<Rightarrow> string \<Rightarrow> order_status" where
  "order_status_now db o' =
     (let lines = filter (\<lambda>l. ol_order l = o') (db_order_lines db)
      in if \<not> (\<exists>l \<in> set lines. ol_received l < ol_ordered l) then Received
         else if \<exists>l \<in> set lines. 0 < ol_received l then Partially_Received
         else Order_Open)"

definition update_order_status :: "string \<Rightarrow> store_db \<Rightarrow> store_db" where
  "update_order_status o' db = db\<lparr>db_orders :=
     map (\<lambda>x. if so_id x = o' then x\<lparr>so_status := order_status_now db o'\<rparr> else x) (db_orders db)\<rparr>"

record receipt_result =
  rr_codes :: "string list"
  rr_lines :: "received_line list"
  rr_order :: string
  rr_receipt :: string
  rr_number :: string

definition main_store_location :: "store_db \<Rightarrow> string option" where
  "main_store_location db = (case filter (\<lambda>loc. sl_type loc = Store_Location \<and> sl_active loc
        \<and> (case store_of db (sl_store loc) of None \<Rightarrow> False | Some a \<Rightarrow> sa_kind a = ''MAIN'' \<and> sa_active a)) (db_locations db) of
      [] \<Rightarrow> None
    | loc # _ \<Rightarrow> sl_store loc)"

definition insert_receipt :: "store_receipt \<Rightarrow> store_db \<Rightarrow> store_db js_result" where
  "insert_receipt r db =
     (if to_lower (sr_number r) \<in> to_lower ` sr_number ` set (db_receipts db)
      then throw ''duplicate key value violates unique constraint store_receipts_number_unique''
      else return (db\<lparr>db_receipts := db_receipts db @ [r]\<rparr>))"

definition receive_stock_with_client ::
    "store_env \<Rightarrow> receipt_input \<Rightarrow> store_db \<Rightarrow> (receipt_result \<times> store_db) js_result" where
  "receive_stock_with_client env input db =
     bind_result (warranty_period_days (in_warranty_period input)) (\<lambda>warranty_days.
     (case main_store_location db of
        None \<Rightarrow> throw ''Goods must be received into an active Main Store location.''
      | Some store \<Rightarrow>
          let ids = map li_line (in_lines input); rows = order_rows db ids
          in if ids = [] then throw ''Select at least one Purchase Order line to receive.''
             else if \<not> distinct ids then throw ''A Purchase Order line can be selected only once per receipt.''
             else if length rows \<noteq> length ids then throw ''Purchase Order was not found.''
             else if card (set (map (\<lambda>(l, o', it). ol_order l) rows)) \<noteq> 1
             then throw ''A bulk receipt can include lines from only one Purchase Order.''
             else (case hd rows of (first, order, item) \<Rightarrow>
               if (case in_expected_order input of None \<Rightarrow> False | Some e \<Rightarrow> e \<noteq> [] \<and> e \<noteq> ol_order first)
               then throw ''Selected lines do not belong to the chosen Purchase Order.''
               else if \<not> so_issued order then throw ''Purchase Order has not been issued.''
               else if so_type order \<noteq> Goods then throw ''Repair Purchase Orders do not create stock receipts.''
               else if so_status order = Order_Cancelled then throw ''A cancelled Purchase Order cannot be received.''
               else bind_result (map_result (prepare_line (in_lines input)) rows) (\<lambda>prepared.
                 bind_result (map_result (\<lambda>((l, o', it), li, quantity).
                     resolve_storage_location db (ol_item l) store
                       (case li_location li of None \<Rightarrow> in_location input | Some p \<Rightarrow> Some p)) prepared) (\<lambda>locations.
                 (case next_document_number env ''RECEIPT'' ''STR-GRN'' db of (number, db1) \<Rightarrow>
                 (case generate_id env db1 of (receipt, db2) \<Rightarrow>
                 bind_result (date_param env (in_bill_date input)) (\<lambda>bill_date.
                 bind_result (insert_receipt \<lparr>sr_id = receipt, sr_number = number, sr_line = ol_id first,
                     sr_order = ol_order first, sr_location = sl_id (hd locations), sr_supplier = so_supplier order,
                     sr_bill = optional_text (in_bill_number input), sr_bill_date = bill_date,
                     sr_received_by = optional_text (in_received_by input)\<rparr> db2) (\<lambda>db3.
                 let db4 = (case optional_text (in_bill_number input) of
                       None \<Rightarrow> db3
                     | Some bill \<Rightarrow> db3\<lparr>db_bills := db_bills db3 @ [(receipt, bill)]\<rparr>)
                 in bind_result (receive_lines env input store warranty_days receipt (zip prepared locations) [] db4)
                      (\<lambda>(lines, db5).
                    return (\<lparr>rr_codes = concat (map fst lines), rr_lines = lines, rr_order = ol_order first,
                        rr_receipt = receipt, rr_number = number\<rparr>,
                      update_order_status (ol_order first) db5)))))))))))"

definition queue_store_refresh :: "store_db \<Rightarrow> store_db" where
  "queue_store_refresh db = db\<lparr>db_refreshes := db_refreshes db + 1\<rparr>"

definition receive_stock ::
    "store_env \<Rightarrow> receipt_input \<Rightarrow> receipt_line_input \<Rightarrow> store_db \<Rightarrow> (receipt_result \<times> store_db) js_result" where
  "receive_stock env input line db =
     bind_result (receive_stock_with_client env (input\<lparr>in_lines := [line\<lparr>li_location := None\<rparr>], in_expected_order := None\<rparr>) db)
       (\<lambda>(received, db'). return (received, queue_store_refresh db'))"

definition receive_remaining_stock_batch ::
    "store_env \<Rightarrow> receipt_input \<Rightarrow> string \<Rightarrow> string list \<Rightarrow> (string \<Rightarrow> string option) \<Rightarrow> store_db
       \<Rightarrow> (receipt_result \<times> store_db) js_result" where
  "receive_remaining_stock_batch env input order line_ids line_locations db =
     (let ids = sort (remdups (filter (\<lambda>i. i \<noteq> []) (map trim line_ids)))
      in if ids = [] then throw ''Select at least one Purchase Order line to receive.''
         else if 500 < length ids then throw ''Bulk receipt is limited to 500 Purchase Order lines.''
         else bind_result (receive_stock_with_client env (input\<lparr>in_expected_order := Some order,
                in_lines := map (\<lambda>i. \<lparr>li_location = line_locations i, li_serials = [], li_line = i,
                  li_quantity = Remaining, li_details = None\<rparr>) ids\<rparr>) db)
              (\<lambda>(received, db'). return (received, queue_store_refresh db')))"

subsection \<open>Issuing a request\<close>

record issue_input =
  is_unit_code :: "string option"
  is_unit_codes :: "string list option"
  is_holder_name :: "string option"
  is_holder_reference :: "string option"
  is_holder_type :: "holder_type option"
  is_issued_by :: "string option"
  is_quantity :: quantity_input
  is_remark :: "string option"
  is_request :: string

record issue_row =
  ir_request :: store_request
  ir_header :: request_header
  ir_item :: store_item
  ir_location :: store_location
  ir_store :: string
  ir_reassigned :: "(string \<times> store_department option) option"

text \<open>The row of the request with its joins: an active location of a main store, and the department a repair
  order gives the unit to, if there is one.\<close>

definition issue_row_of :: "store_db \<Rightarrow> string \<Rightarrow> issue_row option" where
  "issue_row_of db i = (case List.find (\<lambda>q. sq_id q = i) (db_requests db) of
      None \<Rightarrow> None
    | Some q \<Rightarrow> (case (List.find (\<lambda>h. rh_id h = sq_header q) (db_headers db), location_of db (sq_location q), item_of db (sq_item q)) of
        (Some h, Some loc, Some it) \<Rightarrow> (case store_of db (sl_store loc) of
            None \<Rightarrow> None
          | Some store \<Rightarrow>
              if sa_kind store = ''MAIN'' \<and> sl_active loc
              then Some \<lparr>ir_request = q, ir_header = h, ir_item = it, ir_location = loc, ir_store = sa_id store,
                ir_reassigned = (case List.find (\<lambda>r. rp_request r = Some i) (db_repairs db) of
                    None \<Rightarrow> None
                  | Some r \<Rightarrow> map_option (\<lambda>d. (d, List.find (\<lambda>x. sd_id x = d) (db_departments db))) (rp_department r))\<rparr>
              else None)
      | _ \<Rightarrow> None))"


definition reserved_elsewhere :: "store_db \<Rightarrow> string \<Rightarrow> string \<Rightarrow> bool" where
  "reserved_elsewhere db unit_id request \<longleftrightarrow> (\<exists>q \<in> set (db_requests db). sq_unit q = Some unit_id
     \<and> sq_status q \<in> {Request_Pending, Partially_Issued} \<and> sq_id q \<noteq> request)"

definition under_repair :: "store_db \<Rightarrow> string \<Rightarrow> bool" where
  "under_repair db unit_id \<longleftrightarrow> (\<exists>r \<in> set (db_repairs db). rp_unit r = unit_id \<and> rp_open r
     \<and> (\<exists>o' \<in> set (db_orders db). so_id o' = rp_order r \<and> so_status o' = Order_Open))"

definition selected_units :: "store_db \<Rightarrow> issue_row \<Rightarrow> string list \<Rightarrow> store_unit list" where
  "selected_units db row codes = sort_key su_code (filter (\<lambda>u.
     to_lower (su_code u) \<in> set codes
     \<and> su_item u = sq_item (ir_request row) \<and> su_location u = Some (sq_location (ir_request row))
     \<and> su_store u = ir_store row \<and> su_holder_type u = Held_Store \<and> su_status u = Unit_Available
     \<and> \<not> reserved_elsewhere db (su_id u) (sq_id (ir_request row))
     \<and> \<not> under_repair db (su_id u)) (db_units db))"

definition machine_id_for_reference :: "store_db \<Rightarrow> string \<Rightarrow> string option js_result" where
  "machine_id_for_reference db reference =
     (if trim reference = [] then return None
      else (case List.find (\<lambda>m. to_lower (mc_number m) = to_lower (trim reference)) (db_machines db) of
          None \<Rightarrow> throw ''Machine was not found in Machine Master.''
        | Some m \<Rightarrow> return (Some (mc_id m))))"

definition assign_unit :: "holder_type \<Rightarrow> string \<Rightarrow> string \<Rightarrow> string option \<Rightarrow> store_unit \<Rightarrow> store_unit" where
  "assign_unit holder reference name machine u = u\<lparr>su_status := Unit_Assigned, su_holder_type := holder,
     su_holder_reference := Some reference, su_holder_name := Some name, su_machine := machine, su_vendor := None, su_location := None\<rparr>"

definition issue_movement ::
    "store_env \<Rightarrow> issue_input \<Rightarrow> issue_row \<Rightarrow> holder \<Rightarrow> store_location \<Rightarrow> string option \<Rightarrow> int \<Rightarrow> stock_movement" where
  "issue_movement env input row to_holder loc unit_id quantity =
     \<lparr>sm_item = sq_item (ir_request row), sm_unit = unit_id, sm_location = sl_id loc, sm_receipt_line = None,
      sm_request = Some (is_request input), sm_type = Move_Issue, sm_quantity = quantity,
      sm_from = Some (Held_Store, Some (sl_code loc), Some (sl_name loc)), sm_to = Some to_holder,
      sm_at = ev_now env, sm_by = optional_text (is_issued_by input), sm_remark = optional_text (is_remark input),
      sm_operation = None\<rparr>"

fun insert_movements :: "stock_movement list \<Rightarrow> store_db \<Rightarrow> store_db js_result" where
  "insert_movements [] db = return db"
| "insert_movements (m # ms) db = bind_result (insert_movement m db) (insert_movements ms)"

definition requested_codes :: "issue_input \<Rightarrow> string list" where
  "requested_codes input = filter (\<lambda>c. c \<noteq> []) (map trim (case is_unit_codes input of
      Some codes \<Rightarrow> codes
    | None \<Rightarrow> (case is_unit_code input of None \<Rightarrow> [] | Some c \<Rightarrow> if c = [] then [] else [c])))"

definition issue_units ::
    "store_env \<Rightarrow> issue_input \<Rightarrow> issue_row \<Rightarrow> jsnum \<Rightarrow> holder_type \<Rightarrow> string \<Rightarrow> string \<Rightarrow> store_db \<Rightarrow> store_db js_result" where
  "issue_units env input row quantity holder reference name db =
     (let codes = requested_codes input; distinct_codes = remdups (map to_lower codes) in
      if \<not> is_integer quantity then throw ''Non Consumable quantity must be a whole number.''
      else if num_int (int (length codes)) \<noteq> quantity \<or> length distinct_codes \<noteq> length codes
      then throw (''Select exactly '' @ num_text quantity @ '' distinct Unit ID'' @ (if quantity = Fin 1 then [] else ''s'') @ ''.'')
      else if sq_unit (ir_request row) \<noteq> None \<and> quantity \<noteq> Fin 1
      then throw ''An exact Unit ID request must be issued as one unit.''
      else if (case sq_unit (ir_request row) of
           None \<Rightarrow> False
         | Some i \<Rightarrow> (case List.find (\<lambda>u. su_id u = i) (db_units db) of
              None \<Rightarrow> True
            | Some u \<Rightarrow> map to_lower (take 1 codes) \<noteq> [to_lower (su_code u)]))
      then throw ''Issue the exact Unit ID named in this request.''
      else bind_result (if holder = Held_Machine then machine_id_for_reference db reference else return None) (\<lambda>machine.
        let selected = selected_units db row distinct_codes
        in if num_int (int (length selected)) \<noteq> quantity
           then throw ''A selected Unit ID is not available in the selected Store.''
           else insert_movements
             (map (\<lambda>u. issue_movement env input row (holder, Some reference, Some name) (ir_location row) (Some (su_id u)) (- 1000)) selected)
             (db\<lparr>db_units := map (\<lambda>u. if su_id u \<in> su_id ` set selected then assign_unit holder reference name machine u else u) (db_units db)\<rparr>)))"

text \<open>The balances of the item in the store: greatest first, then by location.\<close>

definition store_balances :: "store_db \<Rightarrow> string \<Rightarrow> string \<Rightarrow> (store_location \<times> int) list" where
  "store_balances db item store =
     sort_key (\<lambda>(loc, b). - b) (sort_key (\<lambda>(loc, b). sl_id loc)
       (filter (\<lambda>(loc, b). b \<noteq> 0) (map (\<lambda>loc. (loc, consumable_balance db item (sl_id loc)))
         (filter (\<lambda>loc. sl_store loc = Some store \<and> sl_type loc = Store_Location \<and> sl_active loc) (db_locations db)))))"

definition units_of_balance :: "int \<Rightarrow> jsnum" where
  "units_of_balance b = num_round (num_mul (numeric_number b) (Fin 1000))"

fun deductions :: "jsnum \<Rightarrow> (store_location \<times> int) list \<Rightarrow> (store_location \<times> jsnum) list" where
  "deductions remaining [] = []"
| "deductions remaining ((loc, b) # rest) =
     (let units = num_min remaining (num_max (Fin 0) (units_of_balance b)) in
      (if num_lt (Fin 0) units then [(loc, num_div units (Fin 1000))] else [])
      @ deductions (num_sub remaining units) rest)"

definition deduction_movement ::
    "store_env \<Rightarrow> issue_input \<Rightarrow> issue_row \<Rightarrow> holder \<Rightarrow> store_location \<times> jsnum \<Rightarrow> stock_movement js_result" where
  "deduction_movement env input row to_holder = (\<lambda>(loc, quantity).
     bind_result (numeric_param quantity) (\<lambda>n. return (issue_movement env input row to_holder loc None (- n))))"

definition issue_consumable ::
    "store_env \<Rightarrow> issue_input \<Rightarrow> issue_row \<Rightarrow> jsnum \<Rightarrow> holder_type \<Rightarrow> string \<Rightarrow> string \<Rightarrow> store_db \<Rightarrow> store_db js_result" where
  "issue_consumable env input row quantity holder reference name db =
     (if optional_text (is_unit_code input) \<noteq> None
         \<or> (case is_unit_codes input of None \<Rightarrow> False | Some codes \<Rightarrow> \<exists>c \<in> set codes. trim c \<noteq> [])
      then throw ''Unit IDs can be selected only for Non Consumables.''
      else let balances = store_balances db (sq_item (ir_request row)) (ir_store row);
               remaining_units = num_round (num_mul quantity (Fin 1000));
               available_units = foldl (\<lambda>t (loc, b). num_add t (units_of_balance b)) (Fin 0) balances
           in if num_lt available_units remaining_units then throw ''Insufficient current stock for this issue.''
              else bind_result (map_result (deduction_movement env input row (holder, Some reference, Some name))
                     (deductions remaining_units balances)) (\<lambda>movements.
                   insert_movements movements db))"

definition update_request :: "string \<Rightarrow> int \<Rightarrow> request_status \<Rightarrow> store_db \<Rightarrow> store_db js_result" where
  "update_request i issued status db =
     (if \<exists>q \<in> set (db_requests db). sq_id q = i \<and> \<not> (0 \<le> issued \<and> issued \<le> sq_requested q)
      then throw ''new row violates check constraint of store.requisitions''
      else return (db\<lparr>db_requests :=
        map (\<lambda>q. if sq_id q = i then q\<lparr>sq_issued := issued, sq_status := status\<rparr> else q) (db_requests db)\<rparr>))"

definition issue_holder_text :: "issue_row \<Rightarrow> string option \<Rightarrow> (store_department \<Rightarrow> string) \<Rightarrow> string option \<Rightarrow> string \<Rightarrow> string js_result" where
  "issue_holder_text row recipient of_department given label = (case ir_reassigned row of
      Some (i, Some d) \<Rightarrow> return (of_department d)
    | _ \<Rightarrow> if rh_kind (ir_header row) = Person_Use then required_store_text recipient label
           else return (case optional_text given of Some t \<Rightarrow> t | None \<Rightarrow> rh_department (ir_header row)))"

text \<open>The stock is taken and the request updated.\<close>

definition record_issue ::
    "store_env \<Rightarrow> issue_input \<Rightarrow> issue_row \<Rightarrow> jsnum \<Rightarrow> holder_type \<Rightarrow> string \<Rightarrow> string \<Rightarrow> store_db
       \<Rightarrow> ((jsnum \<times> request_status) \<times> store_db) js_result" where
  "record_issue env input row quantity holder reference name db =
     bind_result
       (if si_tracking (ir_item row) = Serialized then issue_units env input row quantity holder reference name db
        else issue_consumable env input row quantity holder reference name db) (\<lambda>db1.
     let issued = num_add (numeric_number (sq_issued (ir_request row))) quantity;
         status = (if num_eq issued (numeric_number (sq_requested (ir_request row))) then Fulfilled else Partially_Issued) in
     bind_result (numeric_param issued) (\<lambda>n.
     bind_result (update_request (is_request input) n status db1) (\<lambda>db2.
     return ((issued, status), db2))))"

definition issue_requisition_with_client ::
    "store_env \<Rightarrow> issue_input \<Rightarrow> store_db \<Rightarrow> ((jsnum \<times> request_status) \<times> store_db) js_result" where
  "issue_requisition_with_client env input db =
     (case issue_row_of db (is_request input) of
        None \<Rightarrow> throw ''Store request was not found.''
      | Some row \<Rightarrow>
          let q = ir_request row; kind = rh_kind (ir_header row) in
          if kind = Store_Transfer then throw ''Fulfill this request with a Store responsibility transfer.''
          else if sq_status q = Request_Cancelled \<or> sq_status q = Fulfilled then throw ''This Store request is already closed.''
          else let remaining = remaining_quantity (sq_requested q) (sq_issued q) in
          bind_result (positive_quantity (case is_quantity input of Remaining \<Rightarrow> remaining | Quantity n \<Rightarrow> n)) (\<lambda>quantity.
          if num_lt remaining quantity then throw (''Only '' @ num_text remaining @ '' remains to be issued.'')
          else let holder = (if kind = Person_Use then Held_Person
                 else case is_holder_type input of None \<Rightarrow> Held_Department | Some t \<Rightarrow> t) in
          if (case ir_reassigned row of
                None \<Rightarrow> False
              | Some (i, d) \<Rightarrow> holder \<noteq> Held_Department \<or> (case d of None \<Rightarrow> True | Some d' \<Rightarrow> \<not> sd_active d'))
          then throw ''Select an active reassignment Department.''
          else
          bind_result (issue_holder_text row (rh_recipient_reference (ir_header row)) sd_code (is_holder_reference input) ''Employee ID'') (\<lambda>reference.
          bind_result (issue_holder_text row (rh_recipient_name (ir_header row)) sd_name (is_holder_name input) ''Employee name'') (\<lambda>name.
          record_issue env input row quantity holder reference name db))))"

definition issue_requisition ::
    "store_env \<Rightarrow> issue_input \<Rightarrow> store_db \<Rightarrow> ((jsnum \<times> request_status) \<times> store_db) js_result" where
  "issue_requisition env input db =
     bind_result (issue_requisition_with_client env input db) (\<lambda>(allocation, db'). return (allocation, queue_store_refresh db'))"


definition cancel_requisition :: "string \<Rightarrow> store_db \<Rightarrow> (string \<times> store_db) js_result" where
  "cancel_requisition request db =
     bind_result (required_store_text (Some request) ''Store request line'') (\<lambda>i.
     if \<exists>q \<in> set (db_requests db). sq_id q = i \<and> sq_status q \<in> {Request_Pending, Partially_Issued}
     then return (i, db\<lparr>db_requests := map (\<lambda>q. if sq_id q = i \<and> sq_status q \<in> {Request_Pending, Partially_Issued}
                         then q\<lparr>sq_status := Request_Cancelled\<rparr> else q) (db_requests db)\<rparr>)
     else throw ''Only an open Store request line can be cancelled.'')"

fun issue_each ::
    "store_env \<Rightarrow> (string \<Rightarrow> issue_input) \<Rightarrow> string list \<Rightarrow> store_db \<Rightarrow> ((jsnum \<times> request_status) list \<times> store_db) js_result" where
  "issue_each env input_of [] db = return ([], db)"
| "issue_each env input_of (i # is) db =
     bind_result (issue_requisition_with_client env (input_of i) db) (\<lambda>(allocation, db1).
     bind_result (issue_each env input_of is db1) (\<lambda>(allocations, db2). return (allocation # allocations, db2)))"

definition selected_headers :: "store_db \<Rightarrow> string list \<Rightarrow> request_header list" where
  "selected_headers db ids = concat (map (\<lambda>q. case List.find (\<lambda>h. rh_id h = sq_header q) (db_headers db) of
        None \<Rightarrow> [] | Some h \<Rightarrow> [h]) (sort_key sq_id (filter (\<lambda>q. sq_id q \<in> set ids) (db_requests db))))"

text \<open>A line is the identifier of a request with the unit codes chosen for it.\<close>

definition issue_remaining_requisition_batch ::
    "store_env \<Rightarrow> string option \<Rightarrow> (string \<times> string list option) list \<Rightarrow> store_db
       \<Rightarrow> ((jsnum \<times> request_status) list \<times> string \<times> store_db) js_result" where
  "issue_remaining_requisition_batch env issued_by lines db =
     (let entries = filter (\<lambda>(i, codes). i \<noteq> []) (map (\<lambda>(i, codes). (trim i, codes)) lines);
          lines_by_id = foldl (\<lambda>m (i, codes). put i codes m) [] entries;
          ids = sort (map fst lines_by_id);
          headers = selected_headers db ids
      in if lines_by_id = [] then throw ''Select at least one Store request line to allocate.''
         else if length lines_by_id \<noteq> length lines
         then throw ''A Store request line can be selected only once per allocation.''
         else if 500 < length lines_by_id then throw ''Bulk allocation is limited to 500 Store request lines.''
         else if length headers \<noteq> length lines_by_id then throw ''A selected Store request line was not found.''
         else if \<exists>h \<in> set headers. rh_kind h \<noteq> Department_Use
         then throw ''Only Department use requests can be allocated together.''
         else if card (set (map rh_department headers)) \<noteq> 1
         then throw ''Bulk allocation can contain request lines for only one Department.''
         else bind_result (issue_each env (\<lambda>i. \<lparr>is_unit_code = None,
                 is_unit_codes = (case map_of lines_by_id i of None \<Rightarrow> None | Some codes \<Rightarrow> codes),
                 is_holder_name = None, is_holder_reference = None, is_holder_type = Some Held_Department,
                 is_issued_by = issued_by, is_quantity = Remaining, is_remark = None, is_request = i\<rparr>) ids db)
              (\<lambda>(allocations, db'). return (allocations, rh_department (hd headers), queue_store_refresh db')))"

subsection \<open>Creating a request\<close>

record request_item =
  rt_item :: string
  rt_quantity :: jsnum
  rt_unit :: "string option"

record request_input =
  rb_department :: "string option"
  rb_kind :: "fulfillment_kind option"
  rb_items :: "request_item list"
  rb_location :: string
  rb_purpose :: "string option"
  rb_receiving_store :: "string option"
  rb_recipient_name :: "string option"
  rb_recipient_reference :: "string option"
  rb_requested_by :: "string option"
  rb_required_on :: "string option"

definition being_calibrated :: "store_db \<Rightarrow> string \<Rightarrow> bool" where
  "being_calibrated db unit_id \<longleftrightarrow> (\<exists>v \<in> set (db_visits db). cv_unit v = unit_id
     \<and> cv_status v \<in> {Visit_Open, Visit_Dispatched, Visit_Returned})"

definition grouped :: "store_db \<Rightarrow> string \<Rightarrow> bool" where
  "grouped db unit_id \<longleftrightarrow> (\<exists>g \<in> set (db_members db). gm_unit g = unit_id \<and> \<not> gm_removed g \<and> gm_active g)"

definition free_units :: "store_db \<Rightarrow> string \<Rightarrow> string list \<Rightarrow> store_unit list" where
  "free_units db item taken =
     (sort_key (\<lambda>u. if su_acquired u = None then 0 else 1 :: nat)
      \<circ> sort_key (\<lambda>u. case su_acquired u of None \<Rightarrow> 0 | Some d \<Rightarrow> d)
      \<circ> sort_key su_created \<circ> sort_key su_code) (filter (\<lambda>u.
     su_item u = item \<and> su_status u = Unit_Available \<and> su_holder_type u = Held_Store \<and> su_id u \<notin> set taken
     \<and> (case store_of db (Some (su_store u)) of None \<Rightarrow> False | Some a \<Rightarrow> sa_kind a = ''MAIN'')
     \<and> (case Option.bind (su_location u) (location_of db) of
          None \<Rightarrow> False
        | Some loc \<Rightarrow> sl_store loc = Some (su_store u) \<and> sl_type loc = Store_Location \<and> sl_active loc)
     \<and> \<not> (\<exists>q \<in> set (db_requests db). sq_unit q = Some (su_id u) \<and> sq_status q \<in> {Request_Pending, Partially_Issued})
     \<and> \<not> under_repair db (su_id u) \<and> \<not> being_calibrated db (su_id u) \<and> \<not> grouped db (su_id u)) (db_units db))"

definition item_tracking :: "store_db \<Rightarrow> string \<Rightarrow> tracking_mode option" where
  "item_tracking db i = map_option si_tracking (item_of db i)"

text \<open>The loop that reserves units for a transfer: an item without a named unit becomes one line per unit.\<close>

fun reserve_items ::
    "store_db \<Rightarrow> fulfillment_kind \<Rightarrow> string list \<Rightarrow> request_item list \<Rightarrow> request_item list \<Rightarrow> request_item list js_result" where
  "reserve_items db kind named reserved [] = return reserved"
| "reserve_items db kind named reserved (item # items) =
     (if kind \<noteq> Store_Transfer \<or> item_tracking db (rt_item item) \<noteq> Some Serialized \<or> optional_text (rt_unit item) \<noteq> None
      then reserve_items db kind named (reserved @ [item]) items
      else let count = whole_units (rt_quantity item);
               units = take count (free_units db (rt_item item)
                 (named @ concat (map (\<lambda>r. case rt_unit r of None \<Rightarrow> [] | Some u \<Rightarrow> if u = [] then [] else [u]) reserved)))
           in if length units \<noteq> count then throw ''Not enough unreserved physical units in Main Store for this request.''
              else reserve_items db kind named
                (reserved @ map (\<lambda>u. \<lparr>rt_item = rt_item item, rt_quantity = Fin 1, rt_unit = Some (su_id u)\<rparr>) units) items)"

definition insert_request :: "store_request \<Rightarrow> store_db \<Rightarrow> store_db js_result" where
  "insert_request q db =
     (if sq_requested q \<le> 0 then throw ''new row violates check constraint of store.requisitions''
      else if to_lower (sq_number q) \<in> to_lower ` sq_number ` set (db_requests db)
      then throw ''duplicate key value violates unique constraint store_requisitions_number_unique''
      else if sq_unit q \<noteq> None \<and> (\<exists>q' \<in> set (db_requests db). sq_unit q' = sq_unit q \<and> sq_status q' \<in> {Request_Pending, Partially_Issued})
      then throw ''duplicate key value violates unique constraint store_requisitions_open_requested_asset_unique''
      else return (db\<lparr>db_requests := db_requests db @ [q]\<rparr>))"

definition request_line ::
    "store_env \<Rightarrow> fulfillment_kind \<Rightarrow> string \<Rightarrow> string \<Rightarrow> string \<Rightarrow> nat \<times> request_item \<Rightarrow> store_db \<Rightarrow> (string \<times> store_db) js_result" where
  "request_line env kind header number location = (\<lambda>(index, item) db.
     let unit_id = optional_text (rt_unit item) in
     bind_result (case unit_id of
         None \<Rightarrow> return ()
       | Some u \<Rightarrow>
           if rt_quantity item \<noteq> Fin 1 then throw ''An exact Unit ID request must have quantity 1.''
           else if \<exists>x \<in> set (db_units db). su_id x = u \<and> su_item x = rt_item item
              \<and> su_status x \<notin> {Unit_Scrapped, Unit_Lost}
              \<and> (kind = Store_Transfer \<longrightarrow> (case store_of db (Some (su_store x)) of None \<Rightarrow> False | Some a \<Rightarrow> sa_kind a = ''MAIN''))
           then return () else throw ''Selected physical Unit ID was not found.'') (\<lambda>_.
     bind_result (positive_quantity (rt_quantity item)) (\<lambda>quantity.
     bind_result (numeric_param quantity) (\<lambda>n.
     (case generate_id env db of (i, db1) \<Rightarrow>
       bind_result (insert_request \<lparr>sq_id = i, sq_header = header,
           sq_number = number @ ''-'' @ pad_start 2 (CHR ''0'') (show_nat (index + 1)),
           sq_item = rt_item item, sq_unit = unit_id, sq_location = location, sq_requested = n, sq_issued = 0,
           sq_status = Request_Pending\<rparr> db1) (\<lambda>db2. return (i, db2)))))))"

fun request_lines ::
    "(nat \<times> request_item \<Rightarrow> store_db \<Rightarrow> (string \<times> store_db) js_result) \<Rightarrow> (nat \<times> request_item) list \<Rightarrow> store_db
       \<Rightarrow> (string list \<times> store_db) js_result" where
  "request_lines one [] db = return ([], db)"
| "request_lines one (x # xs) db =
     bind_result (one x db) (\<lambda>(i, db1).
     bind_result (request_lines one xs db1) (\<lambda>(is, db2). return (i # is, db2)))"

fun repeated :: "string list \<Rightarrow> string list \<Rightarrow> string list" where
  "repeated seen [] = []"
| "repeated seen (i # is) = (if i \<in> set seen then i # repeated seen is else repeated (i # seen) is)"

definition create_requisition_batch ::
    "store_env \<Rightarrow> request_input \<Rightarrow> store_db \<Rightarrow> ((string \<times> string list \<times> string) \<times> store_db) js_result" where
  "create_requisition_batch env input db =
     (if rb_items input = [] then throw ''Select at least one coded Store item.''
      else let item_ids = map rt_item (rb_items input);
               kind = (case rb_kind input of None \<Rightarrow> Department_Use | Some k \<Rightarrow> k) in
      bind_result (required_store_text (rb_department input) ''Department'') (\<lambda>department.
      bind_result (required_store_text (rb_requested_by input) ''Requested by'') (\<lambda>requested_by.
      bind_result (if kind \<noteq> Store_Transfer then return None
          else bind_result (required_store_text (rb_receiving_store input) ''Receiving Store'') (\<lambda>code.
            case List.find (\<lambda>a. to_lower (sa_code a) = to_lower code \<and> sa_active a \<and> sa_kind a \<noteq> ''MAIN'') (db_stores db) of
              None \<Rightarrow> throw ''Receiving Store was not found.''
            | Some a \<Rightarrow> return (Some (sa_id a)))) (\<lambda>receiving.
      bind_result (if kind \<noteq> Person_Use then return None
          else map_sum id Some (required_store_text (rb_recipient_reference input) ''Employee ID'')) (\<lambda>recipient_reference.
      bind_result (if kind \<noteq> Person_Use then return None
          else map_sum id Some (required_store_text (rb_recipient_name input) ''Employee name'')) (\<lambda>recipient_name.
      if \<not> (case location_of db (rb_location input) of
            None \<Rightarrow> False
          | Some loc \<Rightarrow> sl_type loc = Store_Location \<and> sl_active loc
              \<and> (case store_of db (sl_store loc) of None \<Rightarrow> False | Some a \<Rightarrow> sa_kind a = ''MAIN''))
      then throw ''Select an active Store location.''
      else if \<exists>i \<in> set item_ids. \<not> (case item_of db i of None \<Rightarrow> False | Some it \<Rightarrow> si_active it)
      then throw ''One or more selected Store items are unavailable.''
      else if repeated [] item_ids \<noteq> [] \<and> (kind \<noteq> Store_Transfer
          \<or> (\<exists>i \<in> set (repeated [] item_ids). item_tracking db i \<noteq> Some Serialized))
      then throw ''Only distinct Unit IDs may share an Asset Code in one Store request.''
      else if kind = Store_Transfer \<and> (\<exists>item \<in> set (rb_items input). item_tracking db (rt_item item) = Some Serialized
          \<and> (\<not> is_integer (rt_quantity item) \<or> num_lt (rt_quantity item) (Fin 1) \<or> num_lt (Fin 500) (rt_quantity item)
             \<or> (case rt_unit item of None \<Rightarrow> False | Some u \<Rightarrow> u \<noteq> []) \<and> rt_quantity item \<noteq> Fin 1))
      then throw ''Request 1 to 500 whole physical units per Asset Code.''
      else let named = concat (map (\<lambda>item. case optional_text (rt_unit item) of None \<Rightarrow> [] | Some u \<Rightarrow> [u]) (rb_items input)) in
      if \<not> distinct named then throw ''Select each physical Unit ID only once per request.''
      else bind_result (reserve_items db kind named [] (rb_items input)) (\<lambda>reserved.
      (case next_document_number env ''REQUISITION'' ''STR-REQ'' db of (number, db1) \<Rightarrow>
      (case generate_id env db1 of (header, db2) \<Rightarrow>
      bind_result (date_param env (rb_required_on input)) (\<lambda>required_on.
      if to_lower number \<in> to_lower ` rh_number ` set (db_headers db2)
      then throw ''duplicate key value violates unique constraint store_requisition_headers_number_unique''
      else bind_result (request_lines (request_line env kind header number (rb_location input)) (enumerate 0 reserved)
          (db2\<lparr>db_headers := db_headers db2 @ [\<lparr>rh_id = header, rh_number = number, rh_location = rb_location input,
             rh_department = department, rh_requested_by = requested_by, rh_required_on = required_on,
             rh_purpose = optional_text (rb_purpose input), rh_kind = kind, rh_receiving_store = receiving,
             rh_recipient_reference = recipient_reference, rh_recipient_name = recipient_name\<rparr>]\<rparr>)) (\<lambda>(ids, db3).
        return ((header, ids, number), db3))))))))))))"

definition create_requisition ::
    "store_env \<Rightarrow> request_input \<Rightarrow> string \<Rightarrow> jsnum \<Rightarrow> store_db \<Rightarrow> ((string \<times> string) \<times> store_db) js_result" where
  "create_requisition env input item quantity db =
     bind_result (create_requisition_batch env (input\<lparr>rb_items := [\<lparr>rt_item = item, rt_quantity = quantity, rt_unit = None\<rparr>]\<rparr>) db)
       (\<lambda>((header, ids, number), db'). return ((hd ids, number), db'))"

subsection \<open>Effects of the inserts\<close>

definition stock_nonneg :: "store_db \<Rightarrow> bool" where
  "stock_nonneg db \<longleftrightarrow> (\<forall>item l. 0 \<le> consumable_balance db item l)"

lemma consumable_balance_insert:
  "consumable_balance (db\<lparr>db_movements := db_movements db @ [m]\<rparr>) item l =
     consumable_balance db item l + (if sm_unit m = None \<and> sm_item m = item \<and> sm_location m = l then sm_quantity m else 0)"
  by (auto simp: consumable_balance_def consumable_moves_def)

lemma insert_movement_effect:
  assumes "insert_movement m db = Inr db'"
  shows "db' = db\<lparr>db_movements := db_movements db @ [m]\<rparr>" "sm_quantity m \<noteq> 0" "stock_nonneg db \<Longrightarrow> stock_nonneg db'"
  using assms by (auto simp: insert_movement_def consumable_balance_insert stock_nonneg_def split: if_splits)

lemma insert_movements_effect:
  "insert_movements ms db = Inr db' \<Longrightarrow>
     db' = db\<lparr>db_movements := db_movements db @ ms\<rparr> \<and> (stock_nonneg db \<longrightarrow> stock_nonneg db')"
proof (induction ms arbitrary: db)
  case (Cons m ms)
  from Cons.prems obtain db1 where 1: "insert_movement m db = Inr db1" and 2: "insert_movements ms db1 = Inr db'"
    by (auto simp: js_result)
  note e = insert_movement_effect [OF 1]
  show ?case using Cons.IH [OF 2] e(1,3) by auto
qed simp

lemma insert_units_movements:
  "\<forall>m \<in> set ms. sm_unit m \<noteq> None \<and> sm_quantity m \<noteq> 0 \<Longrightarrow>
     insert_movements ms db = Inr (db\<lparr>db_movements := db_movements db @ ms\<rparr>)"
  by (induction ms arbitrary: db) (auto simp: insert_movement_def)

subsection \<open>What an issue takes from the balances\<close>

fun greedy :: "int \<Rightarrow> ('a \<times> int) list \<Rightarrow> ('a \<times> int) list" where
  "greedy r [] = []"
| "greedy r ((loc, b) # rest) =
     (let u = min r b in (if 0 < u then [(loc, u)] else []) @ greedy (r - u) rest)"

lemma units_of_balance_exact: "\<bar>b\<bar> \<le> 10 ^ 14 \<Longrightarrow> units_of_balance b = num_int b"
  unfolding units_of_balance_def by (rule round_thousandths [OF close_numeric_number]) simp_all

lemma num_round_mono: "num_le p q \<Longrightarrow> num_le (num_round p) (num_round q)"
  by (cases p; cases q) (auto intro: floor_mono)

lemma num_mul_scale_mono:
  assumes "num_le p q" "0 < k"
  shows "num_le (num_mul p (Fin k)) (num_mul q (Fin k))"
proof -
  have inf: "num_le (fl x) PosInf" "num_le NegInf (fl x)" for x
    using fl_not_NaN [of x] by (cases "fl x"; simp)+
  show ?thesis using assms
    by (cases p; cases q) (auto simp: inf_signed_def inf intro: fl_mono)
qed

text \<open>A balance above the range is not exact, but it is above the range.\<close>

lemma units_of_balance_large:
  assumes "10 ^ 14 \<le> b"
  shows "num_le (num_int (10 ^ 14)) (units_of_balance b)"
proof -
  have le: "num_le (numeric_number (10 ^ 14)) (numeric_number b)"
    unfolding numeric_number_def by (rule fl_mono) (use assms in \<open>simp add: divide_right_mono flip: of_int_le_iff\<close>)
  then have "num_le (num_mul (numeric_number (10 ^ 14)) (Fin 1000)) (num_mul (numeric_number b) (Fin 1000))"
    by (rule num_mul_scale_mono) simp
  then have "num_le (units_of_balance (10 ^ 14)) (units_of_balance b)"
    unfolding units_of_balance_def by (rule num_round_mono)
  then show ?thesis using units_of_balance_exact [of "10 ^ 14"] by simp
qed

lemma min_units:
  assumes "0 \<le> r" "r \<le> 10 ^ 14" "0 \<le> b"
  shows "num_min (num_int r) (num_max (Fin 0) (units_of_balance b)) = num_int (min r b)"
proof (cases "b \<le> 10 ^ 14")
  case True
  then show ?thesis using assms by (simp add: units_of_balance_exact num_max_def num_min_def min_def)
next
  case False
  then have le: "num_le (num_int (10 ^ 14)) (units_of_balance b)" by (intro units_of_balance_large) simp
  have "num_le (num_int r) (num_int (10 ^ 14))" "num_le (Fin 0) (num_int (10 ^ 14))"
    using assms(2) by (simp_all flip: of_int_le_iff)
  then have "num_le (num_int r) (units_of_balance b)" "num_le (Fin 0) (units_of_balance b)"
    using le num_le_trans by blast+
  moreover have "units_of_balance b \<noteq> NaN" using le by auto
  moreover have "min r b = r" using False assms by simp
  ultimately show ?thesis by (simp add: num_max_def num_min_def)
qed

lemma deductions_greedy:
  assumes "0 \<le> r" "r \<le> 10 ^ 14" "\<forall>(loc, b) \<in> set bs. 0 \<le> b"
  shows "deductions (num_int r) bs = map (\<lambda>(loc, u). (loc, numeric_number u)) (greedy r bs)"
  using assms
proof (induction bs arbitrary: r)
  case (Cons x bs)
  obtain loc b where x: "x = (loc, b)" by (cases x)
  have b: "0 \<le> b" using Cons.prems by (auto simp: x)
  let ?u = "min r b"
  have units: "num_min (num_int r) (num_max (Fin 0) (units_of_balance b)) = num_int ?u"
    using Cons.prems(1,2) b by (rule min_units)
  have sub: "num_sub (num_int r) (num_int ?u) = num_int (r - ?u)"
    using Cons.prems b by (intro num_sub_int) (simp_all add: min_def)
  have "deductions (num_int (r - ?u)) bs = map (\<lambda>(loc, u). (loc, numeric_number u)) (greedy (r - ?u) bs)"
    using Cons.prems b by (intro Cons.IH) auto
  then show ?case
    by (simp only: x deductions.simps greedy.simps Let_def units sub)
      (auto simp: numeric_number_def)
qed simp

lemma greedy_sum:
  "0 \<le> r \<Longrightarrow> \<forall>(loc, b) \<in> set bs. 0 \<le> b \<Longrightarrow> sum_list (map snd (greedy r bs)) = min r (sum_list (map snd bs))"
proof (induction bs arbitrary: r)
  case (Cons x bs)
  then have "0 \<le> sum_list (map snd bs)" by (intro sum_list_nonneg) auto
  with Cons show ?case by (cases x) (auto simp: Let_def min_def)
qed simp

lemma greedy_mem:
  "(loc, u) \<in> set (greedy r bs) \<Longrightarrow> distinct (map fst bs) \<Longrightarrow> 0 < u \<and> (\<exists>b. (loc, b) \<in> set bs \<and> u \<le> b)"
proof (induction bs arbitrary: r)
  case (Cons x bs)
  obtain l b where x: "x = (l, b)" by (cases x)
  from Cons.prems(1) consider "loc = l \<and> u = min r b \<and> 0 < u" | "(loc, u) \<in> set (greedy (r - min r b) bs)"
    by (auto simp: x Let_def split: if_splits)
  then show ?case
  proof cases
    case 1
    then show ?thesis by (auto simp: x)
  next
    case 2
    then show ?thesis using Cons.IH [OF 2] Cons.prems(2) by auto
  qed
qed simp

lemma greedy_le: "(loc, u) \<in> set (greedy r bs) \<Longrightarrow> \<forall>(loc, b) \<in> set bs. 0 \<le> b \<Longrightarrow> u \<le> max r 0"
proof (induction r bs rule: greedy.induct)
  case (2 r l b rest)
  from 2(2) consider "u = min r b" | "(loc, u) \<in> set (greedy (r - min r b) rest)"
    by (auto simp: Let_def split: if_splits)
  then show ?case
  proof cases
    case mem: 2
    have "u \<le> max (r - min r b) 0" using 2(3) by (intro 2(1) mem) simp_all
    then show ?thesis using 2(3) by (simp add: min_def split: if_splits)
  qed simp_all
qed simp

lemma greedy_fst: "fst ` set (greedy r bs) \<subseteq> fst ` set bs"
  by (induction r bs rule: greedy.induct) (auto simp: Let_def split: if_splits)

lemma greedy_distinct: "distinct (map fst bs) \<Longrightarrow> distinct (map fst (greedy r bs))"
proof (induction bs arbitrary: r)
  case (Cons x bs)
  then show ?case using greedy_fst [of _ bs] by (cases x) (auto simp: Let_def)
qed simp

text \<open>Movements that take from different locations no more than is there are all accepted.\<close>

lemma insert_deductions:
  assumes "\<forall>m \<in> set ms. sm_unit m = None \<and> sm_item m = item \<and> sm_quantity m < 0
      \<and> 0 \<le> consumable_balance db item (sm_location m) + sm_quantity m"
    "distinct (map sm_location ms)"
  shows "insert_movements ms db = Inr (db\<lparr>db_movements := db_movements db @ ms\<rparr>)"
  using assms
proof (induction ms arbitrary: db)
  case (Cons m ms)
  let ?db = "db\<lparr>db_movements := db_movements db @ [m]\<rparr>"
  have "insert_movement m db = Inr ?db" using Cons.prems(1) by (auto simp: insert_movement_def)
  moreover have "insert_movements ms ?db = Inr (?db\<lparr>db_movements := db_movements ?db @ ms\<rparr>)"
    using Cons.prems by (intro Cons.IH) (auto simp: consumable_balance_insert)
  ultimately show ?case by simp
qed simp

subsection \<open>The balances of a store\<close>

definition stock_locations :: "store_db \<Rightarrow> string \<Rightarrow> store_location list" where
  "stock_locations db store =
     filter (\<lambda>loc. sl_store loc = Some store \<and> sl_type loc = Store_Location \<and> sl_active loc) (db_locations db)"

definition store_stock :: "store_db \<Rightarrow> string \<Rightarrow> string \<Rightarrow> int" where
  "store_stock db item store = sum_list (map (\<lambda>loc. consumable_balance db item (sl_id loc)) (stock_locations db store))"

lemma mset_store_balances:
  "mset (store_balances db item store) =
     filter_mset (\<lambda>(loc, b). b \<noteq> 0) (image_mset (\<lambda>loc. (loc, consumable_balance db item (sl_id loc))) (mset (stock_locations db store)))"
  by (simp add: store_balances_def stock_locations_def mset_filter)

lemma set_store_balances:
  "(loc, b) \<in> set (store_balances db item store) \<longleftrightarrow>
     loc \<in> set (stock_locations db store) \<and> b = consumable_balance db item (sl_id loc) \<and> b \<noteq> 0"
  by (auto simp: store_balances_def stock_locations_def)

lemma sum_mset_nonzero: "sum_mset (image_mset snd (filter_mset (\<lambda>(loc, b). b \<noteq> (0 :: int)) M)) = sum_mset (image_mset snd M)"
  by (induction M) auto

lemma sum_store_balances: "sum_list (map snd (store_balances db item store)) = store_stock db item store"
proof -
  have "sum_list (map snd (store_balances db item store)) = sum_mset (image_mset snd (mset (store_balances db item store)))"
    by (simp only: mset_map [symmetric] sum_mset_sum_list)
  also have "\<dots> = store_stock db item store"
    unfolding mset_store_balances sum_mset_nonzero
    by (simp add: store_stock_def image_mset.compositionality comp_def flip: mset_map sum_mset_sum_list)
  finally show ?thesis .
qed

lemma distinct_store_balances:
  assumes "distinct (map sl_id (db_locations db))"
  shows "distinct (map (sl_id \<circ> fst) (store_balances db item store))"
  using assms by (auto simp: store_balances_def distinct_map inj_on_def)

lemma nonneg_balances: "stock_nonneg db \<Longrightarrow> (loc, b) \<in> set (store_balances db item store) \<Longrightarrow> 0 < b"
  unfolding set_store_balances stock_nonneg_def by (metis order_le_less)

text \<open>The sum over the balances: exact in range, and above the range when the balances are.\<close>

definition counts_to :: "jsnum \<Rightarrow> int \<Rightarrow> bool" where
  "counts_to t s \<longleftrightarrow> (if s \<le> 10 ^ 14 then t = num_int s else num_le (num_int (10 ^ 14)) t)"

lemma counts_to_add:
  assumes "counts_to t s" "0 \<le> s" "0 \<le> b"
  shows "counts_to (num_add t (units_of_balance b)) (s + b)"
proof -
  have zero: "num_le (Fin 0) (units_of_balance b)"
  proof (cases "b \<le> 10 ^ 14")
    case False
    then have "num_le (num_int (10 ^ 14)) (units_of_balance b)" by (intro units_of_balance_large) simp
    then show ?thesis by (rule num_le_trans [rotated]) simp
  qed (use assms(3) in \<open>simp add: units_of_balance_exact\<close>)
  have big: "num_le (num_int (10 ^ 14)) (num_add p q)"
    if "num_le (num_int (10 ^ 14)) p" "num_le (Fin 0) q" for p q
  proof -
    have "num_le (fl (of_int (10 ^ 14))) (fl (x + y))" if "of_int (10 ^ 14) \<le> x" "0 \<le> y" for x y
      using that by (intro fl_mono) simp
    moreover have "fl (of_int (10 ^ 14)) = num_int (10 ^ 14)" by (rule fl_of_int) simp
    ultimately show ?thesis using that by (cases p; cases q) (simp_all del: fl_numeral of_int_numeral of_int_power)
  qed
  consider "s + b \<le> 10 ^ 14" | "10 ^ 14 < s + b" "10 ^ 14 < s" | "10 ^ 14 < s + b" "s \<le> 10 ^ 14" "10 ^ 14 < b"
    | "10 ^ 14 < s + b" "s \<le> 10 ^ 14" "b \<le> 10 ^ 14" by linarith
  then show ?thesis
  proof cases
    case 1
    then have "b \<le> 10 ^ 14" "t = num_int s" using assms by (simp_all add: counts_to_def)
    then show ?thesis using 1 assms by (simp add: counts_to_def units_of_balance_exact num_add_int del: num_add.simps)
  next
    case 2
    then have "num_le (num_int (10 ^ 14)) t" using assms(1) by (simp add: counts_to_def)
    from big [OF this zero] show ?thesis using 2 by (simp add: counts_to_def)
  next
    case 3
    then have "num_le (num_int (10 ^ 14)) (units_of_balance b)" by (intro units_of_balance_large) simp
    moreover have "num_le (Fin 0) t" using 3(2) assms(1,2) by (simp add: counts_to_def)
    ultimately have "num_le (num_int (10 ^ 14)) (num_add (units_of_balance b) t)" by (rule big)
    then show ?thesis using 3(1) by (simp add: counts_to_def num_add_comm)
  next
    case 4
    then have "num_add t (units_of_balance b) = num_int (s + b)"
      using assms by (simp add: counts_to_def units_of_balance_exact num_add_int del: num_add.simps)
    moreover have "(of_int (10 ^ 14) :: rat) \<le> of_int (s + b)" using 4(1) by (simp only: of_int_le_iff)
    ultimately show ?thesis using 4(1) by (simp add: counts_to_def del: num_add.simps)
  qed
qed

lemma counts_to_available:
  assumes "counts_to t s" "0 \<le> s" "\<forall>(loc, b) \<in> set bs. 0 \<le> b"
  shows "counts_to (foldl (\<lambda>t (loc, b). num_add t (units_of_balance b)) t bs) (s + sum_list (map snd bs))"
  using assms
proof (induction bs arbitrary: t s)
  case (Cons x bs)
  obtain loc b where x: "x = (loc, b)" by (cases x)
  have b: "0 \<le> b" using Cons.prems(3) by (simp add: x)
  have "counts_to (foldl (\<lambda>t (loc, b). num_add t (units_of_balance b)) (num_add t (units_of_balance b)) bs)
      (s + b + sum_list (map snd bs))"
    using Cons.prems(2,3) b by (intro Cons.IH counts_to_add Cons.prems(1)) (simp_all add: x)
  then show ?case by (simp add: x add.assoc)
qed simp

lemma counts_to_less: "counts_to t s \<Longrightarrow> n \<le> 10 ^ 14 \<Longrightarrow> num_lt t (num_int n) \<longleftrightarrow> s < n"
proof -
  assume a: "counts_to t s" "n \<le> 10 ^ 14"
  show ?thesis
  proof (cases "s \<le> 10 ^ 14")
    case True
    then show ?thesis using a by (simp add: counts_to_def)
  next
    case False
    have "(of_int n :: rat) \<le> of_int (10 ^ 14)" using a(2) by (simp only: of_int_le_iff)
    then have "num_le (num_int n) t" using False a(1) by (auto simp: counts_to_def intro: num_le_trans [rotated])
    then show ?thesis using False a(2) by (simp add: num_lt_def)
  qed
qed

definition no_unit_codes :: "issue_input \<Rightarrow> bool" where
  "no_unit_codes input \<longleftrightarrow> optional_text (is_unit_code input) = None
     \<and> (case is_unit_codes input of None \<Rightarrow> True | Some codes \<Rightarrow> \<forall>c \<in> set codes. trim c = [])"

definition taken_movements ::
    "store_env \<Rightarrow> issue_input \<Rightarrow> issue_row \<Rightarrow> holder \<Rightarrow> int \<Rightarrow> store_db \<Rightarrow> stock_movement list" where
  "taken_movements env input row h n db = map (\<lambda>(loc, u). issue_movement env input row h loc None (- u))
     (greedy n (store_balances db (sq_item (ir_request row)) (ir_store row)))"

lemma numeric_number_param: "0 < u \<Longrightarrow> u \<le> 10 ^ 14 \<Longrightarrow> numeric_param (numeric_number u) = Inr u"
  using numeric_column_close [OF close_numeric_number, of u] by (simp add: numeric_param_def)

text \<open>Stock is taken greedily from the balances, one movement per location.\<close>

lemma take_stock:
  assumes bs: "\<forall>(loc, b) \<in> set bs. 0 \<le> b \<and> b = consumable_balance db item (sl_id loc)" "distinct (map (sl_id \<circ> fst) bs)"
    and n: "0 < n" "n \<le> 10 ^ 14"
    and f: "\<And>loc q. f (loc, q) = bind_result (numeric_param q) (\<lambda>u. return (mk loc u))"
    and mk: "\<And>loc u. sm_unit (mk loc u) = None \<and> sm_item (mk loc u) = item \<and> sm_location (mk loc u) = sl_id loc \<and> sm_quantity (mk loc u) = - u"
  shows "map_result f (map (\<lambda>(loc, u). (loc, numeric_number u)) (greedy n bs)) = Inr (map (\<lambda>(loc, u). mk loc u) (greedy n bs))"
    "insert_movements (map (\<lambda>(loc, u). mk loc u) (greedy n bs)) db
       = Inr (db\<lparr>db_movements := db_movements db @ map (\<lambda>(loc, u). mk loc u) (greedy n bs)\<rparr>)"
proof -
  have d: "distinct (map fst bs)" using bs(2) by (metis distinct_map map_map)
  have mem: "0 < u \<and> (\<exists>b. (loc, b) \<in> set bs \<and> u \<le> b)" if "(loc, u) \<in> set (greedy n bs)" for loc u
    by (rule greedy_mem [OF that d])
  have le_n: "u \<le> 10 ^ 14" if "(loc, u) \<in> set (greedy n bs)" for loc u
    using greedy_le [OF that] bs(1) n by force
  show "map_result f (map (\<lambda>(loc, u). (loc, numeric_number u)) (greedy n bs)) = Inr (map (\<lambda>(loc, u). mk loc u) (greedy n bs))"
  proof -
    have "map_result f (map (\<lambda>(loc, u). (loc, numeric_number u)) (greedy n bs))
      = Inr (map (\<lambda>(loc, q). mk loc (case numeric_param q of Inr u \<Rightarrow> u)) (map (\<lambda>(loc, u). (loc, numeric_number u)) (greedy n bs)))"
    proof (rule map_result_Inr)
      fix x assume "x \<in> set (map (\<lambda>(loc, u). (loc, numeric_number u)) (greedy n bs))"
      then obtain loc u where x: "x = (loc, numeric_number u)" "(loc, u) \<in> set (greedy n bs)" by auto
      have "0 < u \<and> u \<le> 10 ^ 14" using mem [OF x(2)] le_n [OF x(2)] by simp
      then show "f x = Inr (case x of (loc, q) \<Rightarrow> mk loc (case numeric_param q of Inr u \<Rightarrow> u))"
        by (simp add: x(1) f numeric_number_param)
    qed
    also have "\<dots> = Inr (map (\<lambda>(loc, u). mk loc u) (greedy n bs))"
      unfolding map_map
    proof (intro arg_cong [where f = Inr] map_cong refl)
      fix x assume "x \<in> set (greedy n bs)"
      moreover obtain loc u where x: "x = (loc, u)" by (cases x)
      ultimately have "0 < u \<and> u \<le> 10 ^ 14" using mem [of loc u] le_n [of loc u] by simp
      then show "((\<lambda>(loc, q). mk loc (case numeric_param q of Inr u \<Rightarrow> u)) \<circ> (\<lambda>(loc, u). (loc, numeric_number u))) x
          = (case x of (loc, u) \<Rightarrow> mk loc u)"
        by (simp add: x numeric_number_param)
    qed
    finally show ?thesis .
  qed
  show "insert_movements (map (\<lambda>(loc, u). mk loc u) (greedy n bs)) db
       = Inr (db\<lparr>db_movements := db_movements db @ map (\<lambda>(loc, u). mk loc u) (greedy n bs)\<rparr>)"
  proof (rule insert_deductions)
    show "\<forall>m \<in> set (map (\<lambda>(loc, u). mk loc u) (greedy n bs)). sm_unit m = None \<and> sm_item m = item \<and> sm_quantity m < 0
        \<and> 0 \<le> consumable_balance db item (sm_location m) + sm_quantity m"
      using mem bs(1) by (fastforce simp: mk)
    have "distinct (map (sl_id \<circ> fst) (greedy n bs))"
    proof -
      have "inj_on sl_id (fst ` set bs)" using bs(2) by (metis distinct_map list.set_map map_map)
      then have "inj_on sl_id (set (map fst (greedy n bs)))"
        using greedy_fst [of n bs] by (auto intro: inj_on_subset)
      then show ?thesis using greedy_distinct [OF d, of n] by (simp only: map_map [symmetric] distinct_map)
    qed
    then show "distinct (map sm_location (map (\<lambda>(loc, u). mk loc u) (greedy n bs)))"
      by (simp add: comp_def case_prod_beta mk)
  qed
qed

lemma stock_available:
  assumes "\<forall>(loc, b) \<in> set bs. 0 \<le> b" "n \<le> 10 ^ 14"
  shows "num_lt (foldl (\<lambda>t (loc, b). num_add t (units_of_balance b)) (Fin 0) bs) (num_int n) \<longleftrightarrow> sum_list (map snd bs) < n"
proof (rule counts_to_less)
  have "counts_to (Fin 0) 0" by (simp add: counts_to_def)
  from counts_to_available [OF this _ assms(1)]
  show "counts_to (foldl (\<lambda>t (loc, b). num_add t (units_of_balance b)) (Fin 0) bs) (sum_list (map snd bs))" by simp
qed (rule assms(2))

text \<open>With an amount close to \<open>n\<close> thousandths the issue takes exactly \<open>n\<close>, or fails for lack of stock.\<close>

lemma issue_consumable_exact:
  assumes amount: "close_to d quantity n" "d \<le> 1 / 4" "0 < n" "n \<le> 10 ^ 14" and codes: "no_unit_codes input"
    and wf: "distinct (map sl_id (db_locations db))" "stock_nonneg db"
  shows "issue_consumable env input row quantity h reference name db =
    (if store_stock db (sq_item (ir_request row)) (ir_store row) < n
     then Inl ''Insufficient current stock for this issue.''
     else Inr (db\<lparr>db_movements := db_movements db
       @ taken_movements env input row (h, Some reference, Some name) n db\<rparr>))"
proof -
  let ?item = "sq_item (ir_request row)"
  let ?bs = "store_balances db ?item (ir_store row)" and ?h = "(h, Some reference, Some name)"
  have pos: "0 < b" if "(loc, b) \<in> set ?bs" for loc b by (rule nonneg_balances [OF wf(2) that])
  then have pos': "\<forall>(loc, b) \<in> set ?bs. 0 \<le> b" by (auto intro: less_imp_le)
  have round: "num_round (num_mul quantity (Fin 1000)) = num_int n"
    using amount by (intro round_thousandths) simp_all
  have ded: "deductions (num_int n) ?bs = map (\<lambda>(loc, u). (loc, numeric_number u)) (greedy n ?bs)"
    using pos' amount by (intro deductions_greedy) simp_all
  have bs: "\<forall>(loc, b) \<in> set ?bs. 0 \<le> b \<and> b = consumable_balance db ?item (sl_id loc)"
    using pos' by (auto simp: set_store_balances)
  note take = take_stock [OF bs distinct_store_balances [OF wf(1)] amount(3,4), of "deduction_movement env input row ?h"
      "\<lambda>loc u. issue_movement env input row ?h loc None (- u)"]
  have "map_result (deduction_movement env input row ?h) (deductions (num_int n) ?bs) = Inr (taken_movements env input row ?h n db)"
    unfolding ded taken_movements_def by (rule take(1)) (simp_all add: deduction_movement_def issue_movement_def)
  moreover have "insert_movements (taken_movements env input row ?h n db) db
      = Inr (db\<lparr>db_movements := db_movements db @ taken_movements env input row ?h n db\<rparr>)"
    unfolding taken_movements_def by (rule take(2)) (simp_all add: deduction_movement_def issue_movement_def)
  moreover have "\<not> (optional_text (is_unit_code input) \<noteq> None
         \<or> (case is_unit_codes input of None \<Rightarrow> False | Some codes \<Rightarrow> \<exists>c \<in> set codes. trim c \<noteq> []))"
    using codes by (auto simp: no_unit_codes_def split: option.splits)
  ultimately show ?thesis
    using stock_available [OF pos' amount(4)] by (simp add: issue_consumable_def Let_def round sum_store_balances)
qed

subsection \<open>The effect of an issue\<close>

text \<open>An amount of at most three decimals, or all that remains.\<close>

definition whole_amount :: "quantity_input \<Rightarrow> store_request \<Rightarrow> int \<Rightarrow> bool" where
  "whole_amount entered q n \<longleftrightarrow> (case entered of
      Remaining \<Rightarrow> n = sq_requested q - sq_issued q
    | Quantity v \<Rightarrow> v = numeric_number n \<and> \<bar>n\<bar> \<le> 10 ^ 14)"

definition request_in_bounds :: "store_request \<Rightarrow> bool" where
  "request_in_bounds q \<longleftrightarrow> 0 \<le> sq_issued q \<and> sq_issued q \<le> sq_requested q \<and> sq_requested q \<le> 10 ^ 14"

lemma close_remaining:
  "request_in_bounds q \<Longrightarrow> close_to (3 / 50) (remaining_quantity (sq_requested q) (sq_issued q)) (sq_requested q - sq_issued q)"
  unfolding remaining_quantity_def request_in_bounds_def
  using close_to_sub [OF close_numeric_number close_numeric_number, of "sq_requested q" "sq_issued q"] by simp

lemma remaining_zero: "remaining_quantity i i = Fin 0 \<or> remaining_quantity i i = NaN"
  unfolding remaining_quantity_def num_sub_def by (cases "numeric_number i") simp_all

lemma positive_quantity_Inr:
  "positive_quantity v = Inr w \<longleftrightarrow> w = v \<and> is_finite v \<and> num_lt (Fin 0) v"
  by (cases v) (auto simp: positive_quantity_def)

lemma issue_amount:
  assumes whole: "whole_amount entered q n" and q: "request_in_bounds q"
    and pos: "positive_quantity (case entered of Remaining \<Rightarrow> remaining_quantity (sq_requested q) (sq_issued q) | Quantity v \<Rightarrow> v) = Inr quantity"
    and le: "\<not> num_lt (remaining_quantity (sq_requested q) (sq_issued q)) quantity"
  shows "close_to (3 / 50) quantity n" "0 < n" "n \<le> sq_requested q - sq_issued q"
proof -
  let ?r = "remaining_quantity (sq_requested q) (sq_issued q)"
  have p: "num_lt (Fin 0) quantity" "is_finite quantity" using pos by (auto simp: positive_quantity_Inr)
  have r: "close_to (3 / 50) ?r (sq_requested q - sq_issued q)" by (rule close_remaining [OF q])
  show close: "close_to (3 / 50) quantity n"
  proof (cases entered)
    case Remaining
    then show ?thesis using r whole pos by (simp add: whole_amount_def positive_quantity_Inr)
  next
    case (Quantity v)
    then show ?thesis using whole pos close_numeric_number [of n]
      by (auto simp: whole_amount_def positive_quantity_Inr intro: close_to_mono)
  qed
  have "n \<noteq> 0"
  proof
    assume "n = 0"
    then have "quantity = Fin 0 \<or> quantity = NaN" using whole pos remaining_zero [of "sq_issued q"]
      by (auto simp: whole_amount_def positive_quantity_Inr numeric_number_def split: quantity_input.splits)
    then show False using p by auto
  qed
  moreover have "0 \<le> n" by (rule close_to_positive [OF close _ p(1)]) simp
  ultimately show "0 < n" by simp
  have "num_le quantity ?r" using le r p(2)
    by (cases quantity; cases ?r) (auto simp: close_to_def num_lt_def)
  then show "n \<le> sq_requested q - sq_issued q" by (rule close_to_le [OF close r, rotated]) simp
qed

lemma issued_number:
  assumes "close_to (3 / 50) quantity n" "0 < n" "n \<le> sq_requested q - sq_issued q" and q: "request_in_bounds q"
  shows "numeric_param (num_add (numeric_number (sq_issued q)) quantity) = Inr (sq_issued q + n)"
    "num_eq (num_add (numeric_number (sq_issued q)) quantity) (numeric_number (sq_requested q)) \<Longrightarrow> sq_issued q + n = sq_requested q"
proof -
  have b: "\<bar>sq_issued q\<bar> \<le> 10 ^ 14" "\<bar>sq_issued q + n\<bar> \<le> 10 ^ 14" "\<bar>sq_requested q\<bar> \<le> 10 ^ 14"
    using q assms(2,3) by (auto simp: request_in_bounds_def)
  have c: "close_to (1 / 10) (num_add (numeric_number (sq_issued q)) quantity) (sq_issued q + n)"
    using close_to_add [OF close_numeric_number [OF b(1)] assms(1) b(2)] by simp
  show "numeric_param (num_add (numeric_number (sq_issued q)) quantity) = Inr (sq_issued q + n)"
    using numeric_column_close [OF c] b(2) assms(2) q by (simp add: numeric_param_def request_in_bounds_def)
  assume "num_eq (num_add (numeric_number (sq_issued q)) quantity) (numeric_number (sq_requested q))"
  then have "close_to (1 / 10) (numeric_number (sq_requested q)) (sq_issued q + n)" using c by (simp add: num_eq_iff)
  then show "sq_issued q + n = sq_requested q"
    by (rule close_to_unique [OF _ close_numeric_number [OF b(3)]]) simp
qed

definition assign_selected :: "holder_type \<Rightarrow> string \<Rightarrow> string \<Rightarrow> string option \<Rightarrow> store_unit list \<Rightarrow> store_unit list \<Rightarrow> store_unit list" where
  "assign_selected h reference name machine selected units =
     map (\<lambda>u. if su_id u \<in> su_id ` set selected then assign_unit h reference name machine u else u) units"

lemma issue_units_effect:
  assumes "issue_units env input row quantity h reference name db = Inr db'"
  shows "\<exists>machine. let selected = selected_units db row (remdups (map to_lower (requested_codes input))) in
     num_int (int (length selected)) = quantity
     \<and> length (remdups (map to_lower (requested_codes input))) = length selected
     \<and> db' = db\<lparr>db_units := assign_selected h reference name machine selected (db_units db),
         db_movements := db_movements db
           @ map (\<lambda>u. issue_movement env input row (h, Some reference, Some name) (ir_location row) (Some (su_id u)) (- 1000)) selected\<rparr>"
proof -
  let ?selected = "selected_units db row (remdups (map to_lower (requested_codes input)))"
  let ?ms = "map (\<lambda>u. issue_movement env input row (h, Some reference, Some name) (ir_location row) (Some (su_id u)) (- 1000)) ?selected"
  obtain machine where len: "num_int (int (length ?selected)) = quantity"
    and codes: "num_int (int (length (requested_codes input))) = quantity"
      "length (remdups (map to_lower (requested_codes input))) = length (requested_codes input)"
    and ins: "insert_movements ?ms (db\<lparr>db_units := assign_selected h reference name machine ?selected (db_units db)\<rparr>) = Inr db'"
    using assms unfolding issue_units_def Let_def assign_selected_def
    by (auto simp: js_result split: if_splits)
  have "insert_movements ?ms (db\<lparr>db_units := assign_selected h reference name machine ?selected (db_units db)\<rparr>)
      = Inr (db\<lparr>db_units := assign_selected h reference name machine ?selected (db_units db),
         db_movements := db_movements db @ ?ms\<rparr>)"
    by (subst insert_units_movements) (simp_all add: issue_movement_def)
  moreover have "num_int (int (length (requested_codes input))) = num_int (int (length ?selected))"
    using len codes(1) by (rule trans [OF _ sym, rotated])
  then have "length (requested_codes input) = length ?selected" by simp
  ultimately show ?thesis using len codes(2) ins unfolding Let_def by auto
qed


text \<open>The effect of an issue in one statement: the request that is found, the amount, the units handed out
  and the movements written.\<close>

record issue_effect =
  ie_row :: issue_row
  ie_amount :: int
  ie_units :: "store_unit list"
  ie_movements :: "stock_movement list"
  ie_status :: request_status
  ie_holder :: holder_type
  ie_reference :: string
  ie_name :: string
  ie_machine :: "string option"

definition issue_applies :: "issue_input \<Rightarrow> store_db \<Rightarrow> issue_effect \<Rightarrow> bool" where
  "issue_applies input db e \<longleftrightarrow>
     issue_row_of db (is_request input) = Some (ie_row e)
     \<and> 0 < ie_amount e \<and> sq_issued (ir_request (ie_row e)) + ie_amount e \<le> sq_requested (ir_request (ie_row e))
     \<and> ie_status e \<in> {Fulfilled, Partially_Issued}
     \<and> (ie_status e = Fulfilled \<longrightarrow> sq_issued (ir_request (ie_row e)) + ie_amount e = sq_requested (ir_request (ie_row e)))
     \<and> sum_list (map sm_quantity (ie_movements e)) = - ie_amount e
     \<and> (\<forall>m \<in> set (ie_movements e). sm_request m = Some (is_request input) \<and> sm_receipt_line m = None
          \<and> sm_item m = sq_item (ir_request (ie_row e)) \<and> sm_quantity m < 0)
     \<and> map sm_unit (filter (\<lambda>m. sm_unit m \<noteq> None) (ie_movements e)) = map (Some \<circ> su_id) (ie_units e)
     \<and> (\<forall>m \<in> set (ie_movements e). sm_unit m \<noteq> None \<longrightarrow> sm_quantity m = - 1000)
     \<and> set (ie_units e) \<subseteq> set (selected_units db (ie_row e) (map to_lower (requested_codes input)))
     \<and> distinct (map su_code (ie_units e))
     \<and> (si_tracking (ir_item (ie_row e)) = Serialized \<longrightarrow> ie_amount e = 1000 * int (length (ie_units e)))"

definition after_issue :: "issue_input \<Rightarrow> store_db \<Rightarrow> issue_effect \<Rightarrow> store_db" where
  "after_issue input db e = db\<lparr>
     db_units := assign_selected (ie_holder e) (ie_reference e) (ie_name e) (ie_machine e) (ie_units e) (db_units db),
     db_movements := db_movements db @ ie_movements e,
     db_requests := map (\<lambda>q. if sq_id q = is_request input
         then q\<lparr>sq_issued := sq_issued (ir_request (ie_row e)) + ie_amount e, sq_status := ie_status e\<rparr> else q) (db_requests db)\<rparr>"

definition issue_wf :: "store_db \<Rightarrow> bool" where
  "issue_wf db \<longleftrightarrow> distinct (map sl_id (db_locations db)) \<and> stock_nonneg db
     \<and> distinct (map (to_lower \<circ> su_code) (db_units db))"

lemma issue_row_of_request:
  "issue_row_of db i = Some row \<Longrightarrow> ir_request row \<in> set (db_requests db) \<and> sq_id (ir_request row) = i"
  by (auto simp: issue_row_of_def find_Some_iff split: option.splits if_splits)

lemma assign_none [simp]: "assign_selected h reference name machine [] units = units"
  by (simp add: assign_selected_def)

lemma update_request_Inr:
  "update_request i n status db = Inr db' \<Longrightarrow> db' = db\<lparr>db_requests :=
     map (\<lambda>q. if sq_id q = i then q\<lparr>sq_issued := n, sq_status := status\<rparr> else q) (db_requests db)\<rparr>"
  by (simp add: update_request_def split: if_splits)

lemma sum_list_minus_const: "sum_list (map (\<lambda>x. - c) xs) = - (c * int (length xs))"
  by (induction xs) (simp_all add: algebra_simps)

lemma taken_sum:
  assumes "stock_nonneg db" "0 < n" "n \<le> store_stock db (sq_item (ir_request row)) (ir_store row)"
  shows "sum_list (map sm_quantity (taken_movements env input row h n db)) = - n"
proof -
  let ?bs = "store_balances db (sq_item (ir_request row)) (ir_store row)"
  have "\<forall>(loc, b) \<in> set ?bs. 0 \<le> b" using nonneg_balances [OF assms(1)] by (auto intro: less_imp_le)
  then have "sum_list (map snd (greedy n ?bs)) = n"
    using greedy_sum [of n ?bs] assms by (simp add: sum_store_balances)
  moreover have "sum_list (map sm_quantity (taken_movements env input row h n db)) = - sum_list (map snd (greedy n ?bs))"
    by (simp add: taken_movements_def issue_movement_def case_prod_beta comp_def uminus_sum_list_map)
  ultimately show ?thesis by simp
qed

lemma taken_mem:
  assumes "m \<in> set (taken_movements env input row h n db)" "distinct (map sl_id (db_locations db))"
  shows "sm_request m = Some (is_request input) \<and> sm_receipt_line m = None \<and> sm_unit m = None
     \<and> sm_item m = sq_item (ir_request row) \<and> sm_quantity m < 0"
proof -
  let ?bs = "store_balances db (sq_item (ir_request row)) (ir_store row)"
  obtain loc u where u: "(loc, u) \<in> set (greedy n ?bs)" and m: "m = issue_movement env input row h loc None (- u)"
    using assms(1) by (auto simp: taken_movements_def)
  have "distinct (map fst ?bs)"
    using distinct_store_balances [OF assms(2)] by (metis distinct_map map_map)
  then have "0 < u" using greedy_mem [OF u] by blast
  then show ?thesis by (simp add: m issue_movement_def)
qed

lemma issue_requisition_Inr:
  assumes "issue_requisition_with_client env input db = Inr (res, db')"
  obtains row quantity h reference name where
    "issue_row_of db (is_request input) = Some row"
    "sq_status (ir_request row) \<noteq> Request_Cancelled" "sq_status (ir_request row) \<noteq> Fulfilled"
    "positive_quantity (case is_quantity input of
       Remaining \<Rightarrow> remaining_quantity (sq_requested (ir_request row)) (sq_issued (ir_request row)) | Quantity v \<Rightarrow> v) = Inr quantity"
    "\<not> num_lt (remaining_quantity (sq_requested (ir_request row)) (sq_issued (ir_request row))) quantity"
    "record_issue env input row quantity h reference name db = Inr (res, db')"
proof -
  obtain row where row: "issue_row_of db (is_request input) = Some row"
    using assms by (cases "issue_row_of db (is_request input)") (simp_all add: issue_requisition_with_client_def)
  show thesis
    using assms unfolding issue_requisition_with_client_def row option.case Let_def
    by (auto simp: js_result split: if_splits intro!: that [OF row])
qed

lemma record_issue_Inr:
  assumes "record_issue env input row quantity h reference name db = Inr (res, db')"
  obtains db1 n status where
    "(if si_tracking (ir_item row) = Serialized then issue_units env input row quantity h reference name db
      else issue_consumable env input row quantity h reference name db) = Inr db1"
    "numeric_param (num_add (numeric_number (sq_issued (ir_request row))) quantity) = Inr n"
    "status = (if num_eq (num_add (numeric_number (sq_issued (ir_request row))) quantity)
       (numeric_number (sq_requested (ir_request row))) then Fulfilled else Partially_Issued)"
    "update_request (is_request input) n status db1 = Inr db'"
    "res = (num_add (numeric_number (sq_issued (ir_request row))) quantity, status)"
  using assms unfolding record_issue_def Let_def by (force simp: bind_result_Inr_iff)

lemma selected_units_set:
  "u \<in> set (selected_units db row codes) \<Longrightarrow> u \<in> set (db_units db) \<and> to_lower (su_code u) \<in> set codes
     \<and> su_item u = sq_item (ir_request row) \<and> su_location u = Some (sq_location (ir_request row))
     \<and> su_store u = ir_store row \<and> su_holder_type u = Held_Store \<and> su_status u = Unit_Available
     \<and> \<not> reserved_elsewhere db (su_id u) (sq_id (ir_request row)) \<and> \<not> under_repair db (su_id u)"
  by (auto simp: selected_units_def)

lemma selected_units_distinct:
  "distinct (map su_code (db_units db)) \<Longrightarrow> distinct (map su_code (selected_units db row codes))"
  by (auto simp: selected_units_def distinct_map inj_on_def)

text \<open>An issue that succeeds has an effect of this form.\<close>

lemma issue_has_effect:
  assumes run: "issue_requisition_with_client env input db = Inr (res, db')"
    and wf: "issue_wf db"
    and whole: "\<And>row. issue_row_of db (is_request input) = Some row \<Longrightarrow>
      request_in_bounds (ir_request row) \<and> (\<exists>n. whole_amount (is_quantity input) (ir_request row) n)"
  obtains e where "issue_applies input db e" "db' = after_issue input db e"
    "sq_status (ir_request (ie_row e)) \<in> {Request_Pending, Partially_Issued}"
proof -
  from run obtain row quantity h reference name where row: "issue_row_of db (is_request input) = Some row"
    and open_request: "sq_status (ir_request row) \<noteq> Request_Cancelled" "sq_status (ir_request row) \<noteq> Fulfilled"
    and pos: "positive_quantity (case is_quantity input of
       Remaining \<Rightarrow> remaining_quantity (sq_requested (ir_request row)) (sq_issued (ir_request row)) | Quantity v \<Rightarrow> v) = Inr quantity"
    and le: "\<not> num_lt (remaining_quantity (sq_requested (ir_request row)) (sq_issued (ir_request row))) quantity"
    and rec: "record_issue env input row quantity h reference name db = Inr (res, db')"
    by (rule issue_requisition_Inr)
  let ?q = "ir_request row"
  obtain n where b: "request_in_bounds ?q" and n: "whole_amount (is_quantity input) ?q n" using whole [OF row] by blast
  note amount = issue_amount [OF n b pos le]
  note number = issued_number [OF amount b]
  have n14: "n \<le> 10 ^ 14" using amount(3) b by (simp add: request_in_bounds_def)
  from rec obtain db1 k status where step: "(if si_tracking (ir_item row) = Serialized then issue_units env input row quantity h reference name db
      else issue_consumable env input row quantity h reference name db) = Inr db1"
    and k: "numeric_param (num_add (numeric_number (sq_issued ?q)) quantity) = Inr k"
    and status: "status = (if num_eq (num_add (numeric_number (sq_issued ?q)) quantity) (numeric_number (sq_requested ?q))
       then Fulfilled else Partially_Issued)"
    and upd: "update_request (is_request input) k status db1 = Inr db'" by (rule record_issue_Inr)
  have kn: "k = sq_issued ?q + n" using k number(1) by simp
  have st: "status \<in> {Fulfilled, Partially_Issued}" "status = Fulfilled \<Longrightarrow> sq_issued ?q + n = sq_requested ?q"
    using number(2) by (auto simp: status split: if_splits)
  have open': "sq_status ?q \<in> {Request_Pending, Partially_Issued}" using open_request by (cases "sq_status ?q") auto
  show thesis
  proof (cases "si_tracking (ir_item row) = Serialized")
    case True
    then have "issue_units env input row quantity h reference name db = Inr db1" using step by simp
    from issue_units_effect [OF this] obtain machine where
      "let selected = selected_units db row (remdups (map to_lower (requested_codes input))) in
       num_int (int (length selected)) = quantity
       \<and> length (remdups (map to_lower (requested_codes input))) = length selected
       \<and> db1 = db\<lparr>db_units := assign_selected h reference name machine selected (db_units db),
           db_movements := db_movements db
             @ map (\<lambda>u. issue_movement env input row (h, Some reference, Some name) (ir_location row) (Some (su_id u)) (- 1000)) selected\<rparr>" ..
    moreover define us where "us = selected_units db row (remdups (map to_lower (requested_codes input)))"
    moreover define ms where "ms = map (\<lambda>u. issue_movement env input row (h, Some reference, Some name) (ir_location row) (Some (su_id u)) (- 1000)) us"
    ultimately have len: "num_int (int (length us)) = quantity"
      and db1: "db1 = db\<lparr>db_units := assign_selected h reference name machine us (db_units db), db_movements := db_movements db @ ms\<rparr>"
      by (simp_all add: Let_def)
    have "close_to 0 quantity (1000 * int (length us))"
      using amount(1) by (auto simp: close_to_def simp flip: len)
    then have n_len: "n = 1000 * int (length us)" by (rule close_to_unique [OF amount(1)]) simp
    define e where "e = \<lparr>ie_row = row, ie_amount = n, ie_units = us, ie_movements = ms, ie_status = status,
      ie_holder = h, ie_reference = reference, ie_name = name, ie_machine = machine\<rparr>"
    have "distinct (map su_code (db_units db))" using wf by (auto simp: issue_wf_def distinct_map dest: inj_on_imageI2)
    then have dist: "distinct (map su_code us)" unfolding us_def by (rule selected_units_distinct)
    have sub: "set us \<subseteq> set (selected_units db row (map to_lower (requested_codes input)))"
      by (simp add: us_def selected_units_def)
    have sum: "sum_list (map sm_quantity ms) = - n"
      by (simp add: ms_def issue_movement_def comp_def sum_list_minus_const n_len)
    have units: "map sm_unit (filter (\<lambda>m. sm_unit m \<noteq> None) ms) = map (Some \<circ> su_id) us"
      by (simp add: ms_def issue_movement_def comp_def filter_map)
    have mem: "\<forall>m \<in> set ms. sm_request m = Some (is_request input) \<and> sm_receipt_line m = None
        \<and> sm_item m = sq_item ?q \<and> sm_quantity m = - 1000"
      by (auto simp: ms_def issue_movement_def)
    have "issue_applies input db e"
      unfolding issue_applies_def e_def using row amount(2,3) st mem sub dist sum units n_len by simp
    moreover have "db' = after_issue input db e"
      using update_request_Inr [OF upd] by (simp add: after_issue_def e_def db1 kn)
    ultimately show thesis using that open' by (simp add: e_def)
  next
    case False
    then have cons: "issue_consumable env input row quantity h reference name db = Inr db1" using step by simp
    then have codes: "no_unit_codes input"
      by (auto simp: issue_consumable_def no_unit_codes_def Let_def split: if_splits option.splits)
    define ms where "ms = taken_movements env input row (h, Some reference, Some name) n db"
    from issue_consumable_exact [OF amount(1) _ amount(2) n14 codes, of db env row h reference name] wf cons
    have stock: "n \<le> store_stock db (sq_item ?q) (ir_store row)" and db1: "db1 = db\<lparr>db_movements := db_movements db @ ms\<rparr>"
      by (auto simp: issue_wf_def ms_def split: if_splits)
    define e where "e = \<lparr>ie_row = row, ie_amount = n, ie_units = [], ie_movements = ms, ie_status = status,
      ie_holder = h, ie_reference = reference, ie_name = name, ie_machine = None\<rparr>"
    have mem: "sm_request m = Some (is_request input) \<and> sm_receipt_line m = None \<and> sm_unit m = None
        \<and> sm_item m = sq_item ?q \<and> sm_quantity m < 0" if "m \<in> set ms" for m
      using taken_mem [OF that [unfolded ms_def]] wf by (simp add: issue_wf_def)
    have "sum_list (map sm_quantity ms) = - n"
      unfolding ms_def using wf amount(2) stock by (intro taken_sum) (simp_all add: issue_wf_def)
    then have "issue_applies input db e" using row amount st False mem
      by (auto simp: issue_applies_def e_def filter_empty_conv)
    moreover have "db' = after_issue input db e"
      using update_request_Inr [OF upd] by (simp add: after_issue_def e_def db1 kn)
    ultimately show thesis using that open' by (simp add: e_def)
  qed
qed

end
