(* ===== verification/Store_Transfers.thy ===== *)
theory Store_Transfers
  imports Store_Stock Production_Floors
begin

section \<open>The store: stock between the departments\<close>

text \<open>
  \<open>packages/db/src/department-stores.ts\<close>: transfers of consumables and of the accountability for a unit between
  the main store and the stores of the departments, consumption, losses, the moves of a unit and its place in a
  store, over the tables of \<open>Store_Stock\<close>; and the tooling that the active setups still need
  (\<open>tooling-availability.ts\<close>). Sets of gauges and the lists are not modelled. The advisory lock of the tooling
  only orders transactions.
\<close>

subsection \<open>Helpers\<close>

record move_identity =
  md_by :: "string option"
  md_remark :: "string option"
  md_request :: "string option"

fun num_abs :: "jsnum \<Rightarrow> jsnum" where
  "num_abs (Fin x) = Fin \<bar>x\<bar>"
| "num_abs NaN = NaN"
| "num_abs _ = PosInf"

text \<open>\<open>1e-8\<close>\<close>

definition slack :: jsnum where
  "slack = fl (1 / 10 ^ 8)"

definition positive_three_decimals :: "jsnum \<Rightarrow> jsnum js_result" where
  "positive_three_decimals value =
     (let thousandths = num_mul value (Fin 1000)
      in if \<not> is_finite value \<or> num_le value (Fin 0) \<or> num_lt slack (num_abs (num_sub (num_round thousandths) thousandths))
         then throw ''Quantity must be positive, with at most three decimal places.''
         else return value)"

definition find_store :: "store_db \<Rightarrow> string \<Rightarrow> accountable_store js_result" where
  "find_store db code =
     bind_result (required_store_text (Some code) ''Store'') (\<lambda>c.
     case List.find (\<lambda>a. to_lower (sa_code a) = to_lower c \<and> sa_active a
        \<and> (case Option.bind (sa_default a) (location_of db) of
             None \<Rightarrow> False
           | Some loc \<Rightarrow> sl_store loc = Some (sa_id a) \<and> sl_type loc = Store_Location \<and> sl_active loc)) (db_stores db) of
       None \<Rightarrow> throw ''Accountable Store was not found.''
     | Some a \<Rightarrow> return a)"

definition lock_consumable :: "store_db \<Rightarrow> string \<Rightarrow> store_item js_result" where
  "lock_consumable db item = (case item_of db item of
      Some it \<Rightarrow> if si_active it \<and> si_tracking it = Consumable then return it
        else throw ''Active consumable Asset Code was not found.''
    | None \<Rightarrow> throw ''Active consumable Asset Code was not found.'')"

definition available_locations :: "store_db \<Rightarrow> string \<Rightarrow> string \<Rightarrow> (store_location \<times> int) list" where
  "available_locations db store item =
     sort_key (\<lambda>(loc, b). - b) (sort_key (\<lambda>(loc, b). sl_code loc)
       (map (\<lambda>loc. (loc, consumable_balance db item (sl_id loc)))
         (filter (\<lambda>loc. sl_store loc = Some store \<and> sl_type loc = Store_Location \<and> sl_active loc) (db_locations db))))"

definition quantity_movement ::
    "store_env \<Rightarrow> move_identity \<Rightarrow> string \<Rightarrow> accountable_store \<Rightarrow> (string \<times> string) option \<Rightarrow> movement_type \<Rightarrow> string
       \<Rightarrow> string \<Rightarrow> int \<Rightarrow> stock_movement" where
  "quantity_movement env identity item source to_place type operation location quantity =
     \<lparr>sm_item = item, sm_unit = None, sm_location = location, sm_receipt_line = None, sm_request = md_request identity,
      sm_type = type, sm_quantity = quantity, sm_from = Some (Held_Store, Some (sa_code source), Some (sa_name source)),
      sm_to = map_option (\<lambda>(code, name). (Held_Store, Some code, Some name)) to_place, sm_at = ev_now env,
      sm_by = optional_text (md_by identity), sm_remark = optional_text (md_remark identity), sm_operation = Some operation\<rparr>"

text \<open>The loop over the locations: it stops when nothing remains and passes over a location without stock.\<close>

fun debits :: "jsnum \<Rightarrow> (store_location \<times> int) list \<Rightarrow> (store_location \<times> jsnum) list" where
  "debits remaining [] = []"
| "debits remaining ((loc, b) # rest) =
     (if num_le remaining (Fin 0) then []
      else let units = num_min remaining (units_of_balance b)
           in if num_le units (Fin 0) then debits remaining rest
              else (loc, num_div units (Fin 1000)) # debits (num_sub remaining units) rest)"

definition debit_movement ::
    "store_env \<Rightarrow> move_identity \<Rightarrow> string \<Rightarrow> accountable_store \<Rightarrow> accountable_store option \<Rightarrow> movement_type \<Rightarrow> string
       \<Rightarrow> store_location \<times> jsnum \<Rightarrow> stock_movement js_result" where
  "debit_movement env identity item source to_store type operation = (\<lambda>(loc, quantity).
     bind_result (numeric_param quantity) (\<lambda>n.
     return (quantity_movement env identity item source (map_option (\<lambda>a. (sa_code a, sa_name a)) to_store) type operation (sl_id loc) (- n))))"

definition write_debits ::
    "store_env \<Rightarrow> move_identity \<Rightarrow> string \<Rightarrow> movement_type \<Rightarrow> string \<Rightarrow> jsnum \<Rightarrow> accountable_store \<Rightarrow> accountable_store option
       \<Rightarrow> store_db \<Rightarrow> store_db js_result" where
  "write_debits env identity item type operation quantity source to_store db =
     (let locations = available_locations db (sa_id source) item;
          available_units = foldl (\<lambda>t (loc, b). num_add t (units_of_balance b)) (Fin 0) locations;
          remaining_units = num_round (num_mul quantity (Fin 1000))
      in if num_lt available_units remaining_units
         then throw ''Insufficient available quantity in the accountable Store.''
         else bind_result (map_result (debit_movement env identity item source to_store type operation) (debits remaining_units locations))
                (\<lambda>movements. insert_movements movements db))"

definition insert_operation ::
    "store_env \<Rightarrow> move_identity \<Rightarrow> operation_type \<Rightarrow> string \<Rightarrow> string \<Rightarrow> string option \<Rightarrow> jsnum \<Rightarrow> string option \<Rightarrow> store_db
       \<Rightarrow> (string \<times> store_db) js_result" where
  "insert_operation env identity type item source destination quantity operated_on db =
     (if md_request identity = Some [] then throw ''invalid input syntax for type uuid''
      else bind_result (numeric_param quantity) (\<lambda>n.
     bind_result (case operated_on of
         None \<Rightarrow> return (ev_today env)
       | Some t \<Rightarrow> (case ev_date env t of None \<Rightarrow> throw ''invalid input syntax for type date'' | Some d \<Rightarrow> return d)) (\<lambda>on_day.
     if n \<le> 0 \<or> destination = Some source
     then throw ''new row violates check constraint of store.department_stock_operations''
     else (case generate_id env db of (i, db1) \<Rightarrow>
       return (i, db1\<lparr>db_operations := db_operations db1 @ [\<lparr>op_id = i, op_type = type, op_item = item, op_source = source,
         op_destination = destination, op_quantity = n, op_on = on_day, op_remark = optional_text (md_remark identity),
         op_request = md_request identity\<rparr>]\<rparr>)))))"

subsection \<open>Requests that a transfer fulfils\<close>

record transfer_row =
  tr_request :: store_request
  tr_destination :: string
  tr_tracking :: tracking_mode

definition transfer_row_of :: "store_db \<Rightarrow> string \<Rightarrow> transfer_row option" where
  "transfer_row_of db i = (case List.find (\<lambda>q. sq_id q = i) (db_requests db) of
      None \<Rightarrow> None
    | Some q \<Rightarrow> (case (List.find (\<lambda>h. rh_id h = sq_header q) (db_headers db), location_of db (sq_location q), item_of db (sq_item q)) of
        (Some h, Some loc, Some it) \<Rightarrow> (case (store_of db (sl_store loc), store_of db (rh_receiving_store h)) of
            (Some source, Some destination) \<Rightarrow>
              if rh_kind h = Store_Transfer \<and> sa_kind source = ''MAIN''
              then Some \<lparr>tr_request = q, tr_destination = sa_code destination, tr_tracking = si_tracking it\<rparr> else None
          | _ \<Rightarrow> None)
      | _ \<Rightarrow> None))"

definition given_request :: "move_identity \<Rightarrow> string option" where
  "given_request identity = (case md_request identity of None \<Rightarrow> None | Some i \<Rightarrow> if i = [] then None else Some i)"

definition store_transfer_request :: "store_db \<Rightarrow> move_identity \<Rightarrow> string \<Rightarrow> transfer_row option js_result" where
  "store_transfer_request db identity destination_code = (case given_request identity of
      None \<Rightarrow> return None
    | Some i \<Rightarrow> (case transfer_row_of db i of
        None \<Rightarrow> throw ''Store transfer request was not found.''
      | Some row \<Rightarrow>
          if sq_status (tr_request row) \<notin> {Request_Pending, Partially_Issued}
          then throw ''This Store transfer request is closed.''
          else if to_lower (tr_destination row) \<noteq> to_lower destination_code
          then throw ''The receiving Store does not match the request.''
          else return (Some row)))"

text \<open>\<open>issued_quantity + $2\<close> is exact decimal arithmetic; the column keeps three decimals of it.\<close>

definition request_left :: "store_request \<Rightarrow> jsnum" where
  "request_left q = num_add (remaining_quantity (sq_requested q) (sq_issued q)) slack"

definition complete_store_transfer_request :: "transfer_row \<Rightarrow> jsnum \<Rightarrow> store_db \<Rightarrow> store_db js_result" where
  "complete_store_transfer_request row quantity db =
     (let q = tr_request row in
      if num_lt (request_left q) quantity
      then throw (''Only '' @ num_text (remaining_quantity (sq_requested q) (sq_issued q)) @ '' remains on this Store transfer request.'')
      else (case quantity of
          Fin x \<Rightarrow>
            let issued = of_int (sq_issued q) + sql_decimal x * 1000
            in update_request (sq_id q) (half_away issued) (if issued = of_int (sq_requested q) then Fulfilled else Partially_Issued) db
        | _ \<Rightarrow> throw ''numeric field overflow''))"

subsection \<open>Quantities\<close>

record transfer_input =
  ti_destination_location :: "string option"
  ti_destination :: string
  ti_item :: string
  ti_quantity :: jsnum
  ti_source :: string

definition crosses_main :: "accountable_store \<Rightarrow> accountable_store \<Rightarrow> bool" where
  "crosses_main source destination \<longleftrightarrow> sa_kind source = ''MAIN'' \<or> sa_kind destination = ''MAIN''"

definition receiving_place :: "accountable_store \<Rightarrow> accountable_store \<Rightarrow> string option \<Rightarrow> string option" where
  "receiving_place source destination chosen = (if sa_kind source = ''MAIN'' then chosen else sa_default destination)"

definition transfer_quantity ::
    "store_env \<Rightarrow> move_identity \<Rightarrow> transfer_input \<Rightarrow> store_db \<Rightarrow> (string \<times> store_db) js_result" where
  "transfer_quantity env identity input db =
     bind_result (positive_three_decimals (ti_quantity input)) (\<lambda>quantity.
     bind_result (store_transfer_request db identity (ti_destination input)) (\<lambda>request.
     if (case request of None \<Rightarrow> False | Some row \<Rightarrow> ti_source input \<noteq> ''MAIN'' \<or> tr_tracking row \<noteq> Consumable
           \<or> sq_item (tr_request row) \<noteq> ti_item input)
     then throw ''This request is not for the selected consumable and source Store.''
     else if (case request of None \<Rightarrow> False | Some row \<Rightarrow> num_lt (request_left (tr_request row)) quantity)
     then throw ''Transfer quantity exceeds the request remainder.''
     else
     bind_result (find_store db (ti_source input)) (\<lambda>source.
     bind_result (find_store db (ti_destination input)) (\<lambda>destination.
     if sa_id source = sa_id destination then throw ''Choose a different destination Store.''
     else if \<not> crosses_main source destination
     then throw ''Transfer through Main Store before sending stock to another Store.''
     else
     bind_result (lock_consumable db (ti_item input)) (\<lambda>_.
     bind_result (resolve_storage_location db (ti_item input) (sa_id destination)
       (receiving_place source destination (ti_destination_location input))) (\<lambda>place.
     bind_result (insert_operation env identity Stock_Transfer (ti_item input) (sa_id source) (Some (sa_id destination)) quantity None db)
       (\<lambda>(operation, db1).
     bind_result (write_debits env identity (ti_item input) Move_Out operation quantity source (Some destination) db1) (\<lambda>db2.
     bind_result (numeric_param quantity) (\<lambda>n.
     bind_result (insert_movement (quantity_movement env identity (ti_item input) source (Some (sl_code place, sl_name place))
       Move_In operation (sl_id place) n) db2) (\<lambda>db3.
     case request of
       None \<Rightarrow> return (operation, db3)
     | Some row \<Rightarrow> bind_result (complete_store_transfer_request row quantity db3) (\<lambda>db4.
         return (operation, queue_store_refresh db4))))))))))))"

record consumption_input =
  ci_on :: string
  ci_items :: "(string \<times> jsnum) list"
  ci_store :: string

fun consume_items ::
    "store_env \<Rightarrow> move_identity \<Rightarrow> string \<Rightarrow> accountable_store \<Rightarrow> (string \<times> jsnum) list \<Rightarrow> store_db \<Rightarrow> (string list \<times> store_db) js_result" where
  "consume_items env identity on_day store [] db = return ([], db)"
| "consume_items env identity on_day store ((item, entered) # items) db =
     bind_result (positive_three_decimals entered) (\<lambda>quantity.
     bind_result (lock_consumable db item) (\<lambda>_.
     bind_result (insert_operation env identity Stock_Consumption item (sa_id store) None quantity (Some on_day) db) (\<lambda>(operation, db1).
     bind_result (write_debits env identity item Move_Issue operation quantity store None db1) (\<lambda>db2.
     bind_result (consume_items env identity on_day store items db2) (\<lambda>(operations, db3).
     return (operation # operations, db3))))))"

definition consume_quantities ::
    "store_env \<Rightarrow> move_identity \<Rightarrow> consumption_input \<Rightarrow> store_db \<Rightarrow> (string list \<times> store_db) js_result" where
  "consume_quantities env identity input db =
     (if ci_items input = [] \<or> \<not> distinct (map fst (ci_items input))
      then throw ''Select one or more distinct consumable Asset Codes.''
      else bind_result (find_store db (ci_store input)) (\<lambda>store.
           consume_items env identity (ci_on input) store (ci_items input) db))"


subsection \<open>Tooling that the active setups need\<close>

text \<open>\<open>trim\<close> of SQL takes away blanks only.\<close>

definition sql_trim :: "string \<Rightarrow> string" where
  "sql_trim s = rev (dropWhile (\<lambda>c. c = CHR '' '') (rev (dropWhile (\<lambda>c. c = CHR '' '') s)))"

definition js_of_text :: "string option \<Rightarrow> jsval" where
  "js_of_text v = (case v of None \<Rightarrow> Null | Some s \<Rightarrow> Str s)"

text \<open>The floor a unit counts for: that of its machine, or of the department that holds it.\<close>

definition holder_floor :: "store_db \<Rightarrow> store_unit \<Rightarrow> string option" where
  "holder_floor db u =
     (if su_holder_type u = Held_Machine
      then Option.bind (Option.bind (su_machine u) (\<lambda>i. List.find (\<lambda>m. mc_id m = i) (db_machines db))) mc_floor
      else if su_holder_type u \<in> {Held_Department, Held_Unit}
      then (case production_floor_from_department (js_of_text (su_holder_name u)) (js_of_text (su_holder_reference u)) of
          Some f \<Rightarrow> Some f
        | None \<Rightarrow> production_floor_from_department (js_of_text (su_holder_reference u)) (js_of_text (su_holder_reference u)))
      else None)"

definition allocated_tooling :: "store_db \<Rightarrow> string \<Rightarrow> string \<Rightarrow> int" where
  "allocated_tooling db code floor_code = int (length (filter (\<lambda>u.
     su_status u \<in> {Unit_Available, Unit_Assigned}
     \<and> (case item_of db (su_item u) of
          None \<Rightarrow> False
        | Some it \<Rightarrow> si_active it \<and> si_tracking it = Serialized \<and> to_upper (trim (si_type_code it)) = code)
     \<and> holder_floor db u = Some floor_code) (db_units db)))"

definition assert_tooling_transfer_available :: "store_db \<Rightarrow> string \<Rightarrow> unit js_result" where
  "assert_tooling_transfer_available db unit_code =
     (case Option.bind (unit_with_code db unit_code) (\<lambda>u. item_of db (su_item u)) of
        None \<Rightarrow> return ()
      | Some it \<Rightarrow>
          let code = to_upper (sql_trim (si_type_code it))
          in if code = [] then return ()
             else if \<exists>(c, floor_code, occupied) \<in> set (db_occupied db). c = code \<and> allocated_tooling db code floor_code < occupied
             then throw (''Tooling '' @ code @ '' is still required by active setups. Stop or complete them before transferring its allocated units.'')
             else return ())"

subsection \<open>The accountability for a unit\<close>

definition update_unit :: "store_unit \<Rightarrow> store_db \<Rightarrow> store_db" where
  "update_unit u db = db\<lparr>db_units := map (\<lambda>x. if su_id x = su_id u then u else x) (db_units db)\<rparr>"

definition reserved_for :: "store_db \<Rightarrow> string \<Rightarrow> string option \<Rightarrow> bool" where
  "reserved_for db unit_id request \<longleftrightarrow> (\<exists>q \<in> set (db_requests db). sq_unit q = Some unit_id
     \<and> sq_status q \<in> {Request_Pending, Partially_Issued} \<and> Some (sq_id q) \<noteq> request)"

definition insert_handover :: "handover \<Rightarrow> store_db \<Rightarrow> store_db js_result" where
  "insert_handover h db =
     (if ho_source h = ho_destination h
      then throw ''new row violates check constraint of store.asset_accountability_transfers''
      else if ho_request h \<noteq> None \<and> (\<exists>h' \<in> set (db_handovers db). ho_request h' = ho_request h)
      then throw ''duplicate key value violates unique constraint store_asset_accountability_transfers_request_unique''
      else return (db\<lparr>db_handovers := db_handovers db @ [h]\<rparr>))"

definition handover_movement ::
    "store_env \<Rightarrow> move_identity \<Rightarrow> store_unit \<Rightarrow> store_location \<Rightarrow> movement_type \<Rightarrow> string \<Rightarrow> int \<Rightarrow> stock_movement" where
  "handover_movement env identity u place type location quantity =
     \<lparr>sm_item = su_item u, sm_unit = Some (su_id u), sm_location = location, sm_receipt_line = None,
      sm_request = md_request identity, sm_type = type, sm_quantity = quantity,
      sm_from = Some (Held_Store, su_holder_reference u, su_holder_name u),
      sm_to = Some (Held_Store, Some (sl_code place), Some (sl_name place)), sm_at = ev_now env,
      sm_by = optional_text (md_by identity), sm_remark = optional_text (md_remark identity), sm_operation = None\<rparr>"

text \<open>A unit that lies in the source store is handed over: it moves to a place of the destination. A unit that
  a machine or a department uses stays where it is.\<close>

definition hand_over ::
    "store_env \<Rightarrow> move_identity \<Rightarrow> string option \<Rightarrow> accountable_store \<Rightarrow> accountable_store \<Rightarrow> store_unit \<Rightarrow> store_db \<Rightarrow> store_db js_result" where
  "hand_over env identity chosen source destination u db =
     (if su_holder_type u \<noteq> Held_Store then return (update_unit (u\<lparr>su_store := sa_id destination\<rparr>) db)
      else if (case su_location u of
          None \<Rightarrow> False
        | Some l \<Rightarrow> (case location_of db l of None \<Rightarrow> True | Some loc \<Rightarrow> sl_store loc \<noteq> Some (sa_id source)))
      then throw ''Unit ID is not physically in its accountable Store.''
      else bind_result (resolve_storage_location db (su_item u) (sa_id destination) (receiving_place source destination chosen)) (\<lambda>place.
        let u' = u\<lparr>su_store := sa_id destination, su_location := Some (sl_id place), su_holder_reference := Some (sl_code place),
                  su_holder_name := Some (sl_name place)\<rparr>;
            left = (case su_location u of Some l \<Rightarrow> l | None \<Rightarrow> (case sa_default source of Some l \<Rightarrow> l | None \<Rightarrow> []))
        in insert_movements [handover_movement env identity u place Move_Out left (- 1000),
               handover_movement env identity u place Move_In (sl_id place) 1000]
             (remember_place (Some u) u' (ev_now env) (update_unit u' db))))"

record accountability_input =
  ac_unit :: string
  ac_destination_location :: "string option"
  ac_destination :: string
  ac_source :: string

definition transfer_asset_accountability ::
    "store_env \<Rightarrow> move_identity \<Rightarrow> accountability_input \<Rightarrow> store_db \<Rightarrow> ((string \<times> string) \<times> store_db) js_result" where
  "transfer_asset_accountability env identity input db =
     bind_result (store_transfer_request db identity (ac_destination input)) (\<lambda>request.
     if (case request of None \<Rightarrow> False | Some row \<Rightarrow> ac_source input \<noteq> ''MAIN'' \<or> tr_tracking row \<noteq> Serialized)
     then throw ''This request is not for a Main Store Unit ID.''
     else bind_result (required_store_text (Some (ac_unit input)) ''Unit ID'') (\<lambda>code.
     (case unit_with_code db code of
        None \<Rightarrow> throw ''Unit ID was not found.''
      | Some u \<Rightarrow>
          if md_request identity = Some [] then throw ''invalid input syntax for type uuid''
          else if reserved_for db (su_id u) (md_request identity) then throw ''This Unit ID is reserved for another open Store request.''
          else if (case request of None \<Rightarrow> False | Some row \<Rightarrow> sq_unit (tr_request row) \<noteq> Some (su_id u)
               \<or> sq_item (tr_request row) \<noteq> su_item u
               \<or> \<not> num_eq (remaining_quantity (sq_requested (tr_request row)) (sq_issued (tr_request row))) (Fin 1))
          then throw ''Transfer the exact Unit ID named in the request.''
          else if su_status u \<in> {Unit_Scrapped, Unit_Lost}
          then throw ''A scrapped or lost Unit ID cannot change accountable Store.''
          else
          bind_result (find_store db (ac_source input)) (\<lambda>source.
          bind_result (find_store db (ac_destination input)) (\<lambda>destination.
          if sa_id source \<noteq> su_store u then throw ''This Unit ID is accountable to another Store.''
          else if sa_id source = sa_id destination then throw ''Choose a different destination Store.''
          else if \<not> crosses_main source destination
          then throw ''Transfer through Main Store before assigning this Unit ID to another Store.''
          else if grouped db (su_id u)
          then throw ''Remove this Unit ID from its gauge set before transferring accountability.''
          else if under_repair db (su_id u) \<or> being_calibrated db (su_id u)
          then throw ''Finish the open repair or calibration visit before transferring accountability.''
          else
          bind_result (insert_handover \<lparr>ho_unit = su_id u, ho_source = sa_id source, ho_destination = sa_id destination,
            ho_by = optional_text (md_by identity), ho_remark = optional_text (md_remark identity), ho_request = md_request identity\<rparr> db) (\<lambda>db1.
          bind_result (hand_over env identity (ac_destination_location input) source destination u db1) (\<lambda>db2.
          bind_result (assert_tooling_transfer_available db2 (ac_unit input)) (\<lambda>_.
          bind_result (case request of None \<Rightarrow> return db2 | Some row \<Rightarrow> complete_store_transfer_request row (Fin 1) db2) (\<lambda>db3.
          return ((ac_unit input, sa_code destination), queue_store_refresh db3))))))))))"

datatype stock_item = Stock_Unit string | Stock_Quantity string jsnum

record responsibility_input =
  re_destination :: string
  re_items :: "stock_item list"
  re_source :: string

definition stock_key :: "stock_item \<Rightarrow> string js_result" where
  "stock_key item = (case item of
      Stock_Unit code \<Rightarrow> map_sum id (\<lambda>c. ''unit:'' @ to_lower c) (required_store_text (Some code) ''Unit ID'')
    | Stock_Quantity i q \<Rightarrow> map_sum id (\<lambda>c. ''item:'' @ c) (required_store_text (Some i) ''Asset Code''))"

text \<open>The transfers of the list name no request.\<close>

fun transfer_items ::
    "store_env \<Rightarrow> move_identity \<Rightarrow> string option \<Rightarrow> string \<Rightarrow> string \<Rightarrow> stock_item list \<Rightarrow> store_db \<Rightarrow> store_db js_result" where
  "transfer_items env identity place source destination [] db = return db"
| "transfer_items env identity place source destination (item # items) db =
     bind_result (case item of
         Stock_Unit code \<Rightarrow> map_sum id snd (transfer_asset_accountability env identity
           \<lparr>ac_unit = code, ac_destination_location = place, ac_destination = destination, ac_source = source\<rparr> db)
       | Stock_Quantity i q \<Rightarrow> map_sum id snd (transfer_quantity env identity
           \<lparr>ti_destination_location = place, ti_destination = destination, ti_item = i, ti_quantity = q, ti_source = source\<rparr> db))
     (transfer_items env identity place source destination items)"

definition transfer_stock_responsibility ::
    "store_env \<Rightarrow> move_identity \<Rightarrow> responsibility_input \<Rightarrow> store_db \<Rightarrow> (nat \<times> store_db) js_result" where
  "transfer_stock_responsibility env identity input db =
     (if re_items input = [] \<or> 500 < length (re_items input) then throw ''Select 1 to 500 stock items.''
      else bind_result (map_result stock_key (re_items input)) (\<lambda>keys.
        if \<not> distinct keys then throw ''Select each stock item only once.''
        else bind_result (find_store db (re_destination input)) (\<lambda>destination.
             bind_result (transfer_items env (identity\<lparr>md_request := None\<rparr>) (sa_default destination) (re_source input)
               (re_destination input) (re_items input) db) (\<lambda>db'.
             return (length (re_items input), db')))))"

subsection \<open>Moves and losses\<close>

record move_place =
  mv_reference :: string
  mv_name :: string
  mv_location :: "string option"
  mv_machine :: "string option"
  mv_vendor :: "string option"

definition resolve_destination ::
    "store_db \<Rightarrow> string \<Rightarrow> holder_type \<Rightarrow> string \<Rightarrow> string option \<Rightarrow> move_place js_result" where
  "resolve_destination db store type reference vendor =
     (if type = Held_Store then
        bind_result (required_store_text (Some reference) ''Store location'') (\<lambda>r.
        case List.find (\<lambda>loc. sl_store loc = Some store \<and> sl_type loc = Store_Location \<and> sl_active loc
           \<and> (sl_id loc = r \<or> to_lower (sl_code loc) = to_lower r)) (db_locations db) of
          None \<Rightarrow> throw ''Choose a location in the accountable Store.''
        | Some loc \<Rightarrow> return \<lparr>mv_reference = sl_code loc, mv_name = sl_name loc, mv_location = Some (sl_id loc), mv_machine = None, mv_vendor = None\<rparr>)
      else if type = Held_Department then
        bind_result (required_store_text (Some reference) ''Department'') (\<lambda>r.
        case List.find (\<lambda>d. to_lower (sd_code d) = to_lower r \<and> sd_active d) (db_departments db) of
          None \<Rightarrow> throw ''Choose an active Department.''
        | Some d \<Rightarrow> return \<lparr>mv_reference = sd_code d, mv_name = sd_name d, mv_location = None, mv_machine = None, mv_vendor = None\<rparr>)
      else if type = Held_Machine then
        bind_result (required_store_text (Some reference) ''Machine'') (\<lambda>r.
        case filter (\<lambda>m. mc_active m \<and> (mc_id m = r \<or> to_lower (mc_number m) = to_lower r)) (db_machines db) of
          [m] \<Rightarrow> return \<lparr>mv_reference = mc_number m,
            mv_name = (case optional_text (mc_name m) of Some n \<Rightarrow> n | None \<Rightarrow> mc_number m),
            mv_location = None, mv_machine = Some (mc_id m), mv_vendor = None\<rparr>
        | _ \<Rightarrow> throw ''Choose one active Machine from Machine Master.'')
      else (case List.find (\<lambda>v. vd_active v \<and> Some (vd_id v) = vendor) (db_vendors db) of
          None \<Rightarrow> throw ''Choose an active Vendor.''
        | Some v \<Rightarrow> return \<lparr>mv_reference = vd_code v, mv_name = vd_name v, mv_location = None, mv_machine = None, mv_vendor = Some (vd_id v)\<rparr>))"

text \<open>An open repair order, a calibration visit under way, or one that failed and was not followed by one that passed.\<close>

definition in_service :: "store_db \<Rightarrow> string \<Rightarrow> bool" where
  "in_service db unit_id \<longleftrightarrow> under_repair db unit_id
     \<or> (\<exists>v \<in> set (db_visits db). cv_unit v = unit_id
          \<and> (cv_status v \<in> {Visit_Dispatched, Visit_Returned}
             \<or> cv_status v = Visit_Failed \<and> \<not> (\<exists>w \<in> set (db_visits db). cv_schedule w = cv_schedule v \<and> cv_unit w = unit_id
                 \<and> cv_status w = Visit_Passed
                 \<and> (cv_created v < cv_created w \<or> cv_created w = cv_created v \<and> cv_id v < cv_id w))))"

definition save_asset_storage_location :: "string \<Rightarrow> string \<Rightarrow> string \<Rightarrow> int \<Rightarrow> store_db \<Rightarrow> store_db" where
  "save_asset_storage_location unit_id store place now db =
     (if (case location_of db place of None \<Rightarrow> False
          | Some loc \<Rightarrow> sl_store loc = Some store \<and> sl_type loc = Store_Location)
         \<and> default_of_store db store \<notin> {None, Some place}
      then db\<lparr>db_places := put_place \<lparr>st_unit = unit_id, st_store = store, st_location = place, st_updated = now\<rparr> (db_places db)\<rparr>
      else db)"

definition storage_of :: "store_db \<Rightarrow> store_unit \<Rightarrow> string option" where
  "storage_of db u = (case List.find (\<lambda>p. st_unit p = su_id u \<and> st_store p = su_store u) (db_places db) of
      Some p \<Rightarrow> Some (st_location p)
    | None \<Rightarrow> su_location u)"

record move_input =
  mi_unit :: string
  mi_reference :: string
  mi_type :: holder_type
  mi_store :: string
  mi_vendor :: "string option"

definition already_there :: "store_db \<Rightarrow> accountable_store \<Rightarrow> store_unit \<Rightarrow> holder_type \<Rightarrow> move_place \<Rightarrow> bool" where
  "already_there db store u type place \<longleftrightarrow> su_holder_type u = type
     \<and> (if type = Held_Store
        then Option.bind (Option.bind (su_location u) (location_of db)) sl_store = Some (sa_id store) \<and> storage_of db u = mv_location place
        else su_holder_reference u = Some (mv_reference place) \<and> su_location u = mv_location place)"

definition moved_unit :: "holder_type \<Rightarrow> move_place \<Rightarrow> store_unit \<Rightarrow> store_unit" where
  "moved_unit type place u = u\<lparr>su_status := (if su_status u \<in> {Unit_Broken, Unit_Maintenance} then su_status u
       else if type = Held_Store then Unit_Available else Unit_Assigned),
     su_holder_type := type, su_holder_reference := Some (mv_reference place), su_holder_name := Some (mv_name place),
     su_location := mv_location place, su_machine := mv_machine place, su_vendor := mv_vendor place\<rparr>"

definition move_movement :: "store_env \<Rightarrow> move_identity \<Rightarrow> accountable_store \<Rightarrow> holder_type \<Rightarrow> move_place \<Rightarrow> store_unit \<Rightarrow> stock_movement" where
  "move_movement env identity store type place u =
     \<lparr>sm_item = su_item u, sm_unit = Some (su_id u),
      sm_location = (case su_location u of Some l \<Rightarrow> l | None \<Rightarrow> (case sa_default store of Some l \<Rightarrow> l | None \<Rightarrow> [])),
      sm_receipt_line = None, sm_request = None, sm_type = (if type = Held_Store then Move_Return else Move_Out),
      sm_quantity = (if type = Held_Store then 1000 else - 1000),
      sm_from = Some (su_holder_type u, su_holder_reference u, su_holder_name u),
      sm_to = Some (type, Some (mv_reference place), Some (mv_name place)), sm_at = ev_now env,
      sm_by = optional_text (md_by identity), sm_remark = optional_text (md_remark identity), sm_operation = None\<rparr>"

text \<open>\<open>with_set\<close>: the unit moves with its set of gauges.\<close>

definition move_owned_asset ::
    "store_env \<Rightarrow> move_identity \<Rightarrow> bool \<Rightarrow> accountable_store \<Rightarrow> move_input \<Rightarrow> store_db \<Rightarrow> (string \<times> store_db) js_result" where
  "move_owned_asset env identity with_set store input db =
     bind_result (required_store_text (Some (mi_unit input)) ''Unit ID'') (\<lambda>code.
     (case unit_with_code db code of
        None \<Rightarrow> throw ''Unit ID was not found.''
      | Some u \<Rightarrow>
          if reserved_for db (su_id u) None then throw ''This Unit ID is reserved for an open Store request.''
          else if su_store u \<noteq> sa_id store then throw ''This Unit ID is accountable to another Store.''
          else if su_status u \<in> {Unit_Scrapped, Unit_Lost} then throw ''A scrapped or lost Unit ID cannot be moved.''
          else if \<not> with_set \<and> grouped db (su_id u) then throw ''Move this Unit ID with its gauge set.''
          else if in_service db (su_id u) then throw ''Complete the open service visit before moving this Unit ID.''
          else bind_result (resolve_destination db (sa_id store) (mi_type input) (mi_reference input) (mi_vendor input)) (\<lambda>place.
          if already_there db store u (mi_type input) place then throw ''The Unit ID is already at that destination.''
          else
            let u' = moved_unit (mi_type input) place u;
                db1 = remember_place (Some u) u' (ev_now env) (update_unit u' db);
                db2 = (case mv_location place of
                    Some l \<Rightarrow> if mi_type input = Held_Store then save_asset_storage_location (su_id u) (sa_id store) l (ev_now env) db1 else db1
                  | None \<Rightarrow> db1)
            in bind_result (insert_movement (move_movement env identity store (mi_type input) place u) db2) (\<lambda>db3.
               bind_result (assert_tooling_transfer_available db3 (mi_unit input)) (\<lambda>_.
               return (su_id u, db3))))))"

definition move_asset ::
    "store_env \<Rightarrow> move_identity \<Rightarrow> move_input \<Rightarrow> store_db \<Rightarrow> (string \<times> store_db) js_result" where
  "move_asset env identity input db =
     bind_result (find_store db (mi_store input)) (\<lambda>store.
     bind_result (move_owned_asset env identity False store input db) (\<lambda>(i, db'). return (i, queue_store_refresh db')))"

record loss_input =
  lo_unit :: string
  lo_store :: "string option"
  lo_occupied :: bool

definition loss_movement :: "store_env \<Rightarrow> move_identity \<Rightarrow> string \<Rightarrow> string \<Rightarrow> store_unit \<Rightarrow> stock_movement" where
  "loss_movement env identity remark default_location u =
     \<lparr>sm_item = su_item u, sm_unit = Some (su_id u),
      sm_location = (case su_location u of Some l \<Rightarrow> l | None \<Rightarrow> default_location),
      sm_receipt_line = None, sm_request = None, sm_type = Move_Loss, sm_quantity = - 1000,
      sm_from = Some (su_holder_type u, su_holder_reference u, su_holder_name u), sm_to = None, sm_at = ev_now env,
      sm_by = optional_text (md_by identity), sm_remark = Some remark, sm_operation = None\<rparr>"

text \<open>The unit with its active store, the store's active default location and its item.\<close>

definition loss_row :: "store_db \<Rightarrow> string \<Rightarrow> (store_unit \<times> accountable_store \<times> string \<times> store_item) option" where
  "loss_row db code = (case unit_with_code db code of
      None \<Rightarrow> None
    | Some u \<Rightarrow> (case (store_of db (Some (su_store u)), item_of db (su_item u)) of
        (Some a, Some it) \<Rightarrow> (case Option.bind (sa_default a) (location_of db) of
            Some loc \<Rightarrow> if sa_active a \<and> sl_store loc = Some (sa_id a) \<and> sl_type loc = Store_Location \<and> sl_active loc
              then Some (u, a, sl_id loc, it) else None
          | None \<Rightarrow> None)
      | _ \<Rightarrow> None))"

definition record_asset_loss_in_transaction ::
    "store_env \<Rightarrow> move_identity \<Rightarrow> loss_input \<Rightarrow> store_db \<Rightarrow> (string \<times> store_db) js_result" where
  "record_asset_loss_in_transaction env identity input db =
     bind_result (required_store_text (Some (lo_unit input)) ''Unit ID'') (\<lambda>code.
     bind_result (required_store_text (md_remark identity) ''Loss details'') (\<lambda>remark.
     (case loss_row db code of
        None \<Rightarrow> throw ''Unit ID is not accountable to this Store.''
      | Some (u, a, default_location, it) \<Rightarrow>
          if (case lo_store input of None \<Rightarrow> False | Some c \<Rightarrow> c \<noteq> [] \<and> to_lower (sa_code a) \<noteq> to_lower c)
          then throw ''Unit ID is not accountable to this Store.''
          else if su_status u \<in> {Unit_Scrapped, Unit_Lost} then throw ''This Unit ID has already left company stock.''
          else if grouped db (su_id u) \<or> under_repair db (su_id u) \<or> being_calibrated db (su_id u) \<or> su_id u \<in> set (db_broken db)
          then throw ''Finish the active set, service, or breakdown before recording loss.''
          else bind_result (insert_movement (loss_movement env identity remark default_location u)
                 (update_unit (u\<lparr>su_status := Unit_Lost, su_machine := None\<rparr>) db)) (\<lambda>db1.
               bind_result (if lo_occupied input then return () else assert_tooling_transfer_available db1 code) (\<lambda>_.
               return (code, db1))))))"

definition record_asset_loss ::
    "store_env \<Rightarrow> move_identity \<Rightarrow> loss_input \<Rightarrow> store_db \<Rightarrow> (string \<times> store_db) js_result" where
  "record_asset_loss env identity input db =
     bind_result (record_asset_loss_in_transaction env identity input db) (\<lambda>(code, db'). return (code, queue_store_refresh db'))"

subsection \<open>The place of a unit in its store\<close>

definition in_any_set :: "store_db \<Rightarrow> string \<Rightarrow> bool" where
  "in_any_set db unit_id \<longleftrightarrow> (\<exists>g \<in> set (db_members db). gm_unit g = unit_id \<and> \<not> gm_removed g)"

definition assert_storage_asset :: "store_db \<Rightarrow> store_unit option \<Rightarrow> accountable_store \<Rightarrow> store_unit js_result" where
  "assert_storage_asset db asset store = (case asset of
      None \<Rightarrow> throw ''Choose an active Unit ID assigned to this Store.''
    | Some u \<Rightarrow>
        if su_status u \<in> {Unit_Scrapped, Unit_Lost} then throw ''Choose an active Unit ID assigned to this Store.''
        else if \<not> (if su_holder_type u = Held_Store
            then Option.bind (Option.bind (su_location u) (location_of db)) sl_store = Some (sa_id store)
            else su_holder_type u = Held_Department \<and> sa_floor store \<noteq> None
              \<and> production_floor_from_department (js_of_text (su_holder_name u)) (js_of_text (su_holder_reference u)) = sa_floor store)
        then throw ''This Unit ID is not assigned to this Store.''
        else if in_any_set db (su_id u) then throw ''Move this Unit ID with its gauge set to keep both gauges together.''
        else return u)"

definition assign_asset_storage_location ::
    "store_env \<Rightarrow> string \<Rightarrow> string \<Rightarrow> string \<Rightarrow> store_db \<Rightarrow> (string \<times> store_db) js_result" where
  "assign_asset_storage_location env unit_code location store_code db =
     bind_result (find_store db store_code) (\<lambda>store.
     bind_result (required_store_text (Some unit_code) ''Unit ID'') (\<lambda>code.
     bind_result (assert_storage_asset db (unit_with_code db code) store) (\<lambda>u.
     bind_result (resolve_destination db (sa_id store) Held_Store location None) (\<lambda>place.
     if mv_location place = sa_default store then throw ''Choose a rack/bin location in this Store.''
     else (case mv_location place of
        Some l \<Rightarrow> return (su_id u, save_asset_storage_location (su_id u) (sa_id store) l (ev_now env) db)
      | None \<Rightarrow> throw ''Choose a location in the accountable Store.'')))))"

end
