(* ===== verification/Store_Ledger.thy ===== *)
theory Store_Ledger
  imports Store_Transfers
begin

section \<open>The store: the ledger of movements agrees with the documents\<close>

text \<open>
  The transactions of \<open>Store_Stock\<close> as a state machine, and its invariant: the movements of a request add
  up to what it has issued, those of a receipt line to what was received, those of a unit to one exactly
  while the unit is in a store location, and no balance is negative.

  Quantities entered have at most three decimals; ordered and requested quantities are at most \<open>10 ^ 14\<close>
  thousandths, the range in which binary64 separates thousandths.
\<close>

subsection \<open>Ledgers\<close>

definition ledger :: "(stock_movement \<Rightarrow> bool) \<Rightarrow> stock_movement list \<Rightarrow> int" where
  "ledger P ms = sum_list (map sm_quantity (filter P ms))"

definition request_ledger :: "store_db \<Rightarrow> string \<Rightarrow> int" where
  "request_ledger db i = ledger (\<lambda>m. sm_request m = Some i) (db_movements db)"

definition unit_ledger :: "store_db \<Rightarrow> string \<Rightarrow> int" where
  "unit_ledger db i = ledger (\<lambda>m. sm_unit m = Some i) (db_movements db)"

definition receipt_ledger :: "store_db \<Rightarrow> string \<Rightarrow> int" where
  "receipt_ledger db i = ledger (\<lambda>m. sm_receipt_line m = Some i) (db_movements db)"

definition line_ledger :: "store_db \<Rightarrow> string \<Rightarrow> int" where
  "line_ledger db i = sum_list (map rl_quantity (filter (\<lambda>r. rl_order_line r = i) (db_receipt_lines db)))"

text \<open>What a request has been given: stock issued for it, stock transferred for it and units handed over for it. The two
  movements of a transfer cancel each other.\<close>

definition transferred :: "store_db \<Rightarrow> string \<Rightarrow> int" where
  "transferred db i =
     sum_list (map op_quantity (filter (\<lambda>x. op_type x = Stock_Transfer \<and> op_request x = Some i) (db_operations db)))
     + 1000 * int (length (filter (\<lambda>h. ho_request h = Some i) (db_handovers db)))"

definition delivered :: "store_db \<Rightarrow> string \<Rightarrow> int" where
  "delivered db i = transferred db i - request_ledger db i"

text \<open>An identifier the database has generated.\<close>

definition known :: "(nat \<Rightarrow> string) \<Rightarrow> store_db \<Rightarrow> string \<Rightarrow> bool" where
  "known uuid db i \<longleftrightarrow> (\<exists>k < db_generated db. i = uuid k)"

definition sound_request :: "store_db \<Rightarrow> store_request \<Rightarrow> bool" where
  "sound_request db q \<longleftrightarrow> request_in_bounds q \<and> delivered db (sq_id q) = sq_issued q
     \<and> (sq_status q = Request_Pending \<longrightarrow> sq_issued q = 0)
     \<and> (sq_status q = Fulfilled \<longrightarrow> sq_issued q = sq_requested q)"

definition sound_line :: "store_db \<Rightarrow> order_line \<Rightarrow> bool" where
  "sound_line db l \<longleftrightarrow> 0 \<le> ol_received l \<and> ol_received l \<le> ol_ordered l \<and> ol_ordered l \<le> 10 ^ 14
     \<and> line_ledger db (ol_id l) = ol_received l"

definition identified :: "(nat \<Rightarrow> string) \<Rightarrow> store_db \<Rightarrow> bool" where
  "identified uuid db \<longleftrightarrow>
     (\<forall>m \<in> set (db_movements db). \<forall>i. Some i \<in> {sm_unit m, sm_request m, sm_receipt_line m} \<longrightarrow> known uuid db i)
     \<and> (\<forall>u \<in> set (db_units db). known uuid db (su_id u))
     \<and> (\<forall>q \<in> set (db_requests db). known uuid db (sq_id q))
     \<and> (\<forall>r \<in> set (db_receipt_lines db). known uuid db (rl_id r))
     \<and> (\<forall>x \<in> set (db_operations db). \<forall>i. op_request x = Some i \<longrightarrow> known uuid db i)
     \<and> (\<forall>h \<in> set (db_handovers db). \<forall>i. ho_request h = Some i \<longrightarrow> known uuid db i)
     \<and> distinct (map su_id (db_units db)) \<and> distinct (map sq_id (db_requests db))
     \<and> distinct (map rl_id (db_receipt_lines db)) \<and> distinct (map ol_id (db_order_lines db))"

text \<open>A unit whose only movements are its receipt and its issue: it has not been moved within its store or between its
  users, handed over to another store, or lost.\<close>

definition only_issued :: "stock_movement list \<Rightarrow> string \<Rightarrow> bool" where
  "only_issued ms i \<longleftrightarrow> (\<forall>m \<in> set ms. sm_unit m = Some i \<longrightarrow> sm_type m \<in> {Move_Receipt, Move_Issue})"

definition units_balanced :: "store_db \<Rightarrow> bool" where
  "units_balanced db \<longleftrightarrow> (\<forall>u \<in> set (db_units db). only_issued (db_movements db) (su_id u) \<longrightarrow>
     unit_ledger db (su_id u) = (if su_location u = None then 0 else 1000))"

definition stock_inv :: "(nat \<Rightarrow> string) \<Rightarrow> store_db \<Rightarrow> bool" where
  "stock_inv uuid db \<longleftrightarrow> issue_wf db \<and> identified uuid db \<and> units_balanced db
     \<and> (\<forall>q \<in> set (db_requests db). sound_request db q)
     \<and> (\<forall>l \<in> set (db_order_lines db). sound_line db l)
     \<and> (\<forall>r \<in> set (db_receipt_lines db). receipt_ledger db (rl_id r) = rl_quantity r)"

text \<open>The quantities entered for a request and for an issue have at most three decimals.\<close>

definition whole_quantity :: "jsnum \<Rightarrow> bool" where
  "whole_quantity v \<longleftrightarrow> (\<exists>n. \<bar>n\<bar> \<le> 10 ^ 14 \<and> v = numeric_number n)"

subsection \<open>Lemmas on ledgers\<close>

lemma ledger_append [simp]: "ledger P (ms @ ms') = ledger P ms + ledger P ms'"
  by (simp add: ledger_def)

lemma ledger_Nil [simp]: "ledger P [] = 0"
  by (simp add: ledger_def)

lemma only_issued_append [simp]: "only_issued (ms @ ms') i \<longleftrightarrow> only_issued ms i \<and> only_issued ms' i"
  by (auto simp: only_issued_def)

lemma ledger_none: "\<forall>m \<in> set ms. \<not> P m \<Longrightarrow> ledger P ms = 0"
  by (simp add: ledger_def filter_empty_conv)

lemma ledger_all: "\<forall>m \<in> set ms. P m \<Longrightarrow> ledger P ms = sum_list (map sm_quantity ms)"
  by (simp add: ledger_def)

text \<open>Movements of distinct units, each of the same quantity.\<close>

lemma ledger_of_distinct_units:
  "map sm_unit ns = map Some ids \<Longrightarrow> distinct ids \<Longrightarrow> \<forall>m \<in> set ns. sm_quantity m = c \<Longrightarrow>
     ledger (\<lambda>m. sm_unit m = Some i) ns = (if i \<in> set ids then c else 0)"
proof (induction ids arbitrary: ns)
  case (Cons j ids)
  then obtain m ns' where ns: "ns = m # ns'" by (cases ns) auto
  have "ledger (\<lambda>m. sm_unit m = Some i) ns' = (if i \<in> set ids then c else 0)"
    using Cons.prems by (intro Cons.IH) (auto simp: ns)
  then show ?case using Cons.prems by (auto simp: ns ledger_def)
qed simp

lemma ledger_of_unit:
  assumes "map sm_unit (filter (\<lambda>m. sm_unit m \<noteq> None) ms) = map Some ids" "distinct ids"
    "\<forall>m \<in> set ms. sm_unit m \<noteq> None \<longrightarrow> sm_quantity m = c"
  shows "ledger (\<lambda>m. sm_unit m = Some i) ms = (if i \<in> set ids then c else 0)"
proof -
  let ?ns = "filter (\<lambda>m. sm_unit m \<noteq> None) ms"
  have "filter (\<lambda>m. sm_unit m = Some i) ms = filter (\<lambda>m. sm_unit m = Some i) ?ns"
    by (auto intro: filter_cong simp: conj_commute)
  then have "ledger (\<lambda>m. sm_unit m = Some i) ms = ledger (\<lambda>m. sm_unit m = Some i) ?ns"
    by (simp only: ledger_def)
  then show ?thesis using ledger_of_distinct_units [OF assms(1,2), of c i] assms(3) by simp
qed

lemma known_mono:
  assumes "known uuid db i" "db_generated db \<le> db_generated db'"
  shows "known uuid db' i"
proof -
  obtain k where "k < db_generated db" "i = uuid k" using assms(1) by (auto simp: known_def)
  then show ?thesis using assms(2) unfolding known_def by (intro exI [of _ k]) simp
qed

lemma not_known_new: "inj uuid \<Longrightarrow> db_generated db \<le> k \<Longrightarrow> \<not> known uuid db (uuid k)"
  unfolding known_def by (metis injD not_le)

subsection \<open>An issue keeps the invariant\<close>

lemma assign_selected_ids [simp]: "map su_id (assign_selected h reference name machine us units) = map su_id units"
  by (simp add: assign_selected_def assign_unit_def comp_def)

lemma assign_selected_codes [simp]:
  "map (to_lower \<circ> su_code) (assign_selected h reference name machine us units) = map (to_lower \<circ> su_code) units"
  by (simp add: assign_selected_def assign_unit_def comp_def)

lemma distinct_by_key:
  "distinct (map f xs) \<Longrightarrow> x \<in> set xs \<Longrightarrow> y \<in> set xs \<Longrightarrow> f x = f y \<Longrightarrow> x = y"
  by (auto simp: distinct_map inj_on_def)

lemma issued_units:
  assumes id: "identified uuid db" and e: "issue_applies input db e"
  shows "u \<in> set (ie_units e) \<Longrightarrow> u \<in> set (db_units db) \<and> su_location u \<noteq> None"
    and "distinct (map su_id (ie_units e))"
    and "map sm_unit (filter (\<lambda>m. sm_unit m \<noteq> None) (ie_movements e)) = map Some (map su_id (ie_units e))"
proof -
  show selected: "u \<in> set (db_units db) \<and> su_location u \<noteq> None" if "u \<in> set (ie_units e)" for u
    using e that by (auto simp: issue_applies_def dest!: subsetD selected_units_set)
  have "inj_on su_id (set (ie_units e))" using id selected
    by (auto simp: identified_def distinct_map intro: inj_on_subset)
  moreover have "distinct (ie_units e)" using e by (simp add: issue_applies_def distinct_map)
  ultimately show "distinct (map su_id (ie_units e))" by (simp add: distinct_map)
  show "map sm_unit (filter (\<lambda>m. sm_unit m \<noteq> None) (ie_movements e)) = map Some (map su_id (ie_units e))"
    using e by (simp add: issue_applies_def)
qed

lemma issue_keeps_units:
  assumes bal: "units_balanced db" and id: "identified uuid db" and e: "issue_applies input db e"
  shows "units_balanced (after_issue input db e)" (is "units_balanced ?db")
  unfolding units_balanced_def
proof (intro ballI impI)
  fix u
  assume "u \<in> set (db_units ?db)" and only: "only_issued (db_movements ?db) (su_id u)"
  from this(1) obtain u0 where u0: "u0 \<in> set (db_units db)" and u: "u = (if su_id u0 \<in> su_id ` set (ie_units e)
       then assign_unit (ie_holder e) (ie_reference e) (ie_name e) (ie_machine e) u0 else u0)"
    by (auto simp: after_issue_def assign_selected_def)
  have "only_issued (db_movements db) (su_id u0)" using only by (simp add: after_issue_def u assign_unit_def split: if_splits)
  then have l0: "unit_ledger db (su_id u0) = (if su_location u0 = None then 0 else 1000)" using bal u0 by (simp add: units_balanced_def)
  have led: "unit_ledger ?db (su_id u0) = unit_ledger db (su_id u0) + (if su_id u0 \<in> su_id ` set (ie_units e) then - 1000 else 0)"
    using ledger_of_unit [OF issued_units(3) [OF id e] issued_units(2) [OF id e], of "- 1000" "su_id u0"] e
    by (simp add: unit_ledger_def after_issue_def issue_applies_def)
  show "unit_ledger ?db (su_id u) = (if su_location u = None then 0 else 1000)"
  proof (cases "su_id u0 \<in> su_id ` set (ie_units e)")
    case True
    then obtain u1 where u1: "u1 \<in> set (ie_units e)" "su_id u1 = su_id u0" by auto
    have "distinct (map su_id (db_units db))" using id by (simp add: identified_def)
    then have "u1 = u0" using issued_units(1) [OF id e u1(1)] u0 u1(2) by (auto intro: distinct_by_key)
    then have "su_location u0 \<noteq> None" using issued_units(1) [OF id e u1(1)] by simp
    then show ?thesis using l0 led True by (simp add: u assign_unit_def)
  next
    case False
    then show ?thesis using l0 led by (simp add: u)
  qed
qed

lemma issue_keeps_inv:
  assumes inv: "stock_inv uuid db" and e: "issue_applies input db e"
    and st: "sq_status (ir_request (ie_row e)) \<in> {Request_Pending, Partially_Issued}"
    and nonneg: "stock_nonneg (after_issue input db e)"
  shows "stock_inv uuid (after_issue input db e)"
proof -
  let ?db = "after_issue input db e" and ?q = "ir_request (ie_row e)"
  have row: "issue_row_of db (is_request input) = Some (ie_row e)" using e by (simp add: issue_applies_def)
  note q = issue_row_of_request [OF row]
  have wf: "issue_wf db" "identified uuid db" using inv by (simp_all add: stock_inv_def)
  have mem: "sm_request m = Some (is_request input) \<and> sm_receipt_line m = None"
    if "m \<in> set (ie_movements e)" for m using e that by (simp add: issue_applies_def)
  note units = issued_units(3) [OF wf(2) e] and selected = issued_units(1) [OF wf(2) e]
  have unit_known: "known uuid db i" if "m \<in> set (ie_movements e)" "sm_unit m = Some i" for m i
  proof -
    have "Some i \<in> set (map sm_unit (filter (\<lambda>m. sm_unit m \<noteq> None) (ie_movements e)))" using that by force
    then show ?thesis unfolding units using selected wf(2) by (auto simp: identified_def)
  qed
  have wf': "issue_wf ?db" using wf(1) nonneg by (simp add: issue_wf_def after_issue_def)
  have "known uuid db (is_request input)" using q wf(2) by (auto simp: identified_def)
  have identified': "identified uuid ?db"
  proof -
    have known [simp]: "known uuid ?db i \<longleftrightarrow> known uuid db i" for i by (simp add: known_def after_issue_def)
    have uids: "map su_id (db_units ?db) = map su_id (db_units db)" by (simp add: after_issue_def)
    have qids: "map sq_id (db_requests ?db) = map sq_id (db_requests db)" by (simp add: after_issue_def comp_def if_distrib cong: if_cong)
    have moves: "known uuid db i" if m: "m \<in> set (db_movements ?db)" and i: "Some i \<in> {sm_unit m, sm_request m, sm_receipt_line m}" for m i
    proof (cases "m \<in> set (db_movements db)")
      case True
      then show ?thesis using wf(2) i unfolding identified_def by blast
    next
      case False
      then have "m \<in> set (ie_movements e)" using m by (auto simp: after_issue_def)
      then show ?thesis using mem [of m] unit_known [of m i] i \<open>known uuid db (is_request input)\<close> by auto
    qed
    have us: "known uuid db (su_id u)" if "u \<in> set (db_units ?db)" for u
    proof -
      have "su_id u \<in> set (map su_id (db_units db))" using that by (simp flip: uids)
      then show ?thesis using wf(2) by (auto simp: identified_def)
    qed
    have qs: "known uuid db (sq_id q)" if "q \<in> set (db_requests ?db)" for q
    proof -
      have "sq_id q \<in> set (map sq_id (db_requests db))" using that by (simp flip: qids)
      then show ?thesis using wf(2) by (auto simp: identified_def)
    qed
    have "db_receipt_lines ?db = db_receipt_lines db" "db_order_lines ?db = db_order_lines db"
      "db_operations ?db = db_operations db" "db_handovers ?db = db_handovers db" by (simp_all add: after_issue_def)
    then show ?thesis unfolding identified_def known uids qids using moves us qs wf(2) unfolding identified_def by auto
  qed
  have requests: "sound_request ?db q'" if "q' \<in> set (db_requests ?db)" for q'
  proof -
    from that obtain q0 where q0: "q0 \<in> set (db_requests db)" and q': "q' = (if sq_id q0 = is_request input
         then q0\<lparr>sq_issued := sq_issued ?q + ie_amount e, sq_status := ie_status e\<rparr> else q0)"
      by (auto simp: after_issue_def)
    have s0: "sound_request db q0" using inv q0 by (simp add: stock_inv_def)
    have "request_ledger ?db (sq_id q0) = request_ledger db (sq_id q0)
        + (if sq_id q0 = is_request input then - ie_amount e else 0)"
      using mem e by (auto simp: request_ledger_def after_issue_def ledger_all ledger_none issue_applies_def)
    then have led: "delivered ?db (sq_id q0) = delivered db (sq_id q0) + (if sq_id q0 = is_request input then ie_amount e else 0)"
      by (simp add: delivered_def transferred_def after_issue_def)
    show ?thesis
    proof (cases "sq_id q0 = is_request input")
      case True
      then have "q0 = ?q" using q q0 wf(2) by (auto simp: identified_def intro: distinct_by_key)
      then show ?thesis using s0 led e True st
        by (auto simp: q' sound_request_def request_in_bounds_def issue_applies_def)
    next
      case False
      then show ?thesis using s0 led by (simp add: q' sound_request_def)
    qed
  qed
  have lines: "sound_line ?db l" if "l \<in> set (db_order_lines ?db)" for l
    using inv that by (simp add: stock_inv_def sound_line_def after_issue_def line_ledger_def)
  have receipts: "receipt_ledger ?db (rl_id r) = rl_quantity r" if "r \<in> set (db_receipt_lines ?db)" for r
    using inv that mem by (simp add: stock_inv_def after_issue_def receipt_ledger_def ledger_none)
  have "units_balanced ?db" using issue_keeps_units [OF _ wf(2) e] inv by (simp add: stock_inv_def)
  then show ?thesis using wf' identified' requests lines receipts by (simp add: stock_inv_def)
qed

subsection \<open>The effect of a receipt line\<close>

definition new_units ::
    "(nat \<Rightarrow> string) \<Rightarrow> string \<Rightarrow> store_db \<Rightarrow> store_unit list \<Rightarrow> stock_movement list
       \<Rightarrow> storage_place list \<Rightarrow> store_db" where
  "new_units uuid receipt_line db us ms ps = db\<lparr>db_generated := db_generated db + length us,
     db_units := db_units db @ us, db_movements := db_movements db @ ms, db_places := ps\<rparr>"

definition fresh_units :: "(nat \<Rightarrow> string) \<Rightarrow> string \<Rightarrow> store_db \<Rightarrow> store_unit list \<Rightarrow> stock_movement list \<Rightarrow> bool" where
  "fresh_units uuid receipt_line db us ms \<longleftrightarrow>
     map su_id us = map uuid [db_generated db ..< db_generated db + length us]
     \<and> (distinct (map (to_lower \<circ> su_code) (db_units db)) \<longrightarrow> distinct (map (to_lower \<circ> su_code) (db_units db @ us)))
     \<and> (\<forall>u \<in> set us. su_location u \<noteq> None \<and> su_status u = Unit_Available \<and> su_holder_type u = Held_Store)
     \<and> map sm_unit ms = map (Some \<circ> su_id) us
     \<and> (\<forall>m \<in> set ms. sm_quantity m = 1000 \<and> sm_receipt_line m = Some receipt_line \<and> sm_request m = None)"

lemma remember_place_effect: "remember_place before u now db = db\<lparr>db_places := db_places (remember_place before u now db)\<rparr>"
  by (simp add: remember_place_def Let_def split: option.split)

lemma insert_unit_effect:
  assumes "insert_unit u db = Inr db'"
  obtains ps where "db' = db\<lparr>db_units := db_units db @ [u], db_places := ps\<rparr>"
proof (rule that)
  have "db' = remember_place None u (su_created u) (db\<lparr>db_units := db_units db @ [u]\<rparr>)"
    using assms by (simp add: insert_unit_def split: if_splits)
  then show "db' = db\<lparr>db_units := db_units db @ [u], db_places := db_places db'\<rparr>"
    using remember_place_effect [of None u "su_created u" "db\<lparr>db_units := db_units db @ [u]\<rparr>"] by simp
qed

lemma receive_unit_effect:
  assumes "receive_unit env input loc store wd ((l, o', it), li, q) rl stab mcb first i db = Inr (code, db')"
  obtains u m ps where "db' = new_units (ev_uuid env) rl db [u] [m] ps" "fresh_units (ev_uuid env) rl db [u] [m]"
    "su_code u = code" "code = store_unit_id (si_type_code it) (nat (first + int i))"
    "su_item u = ol_item l" "su_location u = Some (sl_id loc)" "su_store u = store"
proof -
  let ?id = "ev_uuid env (db_generated db)"
  from assms obtain u db1 where u: "insert_unit u (db\<lparr>db_generated := Suc (db_generated db)\<rparr>) = Inr db1"
      "su_id u = ?id" "su_code u = store_unit_id (si_type_code it) (nat (first + int i))"
      "su_item u = ol_item l" "su_location u = Some (sl_id loc)" "su_store u = store" "su_status u = Unit_Available" "su_holder_type u = Held_Store"
    and m: "insert_movement (receipt_movement env input loc (ol_item l) rl (Some ?id) 1000) db1 = Inr db'"
    and code: "code = store_unit_id (si_type_code it) (nat (first + int i))"
    unfolding receive_unit_def prod.case Let_def generate_id_def
    by (force simp: bind_result_Inr_iff)
  from u(1) obtain ps where db1: "db1 = db\<lparr>db_generated := Suc (db_generated db), db_units := db_units db @ [u], db_places := ps\<rparr>"
    by (rule insert_unit_effect) simp
  have fresh: "to_lower (su_code u) \<notin> to_lower ` su_code ` set (db_units db)"
    using u(1) by (simp add: insert_unit_def split: if_splits)
  let ?m = "receipt_movement env input loc (ol_item l) rl (Some ?id) 1000"
  show thesis
  proof (rule that [of u ?m ps])
    show "db' = new_units (ev_uuid env) rl db [u] [?m] ps"
      using insert_movement_effect(1) [OF m] by (simp add: new_units_def db1)
    show "fresh_units (ev_uuid env) rl db [u] [?m]"
      using u fresh by (auto simp: fresh_units_def receipt_movement_def)
  qed (use u code in simp_all)
qed

lemma receive_units_effect:
  assumes "receive_units (receive_unit env input loc store wd ((l, o', it), li, q) rl stab mcb first) is db = Inr (codes, db')"
  shows "\<exists>us ms ps. db' = new_units (ev_uuid env) rl db us ms ps \<and> fresh_units (ev_uuid env) rl db us ms
     \<and> map su_code us = codes \<and> codes = map (\<lambda>i. store_unit_id (si_type_code it) (nat (first + int i))) is
     \<and> (\<forall>u \<in> set us. su_item u = ol_item l \<and> su_location u = Some (sl_id loc) \<and> su_store u = store)"
  using assms
proof (induction "is" arbitrary: db codes)
  case Nil
  then show ?case by (intro exI [of _ "[]"] exI [of _ "db_places db'"]) (simp add: new_units_def fresh_units_def)
next
  case (Cons i "is")
  from Cons.prems obtain code codes' db1 where
    1: "receive_unit env input loc store wd ((l, o', it), li, q) rl stab mcb first i db = Inr (code, db1)"
    and 2: "receive_units (receive_unit env input loc store wd ((l, o', it), li, q) rl stab mcb first) is db1 = Inr (codes', db')"
    and codes: "codes = code # codes'" by (auto simp: bind_result_Inr_iff)
  from 1 obtain u m ps1 where u: "db1 = new_units (ev_uuid env) rl db [u] [m] ps1" "fresh_units (ev_uuid env) rl db [u] [m]"
    "su_code u = code" "code = store_unit_id (si_type_code it) (nat (first + int i))"
    "su_item u = ol_item l" "su_location u = Some (sl_id loc)" "su_store u = store" by (rule receive_unit_effect)
  from Cons.IH [OF 2] obtain us ms ps where us: "db' = new_units (ev_uuid env) rl db1 us ms ps" "fresh_units (ev_uuid env) rl db1 us ms"
     "map su_code us = codes'" "codes' = map (\<lambda>i. store_unit_id (si_type_code it) (nat (first + int i))) is"
     "\<forall>u \<in> set us. su_item u = ol_item l \<and> su_location u = Some (sl_id loc) \<and> su_store u = store" by blast
  have ids: "map su_id (u # us) = map (ev_uuid env) [db_generated db ..< db_generated db + length (u # us)]"
  proof -
    have "[db_generated db ..< db_generated db + length (u # us)]
        = db_generated db # [Suc (db_generated db) ..< Suc (db_generated db) + length us]"
      by (subst upt_conv_Cons) simp_all
    then show ?thesis using u(1,2) us(2) by (simp add: fresh_units_def new_units_def)
  qed
  have "fresh_units (ev_uuid env) rl db (u # us) (m # ms)"
    using u(1,2) us(2) ids by (auto simp: fresh_units_def new_units_def)
  moreover have "db' = new_units (ev_uuid env) rl db (u # us) (m # ms) ps" using u(1) us(1) by (simp add: new_units_def)
  ultimately show ?case using u us codes by (intro exI [of _ "u # us"] exI [of _ "m # ms"] exI [of _ ps]) simp
qed

text \<open>What one line of a receipt does.\<close>

definition line_received ::
    "(nat \<Rightarrow> string) \<Rightarrow> order_line \<Rightarrow> int \<Rightarrow> receipt_line \<Rightarrow> store_unit list \<Rightarrow> stock_movement list \<Rightarrow> store_item list
       \<Rightarrow> storage_place list \<Rightarrow> store_db \<Rightarrow> store_db \<Rightarrow> bool" where
  "line_received uuid l n r us ms items ps db db' \<longleftrightarrow>
     db' = db\<lparr>db_items := items, db_receipt_lines := db_receipt_lines db @ [r],
        db_generated := db_generated db + 1 + length us, db_units := db_units db @ us, db_movements := db_movements db @ ms,
        db_order_lines := map (\<lambda>x. if ol_id x = ol_id l then x\<lparr>ol_received := ol_received x + n\<rparr> else x) (db_order_lines db),
        db_places := ps\<rparr>
     \<and> rl_id r = uuid (db_generated db) \<and> rl_order_line r = ol_id l \<and> rl_quantity r = n \<and> 0 < n
     \<and> map su_id us = map uuid [db_generated db + 1 ..< db_generated db + 1 + length us]
     \<and> (distinct (map (to_lower \<circ> su_code) (db_units db)) \<longrightarrow> distinct (map (to_lower \<circ> su_code) (db_units db @ us)))
     \<and> (\<forall>u \<in> set us. su_location u \<noteq> None)
     \<and> map sm_unit (filter (\<lambda>m. sm_unit m \<noteq> None) ms) = map (Some \<circ> su_id) us
     \<and> (\<forall>m \<in> set ms. sm_receipt_line m = Some (rl_id r) \<and> sm_request m = None \<and> 0 < sm_quantity m
          \<and> (sm_unit m \<noteq> None \<longrightarrow> sm_quantity m = 1000))
     \<and> sum_list (map sm_quantity ms) = n
     \<and> (\<forall>x \<in> set (db_order_lines db). ol_id x = ol_id l \<longrightarrow> 0 \<le> ol_received x + n \<and> ol_received x + n \<le> ol_ordered x)"

lemma receive_line_effect:
  assumes run: "receive_line env input store wd receipt ((l, o', it), li, q) loc numbers db = Inr (received, numbers', db')"
    and whole: "si_tracking it = Serialized \<Longrightarrow> \<exists>k. q = num_int k \<and> 0 < k \<and> k \<le> 10 ^ 12"
  shows "\<exists>n r us ms items ps. line_received (ev_uuid env) l n r us ms items ps db db' \<and> received = (map su_code us, ol_id l)
     \<and> numeric_column q = Some n \<and> (si_tracking it = Serialized \<longrightarrow> n = 1000 * int (length us))"
proof -
  let ?id = "ev_uuid env (db_generated db)"
  from run obtain n r stabilizer mcb codes db2 where n: "numeric_column q = Some n" "0 < n"
    and r: "rl_id r = ?id" "rl_order_line r = ol_id l" "rl_quantity r = n"
    and stock: "stock_line env input store wd ((l, o', it), li, q) loc ?id stabilizer mcb n numbers
        (db\<lparr>db_generated := Suc (db_generated db), db_receipt_lines := db_receipt_lines db @ [r]\<rparr>) = Inr (codes, numbers', db2)"
    and add: "add_received (ol_id l) n db2 = Inr db'" and received: "received = (codes, ol_id l)"
    by (force simp: receive_line_def generate_id_def bind_result_Inr_iff numeric_param_def split: if_splits option.splits)
  let ?db1 = "db\<lparr>db_generated := Suc (db_generated db), db_receipt_lines := db_receipt_lines db @ [r]\<rparr>"
  have db': "db' = db2\<lparr>db_order_lines := map (\<lambda>x. if ol_id x = ol_id l then x\<lparr>ol_received := ol_received x + n\<rparr> else x) (db_order_lines db2)\<rparr>"
    "\<forall>x \<in> set (db_order_lines db2). ol_id x = ol_id l \<longrightarrow> 0 \<le> ol_received x + n \<and> ol_received x + n \<le> ol_ordered x"
    using add by (auto simp: add_received_def split: if_splits)
  show ?thesis
  proof (cases "si_tracking it = Serialized")
    case True
    then obtain k where k: "q = num_int k" "0 < k" "k \<le> 10 ^ 12" using whole by blast
    have n_k: "n = 1000 * k"
    proof -
      have "numeric_column q = Some (1000 * k)" unfolding k(1) by (rule numeric_column_int [OF k(2,3)])
      then show ?thesis using n(1) by simp
    qed
    obtain first db3 where units: "receive_units (receive_unit env input loc store wd ((l, o', it), li, q) ?id stabilizer mcb first) [0..<nat k] ?db1 = Inr (codes, db3)"
      and take: "take_numbers (ol_item l) (int (nat k)) db3 = Inr db2"
      using stock True by (force simp: stock_line_def bind_result_Inr_iff Let_def k whole_units_def)
    obtain us ms ps where us: "db3 = new_units (ev_uuid env) ?id ?db1 us ms ps" "fresh_units (ev_uuid env) ?id ?db1 us ms"
       "map su_code us = codes" "codes = map (\<lambda>i. store_unit_id (si_type_code it) (nat (first + int i))) [0..<nat k]"
      using receive_units_effect [OF units] by blast
    obtain items where items: "db2 = db3\<lparr>db_items := items\<rparr>" using take by (auto simp: take_numbers_def split: if_splits)
    have len: "int (length us) = k" using arg_cong [OF us(3), of length] us(4) k(2) by simp
    have "length ms = length us" using us(2) by (metis fresh_units_def length_map)
    then have "sum_list (map sm_quantity ms) = n"
      using us(2) len n_k by (simp add: fresh_units_def map_idI sum_list_triv cong: map_cong)
    moreover have "filter (\<lambda>m. sm_unit m \<noteq> None) ms = ms"
    proof -
      have "\<forall>v \<in> set (map sm_unit ms). v \<noteq> None" using us(2) by (auto simp: fresh_units_def)
      then show ?thesis by (simp add: filter_id_conv)
    qed
    ultimately have "line_received (ev_uuid env) l n r us ms items ps db db'"
      using us(1,2) n r db' items by (simp add: line_received_def fresh_units_def new_units_def)
    moreover have "n = 1000 * int (length us)" using n_k len by simp
    ultimately show ?thesis using received us(3) n(1) by blast
  next
    case False
    let ?m = "receipt_movement env input loc (ol_item l) ?id None n"
    have ins: "insert_movement ?m ?db1 = Inr db2" and codes: "codes = []"
      using stock False by (auto simp: stock_line_def bind_result_Inr_iff)
    have "line_received (ev_uuid env) l n r [] [?m] (db_items db) (db_places db) db db'"
      using insert_movement_effect(1) [OF ins] n r db'
      by (simp add: line_received_def receipt_movement_def)
    then show ?thesis using received codes n False by auto
  qed
qed

subsection \<open>A receipt line keeps the invariant\<close>

lemma balance_append:
  "consumable_balance (db\<lparr>db_movements := db_movements db @ ms\<rparr>) item l = consumable_balance db item l
     + ledger (\<lambda>m. sm_item m = item \<and> sm_unit m = None \<and> sm_location m = l) ms"
  by (simp add: consumable_balance_def consumable_moves_def ledger_def)

lemma balance_cong: "db_movements db = db_movements db' \<Longrightarrow> consumable_balance db = consumable_balance db'"
  by (intro ext) (simp add: consumable_balance_def consumable_moves_def)

lemma ledger_nonneg: "\<forall>m \<in> set ms. 0 \<le> sm_quantity m \<Longrightarrow> 0 \<le> ledger P ms"
  unfolding ledger_def by (rule sum_list_nonneg) auto

lemma line_received_facts:
  assumes "line_received uuid l n r us ms items ps db db'"
  shows "db_movements db' = db_movements db @ ms" "db_units db' = db_units db @ us"
    "db_receipt_lines db' = db_receipt_lines db @ [r]" "db_generated db' = db_generated db + 1 + length us"
    "db_requests db' = db_requests db" "db_locations db' = db_locations db"
    "db_order_lines db' = map (\<lambda>x. if ol_id x = ol_id l then x\<lparr>ol_received := ol_received x + n\<rparr> else x) (db_order_lines db)"
    "rl_id r = uuid (db_generated db)" "rl_order_line r = ol_id l" "rl_quantity r = n"
    "map su_id us = map uuid [db_generated db + 1 ..< db_generated db + 1 + length us]"
    "map sm_unit (filter (\<lambda>m. sm_unit m \<noteq> None) ms) = map (Some \<circ> su_id) us"
    "\<forall>m \<in> set ms. sm_receipt_line m = Some (rl_id r) \<and> sm_request m = None \<and> 0 < sm_quantity m
          \<and> (sm_unit m \<noteq> None \<longrightarrow> sm_quantity m = 1000)"
    "sum_list (map sm_quantity ms) = n" "\<forall>u \<in> set us. su_location u \<noteq> None"
    "db_operations db' = db_operations db" "db_handovers db' = db_handovers db"
  using assms unfolding line_received_def by (elim conjE, simp)+

lemma identifiedD:
  assumes "identified uuid db"
  shows "m \<in> set (db_movements db) \<Longrightarrow> sm_unit m = Some i \<Longrightarrow> known uuid db i"
    "m \<in> set (db_movements db) \<Longrightarrow> sm_receipt_line m = Some i \<Longrightarrow> known uuid db i"
    "m \<in> set (db_movements db) \<Longrightarrow> sm_request m = Some i \<Longrightarrow> known uuid db i"
    "u \<in> set (db_units db) \<Longrightarrow> known uuid db (su_id u)"
    "r \<in> set (db_receipt_lines db) \<Longrightarrow> known uuid db (rl_id r)"
    "q \<in> set (db_requests db) \<Longrightarrow> known uuid db (sq_id q)"
  using assms unfolding identified_def by simp_all

lemma line_received_ids:
  assumes line: "line_received uuid l n r us ms items ps db db'" and inj: "inj uuid" and id: "identified uuid db"
  shows "identified uuid db'"
    and "\<And>u. u \<in> set us \<Longrightarrow> \<not> known uuid db (su_id u)" and "\<not> known uuid db (rl_id r)" and "distinct (map su_id us)"
proof -
  note f = line_received_facts [OF line]
  show new_unit: "\<not> known uuid db (su_id u)" if "u \<in> set us" for u
  proof -
    have "su_id u \<in> set (map su_id us)" using that by simp
    then have "su_id u \<in> set (map uuid [db_generated db + 1 ..< db_generated db + 1 + length us])"
      by (simp only: f(11))
    then show ?thesis using not_known_new [OF inj] by auto
  qed
  show new_line: "\<not> known uuid db (rl_id r)" using not_known_new [OF inj] by (simp add: f(8))
  show du: "distinct (map su_id us)" unfolding f(11) by (simp add: distinct_map inj_on_subset [OF inj])
  have old: "known uuid db i \<Longrightarrow> known uuid db' i" for i by (rule known_mono, assumption) (use f(4) in linarith)
  have unit_known: "known uuid db' (su_id u)" if "u \<in> set us" for u
  proof -
    have "su_id u \<in> set (map su_id us)" using that by simp
    then have "su_id u \<in> set (map uuid [db_generated db + 1 ..< db_generated db + 1 + length us])"
      by (simp only: f(11))
    then obtain k where "su_id u = uuid k" "k < db_generated db + 1 + length us" by auto
    then show ?thesis unfolding known_def f(4) by blast
  qed
  have line_known: "known uuid db' (rl_id r)" by (auto simp: known_def f(4,8) intro!: exI [of _ "db_generated db"])
  have moves: "known uuid db' i" if m: "m \<in> set (db_movements db')" and i: "Some i \<in> {sm_unit m, sm_request m, sm_receipt_line m}" for m i
  proof (cases "m \<in> set (db_movements db)")
    case True
    then show ?thesis using id i old unfolding identified_def by blast
  next
    case False
    then have mem: "m \<in> set ms" using m by (simp add: f(1))
    then have "sm_receipt_line m = Some (rl_id r)" "sm_request m = None" using f(13) by blast+
    then consider "i = rl_id r" | "sm_unit m = Some i" using i by auto
    then show ?thesis
    proof cases
      case 2
      then have "Some i \<in> set (map sm_unit (filter (\<lambda>m. sm_unit m \<noteq> None) ms))" using mem by force
      then show ?thesis using unit_known unfolding f(12) by auto
    qed (simp add: line_known)
  qed
  have "distinct (map su_id (db_units db) @ map su_id us)"
    using id du new_unit identifiedD(4) [OF id] by (auto simp: identified_def) metis
  moreover have "distinct (map rl_id (db_receipt_lines db) @ [rl_id r])"
    using id new_line identifiedD(5) [OF id] by (auto simp: identified_def)
  moreover have "map ol_id (db_order_lines db') = map ol_id (db_order_lines db)" by (simp add: f(7) comp_def if_distrib cong: if_cong)
  ultimately show "identified uuid db'"
    using id moves unit_known line_known old unfolding identified_def by (simp add: f(2,3,5,16,17) ball_Un)
qed

lemma line_keeps_units:
  assumes bal: "units_balanced db" and id: "identified uuid db" and inj: "inj uuid"
    and line: "line_received uuid l n r us ms items ps db db'"
  shows "units_balanced db'"
  unfolding units_balanced_def
proof (intro ballI impI)
  note f = line_received_facts [OF line]
  note ids = line_received_ids [OF line inj id]
  fix u
  assume that: "u \<in> set (db_units db')" and only: "only_issued (db_movements db') (su_id u)"
  have led: "unit_ledger db' (su_id u) = unit_ledger db (su_id u) + (if su_id u \<in> su_id ` set us then 1000 else 0)"
    using ledger_of_unit [OF f(12) [unfolded map_map [symmetric]] ids(4), of 1000 "su_id u"] f(13) by (simp add: unit_ledger_def f(1))
  show "unit_ledger db' (su_id u) = (if su_location u = None then 0 else 1000)"
  proof (cases "u \<in> set us")
    case True
    then have "unit_ledger db (su_id u) = 0" unfolding unit_ledger_def
      using ids(2) [OF True] identifiedD(1) [OF id] by (intro ledger_none) blast
    then show ?thesis using led True f(15) by simp
  next
    case False
    then have u: "u \<in> set (db_units db)" using that by (simp add: f(2))
    then have "su_id u \<notin> su_id ` set us" using identifiedD(4) [OF id] ids(2) by (metis imageE)
    then show ?thesis using led bal u only by (simp add: units_balanced_def f(1))
  qed
qed

lemma line_keeps_inv:
  assumes inv: "stock_inv uuid db" and inj: "inj uuid" and line: "line_received uuid l n r us ms items ps db db'"
  shows "stock_inv uuid db'"
proof -
  note f = line_received_facts [OF line]
  have id: "identified uuid db" "issue_wf db" using inv by (simp_all add: stock_inv_def)
  note ids = line_received_ids [OF line inj id(1)]
  have "stock_nonneg db'"
  proof -
    have "consumable_balance db' = consumable_balance (db\<lparr>db_movements := db_movements db @ ms\<rparr>)"
      by (rule balance_cong) (simp add: f(1))
    moreover have "0 \<le> ledger P ms" for P using f(13) by (intro ledger_nonneg) (auto intro: less_imp_le)
    ultimately show ?thesis using id(2) by (simp add: issue_wf_def stock_nonneg_def balance_append)
  qed
  then have wf: "issue_wf db'" using id(2) line by (simp add: issue_wf_def line_received_def)
  have requests: "sound_request db' q" if "q \<in> set (db_requests db')" for q
    using inv that f(13)
    by (simp add: stock_inv_def sound_request_def delivered_def transferred_def request_ledger_def f(1,5,16,17) ledger_none)
  have lines: "sound_line db' x" if "x \<in> set (db_order_lines db')" for x
  proof -
    from that obtain x0 where x0: "x0 \<in> set (db_order_lines db)"
      and x: "x = (if ol_id x0 = ol_id l then x0\<lparr>ol_received := ol_received x0 + n\<rparr> else x0)" by (auto simp: f(7))
    have s: "sound_line db x0" using inv x0 by (simp add: stock_inv_def)
    have led: "line_ledger db' (ol_id x0) = line_ledger db (ol_id x0) + (if ol_id x0 = ol_id l then n else 0)"
      by (simp add: line_ledger_def f(3,9,10))
    have "ol_id x0 = ol_id l \<Longrightarrow> 0 \<le> ol_received x0 + n \<and> ol_received x0 + n \<le> ol_ordered x0"
      using line x0 by (simp add: line_received_def)
    then show ?thesis using s led by (auto simp: x sound_line_def)
  qed
  have receipts: "receipt_ledger db' (rl_id x) = rl_quantity x" if "x \<in> set (db_receipt_lines db')" for x
  proof (cases "x = r")
    case True
    have "receipt_ledger db (rl_id r) = 0" unfolding receipt_ledger_def
      using ids(3) identifiedD(2) [OF id(1)] by (intro ledger_none) blast
    then show ?thesis using f(13,14) by (simp add: True receipt_ledger_def f(1,10) ledger_all)
  next
    case False
    then have x: "x \<in> set (db_receipt_lines db)" using that by (simp add: f(3))
    then have "rl_id x \<noteq> rl_id r" using identifiedD(5) [OF id(1)] ids(3) by metis
    then show ?thesis using inv x f(13) by (simp add: stock_inv_def receipt_ledger_def f(1) ledger_none)
  qed
  have "units_balanced db'" using line_keeps_units [OF _ id(1) inj line] inv by (simp add: stock_inv_def)
  then show ?thesis using wf ids(1) requests lines receipts by (simp add: stock_inv_def)
qed

subsection \<open>Every operation keeps the invariant\<close>

lemma stock_inv_cong:
  assumes "stock_inv uuid db"
    "db_movements db' = db_movements db" "db_units db' = db_units db" "db_requests db' = db_requests db"
    "db_receipt_lines db' = db_receipt_lines db" "db_order_lines db' = db_order_lines db" "db_locations db' = db_locations db"
    "db_generated db \<le> db_generated db'" "db_operations db' = db_operations db" "db_handovers db' = db_handovers db"
  shows "stock_inv uuid db'"
proof -
  have known: "known uuid db i \<Longrightarrow> known uuid db' i" for i using assms(8) by (rule known_mono [rotated])
  have "stock_nonneg db' = stock_nonneg db" by (simp add: stock_nonneg_def balance_cong [OF assms(2)])
  moreover have "identified uuid db'"
    using assms(1-7,9,10) known unfolding stock_inv_def identified_def by auto
  ultimately show ?thesis using assms(1-7,9,10)
    by (simp add: stock_inv_def issue_wf_def units_balanced_def unit_ledger_def sound_request_def sound_line_def delivered_def
      transferred_def request_ledger_def line_ledger_def receipt_ledger_def)
qed

lemma receive_lines_keep_inv:
  assumes "receive_lines env input store wd receipt lines numbers db = Inr (res, db')"
    "stock_inv (ev_uuid env) db" "inj (ev_uuid env)"
    "\<forall>(((l, o', it), li, q), loc) \<in> set lines. si_tracking it = Serialized \<longrightarrow> (\<exists>k. q = num_int k \<and> 0 < k \<and> k \<le> 10 ^ 12)"
  shows "stock_inv (ev_uuid env) db'"
  using assms
proof (induction lines arbitrary: numbers db res)
  case (Cons x lines)
  obtain l o' it li q loc where x: "x = (((l, o', it), li, q), loc)" by (metis prod.exhaust)
  from Cons.prems(1) obtain received numbers' db1 rest where
    1: "receive_line env input store wd receipt ((l, o', it), li, q) loc numbers db = Inr (received, numbers', db1)"
    and 2: "receive_lines env input store wd receipt lines numbers' db1 = Inr (rest, db')"
    by (auto simp: x bind_result_Inr_iff)
  have "si_tracking it = Serialized \<Longrightarrow> \<exists>k. q = num_int k \<and> 0 < k \<and> k \<le> 10 ^ 12"
    using Cons.prems(4) by (auto simp: x)
  from receive_line_effect [OF 1 this] obtain n r us ms items ps where "line_received (ev_uuid env) l n r us ms items ps db db1" by blast
  from line_keeps_inv [OF Cons.prems(2,3) this] have "stock_inv (ev_uuid env) db1" .
  from Cons.IH [OF 2 this Cons.prems(3)] show ?case using Cons.prems(4) by simp
qed simp

lemma close_remaining_line:
  "0 \<le> taken \<Longrightarrow> taken \<le> whole \<Longrightarrow> whole \<le> 10 ^ 14 \<Longrightarrow> close_to (3 / 50) (remaining_quantity whole taken) (whole - taken)"
  unfolding remaining_quantity_def
  using close_to_sub [OF close_numeric_number close_numeric_number, of whole taken] by simp

lemma prepared_whole:
  assumes "prepare_line lines (l, o', it) = Inr ((l', o'', it'), li, q)" "sound_line db l" "si_tracking it' = Serialized"
  shows "\<exists>k. q = num_int k \<and> 0 < k \<and> k \<le> 10 ^ 12"
proof -
  let ?r = "remaining_quantity (ol_ordered l) (ol_received l)"
  from assms(1,3) have q: "is_integer q" "num_lt (Fin 0) q" "\<not> num_lt ?r q"
    by (auto simp: prepare_line_def Let_def bind_result_Inr_iff positive_quantity_Inr split: option.splits if_splits)
  have b: "0 \<le> ol_received l" "ol_received l \<le> ol_ordered l" "ol_ordered l \<le> 10 ^ 14" using assms(2) by (simp_all add: sound_line_def)
  from close_remaining_line [OF b] obtain y where y: "?r = Fin y" "\<bar>y * 1000 - of_int (ol_ordered l - ol_received l)\<bar> \<le> 3 / 50"
    by (auto elim: close_toE)
  obtain x where x: "q = Fin x" "of_int \<lfloor>x\<rfloor> = x" using q(1) by (cases q) auto
  have "x \<le> y" using q(3) by (simp add: x(1) y(1))
  have "(of_int (ol_ordered l - ol_received l) :: rat) \<le> of_int (10 ^ 14)" using b by (simp only: of_int_le_iff)
  then have "of_int (ol_ordered l - ol_received l) \<le> (10 ^ 14 :: rat)" by simp
  then have "y * 1000 \<le> 10 ^ 14 + 1" using y(2) by linarith
  then have "x \<le> of_int (10 ^ 12)" using \<open>x \<le> y\<close> by simp
  then have "\<lfloor>x\<rfloor> \<le> 10 ^ 12" using x(2) by (metis of_int_le_iff)
  moreover have "0 < \<lfloor>x\<rfloor>" using q(2) x by (metis num_lt_Fin of_int_0_less_iff)
  ultimately show ?thesis using x by (metis (full_types))
qed

lemma order_rows_lines: "(l, o', it) \<in> set (order_rows db ids) \<Longrightarrow> l \<in> set (db_order_lines db)"
  by (auto simp: order_rows_def split: option.splits)

lemma receive_stock_keeps_inv:
  assumes inv: "stock_inv (ev_uuid env) db" and inj: "inj (ev_uuid env)"
  shows "satisfies (receive_stock_with_client env input db) (\<lambda>(res, db'). stock_inv (ev_uuid env) db')"
  unfolding receive_stock_with_client_def Let_def
proof (intro js_sat, goal_cases)
  case prems: (1 wd store first y order item prepared locations number db1 receipt db2 bill_date db3 result lines db5)
  let ?db4 = "case optional_text (in_bill_number input) of None \<Rightarrow> db3
     | Some bill \<Rightarrow> db3\<lparr>db_bills := db_bills db3 @ [(receipt, bill)]\<rparr>"
  have run: "receive_lines env input store wd receipt (zip prepared locations) [] ?db4 = Inr (lines, db5)"
    and prep: "map_result (prepare_line (in_lines input)) (order_rows db (map li_line (in_lines input))) = Inr prepared"
    and doc: "next_document_number env ''RECEIPT'' ''STR-GRN'' db = (number, db1)" "generate_id env db1 = (receipt, db2)"
    using prems by blast+
  have "\<exists>r. insert_receipt r db2 = Inr db3" using prems by blast
  then have "stock_inv (ev_uuid env) ?db4" using inv doc
    by (intro stock_inv_cong [OF inv])
      (auto simp: insert_receipt_def next_document_number_def generate_id_def Let_def split: option.splits if_splits)
  moreover have "si_tracking it = Serialized \<longrightarrow> (\<exists>k. q = num_int k \<and> 0 < k \<and> k \<le> 10 ^ 12)"
    if "(((l, o', it), li, q), loc) \<in> set (zip prepared locations)" for l o' it li q loc
  proof
    assume ser: "si_tracking it = Serialized"
    have "((l, o', it), li, q) \<in> set prepared" using that by (rule set_zip_leftD)
    then obtain row where row: "row \<in> set (order_rows db (map li_line (in_lines input)))"
        "prepare_line (in_lines input) row = Inr ((l, o', it), li, q)" using map_result_mem [OF prep] by blast
    obtain l0 o0 it0 where r: "row = (l0, o0, it0)" by (metis prod.exhaust)
    have "sound_line db l0" using order_rows_lines [OF row(1) [unfolded r]] inv by (simp add: stock_inv_def)
    from prepared_whole [OF row(2) [unfolded r] this ser] show "\<exists>k. q = num_int k \<and> 0 < k \<and> k \<le> 10 ^ 12" .
  qed
  ultimately have "stock_inv (ev_uuid env) db5" by (intro receive_lines_keep_inv [OF run]) (auto simp: inj)
  then have "stock_inv (ev_uuid env) (update_order_status (ol_order first) db5)"
    by (rule stock_inv_cong) (simp_all add: update_order_status_def)
  then show ?case by simp
qed

lemma queue_refresh_inv: "stock_inv uuid db \<Longrightarrow> stock_inv uuid (queue_store_refresh db)"
  by (erule stock_inv_cong) (simp_all add: queue_store_refresh_def)

lemma receive_stock_inv:
  assumes inv: "stock_inv (ev_uuid env) db" and inj: "inj (ev_uuid env)"
  shows "satisfies (receive_stock env input line db) (\<lambda>(res, db'). stock_inv (ev_uuid env) db')"
    "satisfies (receive_remaining_stock_batch env input o' ids places db) (\<lambda>(res, db'). stock_inv (ev_uuid env) db')"
proof -
  have received: "stock_inv (ev_uuid env) (queue_store_refresh db')" if "receive_stock_with_client env i db = Inr (res, db')" for i res db'
    using satisfiesD [OF receive_stock_keeps_inv [OF inv inj] that] by (simp add: queue_refresh_inv)
  show "satisfies (receive_stock env input line db) (\<lambda>(res, db'). stock_inv (ev_uuid env) db')"
    unfolding receive_stock_def by (intro js_sat) (use received in auto)
  show "satisfies (receive_remaining_stock_batch env input o' ids places db) (\<lambda>(res, db'). stock_inv (ev_uuid env) db')"
    unfolding receive_remaining_stock_batch_def Let_def by (intro js_sat) (use received in auto)
qed

lemma nonneg_cong: "db_movements db = db_movements db' \<Longrightarrow> stock_nonneg db = stock_nonneg db'"
  by (simp add: stock_nonneg_def balance_cong [of db db'])

lemma issue_keeps_nonneg:
  assumes "issue_requisition_with_client env input db = Inr (res, db')" "stock_nonneg db"
  shows "stock_nonneg db'"
proof -
  obtain row quantity h reference name where rec: "record_issue env input row quantity h reference name db = Inr (res, db')"
    using assms(1) by (rule issue_requisition_Inr)
  then obtain db1 n status where step: "(if si_tracking (ir_item row) = Serialized then issue_units env input row quantity h reference name db
      else issue_consumable env input row quantity h reference name db) = Inr db1"
    and upd: "update_request (is_request input) n status db1 = Inr db'" by (rule record_issue_Inr)
  obtain ms db0 where "insert_movements ms db0 = Inr db1" "db_movements db0 = db_movements db"
  proof (cases "si_tracking (ir_item row) = Serialized")
    case True
    then show thesis using step that unfolding issue_units_def Let_def
      by (auto simp: bind_result_Inr_iff split: if_splits)
  next
    case False
    then show thesis using step that unfolding issue_consumable_def Let_def
      by (auto simp: bind_result_Inr_iff split: if_splits)
  qed
  then have "stock_nonneg db1" using insert_movements_effect [of ms db0 db1] assms(2) nonneg_cong by metis
  then show ?thesis using nonneg_cong [of db' db1] update_request_Inr [OF upd] by simp
qed

lemma issue_inv:
  assumes inv: "stock_inv uuid db" and run: "issue_requisition_with_client env input db = Inr (res, db')"
    and whole: "case is_quantity input of Remaining \<Rightarrow> True | Quantity v \<Rightarrow> whole_quantity v"
  shows "stock_inv uuid db'"
proof -
  have wf: "issue_wf db" using inv by (simp add: stock_inv_def)
  have amount: "request_in_bounds (ir_request row) \<and> (\<exists>n. whole_amount (is_quantity input) (ir_request row) n)"
    if "issue_row_of db (is_request input) = Some row" for row
  proof
    have "sound_request db (ir_request row)" using issue_row_of_request [OF that] inv by (simp add: stock_inv_def)
    then show "request_in_bounds (ir_request row)" by (simp add: sound_request_def)
    show "\<exists>n. whole_amount (is_quantity input) (ir_request row) n"
      using whole by (auto simp: whole_amount_def whole_quantity_def split: quantity_input.splits)
  qed
  from issue_has_effect [OF run wf amount] obtain e where e: "issue_applies input db e" "db' = after_issue input db e"
    "sq_status (ir_request (ie_row e)) \<in> {Request_Pending, Partially_Issued}" by blast
  have "stock_nonneg db'" using issue_keeps_nonneg [OF run] wf by (simp add: issue_wf_def)
  then show ?thesis using issue_keeps_inv [OF inv e(1,3)] e(2) by simp
qed

subsection \<open>Creating and cancelling requests\<close>

lemma whole_one: "whole_quantity (Fin 1)"
  unfolding whole_quantity_def by (intro exI [of _ 1000]) (simp, code_simp)

lemma whole_param:
  assumes "whole_quantity v" "positive_quantity v = Inr w" "numeric_param w = Inr n"
  shows "0 < n \<and> n \<le> 10 ^ 14"
proof -
  obtain k where k: "\<bar>k\<bar> \<le> 10 ^ 14" "v = numeric_number k" using assms(1) by (auto simp: whole_quantity_def)
  have w: "w = v" "num_lt (Fin 0) v" using assms(2) by (auto simp: positive_quantity_Inr)
  have "0 \<le> k" by (rule close_to_positive [OF close_numeric_number [OF k(1)]]) (use k w in auto)
  moreover have "k \<noteq> 0" using w k by (auto simp: numeric_number_def)
  ultimately show ?thesis using numeric_number_param [of k] k assms(3) w by simp
qed

lemma ledger_new:
  assumes "identified uuid db" "\<not> known uuid db i"
  shows "delivered db i = 0"
proof -
  have "request_ledger db i = 0" using assms unfolding request_ledger_def identified_def by (intro ledger_none) auto
  moreover have "filter (\<lambda>x. op_type x = Stock_Transfer \<and> op_request x = Some i) (db_operations db) = []"
      "filter (\<lambda>h. ho_request h = Some i) (db_handovers db) = []"
    using assms unfolding identified_def filter_empty_conv by auto
  then have "transferred db i = 0" by (simp add: transferred_def)
  ultimately show ?thesis by (simp add: delivered_def)
qed

lemma add_request_inv:
  assumes inv: "stock_inv uuid db" and inj: "inj uuid" and q: "sq_id q = uuid (db_generated db)"
    "sq_issued q = 0" "sq_status q = Request_Pending" "0 < sq_requested q" "sq_requested q \<le> 10 ^ 14"
    and db1: "db1 = db\<lparr>db_generated := db_generated db + 1\<rparr>"
  shows "stock_inv uuid (db1\<lparr>db_requests := db_requests db1 @ [q]\<rparr>)"
proof -
  define db' where "db' = db1\<lparr>db_requests := db_requests db1 @ [q]\<rparr>"
  note db' = db'_def [unfolded db1]
  have id: "identified uuid db" using inv by (simp add: stock_inv_def)
  have new: "\<not> known uuid db (sq_id q)" unfolding q(1) by (rule not_known_new [OF inj]) simp
  have known: "known uuid db i \<Longrightarrow> known uuid db' i" for i by (erule known_mono) (simp add: db')
  have "known uuid db' (sq_id q)" unfolding known_def q(1) by (intro exI [of _ "db_generated db"]) (simp add: db')
  moreover have "sq_id q \<notin> set (map sq_id (db_requests db))" using new id by (auto simp: identified_def)
  ultimately have "identified uuid db'" using id known unfolding identified_def by (auto simp: db')
  moreover have "sound_request db' q"
    using ledger_new [OF id new] q by (simp add: sound_request_def request_in_bounds_def delivered_def transferred_def request_ledger_def db')
  moreover have "stock_nonneg db' = stock_nonneg db" by (intro nonneg_cong) (simp add: db')
  ultimately show ?thesis using inv unfolding db1
    by (simp add: db' stock_inv_def issue_wf_def units_balanced_def unit_ledger_def sound_request_def sound_line_def delivered_def
      transferred_def request_ledger_def line_ledger_def receipt_ledger_def)
qed

lemma insert_request_Inr: "insert_request q db = Inr db' \<Longrightarrow> db' = db\<lparr>db_requests := db_requests db @ [q]\<rparr>"
  by (simp add: insert_request_def split: if_splits)

lemma request_line_inv:
  assumes inv: "stock_inv (ev_uuid env) db" and inj: "inj (ev_uuid env)" and whole: "whole_quantity (rt_quantity item)"
  shows "satisfies (request_line env kind header number location (index, item) db) (\<lambda>(i, db'). stock_inv (ev_uuid env) db')"
  unfolding request_line_def Let_def prod.case
proof (intro js_sat, goal_cases)
  case prems: (1 _ quantity n i db1 db2)
  have n: "0 < n \<and> n \<le> 10 ^ 14" using whole_param [OF whole] prems by blast
  have g: "i = ev_uuid env (db_generated db)" "db1 = db\<lparr>db_generated := db_generated db + 1\<rparr>"
    using prems by (auto simp: generate_id_def)
  show ?case unfolding prod.case insert_request_Inr [OF prems(5)]
    by (rule add_request_inv [OF inv inj _ _ _ _ _ g(2)]) (use n in \<open>simp_all add: g\<close>)
qed

lemma request_lines_inv:
  assumes "request_lines (request_line env kind header number location) items db = Inr (ids, db')"
    "stock_inv (ev_uuid env) db" "inj (ev_uuid env)" "\<forall>(index, item) \<in> set items. whole_quantity (rt_quantity item)"
  shows "stock_inv (ev_uuid env) db'"
  using assms
proof (induction items arbitrary: db ids)
  case (Cons x items)
  obtain index item where x: "x = (index, item)" by force
  from Cons.prems(1) obtain i db1 rest where 1: "request_line env kind header number location (index, item) db = Inr (i, db1)"
    and 2: "request_lines (request_line env kind header number location) items db1 = Inr (rest, db')"
    by (auto simp: x bind_result_Inr_iff)
  have "stock_inv (ev_uuid env) db1"
    using satisfiesD [OF request_line_inv [OF Cons.prems(2,3)] 1] Cons.prems(4) by (simp add: x)
  from Cons.IH [OF 2 this Cons.prems(3)] show ?case using Cons.prems(4) by simp
qed simp

lemma reserve_items_whole:
  "reserve_items db kind named reserved items = Inr items' \<Longrightarrow>
     \<forall>item \<in> set reserved \<union> set items. whole_quantity (rt_quantity item) \<Longrightarrow>
     \<forall>item \<in> set items'. whole_quantity (rt_quantity item)"
proof (induction db kind named reserved items rule: reserve_items.induct)
  case (2 db kind named reserved item items)
  show ?case
  proof (cases "kind \<noteq> Store_Transfer \<or> item_tracking db (rt_item item) \<noteq> Some Serialized \<or> optional_text (rt_unit item) \<noteq> None")
    case True
    then show ?thesis using 2 by simp
  next
    case False
    let ?units = "take (whole_units (rt_quantity item)) (free_units db (rt_item item)
       (named @ concat (map (\<lambda>r. case rt_unit r of None \<Rightarrow> [] | Some u \<Rightarrow> if u = [] then [] else [u]) reserved)))"
    let ?new = "reserved @ map (\<lambda>u. \<lparr>rt_item = rt_item item, rt_quantity = Fin 1, rt_unit = Some (su_id u)\<rparr>) ?units"
    have run: "reserve_items db kind named ?new items = Inr items'"
      and enough: "length ?units = whole_units (rt_quantity item)"
      using False 2(3) by (simp_all only: reserve_items.simps(2) Let_def if_False throw_return split: if_splits) simp_all
    have "\<forall>item \<in> set ?new \<union> set items. whole_quantity (rt_quantity item)" using 2(4) whole_one by auto
    from 2(2) [OF False refl refl _ run this] show ?thesis using enough by simp
  qed
qed simp

lemma create_requisition_inv:
  assumes inv: "stock_inv (ev_uuid env) db" and inj: "inj (ev_uuid env)"
    and whole: "\<forall>item \<in> set (rb_items input). whole_quantity (rt_quantity item)"
  shows "satisfies (create_requisition_batch env input db) (\<lambda>(res, db'). stock_inv (ev_uuid env) db')"
  unfolding create_requisition_batch_def Let_def
proof (intro js_sat, goal_cases)
  case prems: (1 _ _ _ _ _ reserved number db1 header db2 _ lines ids db3)
  have "\<forall>item \<in> set [] \<union> set (rb_items input). whole_quantity (rt_quantity item)" using whole by simp
  then have reserved: "\<forall>item \<in> set reserved. whole_quantity (rt_quantity item)"
    using reserve_items_whole prems(12) by blast
  have same: "stock_inv (ev_uuid env) (db2\<lparr>db_headers := hs\<rparr>)" for hs
    using prems(13,14) by (intro stock_inv_cong [OF inv])
      (auto simp: next_document_number_def generate_id_def Let_def split: option.splits if_splits)
  have "stock_inv (ev_uuid env) db3"
    by (rule request_lines_inv [OF prems(17) [unfolded prems(18)] same inj]) (auto simp: reserved dest!: in_set_enumerate_eq [THEN iffD1])
  then show ?case by simp
qed

lemma map_requests_inv:
  assumes inv: "stock_inv uuid db" and f: "\<And>q. sq_id (f q) = sq_id q"
    and sound: "\<And>q. sound_request db q \<Longrightarrow> sound_request db (f q)"
  shows "stock_inv uuid (db\<lparr>db_requests := map f (db_requests db)\<rparr>)" (is "stock_inv uuid ?db")
proof -
  have known: "known uuid ?db = known uuid db" by (simp add: known_def fun_eq_iff)
  have "sq_id \<circ> f = sq_id" by (simp add: comp_def f)
  moreover have "\<forall>q \<in> set (db_requests ?db). known uuid db (sq_id q)" using inv by (simp add: stock_inv_def identified_def f)
  ultimately have "identified uuid ?db" using inv unfolding stock_inv_def identified_def known by simp
  moreover have "sound_request ?db = sound_request db" by (simp add: sound_request_def delivered_def transferred_def request_ledger_def fun_eq_iff)
  moreover have "stock_nonneg ?db = stock_nonneg db" by (intro nonneg_cong) simp
  ultimately show ?thesis using inv sound
    by (simp add: stock_inv_def issue_wf_def units_balanced_def unit_ledger_def sound_line_def line_ledger_def receipt_ledger_def)
qed

lemma cancel_inv:
  assumes inv: "stock_inv uuid db"
  shows "satisfies (cancel_requisition request db) (\<lambda>(res, db'). stock_inv uuid db')"
  unfolding cancel_requisition_def Let_def
proof (intro js_sat, goal_cases)
  case (1 i)
  show ?case unfolding prod.case
    by (rule map_requests_inv [OF inv]) (auto simp: sound_request_def request_in_bounds_def)
qed

lemma issue_each_inv:
  assumes "issue_each env input_of ids db = Inr (res, db')" "stock_inv uuid db" "\<And>i. is_quantity (input_of i) = Remaining"
  shows "stock_inv uuid db'"
  using assms
proof (induction ids arbitrary: db res)
  case (Cons i ids)
  from Cons.prems(1) obtain a db1 rest where 1: "issue_requisition_with_client env (input_of i) db = Inr (a, db1)"
    and 2: "issue_each env input_of ids db1 = Inr (rest, db')" by (auto simp: bind_result_Inr_iff)
  have "stock_inv uuid db1" by (rule issue_inv [OF Cons.prems(2) 1]) (simp add: Cons.prems(3))
  from Cons.IH [OF 2 this Cons.prems(3)] show ?case .
qed simp

end
