(* ===== verification/Store_Reachable.thy ===== *)
theory Store_Reachable
  imports Store_Ledger
begin

section \<open>The store: reachable states\<close>

text \<open>
  The effects of the transfers, moves and losses of \<open>Store_Transfers\<close>, that each of them keeps the invariant of
  \<open>Store_Ledger\<close>, and the states the operations lead to.
\<close>

subsection \<open>Debits\<close>

lemma units_nonneg: "0 \<le> b \<Longrightarrow> num_le (Fin 0) (units_of_balance b)"
proof (cases "b \<le> 10 ^ 14")
  case False
  then have "num_le (num_int (10 ^ 14)) (units_of_balance b)" by (intro units_of_balance_large) simp
  then show ?thesis by (rule num_le_trans [rotated]) simp
qed (simp add: units_of_balance_exact)

text \<open>On balances that are not negative the loop of the transfers takes what the one of the issues takes.\<close>

lemma debits_greedy:
  assumes "0 \<le> r" "r \<le> 10 ^ 14" "\<forall>(loc, b) \<in> set bs. 0 \<le> b"
  shows "debits (num_int r) bs = map (\<lambda>(loc, u). (loc, numeric_number u)) (greedy r bs)"
  using assms
proof (induction bs arbitrary: r)
  case (Cons x bs)
  obtain loc b where x: "x = (loc, b)" by (cases x)
  have b: "0 \<le> b" using Cons.prems by (auto simp: x)
  let ?u = "min r b"
  have nan: "units_of_balance b \<noteq> NaN" using units_nonneg [OF b] by auto
  have max: "num_max (Fin 0) (units_of_balance b) = units_of_balance b"
    using units_nonneg [OF b] nan by (cases "units_of_balance b") (auto simp: num_max_def)
  have units: "num_min (num_int r) (units_of_balance b) = num_int ?u"
    using min_units [OF Cons.prems(1,2) b] by (simp add: max)
  have sub: "num_sub (num_int r) (num_int ?u) = num_int (r - ?u)"
    using Cons.prems b by (intro num_sub_int) (simp_all add: min_def)
  have rest: "debits (num_int (r - ?u)) bs = map (\<lambda>(loc, u). (loc, numeric_number u)) (greedy (r - ?u) bs)"
    using Cons.prems b by (intro Cons.IH) auto
  have none: "greedy 0 bs = []" if "\<forall>(loc, b) \<in> set bs. 0 \<le> b" for bs :: "(store_location \<times> int) list"
    using that by (induction bs) (auto simp: min_def)
  show ?case
  proof (cases "r = 0")
    case True
    then show ?thesis using none [of "x # bs"] Cons.prems(3) by (simp add: x)
  next
    case False
    then have r: "\<not> num_le (num_int r) (Fin 0)" using Cons.prems(1) by simp
    show ?thesis
    proof (cases "b = 0")
      case True
      then have "r - ?u = r" "?u = 0" using Cons.prems(1) by simp_all
      then show ?thesis using rest by (simp only: x debits.simps greedy.simps Let_def units r if_False) simp
    next
      case False
      then have "0 < ?u" using r b Cons.prems(1) by (auto simp: min_def)
      then show ?thesis using rest
        by (simp only: x debits.simps greedy.simps Let_def units r if_False sub) (auto simp: numeric_number_def)
    qed
  qed
qed simp

lemma set_available_locations:
  "(loc, b) \<in> set (available_locations db store item) \<longleftrightarrow>
     loc \<in> set (stock_locations db store) \<and> b = consumable_balance db item (sl_id loc)"
  by (auto simp: available_locations_def stock_locations_def)

lemma sum_available_locations: "sum_list (map snd (available_locations db store item)) = store_stock db item store"
proof -
  have "sum_list (map snd (available_locations db store item)) = sum_mset (image_mset snd (mset (available_locations db store item)))"
    by (simp only: mset_map [symmetric] sum_mset_sum_list)
  also have "\<dots> = store_stock db item store"
    by (simp add: available_locations_def store_stock_def stock_locations_def image_mset.compositionality comp_def
      flip: mset_map sum_mset_sum_list)
  finally show ?thesis .
qed

lemma distinct_available_locations:
  assumes "distinct (map sl_id (db_locations db))"
  shows "distinct (map (sl_id \<circ> fst) (available_locations db store item))"
  using assms by (auto simp: available_locations_def distinct_map inj_on_def)

definition debit_movements ::
    "store_env \<Rightarrow> move_identity \<Rightarrow> string \<Rightarrow> movement_type \<Rightarrow> string \<Rightarrow> int \<Rightarrow> accountable_store \<Rightarrow> accountable_store option
       \<Rightarrow> store_db \<Rightarrow> stock_movement list" where
  "debit_movements env identity item type operation n source to_store db =
     map (\<lambda>(loc, u). quantity_movement env identity item source (map_option (\<lambda>a. (sa_code a, sa_name a)) to_store) type operation
       (sl_id loc) (- u)) (greedy n (available_locations db (sa_id source) item))"

lemma write_debits_exact:
  assumes amount: "close_to d quantity n" "d \<le> 1 / 4" "0 < n" "n \<le> 10 ^ 14"
    and wf: "distinct (map sl_id (db_locations db))" "stock_nonneg db"
  shows "write_debits env identity item type operation quantity source to_store db =
    (if store_stock db item (sa_id source) < n
     then Inl ''Insufficient available quantity in the accountable Store.''
     else Inr (db\<lparr>db_movements := db_movements db @ debit_movements env identity item type operation n source to_store db\<rparr>))"
proof -
  let ?bs = "available_locations db (sa_id source) item"
  let ?mk = "\<lambda>loc u. quantity_movement env identity item source (map_option (\<lambda>a. (sa_code a, sa_name a)) to_store) type operation
    (sl_id loc) (- u)"
  have bs: "\<forall>(loc, b) \<in> set ?bs. 0 \<le> b \<and> b = consumable_balance db item (sl_id loc)"
    using wf(2) by (auto simp: set_available_locations stock_nonneg_def)
  then have pos: "\<forall>(loc, b) \<in> set ?bs. 0 \<le> b" by auto
  have round: "num_round (num_mul quantity (Fin 1000)) = num_int n"
    using amount by (intro round_thousandths) simp_all
  have deb: "debits (num_int n) ?bs = map (\<lambda>(loc, u). (loc, numeric_number u)) (greedy n ?bs)"
    using pos amount by (intro debits_greedy) simp_all
  note take = take_stock [OF bs distinct_available_locations [OF wf(1)] amount(3,4),
      of "debit_movement env identity item source to_store type operation" ?mk]
  have "map_result (debit_movement env identity item source to_store type operation) (debits (num_int n) ?bs)
      = Inr (debit_movements env identity item type operation n source to_store db)"
    unfolding deb debit_movements_def by (rule take(1)) (simp_all add: debit_movement_def quantity_movement_def)
  moreover have "insert_movements (debit_movements env identity item type operation n source to_store db) db
      = Inr (db\<lparr>db_movements := db_movements db @ debit_movements env identity item type operation n source to_store db\<rparr>)"
    unfolding debit_movements_def by (rule take(2)) (simp_all add: debit_movement_def quantity_movement_def)
  ultimately show ?thesis
    using stock_available [OF pos amount(4)] by (simp add: write_debits_def Let_def round sum_available_locations)
qed

lemma debit_mem:
  assumes "m \<in> set (debit_movements env identity item type operation n source to_store db)"
    and wf: "distinct (map sl_id (db_locations db))"
  shows "sm_item m = item \<and> sm_unit m = None \<and> sm_receipt_line m = None \<and> sm_request m = md_request identity
    \<and> sm_quantity m < 0 \<and> sm_location m \<in> sl_id ` set (stock_locations db (sa_id source))"
proof -
  let ?bs = "available_locations db (sa_id source) item"
  obtain loc u where u: "(loc, u) \<in> set (greedy n ?bs)" and m: "m = quantity_movement env identity item source
      (map_option (\<lambda>a. (sa_code a, sa_name a)) to_store) type operation (sl_id loc) (- u)"
    using assms(1) by (auto simp: debit_movements_def)
  have d: "distinct (map fst ?bs)" using distinct_available_locations [OF wf] by (metis distinct_map map_map)
  from greedy_mem [OF u d] obtain b where "0 < u" "(loc, b) \<in> set ?bs" by blast
  then show ?thesis by (simp add: m quantity_movement_def set_available_locations)
qed

lemma debit_sum:
  assumes "stock_nonneg db" "0 < n" "n \<le> store_stock db item (sa_id source)"
  shows "sum_list (map sm_quantity (debit_movements env identity item type operation n source to_store db)) = - n"
proof -
  let ?bs = "available_locations db (sa_id source) item"
  have "\<forall>(loc, b) \<in> set ?bs. 0 \<le> b" using assms(1) by (auto simp: set_available_locations stock_nonneg_def)
  then have "sum_list (map snd (greedy n ?bs)) = n"
    using greedy_sum [of n ?bs] assms by (simp add: sum_available_locations)
  moreover have "sum_list (map sm_quantity (debit_movements env identity item type operation n source to_store db))
      = - sum_list (map snd (greedy n ?bs))"
    by (simp add: debit_movements_def quantity_movement_def case_prod_beta comp_def uminus_sum_list_map)
  ultimately show ?thesis by simp
qed

subsection \<open>A step that keeps the documents\<close>

lemma delivered_step:
  assumes "db_movements db' = db_movements db @ ms" "db_operations db' = db_operations db @ ops"
    "db_handovers db' = db_handovers db @ hs"
  shows "delivered db' i = delivered db i
    + sum_list (map op_quantity (filter (\<lambda>x. op_type x = Stock_Transfer \<and> op_request x = Some i) ops))
    + 1000 * int (length (filter (\<lambda>h. ho_request h = Some i) hs)) - ledger (\<lambda>m. sm_request m = Some i) ms"
  using assms by (simp add: delivered_def transferred_def request_ledger_def algebra_simps)

text \<open>The units \<open>us\<close> become \<open>us'\<close>: none leaves or reaches a location but by a movement, which is no receipt and no issue.\<close>

definition displaced :: "stock_movement list \<Rightarrow> store_unit list \<Rightarrow> store_unit list \<Rightarrow> bool" where
  "displaced ms us us' \<longleftrightarrow> (\<forall>m \<in> set ms. sm_unit m \<noteq> None \<longrightarrow> sm_type m \<notin> {Move_Receipt, Move_Issue})
     \<and> (\<forall>u' \<in> set us'. only_issued ms (su_id u') \<longrightarrow>
          (\<exists>u \<in> set us. su_id u = su_id u' \<and> (su_location u = None \<longleftrightarrow> su_location u' = None)))"

lemma displaced_same: "\<forall>m \<in> set ms. sm_unit m = None \<Longrightarrow> displaced ms us us"
  by (auto simp: displaced_def)

lemma displaced_units:
  assumes "units_balanced db" "db_movements db' = db_movements db @ ms" "displaced ms (db_units db) (db_units db')"
  shows "units_balanced db'"
  unfolding units_balanced_def
proof (intro ballI impI)
  fix u' assume u': "u' \<in> set (db_units db')" and only: "only_issued (db_movements db') (su_id u')"
  then obtain u where u: "u \<in> set (db_units db)" "su_id u = su_id u'" "su_location u = None \<longleftrightarrow> su_location u' = None"
    using assms(2,3) by (auto simp: displaced_def)
  have "ledger (\<lambda>m. sm_unit m = Some (su_id u')) ms = 0"
    using only assms(2,3) by (intro ledger_none) (auto simp: displaced_def only_issued_def)
  moreover have "unit_ledger db (su_id u) = (if su_location u = None then 0 else 1000)"
    using assms(1,2) u(1) only unfolding units_balanced_def u(2) [symmetric] by auto
  ultimately show "unit_ledger db' (su_id u') = (if su_location u' = None then 0 else 1000)"
    using u by (simp add: unit_ledger_def assms(2))
qed

text \<open>Stock movements that belong to no receipt, operations and handovers are added, requests are updated,
  units change all but their identity and code.\<close>

lemma documents_inv:
  assumes inv: "stock_inv uuid db"
    and same: "db_locations db' = db_locations db" "db_order_lines db' = db_order_lines db" "db_receipt_lines db' = db_receipt_lines db"
      "db_generated db \<le> db_generated db'"
    and units: "map su_id (db_units db') = map su_id (db_units db)"
      "map (to_lower \<circ> su_code) (db_units db') = map (to_lower \<circ> su_code) (db_units db)"
      "displaced ms (db_units db) (db_units db')"
    and added: "db_movements db' = db_movements db @ ms" "db_operations db' = db_operations db @ ops"
      "db_handovers db' = db_handovers db @ hs"
    and ids: "\<forall>m \<in> set ms. sm_receipt_line m = None \<and> (\<forall>i. sm_unit m = Some i \<or> sm_request m = Some i \<longrightarrow> known uuid db i)"
      "\<forall>x \<in> set ops. \<forall>i. op_request x = Some i \<longrightarrow> known uuid db i" "\<forall>h \<in> set hs. \<forall>i. ho_request h = Some i \<longrightarrow> known uuid db i"
    and requests: "map sq_id (db_requests db') = map sq_id (db_requests db)" "\<forall>q \<in> set (db_requests db'). sound_request db' q"
    and nonneg: "stock_nonneg db'"
  shows "stock_inv uuid db'"
proof -
  have id: "identified uuid db" and wf: "issue_wf db" using inv by (simp_all add: stock_inv_def)
  have known: "known uuid db i \<Longrightarrow> known uuid db' i" for i using same(4) by (rule known_mono [rotated])
  have "issue_wf db'" using wf nonneg units(2) by (simp add: issue_wf_def same)
  moreover have "identified uuid db'"
  proof -
    have us: "known uuid db' (su_id u)" if "u \<in> set (db_units db')" for u
    proof -
      have "su_id u \<in> set (map su_id (db_units db))" using that by (simp flip: units(1))
      then show ?thesis using id known by (auto simp: identified_def)
    qed
    have qs: "known uuid db' (sq_id q)" if "q \<in> set (db_requests db')" for q
    proof -
      have "sq_id q \<in> set (map sq_id (db_requests db))" using that by (simp flip: requests(1))
      then show ?thesis using id known by (auto simp: identified_def)
    qed
    have moves: "known uuid db' i" if m: "m \<in> set (db_movements db')" and i: "Some i \<in> {sm_unit m, sm_request m, sm_receipt_line m}" for m i
    proof (cases "m \<in> set (db_movements db)")
      case True
      then show ?thesis using id i known unfolding identified_def by blast
    next
      case False
      then have "m \<in> set ms" using m by (simp add: added(1))
      then have "sm_receipt_line m = None" "sm_unit m = Some i \<or> sm_request m = Some i \<Longrightarrow> known uuid db i" using ids(1) by blast+
      then show ?thesis using i known by auto
    qed
    show ?thesis unfolding identified_def same added units(1) requests(1)
      using moves us qs id ids(2,3) known unfolding identified_def added by auto
  qed
  moreover have "sound_line db' l" if "l \<in> set (db_order_lines db')" for l
    using inv that by (simp add: stock_inv_def sound_line_def same line_ledger_def)
  moreover have "receipt_ledger db' (rl_id r) = rl_quantity r" if "r \<in> set (db_receipt_lines db')" for r
    using inv that ids(1) by (simp add: stock_inv_def same receipt_ledger_def added(1) ledger_none)
  moreover have "units_balanced db'" using inv by (intro displaced_units [OF _ added(1) units(3)]) (simp add: stock_inv_def)
  ultimately show ?thesis using requests(2) by (simp add: stock_inv_def)
qed

lemma movements_nonneg:
  assumes "insert_movements ms db = Inr db'" "stock_nonneg db"
  shows "stock_nonneg db'" "db' = db\<lparr>db_movements := db_movements db @ ms\<rparr>"
  using insert_movements_effect [OF assms(1)] assms(2) by blast+

lemma sound_unchanged:
  assumes "stock_inv uuid db" "db_requests db' = db_requests db" "\<And>i. delivered db' i = delivered db i"
  shows "\<forall>q \<in> set (db_requests db'). sound_request db' q"
  using assms by (auto simp: stock_inv_def sound_request_def)

text \<open>The request of a transfer is completed by what was delivered for it.\<close>

definition fulfils :: "store_db \<Rightarrow> string \<Rightarrow> int \<Rightarrow> store_db \<Rightarrow> bool" where
  "fulfils db i n db' \<longleftrightarrow> (\<exists>q status. db_requests db' = map (\<lambda>x. if sq_id x = i then x\<lparr>sq_issued := sq_issued q + n, sq_status := status\<rparr> else x) (db_requests db)
     \<and> q \<in> set (db_requests db) \<and> sq_id q = i \<and> status \<in> {Fulfilled, Partially_Issued}
     \<and> 0 \<le> sq_issued q + n \<and> sq_issued q + n \<le> sq_requested q
     \<and> (status = Fulfilled \<longrightarrow> sq_issued q + n = sq_requested q))"

lemma complete_fulfils:
  assumes "complete_store_transfer_request row quantity db = Inr db'"
    and q: "tr_request row \<in> set (db_requests db)"
    and amount: "close_to d quantity n" "d \<le> 1 / 4" "0 < n" "n \<le> 10 ^ 14"
    and nonneg: "0 \<le> sq_issued (tr_request row)"
  shows "fulfils db (sq_id (tr_request row)) n db'"
    "\<exists>rs. db' = db\<lparr>db_requests := rs\<rparr>"
proof -
  let ?q = "tr_request row"
  obtain x where x: "quantity = Fin x" "0 \<le> sql_decimal x" "\<bar>sql_decimal x * 1000 - of_int n\<bar> < 1 / 2"
    by (rule sql_decimal_close [OF amount(1,3,4,2)])
  let ?issued = "of_int (sq_issued ?q) + sql_decimal x * 1000"
  have "half_away ?issued = sq_issued ?q + n" by (rule half_away_near) (use x nonneg in \<open>simp_all add: algebra_simps\<close>)
  moreover have "half_away ?issued = sq_requested ?q" if "?issued = of_int (sq_requested ?q)"
  proof -
    have "0 \<le> ?issued" using x(2) nonneg by simp
    then show ?thesis unfolding that by (intro half_away_near) simp_all
  qed
  moreover have upd: "update_request (sq_id ?q) (half_away ?issued) (if ?issued = of_int (sq_requested ?q) then Fulfilled else Partially_Issued) db = Inr db'"
    using assms(1) by (simp add: complete_store_transfer_request_def Let_def x(1) split: if_splits)
  moreover have "0 \<le> half_away ?issued \<and> half_away ?issued \<le> sq_requested ?q"
    using upd q by (auto simp: update_request_def split: if_splits)
  ultimately show "fulfils db (sq_id ?q) n db'"
    using q unfolding fulfils_def update_request_Inr [OF upd]
    by (intro exI [of _ ?q] exI [of _ "if ?issued = of_int (sq_requested ?q) then Fulfilled else Partially_Issued"]) auto
  show "\<exists>rs. db' = db\<lparr>db_requests := rs\<rparr>" using update_request_Inr [OF upd] by blast
qed

lemma fulfils_sound:
  assumes inv: "stock_inv uuid db" and f: "fulfils db i n db'"
    and led: "\<And>j. delivered db' j = delivered db j + (if j = i then n else 0)"
  shows "map sq_id (db_requests db') = map sq_id (db_requests db)" "\<forall>q \<in> set (db_requests db'). sound_request db' q"
proof -
  obtain q status where rs: "db_requests db' = map (\<lambda>x. if sq_id x = i then x\<lparr>sq_issued := sq_issued q + n, sq_status := status\<rparr> else x) (db_requests db)"
    and q: "q \<in> set (db_requests db)" "sq_id q = i" "status \<in> {Fulfilled, Partially_Issued}"
      "0 \<le> sq_issued q + n" "sq_issued q + n \<le> sq_requested q" "status = Fulfilled \<longrightarrow> sq_issued q + n = sq_requested q"
    using f unfolding fulfils_def by blast
  show "map sq_id (db_requests db') = map sq_id (db_requests db)" by (simp add: rs)
  show "\<forall>q \<in> set (db_requests db'). sound_request db' q"
  proof
    fix q' assume "q' \<in> set (db_requests db')"
    then obtain q0 where q0: "q0 \<in> set (db_requests db)"
      and q': "q' = (if sq_id q0 = i then q0\<lparr>sq_issued := sq_issued q + n, sq_status := status\<rparr> else q0)" by (auto simp: rs)
    have s0: "sound_request db q0" using inv q0 by (simp add: stock_inv_def)
    show "sound_request db' q'"
    proof (cases "sq_id q0 = i")
      case True
      have "distinct (map sq_id (db_requests db))" using inv by (simp add: stock_inv_def identified_def)
      then have "q0 = q" using q(1,2) q0 True by (auto intro: distinct_by_key)
      then show ?thesis using s0 led [of i] True q
        by (auto simp: q' sound_request_def request_in_bounds_def)
    next
      case False
      then show ?thesis using s0 led [of "sq_id q0"] by (simp add: q' sound_request_def)
    qed
  qed
qed


subsection \<open>The effect of a transfer of quantities\<close>

lemma debit_movements_cong:
  assumes "db_locations db' = db_locations db" "db_movements db' = db_movements db"
  shows "debit_movements env identity item type operation n source to_store db' = debit_movements env identity item type operation n source to_store db"
    "store_stock db' item s = store_stock db item s"
  using assms by (simp_all add: debit_movements_def available_locations_def store_stock_def stock_locations_def balance_cong [OF assms(2)])

definition quantity_moved ::
    "store_env \<Rightarrow> move_identity \<Rightarrow> transfer_input \<Rightarrow> int \<Rightarrow> store_db \<Rightarrow> string \<Rightarrow> store_db \<Rightarrow> bool" where
  "quantity_moved env identity input n db operation db' \<longleftrightarrow> (\<exists>source destination place x rs k.
     find_store db (ti_source input) = Inr source \<and> find_store db (ti_destination input) = Inr destination
     \<and> sa_id source \<noteq> sa_id destination \<and> md_request identity \<noteq> Some []
     \<and> place \<in> set (db_locations db) \<and> storage_candidate db (sa_id destination) place
     \<and> n \<le> store_stock db (ti_item input) (sa_id source)
     \<and> op_type x = Stock_Transfer \<and> op_request x = md_request identity \<and> op_quantity x = n \<and> op_item x = ti_item input
     \<and> op_source x = sa_id source \<and> op_destination x = Some (sa_id destination)
     \<and> db' = db\<lparr>db_generated := Suc (db_generated db), db_operations := db_operations db @ [x],
          db_movements := db_movements db @ debit_movements env identity (ti_item input) Move_Out operation n source (Some destination) db
            @ [quantity_movement env identity (ti_item input) source (Some (sl_code place, sl_name place)) Move_In operation (sl_id place) n],
          db_requests := rs, db_refreshes := k\<rparr>
     \<and> (case given_request identity of None \<Rightarrow> rs = db_requests db | Some i \<Rightarrow> fulfils db i n db'))"

lemma quantity_movedE:
  assumes "quantity_moved env identity input n db operation db'"
  obtains source destination place x rs k where
    "find_store db (ti_source input) = Inr source" "find_store db (ti_destination input) = Inr destination"
    "sa_id source \<noteq> sa_id destination" "md_request identity \<noteq> Some []"
    "place \<in> set (db_locations db)" "storage_candidate db (sa_id destination) place"
    "n \<le> store_stock db (ti_item input) (sa_id source)"
    "op_type x = Stock_Transfer" "op_request x = md_request identity" "op_quantity x = n" "op_item x = ti_item input"
    "op_source x = sa_id source" "op_destination x = Some (sa_id destination)"
    "db' = db\<lparr>db_generated := Suc (db_generated db), db_operations := db_operations db @ [x],
          db_movements := db_movements db @ debit_movements env identity (ti_item input) Move_Out operation n source (Some destination) db
            @ [quantity_movement env identity (ti_item input) source (Some (sl_code place, sl_name place)) Move_In operation (sl_id place) n],
          db_requests := rs, db_refreshes := k\<rparr>"
    "case given_request identity of None \<Rightarrow> rs = db_requests db | Some i \<Rightarrow> fulfils db i n db'"
  using assms unfolding quantity_moved_def by (elim exE conjE) (rule that)

lemma resolve_candidate:
  assumes "resolve_storage_location db item store location = Inr place"
  shows "place \<in> set (db_locations db) \<and> storage_candidate db store place"
proof -
  have "set (storage_order db item store ls) = set ls" for ls by (simp add: storage_order_def)
  then have "set (case location of None \<Rightarrow> storage_order db item store (filter (storage_candidate db store) (db_locations db))
      | Some l \<Rightarrow> if l = [] then storage_order db item store (filter (storage_candidate db store) (db_locations db))
                else filter (\<lambda>loc. sl_id loc = l) (filter (storage_candidate db store) (db_locations db)))
     \<subseteq> set (filter (storage_candidate db store) (db_locations db))"
    by (auto split: option.splits if_splits)
  then show ?thesis using assms by (auto simp: resolve_storage_location_def Let_def split: list.splits)
qed

lemma transfer_request_row:
  assumes "store_transfer_request db identity code = Inr (Some row)"
  shows "tr_request row \<in> set (db_requests db)" "given_request identity = Some (sq_id (tr_request row))"
    "md_request identity = Some (sq_id (tr_request row))" "sq_status (tr_request row) \<in> {Request_Pending, Partially_Issued}"
  using assms by (auto simp: store_transfer_request_def transfer_row_of_def given_request_def find_Some_iff
    split: option.splits if_splits)

lemma transfer_request_none: "store_transfer_request db identity code = Inr None \<Longrightarrow> given_request identity = None"
  by (auto simp: store_transfer_request_def split: option.splits if_splits)

lemma whole_amount_close:
  assumes "whole_quantity v" "positive_three_decimals v = Inr quantity"
  obtains n where "v = numeric_number n" "quantity = v" "0 < n" "n \<le> 10 ^ 14" "close_to (1 / 50) quantity n"
proof -
  obtain n where n: "\<bar>n\<bar> \<le> 10 ^ 14" "v = numeric_number n" using assms(1) by (auto simp: whole_quantity_def)
  have q: "quantity = v" "num_lt (Fin 0) v" using assms(2)
    by (cases v; auto simp: positive_three_decimals_def Let_def split: if_splits)+
  have close: "close_to (1 / 50) v n" using close_numeric_number [OF n(1)] n(2) by simp
  have "0 \<le> n" by (rule close_to_positive [OF close _ q(2)]) simp
  moreover have "n \<noteq> 0" using q(2) n(2) by (auto simp: numeric_number_def)
  ultimately show thesis using n q close by (intro that [of n]) simp_all
qed

lemma insert_operation_effect:
  assumes "insert_operation env identity type item source destination quantity on_day db = Inr (i, db1)"
    "close_to d quantity n" "d \<le> 1 / 4" "0 < n" "n \<le> 10 ^ 14"
  obtains x where "db1 = db\<lparr>db_generated := Suc (db_generated db), db_operations := db_operations db @ [x]\<rparr>"
    "op_type x = type" "op_request x = md_request identity" "op_quantity x = n" "op_item x = item" "op_source x = source"
    "op_destination x = destination" "i = ev_uuid env (db_generated db)" "md_request identity \<noteq> Some []"
proof -
  have n: "numeric_param quantity = Inr n" using numeric_column_close [OF assms(2,4,5,3)] by (simp add: numeric_param_def)
  show thesis using assms(1) unfolding insert_operation_def n generate_id_def
    by (auto simp: bind_result_Inr_iff split: if_splits option.splits intro!: that)
qed

lemma debited:
  assumes wf: "issue_wf db" and whole: "whole_quantity v" "positive_three_decimals v = Inr quantity"
    and ins: "insert_operation env identity type item (sa_id source) destination quantity on_day db = Inr (operation, db1)"
    and deb: "write_debits env identity item move operation quantity source to_store db1 = Inr db2"
  obtains n x where "v = numeric_number n" "0 < n" "n \<le> 10 ^ 14" "close_to (1 / 50) quantity n" "numeric_param quantity = Inr n"
    "op_type x = type" "op_request x = md_request identity" "op_quantity x = n" "op_item x = item" "op_source x = sa_id source"
    "op_destination x = destination" "md_request identity \<noteq> Some []" "n \<le> store_stock db item (sa_id source)" "stock_nonneg db2"
    "db2 = db\<lparr>db_generated := Suc (db_generated db), db_operations := db_operations db @ [x],
       db_movements := db_movements db @ debit_movements env identity item move operation n source to_store db\<rparr>"
proof -
  obtain n where n: "v = numeric_number n" "quantity = v" "0 < n" "n \<le> 10 ^ 14" "close_to (1 / 50) quantity n"
    by (rule whole_amount_close [OF whole])
  have param: "numeric_param quantity = Inr n" using numeric_column_close [OF n(5,3,4)] by (simp add: numeric_param_def)
  have q: "(1 / 50 :: rat) \<le> 1 / 4" by simp
  obtain x where db1: "db1 = db\<lparr>db_generated := Suc (db_generated db), db_operations := db_operations db @ [x]\<rparr>"
    and x: "op_type x = type" "op_request x = md_request identity" "op_quantity x = n" "op_item x = item" "op_source x = sa_id source"
    "op_destination x = destination" "md_request identity \<noteq> Some []"
    by (rule insert_operation_effect [OF ins n(5) q n(3,4)])
  have same: "db_locations db1 = db_locations db" "db_movements db1 = db_movements db" by (simp_all add: db1)
  have wf1: "distinct (map sl_id (db_locations db1))" "stock_nonneg db1"
    using wf nonneg_cong [OF same(2)] by (simp_all add: issue_wf_def same)
  note cong = debit_movements_cong [OF same]
  have "n \<le> store_stock db item (sa_id source)"
    and db2: "db2 = db1\<lparr>db_movements := db_movements db1 @ debit_movements env identity item move operation n source to_store db\<rparr>"
    using deb write_debits_exact [OF n(5) _ n(3,4) wf1] by (simp_all add: cong split: if_splits)
  moreover have "stock_nonneg db2" using deb wf1(2) unfolding write_debits_def Let_def
    by (auto simp: bind_result_Inr_iff split: if_splits dest: movements_nonneg)
  ultimately show thesis using n param x by (intro that [of n x]) (simp_all add: db1)
qed

lemma insert_gain:
  assumes "insert_movement m db = Inr db'" "stock_nonneg db"
  shows "db' = db\<lparr>db_movements := db_movements db @ [m]\<rparr>" "stock_nonneg db'"
  using insert_movement_effect [OF assms(1)] assms(2) by blast+

lemma transfer_quantity_effect:
  assumes wf: "issue_wf db" and bounds: "\<forall>q \<in> set (db_requests db). request_in_bounds q" and whole: "whole_quantity (ti_quantity input)"
  shows "satisfies (transfer_quantity env identity input db)
    (\<lambda>(operation, db'). \<exists>n. ti_quantity input = numeric_number n \<and> 0 < n \<and> n \<le> 10 ^ 14 \<and> stock_nonneg db'
       \<and> quantity_moved env identity input n db operation db')"
  unfolding transfer_quantity_def
proof (intro js_sat, goal_cases)
  case prems: (1 quantity request source destination it place _ operation db1 db2 n' db3)
  obtain n x where n: "ti_quantity input = numeric_number n" "0 < n" "n \<le> 10 ^ 14" "numeric_param quantity = Inr n"
    and x: "op_type x = Stock_Transfer" "op_request x = md_request identity" "op_quantity x = n" "op_item x = ti_item input"
      "op_source x = sa_id source" "op_destination x = Some (sa_id destination)" "md_request identity \<noteq> Some []"
    and stock: "n \<le> store_stock db (ti_item input) (sa_id source)" "stock_nonneg db2"
    and db2: "db2 = db\<lparr>db_generated := Suc (db_generated db), db_operations := db_operations db @ [x],
       db_movements := db_movements db @ debit_movements env identity (ti_item input) Move_Out operation n source (Some destination) db\<rparr>"
    by (rule debited [OF wf whole prems(1) prems(11) [unfolded prems(12)] prems(13)])
  have "n' = n" using prems(14) n(4) by simp
  note gain = insert_gain [OF prems(15) stock(2), unfolded this]
  have "given_request identity = None" using prems(2,16) by (simp add: transfer_request_none)
  then have "quantity_moved env identity input n db operation db3"
    unfolding quantity_moved_def
    using prems(5-7) resolve_candidate [OF prems(10)] stock(1) x
    by (intro exI [of _ source] exI [of _ destination] exI [of _ place] exI [of _ x] exI [of _ "db_requests db"] exI [of _ "db_refreshes db"])
      (simp add: gain(1) db2)
  then show ?case using n gain(2) by auto
next
  case prems: (2 quantity request source destination it place _ operation db1 db2 n' db3 row db4)
  obtain n x where n: "ti_quantity input = numeric_number n" "0 < n" "n \<le> 10 ^ 14" "numeric_param quantity = Inr n" "close_to (1 / 50) quantity n"
    and x: "op_type x = Stock_Transfer" "op_request x = md_request identity" "op_quantity x = n" "op_item x = ti_item input"
      "op_source x = sa_id source" "op_destination x = Some (sa_id destination)" "md_request identity \<noteq> Some []"
    and stock: "n \<le> store_stock db (ti_item input) (sa_id source)" "stock_nonneg db2"
    and db2: "db2 = db\<lparr>db_generated := Suc (db_generated db), db_operations := db_operations db @ [x],
       db_movements := db_movements db @ debit_movements env identity (ti_item input) Move_Out operation n source (Some destination) db\<rparr>"
    by (rule debited [OF wf whole prems(1) prems(11) [unfolded prems(12)] prems(13)])
  have "n' = n" using prems(14) n(4) by simp
  note gain = insert_gain [OF prems(15) stock(2), unfolded this]
  have request: "request = Some row" using prems by blast
  note row = transfer_request_row [OF prems(2) [unfolded request]]
  have "complete_store_transfer_request row quantity db3 = Inr db4" using prems by blast
  moreover have "tr_request row \<in> set (db_requests db3)" using row(1) by (simp add: gain(1) db2)
  moreover have "0 \<le> sq_issued (tr_request row)" using bounds row(1) by (simp add: request_in_bounds_def)
  ultimately have f: "fulfils db3 (sq_id (tr_request row)) n db4" and rs: "\<exists>rs. db4 = db3\<lparr>db_requests := rs\<rparr>"
    using complete_fulfils [of row quantity db3 db4 "1 / 50" n] n by auto
  then obtain rs where rs: "db4 = db3\<lparr>db_requests := rs\<rparr>" by blast
  have "fulfils db (sq_id (tr_request row)) n (queue_store_refresh db4)"
    using f by (simp add: fulfils_def queue_store_refresh_def gain(1) db2)
  then have "quantity_moved env identity input n db operation (queue_store_refresh db4)"
    unfolding quantity_moved_def
    using prems(5-7) resolve_candidate [OF prems(10)] stock(1) x row(2)
    by (intro exI [of _ source] exI [of _ destination] exI [of _ place] exI [of _ x] exI [of _ rs] exI [of _ "Suc (db_refreshes db)"])
      (simp add: gain(1) db2 rs queue_store_refresh_def)
  moreover have "stock_nonneg (queue_store_refresh db4)"
    using gain(2) nonneg_cong [of "queue_store_refresh db4" db3] by (simp add: rs queue_store_refresh_def)
  ultimately show ?case using n by auto
qed


lemma ledger_uniform:
  assumes "\<And>m. m \<in> set ms \<Longrightarrow> sm_request m = r"
  shows "ledger (\<lambda>m. sm_request m = Some i) ms = (if r = Some i then sum_list (map sm_quantity ms) else 0)"
  using assms by (simp add: ledger_all ledger_none)

lemma given_request_iff: "md_request identity \<noteq> Some [] \<Longrightarrow> given_request identity = md_request identity"
  by (simp add: given_request_def split: option.split)

lemma transfer_quantity_inv:
  assumes inv: "stock_inv uuid db" and whole: "whole_quantity (ti_quantity input)"
    and run: "transfer_quantity env identity input db = Inr (operation, db')"
  shows "stock_inv uuid db'"
proof -
  have wf: "issue_wf db" and id: "identified uuid db" and bounds: "\<forall>q \<in> set (db_requests db). request_in_bounds q"
    using inv by (simp_all add: stock_inv_def sound_request_def)
  from satisfiesD [OF transfer_quantity_effect [OF wf bounds whole] run]
  obtain n where n: "0 < n" and nonneg: "stock_nonneg db'" and moved: "quantity_moved env identity input n db operation db'" by auto
  from moved obtain source destination and place :: store_location and x rs k where
      request: "md_request identity \<noteq> Some []"
    and stock: "n \<le> store_stock db (ti_item input) (sa_id source)"
    and x: "op_type x = Stock_Transfer" "op_request x = md_request identity" "op_quantity x = n"
    and db': "db' = db\<lparr>db_generated := Suc (db_generated db), db_operations := db_operations db @ [x],
          db_movements := db_movements db @ debit_movements env identity (ti_item input) Move_Out operation n source (Some destination) db
            @ [quantity_movement env identity (ti_item input) source (Some (sl_code place, sl_name place)) Move_In operation (sl_id place) n],
          db_requests := rs, db_refreshes := k\<rparr>"
    and rs: "case given_request identity of None \<Rightarrow> rs = db_requests db | Some i \<Rightarrow> fulfils db i n db'"
    by (rule quantity_movedE)
  let ?ms = "debit_movements env identity (ti_item input) Move_Out operation n source (Some destination) db
            @ [quantity_movement env identity (ti_item input) source (Some (sl_code place, sl_name place)) Move_In operation (sl_id place) n]"
  have distinct: "distinct (map sl_id (db_locations db))" using wf by (simp add: issue_wf_def)
  have mem: "sm_receipt_line m = None \<and> sm_unit m = None \<and> sm_request m = md_request identity" if "m \<in> set ?ms" for m
    using that debit_mem [OF _ distinct] by (auto simp: quantity_movement_def)
  have "sum_list (map sm_quantity ?ms) = 0"
    using debit_sum [OF _ n stock] wf by (simp add: issue_wf_def) (simp add: quantity_movement_def)
  then have "ledger (\<lambda>m. sm_request m = Some i) ?ms = 0" for i
    using ledger_uniform [of ?ms "md_request identity" i] mem by presburger
  then have led: "delivered db' i = delivered db i + (if md_request identity = Some i then n else 0)" for i
    using delivered_step [of db' db ?ms "[x]" "[]" i] by (simp add: db' x)
  have requests: "map sq_id (db_requests db') = map sq_id (db_requests db) \<and> (\<forall>q \<in> set (db_requests db'). sound_request db' q)
      \<and> (\<forall>i. md_request identity = Some i \<longrightarrow> known uuid db i)"
  proof (cases "md_request identity")
    case None
    then have "rs = db_requests db" "\<And>i. delivered db' i = delivered db i" using rs led given_request_iff [OF request] by simp_all
    then show ?thesis using sound_unchanged [OF inv, of db'] None by (simp add: db')
  next
    case (Some i)
    then have f: "fulfils db i n db'" using rs given_request_iff [OF request] by simp
    have "delivered db' j = delivered db j + (if j = i then n else 0)" for j using led Some by simp
    from fulfils_sound [OF inv f this] f show ?thesis using id Some by (auto simp: fulfils_def identified_def)
  qed
  show ?thesis
  proof (rule documents_inv [OF inv, of db' ?ms "[x]" "[]"])
    show "\<forall>m \<in> set ?ms. sm_receipt_line m = None \<and> (\<forall>i. sm_unit m = Some i \<or> sm_request m = Some i \<longrightarrow> known uuid db i)"
      using mem requests by (metis option.distinct(1))
    have "displaced ?ms (db_units db) (db_units db)" using mem by (intro displaced_same) blast
    then show "displaced ?ms (db_units db) (db_units db')" by (simp add: db')
  qed (use requests nonneg x in \<open>simp_all add: db'\<close>)
qed

lemma consume_items_inv:
  assumes "consume_items env identity on_day store items db = Inr (operations, db')"
    "stock_inv uuid db" "md_request identity = None" "\<forall>(item, v) \<in> set items. whole_quantity v"
  shows "stock_inv uuid db'"
  using assms
proof (induction items arbitrary: db operations)
  case (Cons y items)
  obtain item v where y: "y = (item, v)" by (cases y)
  from Cons.prems(1) obtain quantity operation db1 db2 rest where
      q: "positive_three_decimals v = Inr quantity"
    and ins: "insert_operation env identity Stock_Consumption item (sa_id store) None quantity (Some on_day) db = Inr (operation, db1)"
    and deb: "write_debits env identity item Move_Issue operation quantity store None db1 = Inr db2"
    and 2: "consume_items env identity on_day store items db2 = Inr (rest, db')"
    by (auto simp: y bind_result_Inr_iff)
  have wf: "issue_wf db" using Cons.prems(2) by (simp add: stock_inv_def)
  have whole: "whole_quantity v" using Cons.prems(4) by (simp add: y)
  obtain n x where n: "0 < n" and x: "op_type x = Stock_Consumption" "op_request x = md_request identity"
    and nonneg: "stock_nonneg db2"
    and db2: "db2 = db\<lparr>db_generated := Suc (db_generated db), db_operations := db_operations db @ [x],
       db_movements := db_movements db @ debit_movements env identity item Move_Issue operation n store None db\<rparr>"
    by (rule debited [OF wf whole q ins deb])
  let ?ms = "debit_movements env identity item Move_Issue operation n store None db"
  have mem: "sm_receipt_line m = None \<and> sm_unit m = None \<and> sm_request m = None" if "m \<in> set ?ms" for m
    using that debit_mem [of m] wf Cons.prems(3) by (simp add: issue_wf_def)
  have led: "delivered db2 i = delivered db i" for i
    using delivered_step [of db2 db ?ms "[x]" "[]" i] mem by (simp add: db2 x ledger_none)
  have "stock_inv uuid db2"
  proof (rule documents_inv [OF Cons.prems(2), of db2 ?ms "[x]" "[]"])
    show "\<forall>q \<in> set (db_requests db2). sound_request db2 q" using Cons.prems(2) led by (intro sound_unchanged) (simp_all add: db2)
    have "displaced ?ms (db_units db) (db_units db)" using mem by (intro displaced_same) blast
    then show "displaced ?ms (db_units db) (db_units db2)" by (simp add: db2)
  qed (use mem nonneg x Cons.prems(3) in \<open>simp_all add: db2\<close>)
  from Cons.IH [OF 2 this Cons.prems(3)] Cons.prems(4) show ?case by simp
qed simp

subsection \<open>Operations on one unit\<close>

lemma unit_movements_nonneg:
  assumes "db_movements db' = db_movements db @ ms" "\<forall>m \<in> set ms. sm_unit m \<noteq> None"
  shows "stock_nonneg db' = stock_nonneg db"
proof -
  have "filter (\<lambda>m. sm_item m = item \<and> sm_location m = l \<and> sm_unit m = None) ms = []" for item l
    using assms(2) by (auto simp: filter_empty_conv)
  then have "consumable_balance db' = consumable_balance db"
    using assms(2) by (auto simp: fun_eq_iff consumable_balance_def consumable_moves_def assms(1) filter_empty_conv)
  then show ?thesis by (simp add: stock_nonneg_def)
qed

lemma unit_changed_displaced:
  assumes ids: "su_id u' = su_id u" and u: "u \<in> set us"
    and ms: "\<forall>m \<in> set ms. sm_type m \<notin> {Move_Receipt, Move_Issue} \<and> sm_unit m = Some (su_id u)"
    and stay: "ms = [] \<Longrightarrow> su_location u' = su_location u"
  shows "displaced ms us (map (\<lambda>x. if su_id x = su_id u then u' else x) us)"
  unfolding displaced_def
proof (intro conjI ballI impI)
  fix v' assume v': "v' \<in> set (map (\<lambda>x. if su_id x = su_id u then u' else x) us)" and only: "only_issued ms (su_id v')"
  then obtain v where v: "v \<in> set us" "v' = (if su_id v = su_id u then u' else v)" by auto
  show "\<exists>u \<in> set us. su_id u = su_id v' \<and> (su_location u = None \<longleftrightarrow> su_location v' = None)"
  proof (cases "su_id v = su_id u")
    case True
    then have "\<forall>m \<in> set ms. False" using only ms v(2) by (auto simp: only_issued_def ids)
    then have "ms = []" by (cases ms) auto
    then show ?thesis using stay u v(2) True by (intro bexI [of _ u]) (simp_all add: ids)
  qed (use v in auto)
qed (use ms in auto)

lemma asset_inv:
  assumes inv: "stock_inv uuid db" and u: "u \<in> set (db_units db)" "su_id u' = su_id u" "su_code u' = su_code u"
    and same: "db_locations db' = db_locations db" "db_order_lines db' = db_order_lines db" "db_receipt_lines db' = db_receipt_lines db"
      "db_generated db' = db_generated db" "db_operations db' = db_operations db"
    and units: "db_units db' = map (\<lambda>x. if su_id x = su_id u then u' else x) (db_units db)"
    and added: "db_movements db' = db_movements db @ ms" "db_handovers db' = db_handovers db @ hs"
    and ms: "\<forall>m \<in> set ms. sm_unit m = Some (su_id u) \<and> sm_receipt_line m = None \<and> sm_type m \<notin> {Move_Receipt, Move_Issue}"
      "ms = [] \<Longrightarrow> su_location u' = su_location u"
    and known: "\<forall>m \<in> set ms. \<forall>i. sm_request m = Some i \<longrightarrow> known uuid db i" "\<forall>h \<in> set hs. \<forall>i. ho_request h = Some i \<longrightarrow> known uuid db i"
    and requests: "map sq_id (db_requests db') = map sq_id (db_requests db)" "\<forall>q \<in> set (db_requests db'). sound_request db' q"
  shows "stock_inv uuid db'"
proof (rule documents_inv [OF inv same(1-3) _ _ _ _ added(1) _ added(2), of "[]"])
  have distinct: "distinct (map su_id (db_units db))" using inv by (simp add: stock_inv_def identified_def)
  have own: "x = u" if "x \<in> set (db_units db)" "su_id x = su_id u" for x
    by (rule distinct_by_key [OF distinct that(1) u(1) that(2)])
  show "map su_id (db_units db') = map su_id (db_units db)" by (simp add: units u(2))
  show "map (to_lower \<circ> su_code) (db_units db') = map (to_lower \<circ> su_code) (db_units db)"
    using own by (auto simp: units u(3))
  show "displaced ms (db_units db) (db_units db')" unfolding units
    by (rule unit_changed_displaced [OF u(2,1) _ ms(2)]) (use ms(1) in auto)
  have "known uuid db (su_id u)" using inv u(1) by (simp add: stock_inv_def identified_def)
  then show "\<forall>m \<in> set ms. sm_receipt_line m = None \<and> (\<forall>i. sm_unit m = Some i \<or> sm_request m = Some i \<longrightarrow> known uuid db i)"
    using ms(1) known(1) by auto
  show "stock_nonneg db'" using unit_movements_nonneg [OF added(1)] ms(1) inv by (simp add: stock_inv_def issue_wf_def)
qed (use same requests known in simp_all)

lemma unit_with_code_member: "unit_with_code db code = Some u \<Longrightarrow> u \<in> set (db_units db)"
  by (auto simp: unit_with_code_def find_Some_iff)

lemma remember_place_same [simp]:
  "db_movements (remember_place b u now db) = db_movements db" "db_units (remember_place b u now db) = db_units db"
  "db_requests (remember_place b u now db) = db_requests db" "db_locations (remember_place b u now db) = db_locations db"
  "db_order_lines (remember_place b u now db) = db_order_lines db" "db_receipt_lines (remember_place b u now db) = db_receipt_lines db"
  "db_generated (remember_place b u now db) = db_generated db" "db_operations (remember_place b u now db) = db_operations db"
  "db_handovers (remember_place b u now db) = db_handovers db"
  by (subst remember_place_effect, simp)+

lemma save_storage_same:
  "\<exists>ps. save_asset_storage_location i store place now db = db\<lparr>db_places := ps\<rparr>"
  unfolding save_asset_storage_location_def by (cases db) (auto split: option.splits)

lemma insert_unit_movements:
  "\<forall>m \<in> set ms. sm_unit m \<noteq> None \<Longrightarrow> insert_movements ms db = Inr db' \<Longrightarrow> db' = db\<lparr>db_movements := db_movements db @ ms\<rparr>"
  using insert_movements_effect by blast

lemma placed_inv:
  assumes inv: "stock_inv uuid db" and u: "u \<in> set (db_units db)" "su_id u' = su_id u" "su_code u' = su_code u"
    and m: "sm_unit m = Some (su_id u)" "sm_receipt_line m = None" "sm_request m = None" "sm_type m \<notin> {Move_Receipt, Move_Issue}"
    and run: "insert_movement m (update_unit u' db\<lparr>db_places := ps\<rparr>) = Inr db'"
  shows "stock_inv uuid db'"
proof -
  have db': "db' = update_unit u' db\<lparr>db_places := ps, db_movements := db_movements db @ [m]\<rparr>"
    using insert_movement_effect [OF run] by (simp add: update_unit_def)
  have led: "delivered db' i = delivered db i" for i
    using delivered_step [of db' db "[m]" "[]" "[]" i] m(3) by (simp add: db' update_unit_def ledger_none)
  show ?thesis
  proof (rule asset_inv [OF inv u, of db' "[m]" "[]"])
    show "\<forall>q \<in> set (db_requests db'). sound_request db' q"
      using inv led by (intro sound_unchanged) (simp_all add: db' update_unit_def)
  qed (use m in \<open>simp_all add: db' update_unit_def u\<close>)
qed

lemma placed_somewhere:
  "\<exists>ps. remember_place b u' now (update_unit u' db) = update_unit u' db\<lparr>db_places := ps\<rparr>"
  by (metis remember_place_effect)

lemma saved_place:
  "\<exists>ps. (case p of None \<Rightarrow> db | Some l \<Rightarrow> if b then save_asset_storage_location i s l now db else db) = db\<lparr>db_places := ps\<rparr>"
proof (cases "p = None \<or> \<not> b")
  case True
  then have "(case p of None \<Rightarrow> db | Some l \<Rightarrow> if b then save_asset_storage_location i s l now db else db) = db" by (cases p) auto
  then show ?thesis by (intro exI [of _ "db_places db"]) simp
qed (use save_storage_same in auto)

lemma move_owned_asset_inv:
  assumes inv: "stock_inv uuid db"
  shows "satisfies (move_owned_asset env identity with_set store input db) (\<lambda>(i, db'). stock_inv uuid db')"
  unfolding move_owned_asset_def Let_def
proof (intro js_sat, goal_cases)
  case prems: (1 code u place db3 _)
  let ?u = "moved_unit (mi_type input) place u"
  obtain ps where ps: "remember_place (Some u) ?u (ev_now env) (update_unit ?u db) = update_unit ?u db\<lparr>db_places := ps\<rparr>"
    using placed_somewhere by blast
  let ?db1 = "update_unit ?u db\<lparr>db_places := ps\<rparr>"
  obtain ps' where ps': "(case mv_location place of None \<Rightarrow> ?db1
    | Some l \<Rightarrow> if mi_type input = Held_Store then save_asset_storage_location (su_id u) (sa_id store) l (ev_now env) ?db1 else ?db1)
    = ?db1\<lparr>db_places := ps'\<rparr>" using saved_place by blast
  have u: "u \<in> set (db_units db)" using prems by (auto intro: unit_with_code_member)
  have "insert_movement (move_movement env identity store (mi_type input) place u) (?db1\<lparr>db_places := ps'\<rparr>) = Inr db3"
    unfolding ps' [symmetric] unfolding ps [symmetric] by (rule prems)
  then have "insert_movement (move_movement env identity store (mi_type input) place u) (update_unit ?u db\<lparr>db_places := ps'\<rparr>) = Inr db3"
    by simp
  from placed_inv [OF inv u _ _ _ _ _ _ this] show ?case
    by (simp add: moved_unit_def move_movement_def)
qed

lemma loss_inv:
  assumes inv: "stock_inv uuid db"
  shows "satisfies (record_asset_loss_in_transaction env identity input db) (\<lambda>(code, db'). stock_inv uuid db')"
  unfolding record_asset_loss_in_transaction_def Let_def
proof (intro js_sat, goal_cases)
  case prems: (1 code remark _ u _ a _ place it db1 _)
  let ?u = "u\<lparr>su_status := Unit_Lost, su_machine := None\<rparr>"
  have u: "u \<in> set (db_units db)" using prems
    by (auto simp: loss_row_def intro: unit_with_code_member split: option.splits if_splits)
  have "update_unit ?u db = update_unit ?u db\<lparr>db_places := db_places db\<rparr>" by (simp add: update_unit_def)
  then have "insert_movement (loss_movement env identity remark place u) (update_unit ?u db\<lparr>db_places := db_places db\<rparr>) = Inr db1"
    using prems by simp
  from placed_inv [OF inv u _ _ _ _ _ _ this] show ?case by (simp add: loss_movement_def)
qed

lemma assign_inv:
  assumes inv: "stock_inv uuid db"
  shows "satisfies (assign_asset_storage_location env code location store db) (\<lambda>(i, db'). stock_inv uuid db')"
proof -
  have "stock_inv uuid (save_asset_storage_location i s l now db)" for i s l now
  proof -
    obtain ps where "save_asset_storage_location i s l now db = db\<lparr>db_places := ps\<rparr>" using save_storage_same by blast
    then show ?thesis by (intro stock_inv_cong [OF inv]) simp_all
  qed
  then show ?thesis unfolding assign_asset_storage_location_def by (intro js_sat) auto
qed

definition handed_over :: "move_identity \<Rightarrow> store_unit \<Rightarrow> store_db \<Rightarrow> store_unit \<Rightarrow> stock_movement list \<Rightarrow> store_db \<Rightarrow> bool" where
  "handed_over identity u db u' ms db' \<longleftrightarrow> su_id u' = su_id u \<and> su_code u' = su_code u
     \<and> (\<exists>ps. db' = update_unit u' db\<lparr>db_places := ps, db_movements := db_movements db @ ms\<rparr>)
     \<and> (\<forall>m \<in> set ms. sm_unit m = Some (su_id u) \<and> sm_receipt_line m = None \<and> sm_type m \<in> {Move_In, Move_Out}
          \<and> sm_request m = md_request identity)
     \<and> sum_list (map sm_quantity ms) = 0 \<and> (ms = [] \<longrightarrow> su_location u' = su_location u)"

lemma hand_over_effect:
  "satisfies (hand_over env identity chosen source destination u db) (\<lambda>db'. \<exists>u' ms. handed_over identity u db u' ms db')"
  unfolding hand_over_def Let_def
proof (intro js_sat, goal_cases)
  case 1
  have "handed_over identity u db (u\<lparr>su_store := sa_id destination\<rparr>) [] (update_unit (u\<lparr>su_store := sa_id destination\<rparr>) db)"
    unfolding handed_over_def by (intro conjI exI [of _ "db_places db"]) (simp_all add: update_unit_def)
  then show ?case by blast
next
  case prems: (2 place)
  let ?u = "u\<lparr>su_store := sa_id destination, su_location := Some (sl_id place), su_holder_reference := Some (sl_code place),
      su_holder_name := Some (sl_name place)\<rparr>"
  obtain ps where ps: "remember_place (Some u) ?u (ev_now env) (update_unit ?u db) = update_unit ?u db\<lparr>db_places := ps\<rparr>"
    using placed_somewhere by blast
  show ?case
  proof (rule satisfiesI)
    fix db'
    let ?left = "case su_location u of None \<Rightarrow> case sa_default source of None \<Rightarrow> [] | Some l \<Rightarrow> l | Some l \<Rightarrow> l"
    let ?ms = "[handover_movement env identity u place Move_Out ?left (- 1000), handover_movement env identity u place Move_In (sl_id place) 1000]"
    assume "insert_movements ?ms (remember_place (Some u) ?u (ev_now env) (update_unit ?u db)) = Inr db'"
    from insert_movements_effect [OF this [unfolded ps], THEN conjunct1]
    have "db' = update_unit ?u db\<lparr>db_places := ps, db_movements := db_movements db @ ?ms\<rparr>" by (simp add: update_unit_def)
    then have "handed_over identity u db ?u ?ms db'"
      unfolding handed_over_def by (intro conjI exI [of _ ps]) (simp_all add: handover_movement_def)
    then show "\<exists>u' ms. handed_over identity u db u' ms db'" by blast
  qed
qed

lemma one_unit: "close_to (1 / 50) (Fin 1) 1000"
proof -
  have "numeric_number 1000 = Fin 1" by code_simp
  then show ?thesis using close_numeric_number [of 1000] by simp
qed

lemma handover_inv:
  assumes inv: "stock_inv uuid db"
  shows "satisfies (transfer_asset_accountability env identity input db) (\<lambda>(res, db'). stock_inv uuid db')"
  unfolding transfer_asset_accountability_def Let_def
proof (intro js_sat, goal_cases)
  case prems: (1 request code u source destination db1 db2 _ db3)
  let ?db = "queue_store_refresh db3"
  let ?h = "\<lparr>ho_unit = su_id u, ho_source = sa_id source, ho_destination = sa_id destination,
            ho_by = optional_text (md_by identity), ho_remark = optional_text (md_remark identity), ho_request = md_request identity\<rparr>"
  have id: "identified uuid db" using inv by (simp add: stock_inv_def)
  have u: "u \<in> set (db_units db)" and named: "md_request identity \<noteq> Some []"
    using prems by (auto intro: unit_with_code_member)
  have "insert_handover ?h db = Inr db1" by (rule prems)
  then have db1: "db1 = db\<lparr>db_handovers := db_handovers db @ [?h]\<rparr>" by (simp add: insert_handover_def split: if_splits)
  have "hand_over env identity (ac_destination_location input) source destination u db1 = Inr db2" by (rule prems)
  from satisfiesD [OF hand_over_effect this] obtain u' ms ps where u': "su_id u' = su_id u" "su_code u' = su_code u"
    and db2: "db2 = update_unit u' db1\<lparr>db_places := ps, db_movements := db_movements db1 @ ms\<rparr>"
    and ms: "\<forall>m \<in> set ms. sm_unit m = Some (su_id u) \<and> sm_receipt_line m = None \<and> sm_type m \<in> {Move_In, Move_Out}
        \<and> sm_request m = md_request identity" "sum_list (map sm_quantity ms) = 0" "ms = [] \<longrightarrow> su_location u' = su_location u"
    unfolding handed_over_def by blast
  have db2: "db2 = update_unit u' db\<lparr>db_handovers := db_handovers db @ [?h], db_places := ps, db_movements := db_movements db @ ms\<rparr>"
    by (simp add: db2 db1 update_unit_def)
  have completed: "(case request of None \<Rightarrow> return db2 | Some row \<Rightarrow> complete_store_transfer_request row (Fin 1) db2) = Inr db3" by (rule prems)
  have "store_transfer_request db identity (ac_destination input) = Inr request" by (rule prems)
  note asked = this
  obtain rs where db3: "db3 = db2\<lparr>db_requests := rs\<rparr>"
    and rs: "case md_request identity of None \<Rightarrow> rs = db_requests db | Some i \<Rightarrow> fulfils db i 1000 ?db"
  proof (cases request)
    case None
    then have "md_request identity = None" using transfer_request_none [of db identity] asked given_request_iff [OF named] by simp
    moreover have "db2 = db2\<lparr>db_requests := db_requests db\<rparr>" by (simp add: db2 update_unit_def)
    then have "db3 = db2\<lparr>db_requests := db_requests db\<rparr>" using completed None by simp
    ultimately show thesis by (intro that [of "db_requests db"]) simp_all
  next
    case (Some row)
    note row = transfer_request_row [OF asked [unfolded Some]]
    have same: "db_requests db2 = db_requests db" by (simp add: db2 update_unit_def)
    have "0 \<le> sq_issued (tr_request row)"
      using inv row(1) by (simp add: stock_inv_def sound_request_def request_in_bounds_def)
    moreover have "complete_store_transfer_request row (Fin 1) db2 = Inr db3" using completed Some by simp
    ultimately have f: "fulfils db2 (sq_id (tr_request row)) 1000 db3" "\<exists>rs. db3 = db2\<lparr>db_requests := rs\<rparr>"
      using complete_fulfils [of row "Fin 1" db2 db3 "1 / 50" 1000] one_unit row(1) same by auto
    then obtain rs where "db3 = db2\<lparr>db_requests := rs\<rparr>" by blast
    moreover have "fulfils db (sq_id (tr_request row)) 1000 ?db"
      using f(1) by (simp add: fulfils_def queue_store_refresh_def same)
    ultimately show thesis using row(3) by (intro that [of rs]) simp_all
  qed
  have db': "?db = update_unit u' db\<lparr>db_handovers := db_handovers db @ [?h], db_places := ps, db_movements := db_movements db @ ms,
      db_requests := rs, db_refreshes := Suc (db_refreshes db)\<rparr>" by (simp add: db3 db2 queue_store_refresh_def update_unit_def)
  have "ledger (\<lambda>m. sm_request m = Some i) ms = 0" for i
    using ledger_uniform [of ms "md_request identity" i] ms by simp
  then have led: "delivered ?db i = delivered db i + (if md_request identity = Some i then 1000 else 0)" for i
    using delivered_step [of ?db db ms "[]" "[?h]" i] by (simp add: db' update_unit_def)
  have requests: "map sq_id (db_requests ?db) = map sq_id (db_requests db) \<and> (\<forall>q \<in> set (db_requests ?db). sound_request ?db q)
      \<and> (\<forall>i. md_request identity = Some i \<longrightarrow> known uuid db i)"
  proof (cases "md_request identity")
    case None
    then have "rs = db_requests db" "\<And>i. delivered ?db i = delivered db i" using rs led by simp_all
    then show ?thesis using sound_unchanged [OF inv, of ?db] None by (simp add: db')
  next
    case (Some i)
    then have f: "fulfils db i 1000 ?db" using rs by simp
    have "delivered ?db j = delivered db j + (if j = i then 1000 else 0)" for j using led Some by simp
    from fulfils_sound [OF inv f this] f show ?thesis using id Some by (auto simp: fulfils_def identified_def)
  qed
  have "stock_inv uuid ?db"
  proof (rule asset_inv [OF inv u u', of ?db ms "[?h]"])
    show "\<forall>m \<in> set ms. sm_unit m = Some (su_id u) \<and> sm_receipt_line m = None \<and> sm_type m \<notin> {Move_Receipt, Move_Issue}"
      using ms(1) by auto
    show "\<forall>m \<in> set ms. \<forall>i. sm_request m = Some i \<longrightarrow> known uuid db i" using ms(1) requests by metis
  qed (use requests ms(3) u'(1) in \<open>simp_all add: db' update_unit_def\<close>)
  then show ?case by simp
qed

lemma transfer_items_inv:
  assumes "transfer_items env identity place source destination items db = Inr db'" "stock_inv uuid db"
    "\<forall>item \<in> set items. case item of Stock_Unit code \<Rightarrow> True | Stock_Quantity i q \<Rightarrow> whole_quantity q"
  shows "stock_inv uuid db'"
  using assms
proof (induction items arbitrary: db)
  case (Cons item items)
  from Cons.prems(1) obtain db1 where 1: "(case item of
         Stock_Unit code \<Rightarrow> map_sum id snd (transfer_asset_accountability env identity
           \<lparr>ac_unit = code, ac_destination_location = place, ac_destination = destination, ac_source = source\<rparr> db)
       | Stock_Quantity i q \<Rightarrow> map_sum id snd (transfer_quantity env identity
           \<lparr>ti_destination_location = place, ti_destination = destination, ti_item = i, ti_quantity = q, ti_source = source\<rparr> db)) = Inr db1"
    and 2: "transfer_items env identity place source destination items db1 = Inr db'" by (auto simp: bind_result_Inr_iff)
  have "stock_inv uuid db1"
  proof (cases item)
    case (Stock_Unit code)
    then show ?thesis using 1 satisfiesD [OF handover_inv [OF Cons.prems(2)]]
      by (force simp: map_sum_def split: sum.splits)
  next
    case (Stock_Quantity i q)
    then obtain operation where "transfer_quantity env identity
           \<lparr>ti_destination_location = place, ti_destination = destination, ti_item = i, ti_quantity = q, ti_source = source\<rparr> db = Inr (operation, db1)"
      using 1 by (auto simp: map_sum_def split: sum.splits)
    then show ?thesis by (rule transfer_quantity_inv [OF Cons.prems(2), rotated]) (use Cons.prems(3) Stock_Quantity in simp)
  qed
  from Cons.IH [OF 2 this] Cons.prems(3) show ?case by simp
qed simp

subsection \<open>The operations\<close>

text \<open>The operations that users call, each with the time and dates of its call; the identifiers come from one
  sequence. The quantities that are entered have at most three decimals, and a consumption names no request.\<close>

datatype store_operation =
    Receive_Stock store_env receipt_input receipt_line_input
  | Receive_Remaining store_env receipt_input string "string list" "string \<Rightarrow> string option"
  | Request_Batch store_env request_input
  | Issue store_env issue_input
  | Issue_Remaining store_env "string option" "(string \<times> string list option) list"
  | Cancel string
  | Transfer store_env move_identity transfer_input
  | Consume store_env move_identity consumption_input
  | Hand_Over store_env move_identity accountability_input
  | Transfer_Items store_env move_identity responsibility_input
  | Move store_env move_identity move_input
  | Lose store_env move_identity loss_input
  | Assign_Rack store_env string string string

fun run_operation :: "(nat \<Rightarrow> string) \<Rightarrow> store_operation \<Rightarrow> store_db \<Rightarrow> store_db js_result" where
  "run_operation uuid (Receive_Stock env input line) db =
     map_sum id snd (receive_stock (env\<lparr>ev_uuid := uuid\<rparr>) input line db)"
| "run_operation uuid (Receive_Remaining env input order ids places) db =
     map_sum id snd (receive_remaining_stock_batch (env\<lparr>ev_uuid := uuid\<rparr>) input order ids places db)"
| "run_operation uuid (Request_Batch env input) db =
     map_sum id snd (create_requisition_batch (env\<lparr>ev_uuid := uuid\<rparr>) input db)"
| "run_operation uuid (Issue env input) db =
     map_sum id snd (issue_requisition (env\<lparr>ev_uuid := uuid\<rparr>) input db)"
| "run_operation uuid (Issue_Remaining env by lines) db =
     map_sum id (snd \<circ> snd) (issue_remaining_requisition_batch (env\<lparr>ev_uuid := uuid\<rparr>) by lines db)"
| "run_operation uuid (Cancel request) db = map_sum id snd (cancel_requisition request db)"
| "run_operation uuid (Transfer env identity input) db =
     map_sum id snd (transfer_quantity (env\<lparr>ev_uuid := uuid\<rparr>) identity input db)"
| "run_operation uuid (Consume env identity input) db =
     map_sum id snd (consume_quantities (env\<lparr>ev_uuid := uuid\<rparr>) identity input db)"
| "run_operation uuid (Hand_Over env identity input) db =
     map_sum id snd (transfer_asset_accountability (env\<lparr>ev_uuid := uuid\<rparr>) identity input db)"
| "run_operation uuid (Transfer_Items env identity input) db =
     map_sum id snd (transfer_stock_responsibility (env\<lparr>ev_uuid := uuid\<rparr>) identity input db)"
| "run_operation uuid (Move env identity input) db = map_sum id snd (move_asset (env\<lparr>ev_uuid := uuid\<rparr>) identity input db)"
| "run_operation uuid (Lose env identity input) db = map_sum id snd (record_asset_loss (env\<lparr>ev_uuid := uuid\<rparr>) identity input db)"
| "run_operation uuid (Assign_Rack env code place store) db =
     map_sum id snd (assign_asset_storage_location (env\<lparr>ev_uuid := uuid\<rparr>) code place store db)"

fun whole_operation :: "store_operation \<Rightarrow> bool" where
  "whole_operation (Request_Batch env input) \<longleftrightarrow> (\<forall>item \<in> set (rb_items input). whole_quantity (rt_quantity item))"
| "whole_operation (Issue env input) \<longleftrightarrow> (case is_quantity input of Remaining \<Rightarrow> True | Quantity v \<Rightarrow> whole_quantity v)"
| "whole_operation (Transfer env identity input) \<longleftrightarrow> whole_quantity (ti_quantity input)"
| "whole_operation (Consume env identity input) \<longleftrightarrow>
     md_request identity = None \<and> (\<forall>(item, v) \<in> set (ci_items input). whole_quantity v)"
| "whole_operation (Transfer_Items env identity input) \<longleftrightarrow>
     (\<forall>item \<in> set (re_items input). case item of Stock_Unit code \<Rightarrow> True | Stock_Quantity i q \<Rightarrow> whole_quantity q)"
| "whole_operation _ \<longleftrightarrow> True"

inductive store_reachable :: "(nat \<Rightarrow> string) \<Rightarrow> store_db \<Rightarrow> store_db \<Rightarrow> bool" for uuid db where
  Start: "store_reachable uuid db db"
| Operation: "store_reachable uuid db s \<Longrightarrow> whole_operation op \<Longrightarrow> run_operation uuid op s = Inr s' \<Longrightarrow>
    store_reachable uuid db s'"

text \<open>Each operation keeps the invariant.\<close>

lemma operation_result:
  "satisfies r (\<lambda>(x, db'). P db') \<Longrightarrow> map_sum id snd r = Inr db' \<Longrightarrow> P db'"
  by (auto simp: satisfies_def map_sum_def split: sum.splits)

lemma issue_operation_inv:
  assumes inv: "stock_inv uuid db"
  shows "case is_quantity input of Remaining \<Rightarrow> True | Quantity v \<Rightarrow> whole_quantity v \<Longrightarrow>
      satisfies (issue_requisition env input db) (\<lambda>(res, db'). stock_inv uuid db')"
    "satisfies (issue_remaining_requisition_batch env who lines db) (\<lambda>(res, department, db'). stock_inv uuid db')"
proof -
  assume whole: "case is_quantity input of Remaining \<Rightarrow> True | Quantity v \<Rightarrow> whole_quantity v"
  show "satisfies (issue_requisition env input db) (\<lambda>(res, db'). stock_inv uuid db')"
    unfolding issue_requisition_def by (intro js_sat) (auto intro: queue_refresh_inv issue_inv [OF inv _ whole])
next
  show "satisfies (issue_remaining_requisition_batch env who lines db) (\<lambda>(res, department, db'). stock_inv uuid db')"
    unfolding issue_remaining_requisition_batch_def Let_def
    by (intro js_sat) (auto intro!: queue_refresh_inv issue_each_inv [OF _ inv])
qed

lemma transfer_operation_inv:
  assumes inv: "stock_inv uuid db"
  shows "whole_quantity (ti_quantity transfer) \<Longrightarrow>
      satisfies (transfer_quantity env identity transfer db) (\<lambda>(i, db'). stock_inv uuid db')"
    "md_request identity = None \<Longrightarrow> \<forall>(item, v) \<in> set (ci_items consumption). whole_quantity v \<Longrightarrow>
      satisfies (consume_quantities env identity consumption db) (\<lambda>(ids, db'). stock_inv uuid db')"
    "\<forall>item \<in> set (re_items input). case item of Stock_Unit code \<Rightarrow> True | Stock_Quantity i q \<Rightarrow> whole_quantity q \<Longrightarrow>
      satisfies (transfer_stock_responsibility env identity input db) (\<lambda>(n, db'). stock_inv uuid db')"
proof -
  assume "whole_quantity (ti_quantity transfer)"
  then show "satisfies (transfer_quantity env identity transfer db) (\<lambda>(i, db'). stock_inv uuid db')"
    by (intro satisfiesI) (auto intro: transfer_quantity_inv [OF inv])
next
  assume "md_request identity = None" "\<forall>(item, v) \<in> set (ci_items consumption). whole_quantity v"
  then show "satisfies (consume_quantities env identity consumption db) (\<lambda>(ids, db'). stock_inv uuid db')"
    unfolding consume_quantities_def
    by (intro js_sat) (intro satisfiesI, auto intro: consume_items_inv [OF _ inv])
next
  assume "\<forall>item \<in> set (re_items input). case item of Stock_Unit code \<Rightarrow> True | Stock_Quantity i q \<Rightarrow> whole_quantity q"
  then show "satisfies (transfer_stock_responsibility env identity input db) (\<lambda>(n, db'). stock_inv uuid db')"
    unfolding transfer_stock_responsibility_def by (intro js_sat) (auto intro: transfer_items_inv [OF _ inv])
qed

lemma asset_operation_inv:
  assumes inv: "stock_inv uuid db"
  shows "satisfies (move_asset env identity move db) (\<lambda>(i, db'). stock_inv uuid db')"
    "satisfies (record_asset_loss env identity loss db) (\<lambda>(code, db'). stock_inv uuid db')"
  unfolding move_asset_def record_asset_loss_def
  by (intro js_sat, auto intro!: queue_refresh_inv dest!: satisfiesD [OF move_owned_asset_inv [OF inv]] satisfiesD [OF loss_inv [OF inv]])+

lemma run_operation_inv:
  assumes inv: "stock_inv uuid db" and inj: "inj uuid" and whole: "whole_operation op" and run: "run_operation uuid op db = Inr db'"
  shows "stock_inv uuid db'"
proof (cases op)
  case (Receive_Stock env input line)
  then show ?thesis using operation_result [OF receive_stock_inv(1) [of "env\<lparr>ev_uuid := uuid\<rparr>"]] inv inj run by simp
next
  case (Receive_Remaining env input order ids places)
  then show ?thesis using operation_result [OF receive_stock_inv(2) [of "env\<lparr>ev_uuid := uuid\<rparr>"]] inv inj run by simp
next
  case (Request_Batch env input)
  then show ?thesis using operation_result [OF create_requisition_inv [of "env\<lparr>ev_uuid := uuid\<rparr>"]] inv inj whole run by simp
next
  case (Issue_Remaining env who lines)
  then show ?thesis using issue_operation_inv(2) [OF inv, of "env\<lparr>ev_uuid := uuid\<rparr>" who lines] run
    by (auto simp: satisfies_def map_sum_def split: sum.splits)
qed (use run whole operation_result [OF issue_operation_inv(1) [OF inv]] operation_result [OF cancel_inv [OF inv]]
    operation_result [OF transfer_operation_inv(1) [OF inv]] operation_result [OF transfer_operation_inv(2) [OF inv]]
    operation_result [OF transfer_operation_inv(3) [OF inv]] operation_result [OF handover_inv [OF inv]]
    operation_result [OF asset_operation_inv(1) [OF inv]] operation_result [OF asset_operation_inv(2) [OF inv]]
    operation_result [OF assign_inv [OF inv]] in auto)

lemma store_reachable_inv: "store_reachable uuid db s \<Longrightarrow> stock_inv uuid db \<Longrightarrow> inj uuid \<Longrightarrow> stock_inv uuid s"
  by (induction rule: store_reachable.induct) (auto intro: run_operation_inv)

end
