(* ===== verification/Store_Guarantees.thy ===== *)
theory Store_Guarantees
  imports Store_Reachable
begin

section \<open>The store: what the transactions guarantee\<close>

text \<open>
  The properties of the store's transactions, over the invariant of \<open>Store_Ledger\<close>: the ledgers agree with the
  documents in every reachable state, an issue takes exactly what was entered, a receipt creates exactly the units
  it says, a transfer moves stock and creates none. And an input on which binary64 arithmetic loses an exact remainder, so that a request never closes.
\<close>

subsection \<open>A store with one open request\<close>

text \<open>Five units of an item in one location, of which 0.2 of the 0.9 requested have been issued.\<close>

definition sample_uuid :: "nat \<Rightarrow> string" where
  "sample_uuid k = replicate k (CHR ''u'')"

definition sample_move :: "int \<Rightarrow> string option \<Rightarrow> stock_movement" where
  "sample_move n request = \<lparr>sm_item = ''oil'', sm_unit = None, sm_location = ''rack'', sm_receipt_line = None,
     sm_request = request, sm_type = Move_Adjustment, sm_quantity = n, sm_from = None, sm_to = None, sm_at = 0,
     sm_by = None, sm_remark = None, sm_operation = None\<rparr>"

definition sample_request :: store_request where
  "sample_request = \<lparr>sq_id = ''uu'', sq_header = ''u'', sq_number = ''STR-REQ-1-01'', sq_item = ''oil'', sq_unit = None,
     sq_location = ''rack'', sq_requested = 900, sq_issued = 200, sq_status = Partially_Issued\<rparr>"

definition sample_header :: request_header where
  "sample_header = \<lparr>rh_id = ''u'', rh_number = ''STR-REQ-1'', rh_location = ''rack'', rh_department = ''Forging'',
     rh_requested_by = ''A'', rh_required_on = None, rh_purpose = None, rh_kind = Department_Use,
     rh_receiving_store = None, rh_recipient_reference = None, rh_recipient_name = None\<rparr>"

definition sample_item :: store_item where
  "sample_item = \<lparr>si_id = ''oil'', si_type_code = ''OIL'', si_name = ''Oil'', si_tracking = Consumable,
     si_next_number = 1, si_active = True\<rparr>"

definition sample_place :: store_location where
  "sample_place = \<lparr>sl_id = ''rack'', sl_code = ''R1'', sl_name = ''Rack'', sl_type = Store_Location, sl_active = True,
     sl_store = Some ''main''\<rparr>"

definition sample_db :: store_db where
  "sample_db = \<lparr>db_items = [sample_item], db_locations = [sample_place],
     db_stores = [\<lparr>sa_id = ''main'', sa_code = ''MAIN'', sa_name = ''Main Store'', sa_kind = ''MAIN'', sa_active = True,
       sa_default = None, sa_floor = None\<rparr>],
     db_orders = [], db_order_lines = [], db_receipts = [], db_receipt_lines = [], db_bills = [], db_units = [],
     db_movements = [sample_move 5000 None, sample_move (- 200) (Some ''uu'')],
     db_headers = [sample_header], db_requests = [sample_request], db_repairs = [], db_departments = [], db_machines = [],
     db_vendors = [], db_places = [], db_members = [], db_visits = [], db_broken = [], db_occupied = [], db_operations = [],
     db_handovers = [], db_counters = [], db_generated = 3, db_refreshes = 0\<rparr>"

definition sample_row :: issue_row where
  "sample_row = \<lparr>ir_request = sample_request, ir_header = sample_header, ir_item = sample_item,
     ir_location = sample_place, ir_store = ''main'', ir_reassigned = None\<rparr>"

definition sample_issue :: "quantity_input \<Rightarrow> issue_input" where
  "sample_issue v = \<lparr>is_unit_code = None, is_unit_codes = None, is_holder_name = None, is_holder_reference = None,
     is_holder_type = None, is_issued_by = None, is_quantity = v, is_remark = None, is_request = ''uu''\<rparr>"

definition sample_env :: store_env where
  "sample_env = \<lparr>ev_now = 0, ev_year = 2025, ev_today = 20000, ev_date = (\<lambda>t. None), ev_uuid = sample_uuid\<rparr>"

lemmas sample_defs = sample_db_def sample_request_def sample_header_def sample_item_def sample_place_def sample_move_def

lemma sample_inj: "inj sample_uuid"
  by (auto simp: inj_def sample_uuid_def dest: arg_cong [where f = length])

lemma sample_inv: "stock_inv sample_uuid sample_db"
proof -
  have "known sample_uuid sample_db ''uu''" unfolding known_def
    by (intro exI [of _ 2]) (simp add: sample_uuid_def sample_db_def numeral_2_eq_2)
  moreover have "stock_nonneg sample_db"
    by (simp add: stock_nonneg_def consumable_balance_def consumable_moves_def sample_defs)
  ultimately show ?thesis
    by (simp add: stock_inv_def issue_wf_def identified_def units_balanced_def sound_request_def request_in_bounds_def
      delivered_def transferred_def request_ledger_def ledger_def sample_defs)
qed

lemma sample_row: "issue_row_of sample_db ''uu'' = Some sample_row"
  by (simp add: issue_row_of_def location_of_def item_of_def store_of_def sample_row_def sample_defs)

lemma sample_requests: "db_requests sample_db = [sample_request]"
  by (simp add: sample_db_def)

lemma sample_stock: "store_stock sample_db ''oil'' ''main'' = 4800"
  by (simp add: store_stock_def stock_locations_def consumable_balance_def consumable_moves_def sample_defs)

subsection \<open>Properties\<close>

text \<open>C2: start from a store whose tables agree, and run any sequence of receipts, requests, issues, cancellations,
  transfers and hand-overs between stores, consumptions, moves, losses and choices of racks, where every quantity entered
  has at most three decimals and is at most \<open>10 ^ 14\<close> thousandths, and a consumption names no request. Then no consumable
  balance is negative, unit codes stay unique whatever their case, a request has been given exactly what the issues,
  transfers and hand-overs recorded for it add up to and never more than was requested (all of it when it is fulfilled),
  an order line has received exactly what its receipts add up to and never more than was ordered, and the movements of a
  unit whose only movements are its receipt and issues add up to one exactly while it lies in a store location. Of units
  that were moved, lost or handed over the last part says nothing.\<close>

theorem store_ledger_invariant:
  assumes "inj uuid" "stock_inv uuid db" "store_reachable uuid db s"
  shows "(\<forall>item loc. 0 \<le> consumable_balance s item loc) \<and> distinct (map (to_lower \<circ> su_code) (db_units s))
    \<and> (\<forall>q \<in> set (db_requests s). delivered s (sq_id q) = sq_issued q \<and> 0 \<le> sq_issued q \<and> sq_issued q \<le> sq_requested q
         \<and> (sq_status q = Request_Pending \<longrightarrow> sq_issued q = 0) \<and> (sq_status q = Fulfilled \<longrightarrow> sq_issued q = sq_requested q))
    \<and> (\<forall>l \<in> set (db_order_lines s). line_ledger s (ol_id l) = ol_received l \<and> 0 \<le> ol_received l \<and> ol_received l \<le> ol_ordered l)
    \<and> (\<forall>r \<in> set (db_receipt_lines s). receipt_ledger s (rl_id r) = rl_quantity r)
    \<and> (\<forall>u \<in> set (db_units s). only_issued (db_movements s) (su_id u) \<longrightarrow>
         unit_ledger s (su_id u) = (if su_location u = None then 0 else 1000))"
  using store_reachable_inv [OF assms(3,2,1)]
  by (simp add: stock_inv_def issue_wf_def units_balanced_def stock_nonneg_def sound_request_def sound_line_def request_in_bounds_def)

lemma store_ledger_invariant_witness:
  "\<exists>s. store_reachable sample_uuid sample_db s \<and> map sq_status (db_requests s) = [Request_Cancelled]
     \<and> delivered s ''uu'' = 200"
proof -
  let ?s = "sample_db\<lparr>db_requests := [sample_request\<lparr>sq_status := Request_Cancelled\<rparr>]\<rparr>"
  have "run_operation sample_uuid (Cancel '' uu '') sample_db = Inr ?s"
    by (simp add: cancel_requisition_def required_store_text_def sample_defs) code_simp
  then have reach: "store_reachable sample_uuid sample_db ?s"
    by (rule Operation [OF Start, rotated]) simp
  from store_ledger_invariant [OF sample_inj sample_inv reach] have "delivered ?s ''uu'' = 200"
    by (simp add: sample_request_def)
  then show ?thesis using reach by (intro exI [of _ ?s]) simp
qed


text \<open>What an issue of a consumable does to the stock.\<close>

lemma stock_taken:
  assumes "distinct (map sl_id locs)"
    "\<forall>m \<in> set ms. sm_item m = item \<and> sm_unit m = None \<and> sm_location m \<in> sl_id ` set locs"
  shows "sum_list (map (\<lambda>loc. consumable_balance (db\<lparr>db_movements := db_movements db @ ms\<rparr>) item (sl_id loc)) locs)
    = sum_list (map (\<lambda>loc. consumable_balance db item (sl_id loc)) locs) + sum_list (map sm_quantity ms)"
  using assms(2)
proof (induction ms arbitrary: db)
  case (Cons m ms)
  let ?db1 = "db\<lparr>db_movements := db_movements db @ [m]\<rparr>"
  obtain loc where loc: "loc \<in> set locs" "sm_location m = sl_id loc" using Cons.prems by auto
  have one: "consumable_balance ?db1 item (sl_id x) = consumable_balance db item (sl_id x) + (if x = loc then sm_quantity m else 0)"
    if "x \<in> set locs" for x
  proof -
    have same: "sl_id loc = sl_id x \<longleftrightarrow> x = loc" using assms(1) that loc by (auto simp: distinct_map inj_on_def)
    have "sm_unit m = None" "sm_item m = item" using Cons.prems by simp_all
    then show ?thesis by (simp only: consumable_balance_insert loc(2) same simp_thms)
  qed
  have "sum_list (map (\<lambda>x. if x = loc then sm_quantity m else 0) locs) = sm_quantity m"
    using assms(1) loc(1) by (simp add: sum_list_distinct_conv_sum_set distinct_map)
  then have "sum_list (map (\<lambda>x. consumable_balance ?db1 item (sl_id x)) locs)
     = sum_list (map (\<lambda>x. consumable_balance db item (sl_id x)) locs) + sm_quantity m"
    by (simp add: one sum_list_addf cong: map_cong)
  moreover have "sum_list (map (\<lambda>loc. consumable_balance (?db1\<lparr>db_movements := db_movements ?db1 @ ms\<rparr>) item (sl_id loc)) locs)
    = sum_list (map (\<lambda>loc. consumable_balance ?db1 item (sl_id loc)) locs) + sum_list (map sm_quantity ms)"
    using Cons.prems by (intro Cons.IH) simp
  ultimately show ?case by simp
qed simp

lemma taken_location:
  "m \<in> set (taken_movements env input row h n db) \<Longrightarrow> sm_location m \<in> sl_id ` set (stock_locations db (ir_store row))"
  by (force simp: taken_movements_def issue_movement_def set_store_balances dest: greedy_fst [THEN subsetD, OF imageI])

lemma balance_other_item:
  "\<forall>m \<in> set ms. sm_item m = item \<Longrightarrow> item' \<noteq> item \<Longrightarrow>
     consumable_balance (db\<lparr>db_movements := db_movements db @ ms\<rparr>) item' l = consumable_balance db item' l"
  by (auto simp: consumable_balance_def consumable_moves_def filter_empty_conv)

lemma ledger_locations:
  assumes "distinct (map sl_id locs)"
  shows "sum_list (map (\<lambda>l. ledger (\<lambda>m. P m \<and> sm_location m = sl_id l) ms) locs)
    = ledger (\<lambda>m. P m \<and> sm_location m \<in> sl_id ` set locs) ms"
proof (induction ms)
  case (Cons m ms)
  have "sum_list (map (\<lambda>l. if sm_location m = sl_id l then sm_quantity m else 0) locs)
      = (if sm_location m \<in> sl_id ` set locs then sm_quantity m else 0)"
    using assms by (induction locs) auto
  then have "sum_list (map (\<lambda>l. if P m \<and> sm_location m = sl_id l then sm_quantity m else 0) locs)
      = (if P m \<and> sm_location m \<in> sl_id ` set locs then sm_quantity m else 0)" by (cases "P m") simp_all
  moreover have "ledger Q (m # ms) = (if Q m then sm_quantity m else 0) + ledger Q ms" for Q by (simp add: ledger_def)
  ultimately show ?case using Cons by (simp only: sum_list_addf)
qed simp

lemma store_stock_moved:
  assumes "distinct (map sl_id (db_locations db))" "db_locations db' = db_locations db" "db_movements db' = db_movements db @ ms"
  shows "store_stock db' item s = store_stock db item s
    + ledger (\<lambda>m. (sm_item m = item \<and> sm_unit m = None) \<and> sm_location m \<in> sl_id ` set (stock_locations db s)) ms"
proof -
  have d: "distinct (map sl_id (stock_locations db s))" using assms(1) by (auto simp: stock_locations_def distinct_map inj_on_def)
  have "consumable_balance db' item l = consumable_balance db item l + ledger (\<lambda>m. (sm_item m = item \<and> sm_unit m = None) \<and> sm_location m = l) ms" for l
    by (simp add: consumable_balance_def consumable_moves_def ledger_def assms(3) conj_assoc)
  moreover have "stock_locations db' s = stock_locations db s" by (simp add: stock_locations_def assms(2))
  ultimately show ?thesis using ledger_locations [OF d, of "\<lambda>m. sm_item m = item \<and> sm_unit m = None" ms]
    by (simp add: store_stock_def sum_list_addf)
qed

lemma location_of_one_store:
  assumes "distinct (map sl_id (db_locations db))" "loc \<in> set (stock_locations db s)"
  shows "sl_id loc \<in> sl_id ` set (stock_locations db s') \<longleftrightarrow> s' = s"
proof
  assume "sl_id loc \<in> sl_id ` set (stock_locations db s')"
  then obtain loc' where loc': "loc' \<in> set (stock_locations db s')" "sl_id loc' = sl_id loc" by auto
  then have "loc' = loc" using assms distinct_by_key [OF assms(1), of loc' loc] by (simp add: stock_locations_def)
  then show "s' = s" using assms(2) loc'(1) by (simp add: stock_locations_def)
qed (use assms in auto)

lemma issued_consumable:
  assumes run: "issue_requisition_with_client env input db = Inr (res, db')" and wf: "issue_wf db"
    and row: "issue_row_of db (is_request input) = Some row" and cons: "si_tracking (ir_item row) \<noteq> Serialized"
    and q: "request_in_bounds (ir_request row)" and n: "whole_amount (is_quantity input) (ir_request row) n"
  obtains h status where "0 < n" "n \<le> store_stock db (sq_item (ir_request row)) (ir_store row)"
    "sq_issued (ir_request row) + n \<le> sq_requested (ir_request row)" "status \<in> {Fulfilled, Partially_Issued}"
    "status = Fulfilled \<Longrightarrow> sq_issued (ir_request row) + n = sq_requested (ir_request row)"
    "db' = db\<lparr>db_movements := db_movements db @ taken_movements env input row h n db,
       db_requests := map (\<lambda>x. if sq_id x = is_request input
         then x\<lparr>sq_issued := sq_issued (ir_request row) + n, sq_status := status\<rparr> else x) (db_requests db)\<rparr>"
proof -
  from run obtain row' quantity h reference name where r: "issue_row_of db (is_request input) = Some row'"
    and pos: "positive_quantity (case is_quantity input of
       Remaining \<Rightarrow> remaining_quantity (sq_requested (ir_request row')) (sq_issued (ir_request row')) | Quantity v \<Rightarrow> v) = Inr quantity"
    and le: "\<not> num_lt (remaining_quantity (sq_requested (ir_request row')) (sq_issued (ir_request row'))) quantity"
    and rec: "record_issue env input row' quantity h reference name db = Inr (res, db')" by (rule issue_requisition_Inr)
  have "row' = row" using r row by simp
  note pos = pos [unfolded this] and le = le [unfolded this] and rec = rec [unfolded this]
  note amount = issue_amount [OF n q pos le]
  have n14: "n \<le> 10 ^ 14" using amount(3) q by (simp add: request_in_bounds_def)
  from rec obtain db1 k status where step: "issue_consumable env input row quantity h reference name db = Inr db1"
    and k: "numeric_param (num_add (numeric_number (sq_issued (ir_request row))) quantity) = Inr k"
    and status: "status = (if num_eq (num_add (numeric_number (sq_issued (ir_request row))) quantity)
       (numeric_number (sq_requested (ir_request row))) then Fulfilled else Partially_Issued)"
    and upd: "update_request (is_request input) k status db1 = Inr db'" using cons by (auto elim!: record_issue_Inr)
  have kn: "k = sq_issued (ir_request row) + n" using issued_number(1) [OF amount q] k by simp
  have st: "status \<in> {Fulfilled, Partially_Issued}"
      "status = Fulfilled \<Longrightarrow> sq_issued (ir_request row) + n = sq_requested (ir_request row)"
    using issued_number(2) [OF amount q] by (auto simp: status split: if_splits)
  have fits: "sq_issued (ir_request row) + n \<le> sq_requested (ir_request row)" using amount(3) by simp
  have codes: "no_unit_codes input" using step by (auto simp: issue_consumable_def no_unit_codes_def split: if_splits option.splits)
  have "issue_consumable env input row quantity h reference name db =
    (if store_stock db (sq_item (ir_request row)) (ir_store row) < n
     then Inl ''Insufficient current stock for this issue.''
     else Inr (db\<lparr>db_movements := db_movements db @ taken_movements env input row (h, Some reference, Some name) n db\<rparr>))"
    by (rule issue_consumable_exact [OF amount(1) _ amount(2) n14 codes]) (use wf in \<open>simp_all add: issue_wf_def\<close>)
  then have "n \<le> store_stock db (sq_item (ir_request row)) (ir_store row)"
    and db1: "db1 = db\<lparr>db_movements := db_movements db @ taken_movements env input row (h, Some reference, Some name) n db\<rparr>"
    unfolding step by (simp_all split: if_splits)
  then show thesis using update_request_Inr [OF upd] st fits unfolding kn db1 by (intro that [OF amount(2)]) simp_all
qed

text \<open>C38: issuing a consumable, in an amount of at most three decimals or as all that remains, takes exactly that amount
  from the stock of the item in the store of the request, which must hold it, by movements out of the locations of that
  store, and adds exactly that amount to what the request has issued, which stays within what was requested and is
  fulfilled only when nothing is left. The stock of every other item and of every other store, every balance outside
  that store, every other request and every other table stay as they were.\<close>

theorem issue_takes_exactly:
  assumes run: "issue_requisition_with_client env input db = Inr (res, db')" and wf: "issue_wf db"
    and row: "issue_row_of db (is_request input) = Some row" and cons: "si_tracking (ir_item row) \<noteq> Serialized"
    and q: "request_in_bounds (ir_request row)" and n: "whole_amount (is_quantity input) (ir_request row) n"
  shows "0 < n \<and> n \<le> store_stock db (sq_item (ir_request row)) (ir_store row)
    \<and> (\<exists>ms status. db' = db\<lparr>db_movements := db_movements db @ ms, db_requests := map (\<lambda>x. if sq_id x = is_request input
           then x\<lparr>sq_issued := sq_issued (ir_request row) + n, sq_status := status\<rparr> else x) (db_requests db)\<rparr>
         \<and> status \<in> {Fulfilled, Partially_Issued} \<and> sq_issued (ir_request row) + n \<le> sq_requested (ir_request row)
         \<and> (status = Fulfilled \<longrightarrow> sq_issued (ir_request row) + n = sq_requested (ir_request row))
         \<and> (\<forall>m \<in> set ms. sm_request m = Some (is_request input) \<and> sm_item m = sq_item (ir_request row) \<and> sm_unit m = None
              \<and> sm_quantity m < 0 \<and> sm_location m \<in> sl_id ` set (stock_locations db (ir_store row))))
    \<and> (\<forall>item s. store_stock db' item s
         = store_stock db item s - (if item = sq_item (ir_request row) \<and> s = ir_store row then n else 0))
    \<and> (\<forall>item l. item \<noteq> sq_item (ir_request row) \<or> l \<notin> sl_id ` set (stock_locations db (ir_store row))
         \<longrightarrow> consumable_balance db' item l = consumable_balance db item l)"
proof -
  let ?item = "sq_item (ir_request row)"
  from issued_consumable [OF assms] obtain h status where n: "0 < n" "n \<le> store_stock db ?item (ir_store row)" and
    st: "sq_issued (ir_request row) + n \<le> sq_requested (ir_request row)" "status \<in> {Fulfilled, Partially_Issued}"
      "status = Fulfilled \<longrightarrow> sq_issued (ir_request row) + n = sq_requested (ir_request row)" and
    db': "db' = db\<lparr>db_movements := db_movements db @ taken_movements env input row h n db,
       db_requests := map (\<lambda>x. if sq_id x = is_request input
         then x\<lparr>sq_issued := sq_issued (ir_request row) + n, sq_status := status\<rparr> else x) (db_requests db)\<rparr>" by blast
  let ?ms = "taken_movements env input row h n db"
  have d: "distinct (map sl_id (db_locations db))" and "stock_nonneg db" using wf by (simp_all add: issue_wf_def)
  then have total: "sum_list (map sm_quantity ?ms) = - n" by (intro taken_sum n)
  have mem: "\<forall>m \<in> set ?ms. sm_request m = Some (is_request input) \<and> sm_item m = ?item \<and> sm_unit m = None
      \<and> sm_quantity m < 0 \<and> sm_location m \<in> sl_id ` set (stock_locations db (ir_store row))"
    using taken_mem [OF _ d] taken_location by blast
  have moved: "db_locations db' = db_locations db" "db_movements db' = db_movements db @ ?ms" by (simp_all add: db')
  have stock: "store_stock db' item s = store_stock db item s - (if item = ?item \<and> s = ir_store row then n else 0)" for item s
  proof -
    let ?P = "\<lambda>m. (sm_item m = item \<and> sm_unit m = None) \<and> sm_location m \<in> sl_id ` set (stock_locations db s)"
    have P: "?P m \<longleftrightarrow> item = ?item \<and> s = ir_store row" if m: "m \<in> set ?ms" for m
    proof -
      obtain loc where loc: "loc \<in> set (stock_locations db (ir_store row))" "sm_location m = sl_id loc" using mem m by auto
      show ?thesis using mem m unfolding loc(2) location_of_one_store [OF d loc(1)] by auto
    qed
    have "ledger ?P ?ms = (if item = ?item \<and> s = ir_store row then - n else 0)"
    proof (cases "item = ?item \<and> s = ir_store row")
      case True
      then have "\<forall>m \<in> set ?ms. ?P m" using P by blast
      then show ?thesis using True total by (simp add: ledger_all)
    next
      case False
      then have "\<forall>m \<in> set ?ms. \<not> ?P m" using P by blast
      then have "ledger ?P ?ms = 0" by (rule ledger_none)
      then show ?thesis using False by auto
    qed
    then show ?thesis using store_stock_moved [OF d moved, of item s] by simp
  qed
  have "consumable_balance db' item l = consumable_balance db item l"
    if "item \<noteq> ?item \<or> l \<notin> sl_id ` set (stock_locations db (ir_store row))" for item l
  proof -
    have "\<forall>m \<in> set ?ms. \<not> (sm_item m = item \<and> sm_unit m = None \<and> sm_location m = l)" using mem that by blast
    then have "ledger (\<lambda>m. sm_item m = item \<and> sm_unit m = None \<and> sm_location m = l) ?ms = 0" by (rule ledger_none)
    then show ?thesis by (simp add: consumable_balance_def consumable_moves_def moved ledger_def)
  qed
  then show ?thesis using n st db' mem stock by blast
qed


text \<open>An issue of an entered amount that the stock holds, by its outcome.\<close>

lemma issue_whole_succeeds:
  assumes row: "issue_row_of db (is_request input) = Some row" and wf: "issue_wf db"
    and cons: "si_tracking (ir_item row) \<noteq> Serialized" and codes: "no_unit_codes input"
    and q: "request_in_bounds (ir_request row)" "sq_status (ir_request row) \<in> {Request_Pending, Partially_Issued}"
    and own: "\<forall>x \<in> set (db_requests db). sq_id x = is_request input \<longrightarrow> x = ir_request row"
    and kind: "rh_kind (ir_header row) = Department_Use" "ir_reassigned row = None"
    and n: "is_quantity input = Quantity (numeric_number n)" "\<bar>n\<bar> \<le> 10 ^ 14" "num_lt (Fin 0) (numeric_number n)"
      "\<not> num_lt (remaining_quantity (sq_requested (ir_request row)) (sq_issued (ir_request row))) (numeric_number n)"
    and stock: "n \<le> store_stock db (sq_item (ir_request row)) (ir_store row)"
  shows "\<exists>h. issue_requisition_with_client env input db =
    (let total = num_add (numeric_number (sq_issued (ir_request row))) (numeric_number n);
         status = (if num_eq total (numeric_number (sq_requested (ir_request row))) then Fulfilled else Partially_Issued)
     in Inr ((total, status), db\<lparr>db_movements := db_movements db @ taken_movements env input row h n db,
       db_requests := map (\<lambda>x. if sq_id x = is_request input
         then x\<lparr>sq_issued := sq_issued (ir_request row) + n, sq_status := status\<rparr> else x) (db_requests db)\<rparr>))"
proof -
  have "whole_amount (is_quantity input) (ir_request row) n" using n by (simp add: whole_amount_def)
  moreover have pos: "positive_quantity (numeric_number n) = Inr (numeric_number n)"
    using n(2,3) close_numeric_number [of n] by (auto simp: positive_quantity_Inr close_to_def split: jsnum.splits)
  ultimately have amount: "close_to (3 / 50) (numeric_number n) n" "0 < n" "n \<le> sq_requested (ir_request row) - sq_issued (ir_request row)"
    using issue_amount [of "is_quantity input" "ir_request row" n "numeric_number n"] q(1) n by simp_all
  have n14: "n \<le> 10 ^ 14" using amount(3) q by (simp add: request_in_bounds_def)
  have take: "issue_consumable env input row (numeric_number n) h reference name db =
     Inr (db\<lparr>db_movements := db_movements db @ taken_movements env input row (h, Some reference, Some name) n db\<rparr>)" for h reference name
    using issue_consumable_exact [OF amount(1) _ amount(2) n14 codes] wf stock by (simp add: issue_wf_def)
  note param = issued_number(1) [OF amount q(1)]
  let ?h = "case is_holder_type input of None \<Rightarrow> Held_Department | Some t \<Rightarrow> t"
  let ?reference = "case optional_text (is_holder_reference input) of Some t \<Rightarrow> t | None \<Rightarrow> rh_department (ir_header row)"
  let ?name = "case optional_text (is_holder_name input) of Some t \<Rightarrow> t | None \<Rightarrow> rh_department (ir_header row)"
  have "issue_requisition_with_client env input db = record_issue env input row (numeric_number n) ?h ?reference ?name db"
    using q(2) n(4) pos kind unfolding issue_requisition_with_client_def row option.case Let_def
    by (auto simp: issue_holder_text_def n(1) split: option.splits)
  also have "\<dots> = (let total = num_add (numeric_number (sq_issued (ir_request row))) (numeric_number n);
         status = (if num_eq total (numeric_number (sq_requested (ir_request row))) then Fulfilled else Partially_Issued)
     in Inr ((total, status), db\<lparr>db_movements := db_movements db @ taken_movements env input row (?h, Some ?reference, Some ?name) n db,
       db_requests := map (\<lambda>x. if sq_id x = is_request input
         then x\<lparr>sq_issued := sq_issued (ir_request row) + n, sq_status := status\<rparr> else x) (db_requests db)\<rparr>))"
    using cons own q(1) amount unfolding record_issue_def
    by (auto simp: take param Let_def update_request_def request_in_bounds_def)
  finally show ?thesis by blast
qed

lemma exhausted_request_refuses:
  assumes row: "issue_row_of db (is_request input) = Some row"
    and spent: "sq_issued (ir_request row) = sq_requested (ir_request row)" "request_in_bounds (ir_request row)"
  shows "\<exists>e. issue_requisition_with_client env input db = Inl e"
proof (cases "issue_requisition_with_client env input db")
  case (Inr x)
  obtain res db' where "issue_requisition_with_client env input db = Inr (res, db')" using Inr by (cases x) simp
  then obtain row' quantity h reference name where r: "issue_row_of db (is_request input) = Some row'"
    and pos: "positive_quantity (case is_quantity input of
       Remaining \<Rightarrow> remaining_quantity (sq_requested (ir_request row')) (sq_issued (ir_request row')) | Quantity v \<Rightarrow> v) = Inr quantity"
    and le: "\<not> num_lt (remaining_quantity (sq_requested (ir_request row')) (sq_issued (ir_request row'))) quantity"
    by (rule issue_requisition_Inr)
  have "row' = row" using r row by simp
  moreover have "remaining_quantity i i = Fin 0" if "\<bar>i\<bar> \<le> 10 ^ 14" for i
    using close_numeric_number [OF that] remaining_zero [of i] unfolding remaining_quantity_def num_sub_def
    by (cases "numeric_number i") (auto simp: close_to_def)
  then have "remaining_quantity (sq_requested (ir_request row)) (sq_issued (ir_request row)) = Fin 0"
    using spent by (simp add: request_in_bounds_def)
  ultimately show ?thesis using pos le by (auto simp: positive_quantity_Inr split: quantity_input.splits)
qed blast


lemma find_mapped: "List.find P (map f xs) = map_option f (List.find (\<lambda>x. P (f x)) xs)"
  by (induction xs) auto

lemma issue_row_of_updated:
  assumes "issue_row_of db i = Some row"
    and f: "\<And>x. sq_id (f x) = sq_id x \<and> sq_header (f x) = sq_header x \<and> sq_location (f x) = sq_location x \<and> sq_item (f x) = sq_item x"
  shows "issue_row_of (db\<lparr>db_movements := ms, db_requests := map f (db_requests db)\<rparr>) i = Some (row\<lparr>ir_request := f (ir_request row)\<rparr>)"
  using assms(1) by (auto simp: issue_row_of_def find_mapped f location_of_def item_of_def store_of_def split: option.splits if_splits)

text \<open>C40: binary64 loses an exact remainder. When 0.2 of 0.9 has been issued and the missing 0.7 is issued, the request is
  recorded with 0.9 of 0.9 issued but left partially issued, since 0.2 + 0.7 is not the number 0.9; and from then on every
  issue against it is refused, so it can never become fulfilled.\<close>

theorem exact_remainder_leaves_request_open:
  assumes row: "issue_row_of db (is_request input) = Some row" and wf: "issue_wf db"
    and cons: "si_tracking (ir_item row) = Consumable" and codes: "no_unit_codes input"
    and ids: "distinct (map sq_id (db_requests db))"
    and kind: "rh_kind (ir_header row) = Department_Use" "ir_reassigned row = None"
    and q: "sq_requested (ir_request row) = 900" "sq_issued (ir_request row) = 200" "sq_status (ir_request row) = Partially_Issued"
    and quantity: "is_quantity input = Quantity (numeric_number 700)"
    and stock: "700 \<le> store_stock db (sq_item (ir_request row)) (ir_store row)"
  shows "\<exists>total db' row'. issue_requisition_with_client env input db = Inr ((total, Partially_Issued), db')
    \<and> issue_row_of db' (is_request input) = Some row' \<and> sq_requested (ir_request row') = 900 \<and> sq_issued (ir_request row') = 900
    \<and> sq_status (ir_request row') = Partially_Issued
    \<and> (\<forall>env' input'. is_request input' = is_request input \<longrightarrow> (\<exists>e. issue_requisition_with_client env' input' db' = Inl e))"
proof -
  have b: "request_in_bounds (ir_request row)" by (simp add: request_in_bounds_def q)
  have member: "ir_request row \<in> set (db_requests db)" "sq_id (ir_request row) = is_request input" using issue_row_of_request [OF row] by auto
  have own: "\<forall>x \<in> set (db_requests db). sq_id x = is_request input \<longrightarrow> x = ir_request row"
    using member distinct_by_key [OF ids] by auto
  have lost: "num_eq (num_add (numeric_number 200) (numeric_number 700)) (numeric_number 900) = False" by code_simp
  have room: "num_lt (Fin 0) (numeric_number 700)" "\<not> num_lt (remaining_quantity 900 200) (numeric_number 700)" by code_simp+
  let ?total = "num_add (numeric_number 200) (numeric_number 700)"
  let ?f = "\<lambda>x. if sq_id x = is_request input then x\<lparr>sq_issued := 200 + 700, sq_status := Partially_Issued\<rparr> else x"
  have "\<exists>h. issue_requisition_with_client env input db = Inr ((?total, Partially_Issued),
       db\<lparr>db_movements := db_movements db @ taken_movements env input row h 700 db, db_requests := map ?f (db_requests db)\<rparr>)"
    using issue_whole_succeeds [OF row wf _ codes b _ own kind quantity, of env] q room stock
    by (simp add: cons Let_def lost cong: if_cong)
  then obtain h where run: "issue_requisition_with_client env input db = Inr ((?total, Partially_Issued),
       db\<lparr>db_movements := db_movements db @ taken_movements env input row h 700 db, db_requests := map ?f (db_requests db)\<rparr>)"
    (is "_ = Inr (_, ?db')") ..
  let ?row = "row\<lparr>ir_request := ?f (ir_request row)\<rparr>"
  have row': "issue_row_of ?db' (is_request input) = Some ?row" by (rule issue_row_of_updated [OF row]) simp
  have "\<exists>e. issue_requisition_with_client env' input' ?db' = Inl e" if "is_request input' = is_request input" for env' input'
    by (rule exhausted_request_refuses [of ?db' input' ?row]) (use that row' member q in \<open>simp_all add: request_in_bounds_def\<close>)
  then show ?thesis using run row' member(2) q
    by (intro exI [of _ ?total] exI [of _ ?db'] exI [of _ ?row]) simp
qed

lemma exact_remainder_leaves_request_open_witness:
  "\<exists>total db'. issue_requisition_with_client sample_env (sample_issue (Quantity (numeric_number 700))) sample_db
     = Inr ((total, Partially_Issued), db')"
proof -
  let ?input = "sample_issue (Quantity (numeric_number 700))"
  have "issue_row_of sample_db (is_request ?input) = Some sample_row" by (simp add: sample_issue_def sample_row)
  from exact_remainder_leaves_request_open [OF this, of sample_env] sample_inv sample_stock show ?thesis
    by (simp add: stock_inv_def identified_def no_unit_codes_def optional_text_def sample_issue_def sample_row_def sample_defs) blast
qed

lemma issue_takes_exactly_witness:
  "\<exists>res db'. issue_requisition_with_client sample_env (sample_issue (Quantity (numeric_number 500))) sample_db = Inr (res, db')
     \<and> store_stock db' ''oil'' ''main'' = 4300 \<and> map sq_issued (db_requests db') = [700]"
proof -
  let ?input = "sample_issue (Quantity (numeric_number 500))"
  have row: "issue_row_of sample_db (is_request ?input) = Some sample_row" by (simp add: sample_issue_def sample_row)
  have wf: "issue_wf sample_db" using sample_inv by (simp add: stock_inv_def)
  have b: "request_in_bounds (ir_request sample_row)" by (simp add: request_in_bounds_def sample_row_def sample_request_def)
  have room: "num_lt (Fin 0) (numeric_number 500)" "\<not> num_lt (remaining_quantity 900 200) (numeric_number 500)" by code_simp+
  have "\<exists>res db'. issue_requisition_with_client sample_env ?input sample_db = Inr (res, db')"
    using issue_whole_succeeds [OF row wf, of 500 sample_env] room b sample_stock
    by (auto simp: no_unit_codes_def optional_text_def sample_issue_def sample_row_def sample_defs Let_def)
  then obtain res db' where run: "issue_requisition_with_client sample_env ?input sample_db = Inr (res, db')" by blast
  have "whole_amount (is_quantity ?input) (ir_request sample_row) 500" by (simp add: whole_amount_def sample_issue_def)
  from issue_takes_exactly [OF run wf row _ b this] run show ?thesis
    by (auto simp: sample_stock sample_requests sample_row_def sample_issue_def sample_request_def sample_item_def)
qed


text \<open>C39: receiving \<open>k\<close> units of a serialised item creates exactly \<open>k\<close> units, in the chosen location and store, available,
  numbered consecutively from the item's next number (or where an earlier line of the same receipt stopped), with codes
  that no unit has in any case of letters; each gets one movement of one unit, the next number kept with the item moves
  on by \<open>k\<close>, below \<open>2 ^ 31\<close>, as does that of the receipt, no other item changes, and the order line has received \<open>k\<close>
  more, never more than ordered.\<close>

theorem received_units_are_consecutive:
  assumes run: "receive_line env input store wd receipt ((l, o', it), li, num_int k) loc numbers db = Inr (received, numbers', db')"
    and ser: "si_tracking it = Serialized" and k: "0 < k" "k \<le> 10 ^ 12"
    and unique: "distinct (map (to_lower \<circ> su_code) (db_units db))"
  shows "\<exists>us ms first. first = (case map_of numbers (ol_item l) of Some f \<Rightarrow> f | None \<Rightarrow> si_next_number it)
     \<and> db_units db' = db_units db @ us \<and> length us = nat k \<and> distinct (map (to_lower \<circ> su_code) (db_units db'))
     \<and> map su_code us = map (\<lambda>i. store_unit_id (si_type_code it) (nat (first + int i))) [0..<nat k]
     \<and> (\<forall>u \<in> set us. su_item u = ol_item l \<and> su_location u = Some (sl_id loc) \<and> su_store u = store \<and> su_status u = Unit_Available)
     \<and> db_movements db' = db_movements db @ ms \<and> map sm_unit ms = map (Some \<circ> su_id) us \<and> (\<forall>m \<in> set ms. sm_quantity m = 1000)
     \<and> received = (map su_code us, ol_id l) \<and> numbers' = put (ol_item l) (first + k) numbers
     \<and> (\<forall>x \<in> set (db_items db). si_id x = ol_item l \<longrightarrow> si_next_number x + k < 2 ^ 31)
     \<and> db_items db' = map (\<lambda>x. if si_id x = ol_item l then x\<lparr>si_next_number := si_next_number x + k\<rparr> else x) (db_items db)
     \<and> (\<forall>x \<in> set (db_order_lines db). ol_id x = ol_id l \<longrightarrow> ol_received x + 1000 * k \<le> ol_ordered x)
     \<and> map ol_received (db_order_lines db')
         = map (\<lambda>x. if ol_id x = ol_id l then ol_received x + 1000 * k else ol_received x) (db_order_lines db)"
proof -
  let ?id = "ev_uuid env (db_generated db)"
  define first where "first = (case map_of numbers (ol_item l) of Some f \<Rightarrow> f | None \<Rightarrow> si_next_number it)"
  from run obtain n r stabilizer mcb codes db2 where n: "numeric_column (num_int k) = Some n"
    and stock: "stock_line env input store wd ((l, o', it), li, num_int k) loc ?id stabilizer mcb n numbers
        (db\<lparr>db_generated := Suc (db_generated db), db_receipt_lines := db_receipt_lines db @ [r]\<rparr>) = Inr (codes, numbers', db2)"
    and add: "add_received (ol_id l) n db2 = Inr db'" and received: "received = (codes, ol_id l)"
    by (force simp: receive_line_def generate_id_def bind_result_Inr_iff numeric_param_def split: if_splits option.splits)
  let ?db1 = "db\<lparr>db_generated := Suc (db_generated db), db_receipt_lines := db_receipt_lines db @ [r]\<rparr>"
  have nk: "n = 1000 * k" using n numeric_column_int [OF k] by simp
  obtain db3 where units: "receive_units (receive_unit env input loc store wd ((l, o', it), li, num_int k) ?id stabilizer mcb first) [0..<nat k] ?db1 = Inr (codes, db3)"
    and take: "take_numbers (ol_item l) (int (nat k)) db3 = Inr db2" and numbers': "numbers' = put (ol_item l) (first + int (nat k)) numbers"
    using stock ser by (force simp: stock_line_def bind_result_Inr_iff Let_def whole_units_def first_def)
  obtain us ms ps where us: "db3 = new_units (ev_uuid env) ?id ?db1 us ms ps" "fresh_units (ev_uuid env) ?id ?db1 us ms"
     "map su_code us = codes" "codes = map (\<lambda>i. store_unit_id (si_type_code it) (nat (first + int i))) [0..<nat k]"
     "\<forall>u \<in> set us. su_item u = ol_item l \<and> su_location u = Some (sl_id loc) \<and> su_store u = store"
    using receive_units_effect [OF units] by blast
  have items: "db2 = db3\<lparr>db_items := map (\<lambda>x. if si_id x = ol_item l then x\<lparr>si_next_number := si_next_number x + k\<rparr> else x) (db_items db3)\<rparr>"
    and small: "\<forall>x \<in> set (db_items db3). si_id x = ol_item l \<longrightarrow> si_next_number x + k < 2 ^ 31"
    using take k by (auto simp: take_numbers_def split: if_splits)
  have db': "db' = db2\<lparr>db_order_lines := map (\<lambda>x. if ol_id x = ol_id l then x\<lparr>ol_received := ol_received x + n\<rparr> else x) (db_order_lines db2)\<rparr>"
    and room: "\<forall>x \<in> set (db_order_lines db2). ol_id x = ol_id l \<longrightarrow> ol_received x + n \<le> ol_ordered x"
    using add by (auto simp: add_received_def split: if_splits)
  have len: "length us = nat k" using arg_cong [OF us(3), of length] us(4) by simp
  show ?thesis
  proof (intro exI conjI)
    show "first = (case map_of numbers (ol_item l) of Some f \<Rightarrow> f | None \<Rightarrow> si_next_number it)" by (rule first_def)
    show "db_units db' = db_units db @ us" "db_movements db' = db_movements db @ ms"
      using db' items us(1) by (simp_all add: new_units_def)
    show "\<forall>x \<in> set (db_items db). si_id x = ol_item l \<longrightarrow> si_next_number x + k < 2 ^ 31"
      "db_items db' = map (\<lambda>x. if si_id x = ol_item l then x\<lparr>si_next_number := si_next_number x + k\<rparr> else x) (db_items db)"
      using db' items small us(1) by (simp_all add: new_units_def)
    show "distinct (map (to_lower \<circ> su_code) (db_units db'))" "map sm_unit ms = map (Some \<circ> su_id) us"
      "\<forall>m \<in> set ms. sm_quantity m = 1000"
      using us(2) unique db' items us(1) by (auto simp: fresh_units_def new_units_def)
    show "\<forall>u \<in> set us. su_item u = ol_item l \<and> su_location u = Some (sl_id loc) \<and> su_store u = store \<and> su_status u = Unit_Available"
      using us(2,5) by (auto simp: fresh_units_def)
    show "map ol_received (db_order_lines db')
         = map (\<lambda>x. if ol_id x = ol_id l then ol_received x + 1000 * k else ol_received x) (db_order_lines db)"
      "\<forall>x \<in> set (db_order_lines db). ol_id x = ol_id l \<longrightarrow> ol_received x + 1000 * k \<le> ol_ordered x"
      using db' room items us(1) by (simp_all add: new_units_def nk)
  qed (use len us(3,4) received numbers' k in simp_all)
qed


definition sample_order_line :: order_line where
  "sample_order_line = \<lparr>ol_id = ''line'', ol_order = ''po'', ol_item = ''die'', ol_ordered = 5000, ol_received = 1000, ol_price = 0\<rparr>"

definition sample_order :: store_order where
  "sample_order = \<lparr>so_id = ''po'', so_number = ''PO-1'', so_supplier = ''S'', so_type = Goods, so_issued = True, so_status = Order_Open\<rparr>"

definition sample_die :: store_item where
  "sample_die = \<lparr>si_id = ''die'', si_type_code = ''DIE'', si_name = ''Die'', si_tracking = Serialized, si_next_number = 9, si_active = True\<rparr>"

definition sample_line_input :: receipt_line_input where
  "sample_line_input = \<lparr>li_location = None, li_serials = [], li_line = ''line'', li_quantity = Remaining, li_details = None\<rparr>"

definition sample_receipt :: receipt_input where
  "sample_receipt = \<lparr>in_bill_date = None, in_bill_number = None, in_expected_order = None, in_lines = [sample_line_input],
     in_location = None, in_received_by = None, in_warranty_period = None, in_warranty_until = None\<rparr>"

lemma sample_codes: "store_unit_id ''DIE'' 9 = ''DIE-0009''" "store_unit_id ''DIE'' (Suc 9) = ''DIE-0010''"
    "store_unit_id ''DIE'' 10 = ''DIE-0010''"
    "to_lower ''DIE-0009'' = ''die-0009''" "to_lower ''DIE-0010'' = ''die-0010''"
  by code_simp+

lemma received_units_are_consecutive_witness:
  "\<exists>received numbers db'. receive_line sample_env sample_receipt ''main'' None ''receipt''
      ((sample_order_line, sample_order, sample_die), sample_line_input, num_int 2) sample_place []
      (sample_db\<lparr>db_items := [sample_die], db_order_lines := [sample_order_line]\<rparr>) = Inr (received, numbers, db')
     \<and> map su_code (db_units db') = [''DIE-0009'', ''DIE-0010''] \<and> received = ([''DIE-0009'', ''DIE-0010''], ''line'')
     \<and> map ol_received (db_order_lines db') = [3000]"
proof -
  let ?line = "((sample_order_line, sample_order, sample_die), sample_line_input, num_int 2)"
  let ?db = "sample_db\<lparr>db_items := [sample_die], db_order_lines := [sample_order_line]\<rparr>"
  have two: "[0..<2] = [0, 1 :: nat]" by code_simp
  have n: "numeric_param (Fin 2) = Inr 2000" using numeric_column_int [of 2] by (simp add: numeric_param_def)
  have count: "whole_units (Fin 2) = 2" by code_simp
  have ser: "si_tracking sample_die = Serialized" by (simp add: sample_die_def)
  have "\<exists>res. receive_line sample_env sample_receipt ''main'' None ''receipt'' ?line sample_place [] ?db = Inr res"
    by (simp add: receive_line_def stock_line_def n count ser two stabilizer_asset_id_def mcb_unit_code_def optional_text_def
        date_param_def generate_id_def receive_unit_def warranty_end_date_def insert_unit_def insert_movement_def
        remember_place_def default_of_store_def location_of_def store_of_def sample_place_def
        receipt_movement_def take_numbers_def add_received_def sample_receipt_def sample_line_input_def
        sample_die_def sample_order_line_def sample_db_def sample_codes Let_def)
  then obtain received numbers db' where
    run: "receive_line sample_env sample_receipt ''main'' None ''receipt'' ?line sample_place [] ?db = Inr (received, numbers, db')"
    by (metis prod.exhaust)
  have "distinct (map (to_lower \<circ> su_code) (db_units ?db))" by (simp add: sample_db_def)
  from received_units_are_consecutive [OF run ser _ _ this] show ?thesis
    using run by (auto simp: sample_codes two sample_db_def sample_die_def sample_order_line_def)
qed

text \<open>C3: a transfer takes exactly the quantity entered, of at most three decimals, from the stock of the source store, which
  must hold it, and adds it to that of the destination: no other item and no other store changes. A request it serves
  is given exactly that much, never more than it asked for, and is fulfilled only when nothing is left of it.\<close>

theorem transfer_conserves_stock:
  assumes inv: "stock_inv uuid db" and whole: "whole_quantity (ti_quantity input)"
    and run: "transfer_quantity env identity input db = Inr (operation, db')"
  shows "\<exists>n source destination. ti_quantity input = numeric_number n \<and> 0 < n
    \<and> find_store db (ti_source input) = Inr source \<and> find_store db (ti_destination input) = Inr destination
    \<and> sa_id source \<noteq> sa_id destination \<and> n \<le> store_stock db (ti_item input) (sa_id source)
    \<and> (\<forall>item s. store_stock db' item s = store_stock db item s
        + (if item \<noteq> ti_item input then 0 else if s = sa_id source then - n else if s = sa_id destination then n else 0))
    \<and> (case given_request identity of None \<Rightarrow> db_requests db' = db_requests db | Some i \<Rightarrow>
        (\<exists>q status. q \<in> set (db_requests db) \<and> sq_id q = i \<and> sq_issued q + n \<le> sq_requested q
           \<and> (status = Fulfilled \<longrightarrow> sq_issued q + n = sq_requested q) \<and> status \<in> {Fulfilled, Partially_Issued}
           \<and> db_requests db' = map (\<lambda>x. if sq_id x = i then x\<lparr>sq_issued := sq_issued q + n, sq_status := status\<rparr> else x) (db_requests db)))"
proof -
  have wf: "issue_wf db" and bounds: "\<forall>q \<in> set (db_requests db). request_in_bounds q"
    using inv by (simp_all add: stock_inv_def sound_request_def)
  from satisfiesD [OF transfer_quantity_effect [OF wf bounds whole] run]
  obtain n where n: "ti_quantity input = numeric_number n" "0 < n" and moved: "quantity_moved env identity input n db operation db'" by auto
  from moved obtain source destination and place :: store_location and x rs k where
      stores: "find_store db (ti_source input) = Inr source" "find_store db (ti_destination input) = Inr destination"
      "sa_id source \<noteq> sa_id destination" and place: "place \<in> set (db_locations db)" "storage_candidate db (sa_id destination) place"
    and stock: "n \<le> store_stock db (ti_item input) (sa_id source)"
    and db': "db' = db\<lparr>db_generated := Suc (db_generated db), db_operations := db_operations db @ [x],
          db_movements := db_movements db @ debit_movements env identity (ti_item input) Move_Out operation n source (Some destination) db
            @ [quantity_movement env identity (ti_item input) source (Some (sl_code place, sl_name place)) Move_In operation (sl_id place) n],
          db_requests := rs, db_refreshes := k\<rparr>"
    and rs: "case given_request identity of None \<Rightarrow> rs = db_requests db | Some i \<Rightarrow> fulfils db i n db'"
    by (rule quantity_movedE)
  let ?out = "debit_movements env identity (ti_item input) Move_Out operation n source (Some destination) db"
  let ?in = "quantity_movement env identity (ti_item input) source (Some (sl_code place, sl_name place)) Move_In operation (sl_id place) n"
  have d: "distinct (map sl_id (db_locations db))" using wf by (simp add: issue_wf_def)
  have total: "sum_list (map sm_quantity ?out) = - n" using debit_sum [OF _ n(2) stock] wf by (simp add: issue_wf_def)
  have arrives: "sl_id place \<in> sl_id ` set (stock_locations db s) \<longleftrightarrow> s = sa_id destination" for s
    using place by (intro location_of_one_store [OF d]) (auto simp: stock_locations_def storage_candidate_def)
  have leaves: "sm_location m \<in> sl_id ` set (stock_locations db s) \<longleftrightarrow> s = sa_id source" if m: "m \<in> set ?out" for m s
  proof -
    obtain loc where "loc \<in> set (stock_locations db (sa_id source))" "sm_location m = sl_id loc" using debit_mem [OF m d] by auto
    then show ?thesis using location_of_one_store [OF d] by simp
  qed
  have change: "store_stock db' item s = store_stock db item s
        + (if item \<noteq> ti_item input then 0 else if s = sa_id source then - n else if s = sa_id destination then n else 0)" for item s
  proof -
    let ?P = "\<lambda>m. (sm_item m = item \<and> sm_unit m = None) \<and> sm_location m \<in> sl_id ` set (stock_locations db s)"
    have "ledger ?P ?out = (if item = ti_item input \<and> s = sa_id source then - n else 0)"
    proof (cases "item = ti_item input \<and> s = sa_id source")
      case True
      then have "\<forall>m \<in> set ?out. ?P m" using debit_mem [OF _ d] leaves by blast
      then show ?thesis using True total by (simp add: ledger_all)
    next
      case False
      then have "\<forall>m \<in> set ?out. \<not> ?P m" using debit_mem [OF _ d] leaves by blast
      then have "ledger ?P ?out = 0" by (rule ledger_none)
      then show ?thesis using False by auto
    qed
    moreover have "ledger ?P [?in] = (if item = ti_item input \<and> s = sa_id destination then n else 0)"
      by (auto simp: ledger_def quantity_movement_def arrives)
    ultimately show ?thesis
      using store_stock_moved [OF d, of db' "?out @ [?in]" item s] stores(3) by (simp add: db')
  qed
  have "case given_request identity of None \<Rightarrow> db_requests db' = db_requests db | Some i \<Rightarrow>
        (\<exists>q status. q \<in> set (db_requests db) \<and> sq_id q = i \<and> sq_issued q + n \<le> sq_requested q
           \<and> (status = Fulfilled \<longrightarrow> sq_issued q + n = sq_requested q) \<and> status \<in> {Fulfilled, Partially_Issued}
           \<and> db_requests db' = map (\<lambda>x. if sq_id x = i then x\<lparr>sq_issued := sq_issued q + n, sq_status := status\<rparr> else x) (db_requests db))"
    using rs by (auto simp: fulfils_def db' split: option.splits)
  then show ?thesis using n stores stock change by blast
qed


text \<open>A second store with one location.\<close>

definition sample_main :: accountable_store where
  "sample_main = \<lparr>sa_id = ''main'', sa_code = ''MAIN'', sa_name = ''Main Store'', sa_kind = ''MAIN'', sa_active = True,
     sa_default = Some ''rack'', sa_floor = None\<rparr>"

definition sample_branch :: accountable_store where
  "sample_branch = \<lparr>sa_id = ''cnc'', sa_code = ''CNC'', sa_name = ''CNC Store'', sa_kind = ''PRODUCTION'', sa_active = True,
     sa_default = Some ''bin'', sa_floor = Some ''cnc''\<rparr>"

definition sample_bin :: store_location where
  "sample_bin = \<lparr>sl_id = ''bin'', sl_code = ''B1'', sl_name = ''Bin'', sl_type = Store_Location, sl_active = True,
     sl_store = Some ''cnc''\<rparr>"

definition two_stores :: store_db where
  "two_stores = sample_db\<lparr>db_locations := [sample_place, sample_bin], db_stores := [sample_main, sample_branch]\<rparr>"

definition sample_transfer :: transfer_input where
  "sample_transfer = \<lparr>ti_destination_location = None, ti_destination = ''cnc'', ti_item = ''oil'', ti_quantity = numeric_number 500,
     ti_source = ''MAIN''\<rparr>"

definition nobody :: move_identity where
  "nobody = \<lparr>md_by = None, md_remark = None, md_request = None\<rparr>"

lemma two_stores_inv: "stock_inv sample_uuid two_stores"
proof -
  have "known sample_uuid two_stores ''uu''" unfolding known_def
    by (intro exI [of _ 2]) (simp add: sample_uuid_def two_stores_def sample_db_def numeral_2_eq_2)
  moreover have "stock_nonneg two_stores"
    using sample_inv nonneg_cong [of two_stores sample_db] by (simp add: two_stores_def stock_inv_def issue_wf_def)
  ultimately show ?thesis
    by (simp add: stock_inv_def issue_wf_def identified_def units_balanced_def sound_request_def request_in_bounds_def
      delivered_def transferred_def request_ledger_def ledger_def two_stores_def sample_bin_def sample_defs)
qed

lemma transfer_conserves_stock_witness:
  "\<exists>operation db'. transfer_quantity sample_env nobody sample_transfer two_stores = Inr (operation, db')
     \<and> store_stock db' ''oil'' ''main'' = 4300 \<and> store_stock db' ''oil'' ''cnc'' = 500"
proof -
  let ?q = "numeric_number 500"
  have pos: "positive_three_decimals ?q = Inr ?q" by code_simp
  have stores: "find_store two_stores ''MAIN'' = Inr sample_main" "find_store two_stores ''cnc'' = Inr sample_branch" by code_simp+
  have item: "lock_consumable two_stores ''oil'' = Inr sample_item" by code_simp
  have place: "resolve_storage_location two_stores ''oil'' ''cnc'' None = Inr sample_bin"
    by (simp add: resolve_storage_location_def storage_order_def storage_candidate_def store_of_def two_stores_def sample_place_def
      sample_bin_def sample_main_def sample_branch_def sample_db_def)
  have n: "numeric_param ?q = Inr 500" using numeric_number_param [of 500] by simp
  have close: "close_to (1 / 50) ?q 500" by (rule close_numeric_number) simp
  have stock: "store_stock two_stores ''oil'' ''main'' = 4800" "store_stock two_stores ''oil'' ''cnc'' = 0"
    by (simp_all add: store_stock_def stock_locations_def consumable_balance_def consumable_moves_def two_stores_def sample_bin_def sample_defs)
  obtain i db1 where ins: "insert_operation sample_env nobody Stock_Transfer ''oil'' ''main'' (Some ''cnc'') ?q None two_stores = Inr (i, db1)"
    and same: "db_locations db1 = db_locations two_stores" "db_movements db1 = db_movements two_stores"
    by (simp add: insert_operation_def n nobody_def generate_id_def)
  have "distinct (map sl_id (db_locations db1))" "stock_nonneg db1"
    using two_stores_inv nonneg_cong [OF same(2)] by (simp_all add: same stock_inv_def issue_wf_def)
  from write_debits_exact [OF close _ _ _ this] obtain db2
    where deb: "write_debits sample_env nobody ''oil'' Move_Out i ?q sample_main (Some sample_branch) db1 = Inr db2"
    using debit_movements_cong(2) [OF same] stock by (simp add: sample_main_def)
  have "\<exists>res. transfer_quantity sample_env nobody sample_transfer two_stores = Inr res"
    using ins deb pos stores item place n
    by (simp add: transfer_quantity_def sample_transfer_def store_transfer_request_def given_request_def nobody_def crosses_main_def
      receiving_place_def sample_main_def sample_branch_def insert_movement_def quantity_movement_def)
  then obtain operation db' where run: "transfer_quantity sample_env nobody sample_transfer two_stores = Inr (operation, db')" by auto
  have whole: "whole_quantity (ti_quantity sample_transfer)" unfolding whole_quantity_def
    by (intro exI [of _ 500]) (simp add: sample_transfer_def)
  from transfer_conserves_stock [OF two_stores_inv whole run] obtain k source destination where
    k: "ti_quantity sample_transfer = numeric_number k" "0 < k"
    and found: "find_store two_stores (ti_source sample_transfer) = Inr source"
      "find_store two_stores (ti_destination sample_transfer) = Inr destination"
    and bound: "k \<le> store_stock two_stores (ti_item sample_transfer) (sa_id source)"
    and moved: "\<forall>item s. store_stock db' item s = store_stock two_stores item s
        + (if item \<noteq> ti_item sample_transfer then 0 else if s = sa_id source then - k else if s = sa_id destination then k else 0)"
    by blast
  have ends: "source = sample_main" "destination = sample_branch" using found stores by (simp_all add: sample_transfer_def)
  have "k \<le> 4800" using bound stock by (simp add: ends sample_transfer_def sample_main_def)
  then have "k = 500" using n k numeric_number_param [of k] by (simp add: sample_transfer_def)
  then have "store_stock db' ''oil'' ''main'' = 4300" "store_stock db' ''oil'' ''cnc'' = 500"
    using moved stock by (simp_all add: ends sample_transfer_def sample_main_def sample_branch_def)
  then show ?thesis using run by blast
qed

end
