(* ===== verification/Spec2Isabelle.thy ===== *)
theory Spec2Isabelle
  imports Production_Session Production_Breaks Production_Floors Planning_Rules Planning_Queue Maintenance_Requests Refresh_Worker Pricing Dashboard_Delivery Access_Control Design Quality_Report PG_Numeric Store_Stock Store_Transfers Store_Ledger Store_Reachable Store_Guarantees
begin

text \<open>
  \<^bold>\<open>The MRMPL dashboard.\<close> A manufacturing application on PostgreSQL: a web application
  (\<^verbatim>\<open>apps/web\<close>), repositories and domain logic (\<^verbatim>\<open>packages/db\<close>), a durable worker (\<^verbatim>\<open>packages/runtime\<close>).
  The floor enters production sessions, breaks, rejections and statuses; the planner reads
  these entries together with orders, routes, masters and decisions, simulates the machines
  and publishes a dashboard; a change of data queues a rebuild, a worker runs the planner and
  publishes the next version, and Redis tells the browsers. Beside it stand the store, the maintenance
  requests, the quality report, prices and designs of the commercial modules, and access rights.

  \<^bold>\<open>The language.\<close>
  \<^item> \<open>JS_Prelude\<close>: results (\<open>Inl\<close> is a thrown error), strings, maps in insertion order, the stable sort
    with a comparator and two contracts as locales, \<open>comparator\<close> and \<open>invariant_machine\<close> /
    \<open>monotone_machine\<close>, interpreted on the program's own comparators and step functions.
  \<^item> \<open>JS_Number\<close>: binary64 numbers, every operation rounded; exactness on integers and a total order
    on the values that are not NaN (locale \<open>partial_comparison\<close>).
  \<^item> \<open>JS_Date\<close>: proleptic calendar, ISO dates, UTC days of the week and the zone of the plant.
  \<^item> \<open>JS_Value\<close>: values of several types, number to text and text to number, truth.

  \<^bold>\<open>The floor\<close> (\<^verbatim>\<open>packages/db/src\<close>).
  \<^item> \<open>Production_Session\<close>: \<^verbatim>\<open>production-session-domain.ts\<close>; shifts, references, outputs by counter and by weight.
  \<^item> \<open>Production_Breaks\<close>: \<^verbatim>\<open>production-breaks.ts\<close> and the working minutes of material movement.
  \<^item> \<open>Production_Floors\<close>: \<^verbatim>\<open>production-floors.ts\<close>; the floors, the names and codes they are recognised by.

  \<^bold>\<open>The planner\<close> (\<^verbatim>\<open>planning-rules.ts\<close>, \<^verbatim>\<open>legacy-dashboard-analysis.ts\<close>). A definition has the name of the function
  of the code in lower case; \<open>js_host\<close> holds what the host decides (native date parsing, collation,
  zone, clock).
  \<^item> \<open>Planning_Rules\<close>: priorities, families, setups and calendar exceptions.
  \<^item> \<open>Planning_Rows\<close>: cells and dates of imported rows.
  \<^item> \<open>Planning_Entries\<close>: entries that replace one another, keys, the one active status of a machine.
  \<^item> \<open>Planning_Calendar\<close>: working days and the finish of a production run. The loops of the code have
    guards (5000 days forward, 1000 working days, 370 days back), which are the fuel of the model.
  \<^item> \<open>Machine_Unavailable\<close>: windows, the delay past them (guard 20), the split of an interrupted setup.
  \<^item> \<open>Planning_Capacity\<close>: machines of a setup and the buffer stock between setups. Its search for a date
    has no guard in the code: it is a partial function, and its termination is a theorem.
  \<^item> \<open>Planning_Queue\<close>: the order of a machine's queue, the next row, stopped rows.

  \<^bold>\<open>State machines.\<close>
  \<^item> \<open>Maintenance_Requests\<close>: \<^verbatim>\<open>maintenance-request-domain.ts\<close>, \<^verbatim>\<open>maintenance-requests.ts\<close>. The tables are a
    record; an operation is one transaction, a function to the next store or the error.
    \<open>reachable_store\<close> is what they lead to.
  \<^item> \<open>Refresh_Worker\<close>: \<^verbatim>\<open>durable-refresh-worker.ts\<close>, \<^verbatim>\<open>dashboard-refresh-queue.ts\<close>, the version script of
    \<^verbatim>\<open>redis-acceleration.ts\<close>. The step relation interleaves workers, lets them crash and Redis lose
    its data. A rebuild also prunes the read models to the last two (\<^verbatim>\<open>derived.prune_dashboard_history\<close>).

  \<^item> \<open>Dashboard_Delivery\<close>: \<^verbatim>\<open>apps/web/lib/dashboard-delivery-state.ts\<close>; the reducer of the browser, its requests
    in flight, the delay to the next poll and what the hook of \<^verbatim>\<open>use-dashboard-delivery.ts\<close> does when it is due. With \<open>Refresh_Worker\<close> it gives both ends of a version's way.
  \<^item> \<open>Access_Control\<close>: \<^verbatim>\<open>authorization.ts\<close> and \<^verbatim>\<open>access-administration.ts\<close> under \<^verbatim>\<open>packages/db\<close>, and the service of that
    name under \<^verbatim>\<open>apps/web/lib/auth\<close>. The capability query, and the transactions that change accounts,
    roles, overrides and employee links with their audit; better-auth is a parameter.
    Its creation and its removal of a user may fail, and then an account may stay behind.

  \<^bold>\<open>The store\<close> (\<^verbatim>\<open>store.ts\<close>, \<^verbatim>\<open>department-stores.ts\<close>, \<^verbatim>\<open>store-storage-locations.ts\<close>, \<^verbatim>\<open>store-warranty.ts\<close>). Quantities are columns
  \<open>numeric(18,3)\<close>: integers of thousandths in the database, binary64 in the code.
  \<^item> \<open>PG_Numeric\<close>: the text PostgreSQL sends, read as a number, and a number sent to a column; up to \<open>10 ^ 14\<close>
    thousandths a value is read and written back unchanged and sums stay within a quarter of a thousandth.
  \<^item> \<open>Store_Stock\<close>: receipts, requests, issues and cancellations, one function per transaction over the
    tables (\<open>store_db\<close>), with the check constraints and the trigger against negative balances; then the
    exact effect of an issue.
  \<^item> \<open>Store_Transfers\<close>: \<^verbatim>\<open>department-stores.ts\<close>; transfers of quantities and of units between stores, consumption,
    moves, losses and the racks of units, with the check of \<^verbatim>\<open>tooling-availability.ts\<close>.
  \<^item> \<open>Store_Ledger\<close>: the invariant that the stock movements, transfers and handovers agree with the
    documents, preserved by receipts, requests, issues and cancellations.
  \<^item> \<open>Store_Reachable\<close>: the effect of transfers, consumptions, hand-overs, moves and losses, which keep the
    invariant, and \<open>store_reachable\<close>, the states the transactions lead to.
  \<^item> \<open>Store_Guarantees\<close>: what follows for the store, and an exact remainder that binary64 loses.
    The code accepts quantities of more than three decimals, which stock and request round differently; the properties
    are about quantities of at most three.

  \<^bold>\<open>Prices, designs and quality.\<close>
  \<^item> \<open>Pricing\<close>: \<^verbatim>\<open>pricing-calculation.ts\<close>, with the error of a rounding and the error of a target price.
  \<^item> \<open>Design\<close>: \<^verbatim>\<open>commercial-design-domain.ts\<close> and \<^verbatim>\<open>design-control-domain.ts\<close>; bills of material, the weight
    of an assembly, the drawings and fields a design lacks, its revisions and the impact of a change.
  \<^item> \<open>Quality_Report\<close>: \<^verbatim>\<open>quality-report-domain.ts\<close>; the hours a machine ran on a day and the checks it owes.

  \<^bold>\<open>Assumptions.\<close> Strings are compared by code unit and white space and case are those of ASCII. The two
  zeros of binary64 are one. Comparators that are not total preorders (the code has some, with
  NaN dates) are sorted by insertion from the end; a theorem that speaks of sortedness names the
  comparator it holds for. A transaction is atomic; a database gives fresh identifiers.

  \<^bold>\<open>Not modelled.\<close> Components of the web pages (rendering and browser state), SQL queries that only read,
  file storage, the Redis and Google clients, telemetry, tests, scripts and migrations. The
  remaining repositories are named in the manifest with the reason.
\<close>

end
